(* ===== verification/Prelude.thy ===== *)
theory Prelude
  imports Complex_Main "HOL-Library.Word"
begin

text \<open>
  Shared vocabulary of the development: machine integers and byte strings, the C++ exceptions
  the library throws, the type of a C++ member function, one combinator for the \<open>while\<close> loops,
  and the weakest-precondition calculus in which the component theories state and prove what
  their functions do.

  A member function with argument objects is a value of type \<open>('s, 'a) prog\<close>: from the state it
  runs in, either \<open>None\<close> (it never returns), or \<open>Some (Inl e, t)\<close> (it throws \<open>e\<close>, having left
  the state \<open>t\<close>) or \<open>Some (Inr x, t)\<close> (it returns \<open>x\<close>).
\<close>

unbundle bit_operations_syntax

section \<open>Machine integers and byte strings\<close>

type_synonym u8 = "8 word"
type_synonym u16 = "16 word"
type_synonym u32 = "32 word"
type_synonym u64 = "64 word"
type_synonym bytes = "u8 list"

text \<open>A \<open>char\<close> of a C++ string and the \<open>uint8_t\<close> with the same bits.\<close>

definition byte_of_char :: "char \<Rightarrow> u8" where
  "byte_of_char c = of_nat (of_char c)"

definition char_of_byte :: "u8 \<Rightarrow> char" where
  "char_of_byte b = char_of (unat b)"

definition bytes_of_string :: "string \<Rightarrow> bytes" where
  "bytes_of_string s = map byte_of_char s"

definition string_of_bytes :: "bytes \<Rightarrow> string" where
  "string_of_bytes bs = map char_of_byte bs"

lemma unat_byte_of_char [simp]: "unat (byte_of_char c) = of_char c"
proof -
  have "(of_char c :: nat) < 256" by simp
  then show ?thesis by (simp add: byte_of_char_def unat_of_nat)
qed

lemma char_of_byte_of_char [simp]: "char_of_byte (byte_of_char c) = c"
  by (simp add: char_of_byte_def)

lemma byte_of_char_of_byte [simp]: "byte_of_char (char_of_byte b) = b"
proof -
  have "unat b < 256" using unsigned_less [of b] by simp
  then show ?thesis by (simp add: byte_of_char_def char_of_byte_def)
qed

lemma byte_of_char_eq_iff [simp]: "byte_of_char c = byte_of_char d \<longleftrightarrow> c = d"
  by (metis char_of_byte_of_char)

lemma char_of_byte_eq_iff [simp]: "char_of_byte b = char_of_byte c \<longleftrightarrow> b = c"
  by (metis byte_of_char_of_byte)

lemma string_of_bytes_of_string [simp]: "string_of_bytes (bytes_of_string s) = s"
  by (simp add: string_of_bytes_def bytes_of_string_def comp_def)

lemma bytes_of_string_of_bytes [simp]: "bytes_of_string (string_of_bytes b) = b"
  by (simp add: string_of_bytes_def bytes_of_string_def comp_def)

lemma bytes_of_string_simps [simp]:
  "bytes_of_string [] = []"
  "bytes_of_string (c # s) = byte_of_char c # bytes_of_string s"
  "bytes_of_string (s @ t) = bytes_of_string s @ bytes_of_string t"
  by (simp_all add: bytes_of_string_def)

lemma string_of_bytes_simps [simp]:
  "string_of_bytes [] = []"
  "string_of_bytes (b # s) = char_of_byte b # string_of_bytes s"
  "string_of_bytes (s' @ t) = string_of_bytes s' @ string_of_bytes t"
  by (simp_all add: string_of_bytes_def)

lemma bytes_string_Nil_iff [simp]:
  "bytes_of_string s = [] \<longleftrightarrow> s = []" "string_of_bytes b = [] \<longleftrightarrow> b = []"
  by (simp_all add: bytes_of_string_def string_of_bytes_def)

lemma length_bytes_of_string [simp]: "length (bytes_of_string s) = length s"
  by (simp add: bytes_of_string_def)

lemma length_string_of_bytes [simp]: "length (string_of_bytes s) = length s"
  by (simp add: string_of_bytes_def)

section \<open>Exceptions and programs\<close>

text \<open>
  The exceptions the library throws, by their C++ class; all of them derive from
  \<open>std::exception\<close>. \<open>RecvError\<close> (WebSocket.h) carries the close code sent to the peer.
\<close>

datatype exn =
    RuntimeError string
  | InvalidArgument string
  | RecvError string u16
  | JsonError string

fun what :: "exn \<Rightarrow> string" where
  "what (RuntimeError m) = m"
| "what (InvalidArgument m) = m"
| "what (RecvError m c) = m"
| "what (JsonError m) = m"

type_synonym ('s, 'a) prog = "'s \<Rightarrow> ((exn + 'a) \<times> 's) option"

definition returnM :: "'a \<Rightarrow> ('s, 'a) prog" where
  "returnM x = (\<lambda>s. Some (Inr x, s))"

definition throwM :: "exn \<Rightarrow> ('s, 'a) prog" where
  "throwM e = (\<lambda>s. Some (Inl e, s))"

definition bindM :: "('s, 'a) prog \<Rightarrow> ('a \<Rightarrow> ('s, 'b) prog) \<Rightarrow> ('s, 'b) prog" where
  "bindM m f = (\<lambda>s. case m s of
       None \<Rightarrow> None
     | Some (r, t) \<Rightarrow> (case r of Inl e \<Rightarrow> Some (Inl e, t) | Inr x \<Rightarrow> f x t))"

definition getsM :: "('s \<Rightarrow> 'a) \<Rightarrow> ('s, 'a) prog" where
  "getsM f = (\<lambda>s. Some (Inr (f s), s))"

definition modifyM :: "('s \<Rightarrow> 's) \<Rightarrow> ('s, unit) prog" where
  "modifyM f = (\<lambda>s. Some (Inr (), f s))"

text \<open>\<open>try { m } catch (...) { h }\<close>: the handler sees the state the throw left.\<close>

definition catchM :: "('s, 'a) prog \<Rightarrow> (exn \<Rightarrow> ('s, 'a) prog) \<Rightarrow> ('s, 'a) prog" where
  "catchM m h = (\<lambda>s. case m s of
       None \<Rightarrow> None
     | Some (r, t) \<Rightarrow> (case r of Inl e \<Rightarrow> h e t | Inr x \<Rightarrow> Some (Inr x, t)))"

definition whenM :: "bool \<Rightarrow> ('s, unit) prog \<Rightarrow> ('s, unit) prog" where
  "whenM c m = (if c then m else returnM ())"

text \<open>The statements of a block, one after the other.\<close>

fun blockM :: "('s, unit) prog list \<Rightarrow> ('s, unit) prog" where
  "blockM [] = returnM ()"
| "blockM [m] = m"
| "blockM (m # n # ms) = bindM m (\<lambda>_. blockM (n # ms))"

text \<open>A program of a member object, run on the part of the state that holds the object.\<close>

definition zoomM :: "('s \<Rightarrow> 'w) \<Rightarrow> ('w \<Rightarrow> 's \<Rightarrow> 's) \<Rightarrow> ('w, 'a) prog \<Rightarrow> ('s, 'a) prog" where
  "zoomM g p m = (\<lambda>s. case m (g s) of None \<Rightarrow> None | Some (r, w) \<Rightarrow> Some (r, p w s))"

text \<open>
  A \<open>while\<close> loop over local variables \<open>a\<close>: one round either goes on with new locals (\<open>Inl\<close>)
  or leaves the loop with a value (\<open>Inr\<close>). A loop that never leaves is \<open>None\<close>.
\<close>

partial_function (option) loopM :: "('a \<Rightarrow> ('s, 'a + 'b) prog) \<Rightarrow> 'a \<Rightarrow> ('s, 'b) prog" where
  "loopM body a s = (case body a s of
       None \<Rightarrow> None
     | Some (r, t) \<Rightarrow> (case r of
           Inl e \<Rightarrow> Some (Inl e, t)
         | Inr n \<Rightarrow> (case n of Inl a' \<Rightarrow> loopM body a' t | Inr b \<Rightarrow> Some (Inr b, t))))"

text \<open>The equations by which programs evaluate on a concrete state.\<close>

named_theorems run

lemma run_simps [run]:
  "returnM x s = Some (Inr x, s)"
  "throwM e s = Some (Inl e, s)"
  "getsM f s = Some (Inr (f s), s)"
  "modifyM g s = Some (Inr (), g s)"
  "bindM m k s = (case m s of None \<Rightarrow> None
     | Some (r, t) \<Rightarrow> (case r of Inl e \<Rightarrow> Some (Inl e, t) | Inr y \<Rightarrow> k y t))"
  "catchM m' h s = (case m' s of None \<Rightarrow> None
     | Some (r, t) \<Rightarrow> (case r of Inl e \<Rightarrow> h e t | Inr y \<Rightarrow> Some (Inr y, t)))"
  "whenM c n s = (if c then n s else Some (Inr (), s))"
  "zoomM gt pt w s = (case w (gt s) of None \<Rightarrow> None | Some (r, v) \<Rightarrow> Some (r, pt v s))"
  by (simp_all add: returnM_def throwM_def getsM_def modifyM_def bindM_def catchM_def whenM_def
      zoomM_def)

section \<open>The weakest-precondition calculus\<close>

text \<open>
  \<open>wp T m Q E s\<close>: run from \<open>s\<close>, \<open>m\<close> either returns with \<open>Q\<close>, or throws with \<open>E\<close>, or does not
  return and \<open>T\<close> holds. \<open>wp False\<close> is total correctness, \<open>wp True\<close> partial correctness; the
  rules for everything but loops are the same equations for both.
\<close>

definition wp :: "bool \<Rightarrow> ('s, 'a) prog \<Rightarrow> ('a \<Rightarrow> 's \<Rightarrow> bool) \<Rightarrow> (exn \<Rightarrow> 's \<Rightarrow> bool) \<Rightarrow> 's \<Rightarrow> bool" where
  "wp T m Q E s = (case m s of
       None \<Rightarrow> T
     | Some (r, t) \<Rightarrow> (case r of Inl e \<Rightarrow> E e t | Inr x \<Rightarrow> Q x t))"

named_theorems wp_rules

lemma wp_basic [wp_rules]:
  "wp T (returnM x) Q E s = Q x s"
  "wp T (throwM e) Q E s = E e s"
  "wp T (getsM f) Q E s = Q (f s) s"
  "wp T (modifyM g) Q' E s = Q' () (g s)"
  "wp T (whenM c m) Q' E s = (if c then wp T m Q' E s else Q' () s)"
  by (simp_all add: wp_def run)

lemma wp_bind [wp_rules]: "wp T (bindM m f) Q E s = wp T m (\<lambda>x. wp T (f x) Q E) E s"
  by (simp add: wp_def run split: option.split prod.split sum.split)

lemma wp_catch [wp_rules]: "wp T (catchM m h) Q E s = wp T m Q (\<lambda>e. wp T (h e) Q E) s"
  by (simp add: wp_def run split: option.split prod.split sum.split)

lemma wp_zoom [wp_rules]:
  "wp T (zoomM g p m) Q E s = wp T m (\<lambda>x w. Q x (p w s)) (\<lambda>e w. E e (p w s)) (g s)"
  by (simp add: wp_def run split: option.split prod.split sum.split)

lemma wp_block [wp_rules]:
  "wp T (blockM []) Q E s = Q () s"
  "wp T (blockM [m]) Q E s = wp T m Q E s"
  "wp T (blockM (m # n # ms)) Q E s = wp T m (\<lambda>_. wp T (blockM (n # ms)) Q E) E s"
  by (simp_all add: wp_bind wp_basic)

lemma wp_if [wp_rules]:
  "wp T (if c then m else n) Q E s = (if c then wp T m Q E s else wp T n Q E s)"
  by simp

text \<open>The same equations without the state, for programs under a binder.\<close>

lemma wp_ext:
  "wp T (bindM m f) Q E = wp T m (\<lambda>x. wp T (f x) Q E) E"
  "wp T (returnM y) Q' E' = Q' y"
  "wp T (throwM e) Q' E' = E' e"
  by (simp_all add: fun_eq_iff wp_bind wp_basic)

lemma wp_mono:
  assumes "wp T m Q E s"
    and "\<And>x t. Q x t \<Longrightarrow> Q' x t" and "\<And>e t. E e t \<Longrightarrow> E' e t"
  shows "wp T m Q' E' s"
  using assms by (auto simp: wp_def split: option.splits prod.splits sum.splits)

lemma wp_conj:
  assumes "wp T m Q E s" and "wp T m Q' E' s"
  shows "wp T m (\<lambda>x t. Q x t \<and> Q' x t) (\<lambda>e t. E e t \<and> E' e t) s"
  using assms by (auto simp: wp_def split: option.splits prod.splits sum.splits)

lemma wp_total_partial: "wp False m Q E s \<Longrightarrow> wp True m Q E s"
  by (auto simp: wp_def split: option.splits)

lemma wp_totalE:
  assumes "wp False m Q E s"
  obtains (returns) x t where "m s = Some (Inr x, t)" and "Q x t"
    | (throws) e t where "m s = Some (Inl e, t)" and "E e t"
  using assms by (auto simp: wp_def split: option.splits prod.splits sum.splits)

lemma wp_returns:
  assumes "wp False m Q (\<lambda>_ _. False) s"
  shows "\<exists>x t. m s = Some (Inr x, t) \<and> Q x t"
  using assms by (auto elim: wp_totalE)

lemma wp_SomeI:
  assumes "m s = Some (Inr x, t)" and "Q x t"
  shows "wp T m Q E s"
  using assms by (simp add: wp_def)

lemma wp_True_D:
  assumes "wp True m Q E s"
  shows "m s = Some (Inr x, t) \<Longrightarrow> Q x t" and "m s = Some (Inl e, t) \<Longrightarrow> E e t"
  using assms by (simp_all add: wp_def)

text \<open>Loops: an invariant for partial correctness, a measure as well for total correctness.\<close>

lemma wp_loop_unfold:
  "wp T (loopM body a) Q E s =
     wp T (body a) (\<lambda>r t. case r of Inl a' \<Rightarrow> wp T (loopM body a') Q E t | Inr b \<Rightarrow> Q b t) E s"
  by (simp add: wp_def loopM.simps [of body a s] split: option.split prod.split sum.split)

lemma wp_loop_total:
  fixes I :: "'a \<Rightarrow> 's \<Rightarrow> bool" and \<mu> :: "'a \<Rightarrow> 's \<Rightarrow> nat"
  assumes start: "I a s"
    and step: "\<And>a s. I a s \<Longrightarrow>
      wp T (body a) (\<lambda>r t. case r of Inl a' \<Rightarrow> I a' t \<and> \<mu> a' t < \<mu> a s | Inr b \<Rightarrow> Q b t) E s"
  shows "wp T (loopM body a) Q E s"
  using start
proof (induction "\<mu> a s" arbitrary: a s rule: less_induct)
  case less
  show ?case
    unfolding wp_loop_unfold [of T body a]
    by (rule wp_mono [OF step [OF less.prems]]) (auto split: sum.splits intro: less.hyps)
qed

lemma wp_loop_partial:
  assumes start: "I a s"
    and step: "\<And>a s. I a s \<Longrightarrow>
      wp True (body a) (\<lambda>r t. case r of Inl a' \<Rightarrow> I a' t | Inr b \<Rightarrow> Q b t) E s"
  shows "wp True (loopM body a) Q E s"
proof (cases "loopM body a s")
  case None
  then show ?thesis by (simp add: wp_def)
next
  case (Some y)
  have "I a s \<longrightarrow> (case fst y of Inl e \<Rightarrow> E e (snd y) | Inr b \<Rightarrow> Q b (snd y))"
  proof (rule loopM.raw_induct
      [where P = "\<lambda>body' a s y. body' = body \<longrightarrow> I a s \<longrightarrow>
          (case fst y of Inl e \<Rightarrow> E e (snd y) | Inr b \<Rightarrow> Q b (snd y))",
       OF _ Some, THEN mp, OF _ refl])
    fix rec body' a s y
    assume IH: "\<And>b a s y. rec b a s = Some y \<Longrightarrow> b = body \<longrightarrow> I a s \<longrightarrow>
          (case fst y of Inl e \<Rightarrow> E e (snd y) | Inr b \<Rightarrow> Q b (snd y))"
      and eq: "(case body' a s of None \<Rightarrow> None
         | Some (r, t) \<Rightarrow> (case r of Inl e \<Rightarrow> Some (Inl e, t)
             | Inr n \<Rightarrow> (case n of Inl a' \<Rightarrow> rec body' a' t | Inr b \<Rightarrow> Some (Inr b, t)))) = Some y"
    show "body' = body \<longrightarrow> I a s \<longrightarrow>
        (case fst y of Inl e \<Rightarrow> E e (snd y) | Inr b \<Rightarrow> Q b (snd y))"
    proof (intro impI)
      assume b: "body' = body" and i: "I a s"
      show "case fst y of Inl e \<Rightarrow> E e (snd y) | Inr b \<Rightarrow> Q b (snd y)"
      proof -
        obtain r t where bs: "body a s = Some (r, t)"
          using eq b by (cases "body a s") auto
        note st = step [OF i, unfolded wp_def bs, simplified]
        show ?thesis
        proof (cases r)
          case (Inl e)
          with eq b bs st show ?thesis by auto
        next
          case (Inr n)
          show ?thesis
          proof (cases n)
            case (Inl a')
            with eq b bs Inr st have "rec body a' t = Some y" and "I a' t" by simp_all
            with IH show ?thesis by blast
          next
            case Inr': (Inr v)
            with eq b bs Inr st show ?thesis by auto
          qed
        qed
      qed
    qed
  qed
  then show ?thesis using start Some
    by (auto simp: wp_def split: prod.splits sum.splits)
qed

end
