(* ===== verification/Endian.thy ===== *)
theory Endian
  imports Prelude
begin

text \<open>
  Integers in memory and on the wire. The hosts rcom runs on are little endian: an integer
  object holds its least significant byte first, and \<open>htons\<close>, \<open>ntohs\<close>, \<open>htonll\<close> and \<open>ntohll\<close>
  (WebSocket.h defines the last two as \<open>htobe64\<close> and \<open>be64toh\<close>) reverse the bytes.
  The lemmas say that storing and loading are inverse and that the conversions are involutions,
  so that what one side writes in network order the other side reads back.
\<close>

text \<open>The \<open>n\<close> bytes of the object representation of \<open>w\<close>.\<close>

definition store_le :: "nat \<Rightarrow> 'a::len word \<Rightarrow> bytes" where
  "store_le n w = map (\<lambda>i. ucast (drop_bit (8 * i) w)) [0..<n]"

text \<open>The integer whose object representation is \<open>bs\<close>.\<close>

primrec load_le :: "bytes \<Rightarrow> 'a::len word" where
  "load_le [] = 0"
| "load_le (b # bs) = ucast b OR push_bit 8 (load_le bs)"

definition htons :: "u16 \<Rightarrow> u16" where
  "htons w = load_le (rev (store_le 2 w))"

definition ntohs :: "u16 \<Rightarrow> u16" where
  "ntohs w = load_le (rev (store_le 2 w))"

definition htonl :: "u32 \<Rightarrow> u32" where
  "htonl w = load_le (rev (store_le 4 w))"

definition htonll :: "u64 \<Rightarrow> u64" where
  "htonll w = load_le (rev (store_le 8 w))"

definition ntohll :: "u64 \<Rightarrow> u64" where
  "ntohll w = load_le (rev (store_le 8 w))"

lemma length_store_le [simp]: "length (store_le n w) = n"
  by (simp add: store_le_def)

lemma nth_store_le [simp]: "i < n \<Longrightarrow> store_le n w ! i = ucast (drop_bit (8 * i) w)"
  by (simp add: store_le_def)

lemma bit_load_le:
  "bit (load_le bs :: 'a::len word) n \<longleftrightarrow>
     n < LENGTH('a) \<and> n div 8 < length bs \<and> bit (bs ! (n div 8)) (n mod 8)"
proof (induction bs arbitrary: n)
  case Nil
  then show ?case by simp
next
  case (Cons b bs)
  show ?case
  proof (cases "n < 8")
    case True
    then show ?thesis by (auto simp: bit_simps)
  next
    case False
    then obtain m where m: "n = m + 8" by (metis add.commute le_Suc_ex not_less)
    have b: "\<not> bit b (m + 8)" by (rule impossible_bit) simp
    show ?thesis
      unfolding m using Cons.IH [of m] b by (auto simp: bit_simps)
  qed
qed

lemma store_load_le:
  assumes "8 * length bs \<le> LENGTH('a::len)"
  shows "store_le (length bs) (load_le bs :: 'a word) = bs"
proof (rule nth_equalityI)
  fix i assume "i < length (store_le (length bs) (load_le bs :: 'a word))"
  then have i: "i < length bs" by simp
  have "bit (ucast (drop_bit (8 * i) (load_le bs :: 'a word)) :: u8) n \<longleftrightarrow> bit (bs ! i) n" for n
  proof (cases "n < 8")
    case True
    moreover from True i assms have "8 * i + n < LENGTH('a)" by linarith
    ultimately show ?thesis using i by (simp add: bit_simps bit_load_le)
  next
    case False
    then have "\<not> bit (bs ! i) n" by (intro impossible_bit) simp
    with False show ?thesis by (simp add: bit_simps)
  qed
  then show "store_le (length bs) (load_le bs :: 'a word) ! i = bs ! i"
    using i by (simp add: bit_eq_iff)
qed simp

lemma load_store_le:
  assumes "LENGTH('a::len) = 8 * n"
  shows "load_le (store_le n (w :: 'a word)) = w"
proof (rule bit_eqI)
  fix k assume "possible_bit TYPE('a word) k"
  then have k: "k < 8 * n" by (simp add: assms)
  moreover have "8 * (k div 8) + k mod 8 = k" by simp
  ultimately show "bit (load_le (store_le n w) :: 'a word) k \<longleftrightarrow> bit w k"
    by (simp add: bit_load_le bit_simps assms div_less_iff_less_mult mult.commute)
qed

lemma store_htons: "store_le 2 (htons w) = rev (store_le 2 w)"
  using store_load_le [of "rev (store_le 2 w)", where 'a = 16] by (simp add: htons_def)

lemma store_htonll: "store_le 8 (htonll w) = rev (store_le 8 w)"
  using store_load_le [of "rev (store_le 8 w)", where 'a = 64] by (simp add: htonll_def)

lemma ntohs_htons [simp]: "ntohs (htons w) = w"
  by (simp add: ntohs_def store_htons load_store_le)

lemma htons_ntohs [simp]: "htons (ntohs w) = w"
  using ntohs_htons [of w] by (simp add: ntohs_def htons_def)

lemma ntohll_htonll [simp]: "ntohll (htonll w) = w"
  by (simp add: ntohll_def store_htonll load_store_le)

text \<open>The bytes that the code picks out of a converted integer with masks and shifts.\<close>

lemma bytes_of_u16:
  fixes w :: u16
  shows "ucast (w AND 0x00ff) = (ucast w :: u8)"
    and "ucast (drop_bit 8 (w AND 0xff00)) = (ucast (drop_bit 8 w) :: u8)"
proof -
  have m: "0x00ff = (mask 8 :: u16)" "0xff00 = (push_bit 8 (mask 8) :: u16)"
    by (simp_all add: mask_eq_exp_minus_1 push_bit_eq_mult)
  show "ucast (w AND 0x00ff) = (ucast w :: u8)"
    unfolding m by (rule bit_eqI) (auto simp: bit_simps)
  show "ucast (drop_bit 8 (w AND 0xff00)) = (ucast (drop_bit 8 w) :: u8)"
    unfolding m by (rule bit_eqI) (auto simp: bit_simps)
qed

lemma byte_of_u64:
  fixes w :: u64
  assumes "k \<le> 56"
  shows "ucast (drop_bit k (w AND push_bit k 0xff)) = (ucast (drop_bit k w) :: u8)"
proof -
  have m: "0xff = (mask 8 :: u64)" by (simp add: mask_eq_exp_minus_1)
  show ?thesis using assms unfolding m by (intro bit_eqI) (auto simp: bit_simps)
qed

lemma upt_bytes: "[0..<2] = [0, 1::nat]" "[0..<4] = [0, 1, 2, 3::nat]"
  "[0..<8] = [0, 1, 2, 3, 4, 5, 6, 7::nat]"
  by (simp_all add: upt_rec)

end
