(* ===== verification/Interfaces.thy ===== *)
theory Interfaces
  imports Endian
begin

text \<open>
  The vocabulary of the websocket protocol as the headers declare it (opcodes, close codes,
  statuses, the frame header) and the abstract classes through which the components call each
  other: an object of an abstract class is a record of its virtual member functions, over the
  state those functions work on. The operating system is such an object too (\<open>ILinux\<close>): the
  model never says what it does, theorems that rely on its documented behaviour name it.
\<close>

section \<open>Constants of the websocket protocol\<close>

definition kContinutationOpcode :: u8 where "kContinutationOpcode = 0"
definition kTextOpcode :: u8 where "kTextOpcode = 1"
definition kBinaryOpcode :: u8 where "kBinaryOpcode = 2"
definition kCloseOpcode :: u8 where "kCloseOpcode = 8"
definition kPingOpcode :: u8 where "kPingOpcode = 9"
definition kPongOpcode :: u8 where "kPongOpcode = 10"

lemmas opcode_defs = kContinutationOpcode_def kTextOpcode_def kBinaryOpcode_def
  kCloseOpcode_def kPingOpcode_def kPongOpcode_def

text \<open>
  A \<open>CloseCode\<close> that came from the peer is an arbitrary 16 bit number cast to the enumeration,
  so the type is the number.
\<close>

type_synonym CloseCode = u16

definition kCloseNormal :: CloseCode where "kCloseNormal = 1000"
definition kCloseGoingAway :: CloseCode where "kCloseGoingAway = 1001"
definition kCloseProtocolError :: CloseCode where "kCloseProtocolError = 1002"
definition kCloseUnhandledData :: CloseCode where "kCloseUnhandledData = 1003"
definition kCloseMissingCode :: CloseCode where "kCloseMissingCode = 1005"
definition kCloseUnexpected :: CloseCode where "kCloseUnexpected = 1006"
definition kCloseInvalidData :: CloseCode where "kCloseInvalidData = 1007"
definition kClosePolicyViolation :: CloseCode where "kClosePolicyViolation = 1008"
definition kCloseTooBig :: CloseCode where "kCloseTooBig = 1009"
definition kCloseMissingExtensions :: CloseCode where "kCloseMissingExtensions = 1010"
definition kCloseInternalError :: CloseCode where "kCloseInternalError = 1011"

lemmas close_code_defs = kCloseNormal_def kCloseGoingAway_def kCloseProtocolError_def
  kCloseUnhandledData_def kCloseMissingCode_def kCloseUnexpected_def kCloseInvalidData_def
  kClosePolicyViolation_def kCloseTooBig_def kCloseMissingExtensions_def kCloseInternalError_def

section \<open>Statuses and the frame header\<close>

datatype WaitStatus = kWaitOK | kWaitTimeout | kWaitError
datatype MessageType = kTextMessage | kBinaryMessage
datatype RecvStatus = kRecvError | kRecvClosed | kRecvTimeOut | kRecvText | kRecvBinary

record FrameHeader =
  fin :: bool
  opcode :: u8
  fmask :: bool
  flength :: u8

section \<open>The operating system\<close>

record sockaddr_in =
  sin_family :: u16
  sin_port :: u16
  sin_addr :: u32

text \<open>
  The system calls of \<open>ILinux\<close> the library uses, on a system state \<open>'k\<close>. A buffer the call
  fills is passed with what it holds and returned with what it then holds. \<open>recv\<close> and \<open>send\<close>
  take the flags; \<open>poll\<close> is for the one descriptor it is called with and returns its \<open>revents\<close>.
  \<open>raw_recv\<close> is the C function \<open>recv\<close> that \<open>BaseSocket::is_endpoint_connected\<close> calls directly.
\<close>

record 'k ILinux =
  lx_clock_gettime :: "('k, int \<times> int) prog"
  lx_clock_nanosleep :: "int \<Rightarrow> int \<Rightarrow> ('k, int) prog"
  lx_getrandom :: "bytes \<Rightarrow> ('k, int \<times> bytes) prog"
  lx_poll :: "int \<Rightarrow> u16 \<Rightarrow> int \<Rightarrow> ('k, int \<times> u16) prog"
  lx_socket :: "('k, int) prog"
  lx_connect :: "int \<Rightarrow> sockaddr_in \<Rightarrow> ('k, int) prog"
  lx_bind :: "int \<Rightarrow> sockaddr_in \<Rightarrow> ('k, int) prog"
  lx_listen :: "int \<Rightarrow> int \<Rightarrow> ('k, int) prog"
  lx_accept :: "int \<Rightarrow> ('k, int) prog"
  lx_getsockname :: "int \<Rightarrow> sockaddr_in \<Rightarrow> ('k, sockaddr_in) prog"
  lx_setsockopt_nodelay :: "int \<Rightarrow> int \<Rightarrow> ('k, int) prog"
  lx_shutdown :: "int \<Rightarrow> ('k, int) prog"
  lx_close :: "int \<Rightarrow> ('k, int) prog"
  lx_recv :: "int \<Rightarrow> bytes \<Rightarrow> int \<Rightarrow> ('k, int \<times> bytes) prog"
  lx_send :: "int \<Rightarrow> bytes \<Rightarrow> int \<Rightarrow> ('k, int) prog"
  lx_errno :: "('k, int) prog"
  lx_raw_recv :: "int \<Rightarrow> bytes \<Rightarrow> int \<Rightarrow> ('k, int \<times> bytes) prog"

section \<open>The abstract socket\<close>

text \<open>
  \<open>sock_read b n\<close> reads \<open>n\<close> bytes into the front of the buffer \<open>b\<close> and returns the buffer.
  A timeout is a number of seconds; the model computes with exact numbers where the code has
  \<open>double\<close>.
\<close>

record 'w ISocket =
  sock_close :: "('w, unit) prog"
  sock_is_connected :: "('w, bool) prog"
  sock_is_endpoint_connected :: "('w, bool) prog"
  sock_send :: "bytes \<Rightarrow> ('w, bool) prog"
  sock_read :: "bytes \<Rightarrow> nat \<Rightarrow> ('w, bool \<times> bytes) prog"
  sock_wait :: "rat \<Rightarrow> ('w, WaitStatus) prog"
  sock_turn_buffering_off :: "('w, unit) prog"
  sock_turn_buffering_on :: "('w, unit) prog"

end
