(* ===== verification/Util.thy ===== *)
theory Util
  imports Interfaces Sha1
begin

text \<open>
  util.cpp: the one-shot SHA-1, base64, the regular expressions for topics and for base64
  strings, and the clock.
\<close>

section \<open>SHA-1 of a string\<close>

text \<open>\<open>SHA1_CTX context{}\<close> zeroes the context.\<close>

definition SHA1 :: "bytes \<Rightarrow> bytes" where
  "SHA1 data =
     (let context = SHA1Init \<lparr>sha_state = replicate 5 0, sha_count = (0, 0), sha_buffer = replicate 64 0\<rparr>;
          context = SHA1Update context data
      in SHA1Final context)"

section \<open>Base64\<close>

definition base64_table :: string where
  "base64_table = ''ABCDEFGHIJKLMNOPQRSTUVWXYZabcdefghijklmnopqrstuvwxyz0123456789+/''"

definition base64_char :: "u32 \<Rightarrow> char" where
  "base64_char p = base64_table ! unat (p AND 0x3F)"

text \<open>The loop over the input, three bytes at a time; the last round may have one or two.\<close>

fun encode_base64 :: "bytes \<Rightarrow> string" where
  "encode_base64 [] = []"
| "encode_base64 [a] =
     (let p = push_bit 0x10 (ucast a) :: u32
      in [base64_char (drop_bit 18 p), base64_char (drop_bit 12 p), CHR ''='', CHR ''=''])"
| "encode_base64 [a, b] =
     (let p = push_bit 0x10 (ucast a) + push_bit 0x08 (ucast b) :: u32
      in [base64_char (drop_bit 18 p), base64_char (drop_bit 12 p), base64_char (drop_bit 6 p),
          CHR ''=''])"
| "encode_base64 (a # b # c # data) =
     (let p = push_bit 0x10 (ucast a) + push_bit 0x08 (ucast b) + ucast c :: u32
      in [base64_char (drop_bit 18 p), base64_char (drop_bit 12 p), base64_char (drop_bit 6 p),
          base64_char p] @ encode_base64 data)"

section \<open>Regular expressions\<close>

definition is_lower :: "char \<Rightarrow> bool" where
  "is_lower c \<longleftrightarrow> c \<in> set ''abcdefghijklmnopqrstuvwxyz''"

text \<open>\<open>[a-z][a-z-]{2,64}\<close>, matched against the whole string.\<close>

definition is_valid_name :: "string \<Rightarrow> bool" where
  "is_valid_name name = (case name of
       [] \<Rightarrow> False
     | c # cs \<Rightarrow> is_lower c \<and> 2 \<le> length cs \<and> length cs \<le> 64
         \<and> list_all (\<lambda>d. is_lower d \<or> d = CHR ''-'') cs)"

definition is_valid_topic :: "string \<Rightarrow> bool" where
  "is_valid_topic topic = is_valid_name topic"

text \<open>\<open>[a-zA-Z0-9+/]+[=]{0,2}\<close>, matched against the whole string.\<close>

definition is_base64_string :: "string \<Rightarrow> bool" where
  "is_base64_string s =
     (let body = takeWhile (\<lambda>c. c \<in> set base64_table) s;
          pad = dropWhile (\<lambda>c. c \<in> set base64_table) s
      in body \<noteq> [] \<and> length pad \<le> 2 \<and> list_all (\<lambda>c. c = CHR ''='') pad)"

section \<open>Time\<close>

text \<open>Seconds, as an exact number.\<close>

definition rcom_time :: "'w ILinux \<Rightarrow> ('w, rat) prog" where
  "rcom_time linux = bindM (lx_clock_gettime linux)
     (\<lambda>(tv_sec, tv_nsec). returnM (of_int tv_sec + of_int tv_nsec / 1000000000))"

definition EINTR :: int where "EINTR = 4"

definition rcom_sleep :: "'w ILinux \<Rightarrow> rat \<Rightarrow> ('w, unit) prog" where
  "rcom_sleep linux seconds =
     (let tv_sec = \<lfloor>seconds\<rfloor>;
          nsec = seconds - of_int tv_sec;
          tv_nsec = \<lfloor>nsec * 1000000000\<rfloor>
      in bindM (lx_clock_nanosleep linux tv_sec tv_nsec) (\<lambda>r.
         if r \<noteq> 0 then
           if r = EINTR then throwM (RuntimeError ''rcom_sleep: Interrupted'')
           else throwM (RuntimeError ''rcom_sleep: Failed'')
         else returnM ()))"

end
