(* ===== verification/WebSocket.thy ===== *)
theory WebSocket
  imports Util
begin

text \<open>
  WebSocket.cpp with its two subclasses ServerSideWebSocket.cpp and ClientSideWebSocket.cpp:
  the framing of RFC 6455, receiving with reassembly of fragments, the answers to control
  frames, the closing handshake, and sending short and long messages. The opening handshake is
  in the theory Handshake.

  The state of an object is the record \<open>WebSocket\<close>: the members of the class, those of the
  subclasses, the message buffer the caller passed to \<open>recv\<close> by reference, and the state of
  the socket and of the system beneath. What does not change is the record \<open>ws_env\<close>: the
  dynamic class, the socket and system objects, and what an uninitialised local array happens
  to hold. A pure virtual function is one definition that selects on the class. The mutex and
  the log are not modelled: a call is one step, and what it logs does not come back.
\<close>

section \<open>The object\<close>

datatype role = ServerSide | ClientSide

record 'w ws_env =
  ws_role :: role
  ws_socket :: "'w ISocket"
  ws_linux :: "'w ILinux"
  ws_uninit :: "nat \<Rightarrow> bytes"

record 'w WebSocket =
  output_message_buffer :: bytes
  input_payload_buffer :: bytes
  frame_header :: FrameHeader
  is_text :: bool
  is_continuation :: bool
  remote_close_reason :: CloseCode
  input_message_length :: u64
  input_mask :: bytes
  output_mask :: bytes
  message_arg :: bytes
  world :: 'w

definition kMaximumPayloadLength :: u64 where "kMaximumPayloadLength = 128 * 1024 * 1024"
definition kMaximumMessageLength :: nat where "kMaximumMessageLength = 128 * 1024 * 1024"
definition kShortMessageLength :: nat where "kShortMessageLength = 128 * 1024"
definition kPayloadBufferLength :: nat where "kPayloadBufferLength = 1024"

text \<open>Running a member function of the socket or a system call.\<close>

definition on_world :: "('w, 'a) prog \<Rightarrow> ('w WebSocket, 'a) prog" where
  "on_world m = zoomM world (\<lambda>w s. s\<lparr>world := w\<rparr>) m"

text \<open>The constructor initialises the members; the array of a server is left uninitialised.\<close>

definition new_WebSocket :: "'w ws_env \<Rightarrow> 'w \<Rightarrow> 'w WebSocket" where
  "new_WebSocket E w =
     \<lparr>output_message_buffer = [], input_payload_buffer = [],
      frame_header = \<lparr>fin = False, opcode = 0, fmask = False, flength = 0\<rparr>,
      is_text = False, is_continuation = False, remote_close_reason = kCloseNormal,
      input_message_length = 0, input_mask = ws_uninit E 4, output_mask = replicate 4 0,
      message_arg = [], world = w\<rparr>"

definition is_connected_nolock :: "'w ws_env \<Rightarrow> ('w WebSocket, bool) prog" where
  "is_connected_nolock E = on_world (sock_is_connected (ws_socket E))"

section \<open>Masking\<close>

text \<open>\<open>out[i] = in[i] ^ mask[j++]; if (j == 4) j = 0;\<close>\<close>

fun apply_mask_from :: "bytes \<Rightarrow> nat \<Rightarrow> bytes \<Rightarrow> bytes" where
  "apply_mask_from msk j [] = []"
| "apply_mask_from msk j (b # bs) =
     (b XOR msk ! j) # apply_mask_from msk (if j + 1 = 4 then 0 else j + 1) bs"

definition apply_mask :: "bytes \<Rightarrow> bytes \<Rightarrow> bytes" where
  "apply_mask inp msk = apply_mask_from msk 0 inp"

section \<open>Closing the connection\<close>

text \<open>
  A client waits until the server has closed the connection, half a second at most; the round
  of the loop sleeps, and \<open>rcom_sleep\<close> may throw.
\<close>

definition close_wait_round ::
  "'w ws_env \<Rightarrow> rat \<Rightarrow> rat \<Rightarrow> bool \<Rightarrow> ('w WebSocket, bool + unit) prog" where
  "close_wait_round E timeout start_time timed_out =
     bindM (on_world (sock_is_endpoint_connected (ws_socket E))) (\<lambda>connected.
     if connected \<and> \<not> timed_out then
       bindM (on_world (rcom_time (ws_linux E))) (\<lambda>now.
       let time_passed = now - start_time;
           timed_out = (time_passed \<ge> timeout)
       in if \<not> timed_out then
            bindM (on_world (rcom_sleep (ws_linux E) (min (1 / 10) (timeout - time_passed))))
              (\<lambda>_. returnM (Inl timed_out))
          else returnM (Inl timed_out))
     else returnM (Inr ()))"

definition close_connection_client :: "'w ws_env \<Rightarrow> ('w WebSocket, unit) prog" where
  "close_connection_client E =
     bindM (on_world (rcom_time (ws_linux E))) (\<lambda>start_time.
     bindM (loopM (close_wait_round E (1 / 2) start_time) False) (\<lambda>_.
     on_world (sock_close (ws_socket E))))"

definition close_connection_server :: "'w ws_env \<Rightarrow> ('w WebSocket, unit) prog" where
  "close_connection_server E = on_world (sock_close (ws_socket E))"

definition close_connection :: "'w ws_env \<Rightarrow> ('w WebSocket, unit) prog" where
  "close_connection E = (case ws_role E of
       ServerSide \<Rightarrow> close_connection_server E
     | ClientSide \<Rightarrow> close_connection_client E)"

definition close_without_handshake :: "'w ws_env \<Rightarrow> ('w WebSocket, unit) prog" where
  "close_without_handshake E = close_connection E"

section \<open>Writing frames\<close>

definition socket_send :: "'w ws_env \<Rightarrow> bytes \<Rightarrow> ('w WebSocket, bool) prog" where
  "socket_send E buffer =
     bindM (on_world (sock_send (ws_socket E) buffer)) (\<lambda>sent.
     if \<not> sent then bindM (close_without_handshake E) (\<lambda>_. returnM False)
     else returnM True)"

text \<open>The constants of Frames.h.\<close>

definition data_length_126 :: nat where "data_length_126 = 126"
definition data_length_65536 :: nat where "data_length_65536 = 65536"
definition frame_type_server_126 :: u8 where "frame_type_server_126 = 126"
definition frame_type_server_127 :: u8 where "frame_type_server_127 = 127"
definition frame_type_client_254 :: u8 where "frame_type_client_254 = 254"
definition frame_type_client_255 :: u8 where "frame_type_client_255 = 255"

text \<open>The bytes of a length in network order, taken out of the converted integer one by one.\<close>

definition length_bytes_16 :: "nat \<Rightarrow> bytes" where
  "length_bytes_16 len =
     (let netshort = htons (of_nat len)
      in [ucast (netshort AND 0x00ff), ucast (drop_bit 8 (netshort AND 0xff00))])"

definition length_bytes_64 :: "nat \<Rightarrow> bytes" where
  "length_bytes_64 len =
     (let netlong = htonll (of_nat len)
      in [ucast (netlong AND 0x00000000000000ff),
          ucast (drop_bit 8 (netlong AND 0x000000000000ff00)),
          ucast (drop_bit 16 (netlong AND 0x0000000000ff0000)),
          ucast (drop_bit 24 (netlong AND 0x00000000ff000000)),
          ucast (drop_bit 32 (netlong AND 0x000000ff00000000)),
          ucast (drop_bit 40 (netlong AND 0x0000ff0000000000)),
          ucast (drop_bit 48 (netlong AND 0x00ff000000000000)),
          ucast (drop_bit 56 (netlong AND 0xff00000000000000))])"

definition frame_header_server :: "u8 \<Rightarrow> nat \<Rightarrow> bytes" where
  "frame_header_server opc len =
     (0x80 OR opc) #
     (if len < data_length_126 then [of_nat len AND 0x7f]
      else if len \<le> data_length_65536 then frame_type_server_126 # length_bytes_16 len
      else frame_type_server_127 # length_bytes_64 len)"

definition frame_header_client :: "u8 \<Rightarrow> nat \<Rightarrow> bytes" where
  "frame_header_client opc len =
     (0x80 OR opc) #
     (if len < data_length_126 then [0x80 OR (of_nat len AND 0x7f)]
      else if len \<le> data_length_65536 then frame_type_client_254 # length_bytes_16 len
      else frame_type_client_255 # length_bytes_64 len)"

text \<open>\<open>getrandom\<close> fills the mask; the code does not look at its result.\<close>

definition make_mask :: "'w ws_env \<Rightarrow> ('w WebSocket, unit) prog" where
  "make_mask E =
     bindM (getsM output_mask) (\<lambda>old.
     bindM (on_world (lx_getrandom (ws_linux E) old)) (\<lambda>(n, new).
     modifyM (\<lambda>s. s\<lparr>output_mask := new\<rparr>)))"

definition output_append_header_server ::
  "bytes \<Rightarrow> u8 \<Rightarrow> bytes \<Rightarrow> ('w WebSocket, bytes) prog" where
  "output_append_header_server output opc message =
     returnM (output @ frame_header_server opc (length message))"

definition output_append_header_client ::
  "'w ws_env \<Rightarrow> bytes \<Rightarrow> u8 \<Rightarrow> bytes \<Rightarrow> ('w WebSocket, bytes) prog" where
  "output_append_header_client E output opc message =
     bindM (make_mask E) (\<lambda>_.
     bindM (getsM output_mask) (\<lambda>msk.
     returnM (output @ frame_header_client opc (length message)
                @ [msk ! 0, msk ! 1, msk ! 2, msk ! 3])))"

definition output_append_header ::
  "'w ws_env \<Rightarrow> bytes \<Rightarrow> u8 \<Rightarrow> bytes \<Rightarrow> ('w WebSocket, bytes) prog" where
  "output_append_header E = (case ws_role E of
       ServerSide \<Rightarrow> output_append_header_server
     | ClientSide \<Rightarrow> output_append_header_client E)"

text \<open>A client masks the payload in pieces of 1024 bytes; each piece starts at \<open>mask[0]\<close>.\<close>

function mask_pieces :: "bytes \<Rightarrow> bytes \<Rightarrow> nat \<Rightarrow> bytes" where
  "mask_pieces msk data sent =
     (if sent < length data then
        let n = length data - sent;
            n = (if n > 1024 then 1024 else n)
        in apply_mask (take n (drop sent data)) msk @ mask_pieces msk data (sent + n)
      else [])"
  by pat_completeness auto
termination
  by (relation "measure (\<lambda>(msk, data, sent). length data - sent)") (auto simp: Let_def)

declare mask_pieces.simps [simp del]

definition output_append_payload_server :: "bytes \<Rightarrow> bytes \<Rightarrow> ('w WebSocket, bytes) prog" where
  "output_append_payload_server output message = returnM (output @ message)"

definition output_append_payload_client :: "bytes \<Rightarrow> bytes \<Rightarrow> ('w WebSocket, bytes) prog" where
  "output_append_payload_client output message =
     bindM (getsM output_mask) (\<lambda>msk. returnM (output @ mask_pieces msk message 0))"

definition output_append_payload ::
  "'w ws_env \<Rightarrow> bytes \<Rightarrow> bytes \<Rightarrow> ('w WebSocket, bytes) prog" where
  "output_append_payload E = (case ws_role E of
       ServerSide \<Rightarrow> output_append_payload_server
     | ClientSide \<Rightarrow> output_append_payload_client)"

text \<open>\<open>make_message(output, opcode, message)\<close>: \<open>output\<close> is cleared first; its new contents.\<close>

definition make_message :: "'w ws_env \<Rightarrow> u8 \<Rightarrow> bytes \<Rightarrow> ('w WebSocket, bytes) prog" where
  "make_message E opc message =
     bindM (output_append_header E [] opc message) (\<lambda>output.
     output_append_payload E output message)"

section \<open>Reading a frame\<close>

text \<open>
  \<open>socket_read(buffer, length)\<close>: the buffer is the array the caller names, \<open>put\<close> stores it back
  where it is a member; it is written before a failed read throws.
\<close>

definition socket_read ::
  "'w ws_env \<Rightarrow> (bytes \<Rightarrow> 'w WebSocket \<Rightarrow> 'w WebSocket) \<Rightarrow> bytes \<Rightarrow> nat
     \<Rightarrow> ('w WebSocket, bytes) prog" where
  "socket_read E put buffer len =
     bindM (on_world (sock_read (ws_socket E) buffer len)) (\<lambda>(success, buffer).
     bindM (modifyM (put buffer)) (\<lambda>_.
     if \<not> success then throwM (RecvError ''Read failed'' kCloseInternalError)
     else returnM buffer))"

abbreviation local_array :: "bytes \<Rightarrow> 'w WebSocket \<Rightarrow> 'w WebSocket" where
  "local_array \<equiv> \<lambda>_ s. s"

definition input_read_frame_header :: "'w ws_env \<Rightarrow> ('w WebSocket, unit) prog" where
  "input_read_frame_header E =
     bindM (socket_read E local_array (ws_uninit E 2) 2) (\<lambda>b.
     modifyM (\<lambda>s. s\<lparr>frame_header :=
        \<lparr>fin = (b ! 0 AND 0x80) \<noteq> 0, opcode = b ! 0 AND 0x0f,
         fmask = (b ! 1 AND 0x80) \<noteq> 0, flength = b ! 1 AND 0x7f\<rparr>\<rparr>))"

text \<open>The integer object is the buffer of the read; \<open>take\<close> is its size in bytes.\<close>

definition input_read_uint16 :: "'w ws_env \<Rightarrow> ('w WebSocket, u16) prog" where
  "input_read_uint16 E =
     bindM (socket_read E local_array (ws_uninit E 2) 2) (\<lambda>netshort.
     returnM (ntohs (load_le (take 2 netshort))))"

definition input_read_uint64 :: "'w ws_env \<Rightarrow> ('w WebSocket, u64) prog" where
  "input_read_uint64 E =
     bindM (socket_read E local_array (ws_uninit E 8) 8) (\<lambda>netlong.
     returnM (ntohll (load_le (take 8 netlong))))"

definition input_read_payload_length :: "'w ws_env \<Rightarrow> ('w WebSocket, unit) prog" where
  "input_read_payload_length E =
     bindM (getsM (\<lambda>s. flength (frame_header s))) (\<lambda>len.
     if len < 126 then modifyM (\<lambda>s. s\<lparr>input_message_length := ucast len\<rparr>)
     else if len = 126 then
       bindM (input_read_uint16 E) (\<lambda>n. modifyM (\<lambda>s. s\<lparr>input_message_length := ucast n\<rparr>))
     else if len = 127 then
       bindM (input_read_uint64 E) (\<lambda>n. modifyM (\<lambda>s. s\<lparr>input_message_length := n\<rparr>))
     else returnM ())"

definition input_read_payload_mask :: "'w ws_env \<Rightarrow> ('w WebSocket, unit) prog" where
  "input_read_payload_mask E =
     bindM (getsM input_mask) (\<lambda>msk.
     bindM (socket_read E (\<lambda>b s. s\<lparr>input_mask := b\<rparr>) msk 4) (\<lambda>_. returnM ()))"

definition input_read_header_server :: "'w ws_env \<Rightarrow> ('w WebSocket, unit) prog" where
  "input_read_header_server E =
     blockM [input_read_frame_header E, input_read_payload_length E, input_read_payload_mask E]"

definition input_read_header_client :: "'w ws_env \<Rightarrow> ('w WebSocket, unit) prog" where
  "input_read_header_client E = blockM [input_read_frame_header E, input_read_payload_length E]"

definition input_read_header :: "'w ws_env \<Rightarrow> ('w WebSocket, unit) prog" where
  "input_read_header E = (case ws_role E of
       ServerSide \<Rightarrow> input_read_header_server E
     | ClientSide \<Rightarrow> input_read_header_client E)"

definition input_assert_mask_flag_server :: "('w WebSocket, unit) prog" where
  "input_assert_mask_flag_server =
     bindM (getsM (\<lambda>s. fmask (frame_header s))) (\<lambda>masked.
     whenM (\<not> masked)
       (throwM (RecvError ''Client sent unmasked frame'' kCloseProtocolError)))"

definition input_assert_mask_flag_client :: "('w WebSocket, unit) prog" where
  "input_assert_mask_flag_client =
     bindM (getsM (\<lambda>s. fmask (frame_header s))) (\<lambda>masked.
     whenM masked
       (throwM (RecvError ''Server sent masked frame'' kCloseProtocolError)))"

definition input_assert_mask_flag :: "'w ws_env \<Rightarrow> ('w WebSocket, unit) prog" where
  "input_assert_mask_flag E = (case ws_role E of
       ServerSide \<Rightarrow> input_assert_mask_flag_server
     | ClientSide \<Rightarrow> input_assert_mask_flag_client)"

definition valid_opcode :: "u8 \<Rightarrow> bool" where
  "valid_opcode opc \<longleftrightarrow> opc = kContinutationOpcode \<or> opc = kTextOpcode \<or> opc = kBinaryOpcode
     \<or> opc = kCloseOpcode \<or> opc = kPingOpcode \<or> opc = kPongOpcode"

definition input_assert_opcode :: "('w WebSocket, unit) prog" where
  "input_assert_opcode =
     bindM (getsM (\<lambda>s. opcode (frame_header s))) (\<lambda>opc.
     whenM (\<not> valid_opcode opc) (throwM (RecvError ''Invalid opcode'' kCloseProtocolError)))"

definition input_assert_payload_length :: "('w WebSocket, unit) prog" where
  "input_assert_payload_length =
     bindM (getsM input_message_length) (\<lambda>n.
     whenM (n > kMaximumPayloadLength) (throwM (RecvError ''Message too large'' kCloseTooBig)))"

definition input_assert_valid_message :: "'w ws_env \<Rightarrow> ('w WebSocket, unit) prog" where
  "input_assert_valid_message E =
     blockM [input_assert_mask_flag E, input_assert_opcode, input_assert_payload_length]"

text \<open>A server unmasks the data in place and appends it; the array as it is then.\<close>

definition input_append_payload_server :: "bytes \<Rightarrow> nat \<Rightarrow> ('w WebSocket, bytes) prog" where
  "input_append_payload_server data len =
     bindM (getsM input_mask) (\<lambda>msk.
     let data = apply_mask (take len data) msk @ drop len data
     in bindM (modifyM (\<lambda>s. s\<lparr>input_payload_buffer := input_payload_buffer s @ take len data\<rparr>))
          (\<lambda>_. returnM data))"

definition input_append_payload_client :: "bytes \<Rightarrow> nat \<Rightarrow> ('w WebSocket, bytes) prog" where
  "input_append_payload_client data len =
     bindM (modifyM (\<lambda>s. s\<lparr>input_payload_buffer := input_payload_buffer s @ take len data\<rparr>))
       (\<lambda>_. returnM data)"

definition input_append_payload ::
  "'w ws_env \<Rightarrow> bytes \<Rightarrow> nat \<Rightarrow> ('w WebSocket, bytes) prog" where
  "input_append_payload E = (case ws_role E of
       ServerSide \<Rightarrow> input_append_payload_server
     | ClientSide \<Rightarrow> input_append_payload_client)"

definition input_read_payload_round ::
  "'w ws_env \<Rightarrow> nat \<times> bytes \<Rightarrow> ('w WebSocket, (nat \<times> bytes) + unit) prog" where
  "input_read_payload_round E = (\<lambda>(length_processed, buffer).
     bindM (getsM (\<lambda>s. unat (input_message_length s))) (\<lambda>n.
     if length_processed < n then
       let length_to_read = n - length_processed;
           length_to_read = (if length_to_read > kPayloadBufferLength then kPayloadBufferLength
                             else length_to_read)
       in bindM (socket_read E local_array buffer length_to_read) (\<lambda>buffer.
          bindM (input_append_payload E buffer length_to_read) (\<lambda>buffer.
          returnM (Inl (length_processed + length_to_read, buffer))))
     else returnM (Inr ())))"

definition input_read_payload :: "'w ws_env \<Rightarrow> ('w WebSocket, unit) prog" where
  "input_read_payload E =
     bindM (modifyM (\<lambda>s. s\<lparr>input_payload_buffer := []\<rparr>)) (\<lambda>_.
     loopM (input_read_payload_round E) (0, ws_uninit E kPayloadBufferLength))"

definition read_message :: "'w ws_env \<Rightarrow> ('w WebSocket, unit) prog" where
  "read_message E =
     blockM [input_read_header E, input_assert_valid_message E, input_read_payload E]"

section \<open>Processing a message\<close>

definition has_control_message :: "FrameHeader \<Rightarrow> bool" where
  "has_control_message h \<longleftrightarrow>
     opcode h = kCloseOpcode \<or> opcode h = kPingOpcode \<or> opcode h = kPongOpcode"

definition has_data_message :: "FrameHeader \<Rightarrow> bool" where
  "has_data_message h \<longleftrightarrow>
     opcode h = kTextOpcode \<or> opcode h = kBinaryOpcode \<or> opcode h = kContinutationOpcode"

definition has_unfragmented_text_message :: "FrameHeader \<Rightarrow> bool" where
  "has_unfragmented_text_message h \<longleftrightarrow> opcode h = kTextOpcode \<and> fin h"

definition has_unfragmented_binary_message :: "FrameHeader \<Rightarrow> bool" where
  "has_unfragmented_binary_message h \<longleftrightarrow> opcode h = kBinaryOpcode \<and> fin h"

definition has_final_continuation_message :: "FrameHeader \<Rightarrow> bool" where
  "has_final_continuation_message h \<longleftrightarrow> opcode h = kContinutationOpcode \<and> fin h"

definition is_data_message_complete :: "FrameHeader \<Rightarrow> bool" where
  "is_data_message_complete h \<longleftrightarrow> has_unfragmented_text_message h
     \<or> has_unfragmented_binary_message h \<or> has_final_continuation_message h"

definition has_complete_data_message :: "FrameHeader \<Rightarrow> bool" where
  "has_complete_data_message h \<longleftrightarrow> has_data_message h \<and> is_data_message_complete h"

definition convert_to_uint16 :: "bytes \<Rightarrow> u16" where
  "convert_to_uint16 buffer =
     (if length buffer = 2 then push_bit 8 (ucast (buffer ! 0)) OR ucast (buffer ! 1) else 0)"

definition get_close_code :: "('w WebSocket, unit) prog" where
  "get_close_code =
     bindM (modifyM (\<lambda>s. s\<lparr>remote_close_reason := kCloseMissingCode\<rparr>)) (\<lambda>_.
     bindM (getsM input_payload_buffer) (\<lambda>payload.
     whenM (length payload = 2)
       (modifyM (\<lambda>s. s\<lparr>remote_close_reason := convert_to_uint16 payload\<rparr>))))"

definition close_payload :: "CloseCode \<Rightarrow> bytes" where
  "close_payload code =
     (let netshort = htons code
      in [ucast (netshort AND 0x00ff), ucast (drop_bit 8 (netshort AND 0xff00))])"

definition send_close_message :: "'w ws_env \<Rightarrow> CloseCode \<Rightarrow> ('w WebSocket, bool) prog" where
  "send_close_message E code =
     bindM (make_message E kCloseOpcode (close_payload code)) (\<lambda>message. socket_send E message)"

definition closing_send_reply :: "'w ws_env \<Rightarrow> ('w WebSocket, unit) prog" where
  "closing_send_reply E =
     bindM (getsM remote_close_reason) (\<lambda>code.
     bindM (send_close_message E code) (\<lambda>_. close_connection E))"

definition answer_close_handshake :: "'w ws_env \<Rightarrow> ('w WebSocket, unit) prog" where
  "answer_close_handshake E = blockM [get_close_code, closing_send_reply E]"

definition send_pong :: "'w ws_env \<Rightarrow> ('w WebSocket, unit) prog" where
  "send_pong E =
     bindM (getsM input_payload_buffer) (\<lambda>payload.
     bindM (make_message E kPongOpcode payload) (\<lambda>message.
     bindM (socket_send E message) (\<lambda>_. returnM ())))"

definition handle_pong_response :: "('w WebSocket, unit) prog" where
  "handle_pong_response = returnM ()"

definition handle_control_message :: "'w ws_env \<Rightarrow> ('w WebSocket, unit) prog" where
  "handle_control_message E =
     bindM (getsM (\<lambda>s. opcode (frame_header s))) (\<lambda>opc.
     if opc = kCloseOpcode then answer_close_handshake E
     else if opc = kPingOpcode then send_pong E
     else if opc = kPongOpcode then handle_pong_response
     else returnM ())"

definition assert_continuation :: "('w WebSocket, unit) prog" where
  "assert_continuation =
     bindM (getsM (\<lambda>s. (opcode (frame_header s) = kContinutationOpcode \<and> is_continuation s)
        \<or> (opcode (frame_header s) \<noteq> kContinutationOpcode \<and> \<not> is_continuation s))) (\<lambda>valid.
     whenM (\<not> valid) (throwM (RecvError ''Unexpected continuation'' kCloseProtocolError)))"

definition assert_message_length :: "('w WebSocket, unit) prog" where
  "assert_message_length =
     bindM (getsM (\<lambda>s. length (input_payload_buffer s)
        + (if opcode (frame_header s) = kContinutationOpcode then length (message_arg s) else 0)))
     (\<lambda>len. whenM (len > kMaximumMessageLength)
        (throwM (RecvError ''Message too big'' kCloseTooBig)))"

definition set_payload_type :: "('w WebSocket, unit) prog" where
  "set_payload_type = modifyM (\<lambda>s.
     if opcode (frame_header s) = kTextOpcode then s\<lparr>is_text := True\<rparr>
     else if opcode (frame_header s) = kBinaryOpcode then s\<lparr>is_text := False\<rparr>
     else s)"

definition copy_payload :: "('w WebSocket, unit) prog" where
  "copy_payload = modifyM (\<lambda>s.
     let message = (if opcode (frame_header s) = kTextOpcode \<or> opcode (frame_header s) = kBinaryOpcode
                    then [] else message_arg s)
     in s\<lparr>message_arg := message @ input_payload_buffer s\<rparr>)"

definition prepare_continuation :: "('w WebSocket, unit) prog" where
  "prepare_continuation = modifyM (\<lambda>s. s\<lparr>is_continuation := \<not> fin (frame_header s)\<rparr>)"

definition handle_data_payload :: "('w WebSocket, unit) prog" where
  "handle_data_payload = blockM [assert_continuation, assert_message_length, set_payload_type,
     copy_payload, prepare_continuation]"

definition process_message :: "'w ws_env \<Rightarrow> ('w WebSocket, unit) prog" where
  "process_message E =
     bindM (getsM frame_header) (\<lambda>h.
     if has_control_message h then handle_control_message E
     else if has_data_message h then handle_data_payload
     else throwM (RecvError ''Invalid opcode'' kCloseProtocolError))"

definition handle_one_message :: "'w ws_env \<Rightarrow> ('w WebSocket, unit) prog" where
  "handle_one_message E = blockM [read_message E, process_message E]"

section \<open>Receiving\<close>

definition socket_wait :: "'w ws_env \<Rightarrow> rat \<Rightarrow> ('w WebSocket, WaitStatus) prog" where
  "socket_wait E timeout = on_world (sock_wait (ws_socket E) timeout)"

definition wait_for_data :: "'w ws_env \<Rightarrow> rat \<Rightarrow> ('w WebSocket, bool) prog" where
  "wait_for_data E timeout =
     bindM (socket_wait E timeout) (\<lambda>status. case status of
       kWaitOK \<Rightarrow> returnM True
     | kWaitTimeout \<Rightarrow> returnM False
     | kWaitError \<Rightarrow> throwM (RecvError ''socket_wait failed'' kCloseInternalError))"

definition wait_and_handle_one_message :: "'w ws_env \<Rightarrow> rat \<Rightarrow> ('w WebSocket, bool) prog" where
  "wait_and_handle_one_message E timeout =
     bindM (wait_for_data E timeout) (\<lambda>received_data.
     bindM (whenM received_data (handle_one_message E)) (\<lambda>_. returnM received_data))"

definition compute_remaning_time :: "'w ws_env \<Rightarrow> rat \<Rightarrow> rat \<Rightarrow> ('w WebSocket, rat) prog" where
  "compute_remaning_time E start_time timeout =
     bindM (on_world (rcom_time (ws_linux E))) (\<lambda>now. returnM (timeout - (now - start_time)))"

definition get_message_type :: "('w WebSocket, RecvStatus) prog" where
  "get_message_type = getsM (\<lambda>s. if is_text s then kRecvText else kRecvBinary)"

definition try_recv_round ::
  "'w ws_env \<Rightarrow> rat \<Rightarrow> rat \<Rightarrow> rat \<Rightarrow> ('w WebSocket, rat + RecvStatus) prog" where
  "try_recv_round E timeout start_time remaining_time =
     (if remaining_time \<ge> 0 then
        bindM (wait_and_handle_one_message E remaining_time) (\<lambda>received.
        bindM (getsM (\<lambda>s. has_complete_data_message (frame_header s))) (\<lambda>complete.
        if received \<and> complete then bindM get_message_type (\<lambda>status. returnM (Inr status))
        else
          bindM (if received then is_connected_nolock E else returnM True) (\<lambda>connected.
          if \<not> connected then returnM (Inr kRecvClosed)
          else bindM (compute_remaning_time E start_time timeout) (\<lambda>r. returnM (Inl r)))))
      else returnM (Inr kRecvTimeOut))"

definition try_recv :: "'w ws_env \<Rightarrow> rat \<Rightarrow> ('w WebSocket, RecvStatus) prog" where
  "try_recv E timeout =
     bindM (on_world (rcom_time (ws_linux E))) (\<lambda>start_time.
     loopM (try_recv_round E timeout start_time) timeout)"

section \<open>The closing handshake\<close>

definition closing_wait_round ::
  "'w ws_env \<Rightarrow> rat \<Rightarrow> rat \<Rightarrow> rat \<Rightarrow> ('w WebSocket, rat + unit) prog" where
  "closing_wait_round E timeout start_time remaining_time =
     (if remaining_time \<ge> 0 then
        bindM (socket_wait E (1 / 100)) (\<lambda>status.
        bindM (whenM (status = kWaitOK) (read_message E)) (\<lambda>_.
        bindM (getsM (\<lambda>s. opcode (frame_header s))) (\<lambda>opc.
        if status = kWaitOK \<and> opc = kCloseOpcode then returnM (Inr ())
        else bindM (compute_remaning_time E start_time timeout) (\<lambda>r. returnM (Inl r)))))
      else returnM (Inr ()))"

definition closing_wait_reply :: "'w ws_env \<Rightarrow> rat \<Rightarrow> ('w WebSocket, unit) prog" where
  "closing_wait_reply E timeout =
     bindM (on_world (rcom_time (ws_linux E))) (\<lambda>start_time.
     loopM (closing_wait_round E timeout start_time) timeout)"

definition try_close_with_handshake :: "'w ws_env \<Rightarrow> CloseCode \<Rightarrow> ('w WebSocket, unit) prog" where
  "try_close_with_handshake E code =
     bindM (send_close_message E code) (\<lambda>sent.
     bindM (whenM sent (closing_wait_reply E 5)) (\<lambda>_.
     close_connection E))"

definition close_with_handshake :: "'w ws_env \<Rightarrow> CloseCode \<Rightarrow> ('w WebSocket, unit) prog" where
  "close_with_handshake E code =
     catchM (try_close_with_handshake E code) (\<lambda>_. close_without_handshake E)"

section \<open>The public operations\<close>

text \<open>Only a \<open>RecvError\<close> is caught; another exception leaves \<open>recv\<close>.\<close>

definition recv_in_place :: "'w ws_env \<Rightarrow> rat \<Rightarrow> ('w WebSocket, RecvStatus) prog" where
  "recv_in_place E timeout =
     catchM
       (bindM (modifyM (\<lambda>s. s\<lparr>message_arg := []\<rparr>)) (\<lambda>_. try_recv E timeout))
       (\<lambda>e. case e of
          RecvError _ code \<Rightarrow> bindM (close_with_handshake E code) (\<lambda>_. returnM kRecvError)
        | _ \<Rightarrow> throwM e)"

text \<open>\<open>recv(message, timeout)\<close>: the status, and what the caller's buffer then holds.\<close>

definition ws_recv :: "'w ws_env \<Rightarrow> bytes \<Rightarrow> rat \<Rightarrow> ('w WebSocket, RecvStatus \<times> bytes) prog" where
  "ws_recv E message timeout =
     bindM (modifyM (\<lambda>s. s\<lparr>message_arg := message\<rparr>)) (\<lambda>_.
     bindM (recv_in_place E timeout) (\<lambda>status.
     bindM (getsM message_arg) (\<lambda>message. returnM (status, message))))"

definition ws_close :: "'w ws_env \<Rightarrow> CloseCode \<Rightarrow> ('w WebSocket, unit) prog" where
  "ws_close E code = close_with_handshake E code"

definition ws_is_connected :: "'w ws_env \<Rightarrow> ('w WebSocket, bool) prog" where
  "ws_is_connected E = is_connected_nolock E"

text \<open>Sending: the opcode of the message type, buffering, and one frame.\<close>

definition opcode_of_type :: "MessageType \<Rightarrow> u8" where
  "opcode_of_type type = (if type = kTextMessage then kTextOpcode else kBinaryOpcode)"

definition send_output_buffer :: "'w ws_env \<Rightarrow> ('w WebSocket, bool) prog" where
  "send_output_buffer E = bindM (getsM output_message_buffer) (socket_send E)"

definition send_short_data_message ::
  "'w ws_env \<Rightarrow> bytes \<Rightarrow> MessageType \<Rightarrow> ('w WebSocket, bool) prog" where
  "send_short_data_message E message type =
     bindM (make_message E (opcode_of_type type) message) (\<lambda>output.
     bindM (modifyM (\<lambda>s. s\<lparr>output_message_buffer := output\<rparr>)) (\<lambda>_.
     bindM (on_world (sock_turn_buffering_off (ws_socket E))) (\<lambda>_.
     send_output_buffer E)))"

definition send_long_message_header ::
  "'w ws_env \<Rightarrow> u8 \<Rightarrow> bytes \<Rightarrow> ('w WebSocket, bool) prog" where
  "send_long_message_header E opc message =
     bindM (output_append_header E [] opc message) (\<lambda>output.
     bindM (modifyM (\<lambda>s. s\<lparr>output_message_buffer := output\<rparr>)) (\<lambda>_.
     send_output_buffer E))"

definition output_send_payload_client :: "'w ws_env \<Rightarrow> bytes \<Rightarrow> ('w WebSocket, bool) prog" where
  "output_send_payload_client E data =
     bindM (getsM output_mask) (\<lambda>msk. socket_send E (apply_mask data msk))"

definition output_send_payload_server :: "'w ws_env \<Rightarrow> bytes \<Rightarrow> ('w WebSocket, bool) prog" where
  "output_send_payload_server E data = socket_send E data"

definition output_send_payload :: "'w ws_env \<Rightarrow> bytes \<Rightarrow> ('w WebSocket, bool) prog" where
  "output_send_payload E = (case ws_role E of
       ServerSide \<Rightarrow> output_send_payload_server E
     | ClientSide \<Rightarrow> output_send_payload_client E)"

text \<open>Blocks of 1k until all is sent or a block fails.\<close>

definition send_long_round ::
  "'w ws_env \<Rightarrow> bytes \<Rightarrow> bool \<times> nat \<Rightarrow> ('w WebSocket, (bool \<times> nat) + bool) prog" where
  "send_long_round E message = (\<lambda>(success, sent).
     if success \<and> sent < length message then
       let n = kPayloadBufferLength;
           n = (if sent + n > length message then length message - sent else n)
       in bindM (output_send_payload E (take n (drop sent message))) (\<lambda>success.
          returnM (Inl (success, sent + n)))
     else returnM (Inr success))"

definition send_long_message_payload :: "'w ws_env \<Rightarrow> bytes \<Rightarrow> ('w WebSocket, bool) prog" where
  "send_long_message_payload E message = loopM (send_long_round E message) (True, 0)"

definition send_long_data_message ::
  "'w ws_env \<Rightarrow> bytes \<Rightarrow> MessageType \<Rightarrow> ('w WebSocket, bool) prog" where
  "send_long_data_message E message type =
     bindM (on_world (sock_turn_buffering_on (ws_socket E))) (\<lambda>_.
     bindM (send_long_message_header E (opcode_of_type type) message) (\<lambda>sent.
     if sent then send_long_message_payload E message else returnM False))"

definition ws_send :: "'w ws_env \<Rightarrow> bytes \<Rightarrow> MessageType \<Rightarrow> ('w WebSocket, bool) prog" where
  "ws_send E message type =
     (let len = length message
      in if len \<ge> kMaximumMessageLength then returnM False
         else if len < kShortMessageLength then send_short_data_message E message type
         else send_long_data_message E message type)"

end
