(* ===== verification/Frame_Spec.thy ===== *)
theory Frame_Spec
  imports WebSocket
begin

text \<open>
  The frames of RFC 6455, section 5.2, as byte strings, and what the writers of both
  subclasses produce compared with them: the same bytes for every length but 65536. Masking is
  an involution and does not depend on the pieces it is done in.
\<close>

section \<open>The frames of the RFC\<close>

text \<open>FIN and opcode; mask bit and length, extended to 16 or 64 bits in network order.\<close>

definition rfc_length :: "bool \<Rightarrow> nat \<Rightarrow> bytes" where
  "rfc_length masked n =
     (let m = (if masked then 0x80 else 0)
      in if n < 126 then [m OR of_nat n]
         else if n < 65536 then (m OR 126) # rev (store_le 2 (of_nat n :: u16))
         else (m OR 127) # rev (store_le 8 (of_nat n :: u64)))"

definition rfc_header :: "bool \<Rightarrow> u8 \<Rightarrow> bool \<Rightarrow> nat \<Rightarrow> bytes" where
  "rfc_header final opc masked n = ((if final then 0x80 else 0) OR opc) # rfc_length masked n"

text \<open>A frame sent by a server carries its payload as it is, one sent by a client masked.\<close>

definition rfc_frame :: "role \<Rightarrow> bool \<Rightarrow> u8 \<Rightarrow> bytes \<Rightarrow> bytes \<Rightarrow> bytes" where
  "rfc_frame sender final opc msk payload = (case sender of
       ServerSide \<Rightarrow> rfc_header final opc False (length payload) @ payload
     | ClientSide \<Rightarrow> rfc_header final opc True (length payload) @ msk @ apply_mask payload msk)"

section \<open>Masking\<close>

lemma length_apply_mask_from [simp]: "length (apply_mask_from msk j bs) = length bs"
  by (induction bs arbitrary: j) auto

lemma nth_apply_mask_from:
  "j < 4 \<Longrightarrow> i < length bs \<Longrightarrow> apply_mask_from msk j bs ! i = bs ! i XOR msk ! ((i + j) mod 4)"
proof (induction bs arbitrary: i j)
  case (Cons b bs)
  show ?case
  proof (cases i)
    case 0
    then show ?thesis using Cons.prems by simp
  next
    case (Suc k)
    have "(if j + 1 = 4 then 0 else j + 1) < 4" using Cons.prems by simp
    then have "apply_mask_from msk (if j + 1 = 4 then 0 else j + 1) bs ! k
        = bs ! k XOR msk ! ((k + (if j + 1 = 4 then 0 else j + 1)) mod 4)"
      by (rule Cons.IH) (use Cons.prems Suc in simp)
    moreover have "(k + (if j + 1 = 4 then 0 else j + 1)) mod 4 = (i + j) mod 4"
    proof (cases "j = 3")
      case True
      then have "i + j = k + 4" using Suc by simp
      then show ?thesis using True by simp
    qed (use Suc in simp)
    ultimately show ?thesis using Suc by simp
  qed
qed simp

lemma length_apply_mask [simp]: "length (apply_mask bs msk) = length bs"
  by (simp add: apply_mask_def)

lemma nth_apply_mask: "i < length bs \<Longrightarrow> apply_mask bs msk ! i = bs ! i XOR msk ! (i mod 4)"
  by (simp add: apply_mask_def nth_apply_mask_from)

lemma apply_mask_apply_mask [simp]: "apply_mask (apply_mask bs msk) msk = bs"
  by (rule nth_equalityI) (simp_all add: nth_apply_mask word_bw_assocs)

lemma apply_mask_Nil [simp]: "apply_mask [] msk = []"
  by (simp add: apply_mask_def)

lemma apply_mask_piece:
  assumes "4 dvd p"
  shows "apply_mask (take k (drop p bs)) msk = take k (drop p (apply_mask bs msk))"
proof (rule nth_equalityI)
  fix i assume "i < length (apply_mask (take k (drop p bs)) msk)"
  then have i: "i < k" "p + i < length bs" by auto
  have "(p + i) mod 4 = i mod 4" using assms by (auto elim!: dvdE)
  with i show "apply_mask (take k (drop p bs)) msk ! i = take k (drop p (apply_mask bs msk)) ! i"
    by (simp add: nth_apply_mask)
qed simp

lemma apply_mask_append:
  "4 dvd length as \<Longrightarrow> apply_mask (as @ bs) msk = apply_mask as msk @ apply_mask bs msk"
  using apply_mask_piece [of 0 "length as" "as @ bs" msk]
    apply_mask_piece [of "length as" "length bs" "as @ bs" msk]
    append_take_drop_id [of "length as" "apply_mask (as @ bs) msk"]
  by simp

lemma mask_pieces_eq: "4 dvd sent \<Longrightarrow> mask_pieces msk data sent = drop sent (apply_mask data msk)"
proof (induction msk data sent rule: mask_pieces.induct)
  case (1 msk data sent)
  show ?case
  proof (cases "sent < length data")
    case False
    then show ?thesis by (simp add: mask_pieces.simps)
  next
    case True
    define n where "n = (if length data - sent > 1024 then 1024 else length data - sent)"
    have unf: "mask_pieces msk data sent
        = apply_mask (take n (drop sent data)) msk @ mask_pieces msk data (sent + n)"
      using True by (subst mask_pieces.simps) (simp add: n_def Let_def)
    have piece: "apply_mask (take n (drop sent data)) msk = take n (drop sent (apply_mask data msk))"
      by (rule apply_mask_piece) (rule "1.prems")
    show ?thesis
    proof (cases "length data - sent > 1024")
      case True': True
      then have "4 dvd sent + n" using "1.prems" by (simp add: n_def)
      then have "mask_pieces msk data (sent + n) = drop (sent + n) (apply_mask data msk)"
        using "1.IH" [OF True refl] True' by (simp add: n_def)
      then show ?thesis by (simp add: unf piece add.commute flip: drop_drop)
    next
      case False
      then have n: "sent + n = length data" using True by (simp add: n_def)
      then have "mask_pieces msk data (sent + n) = []" by (simp add: mask_pieces.simps)
      moreover have "take n (drop sent (apply_mask data msk)) = drop sent (apply_mask data msk)"
        using n by simp
      ultimately show ?thesis by (simp only: unf piece append_Nil2)
    qed
  qed
qed

lemma mask_pieces_0: "mask_pieces msk data 0 = apply_mask data msk"
  by (simp add: mask_pieces_eq)

section \<open>What the writers produce\<close>

lemma length_bytes_16_eq: "length_bytes_16 n = rev (store_le 2 (of_nat n :: u16))"
proof -
  have "length_bytes_16 n = store_le 2 (htons (of_nat n))"
    by (simp add: length_bytes_16_def Let_def bytes_of_u16 store_le_def upt_bytes)
  then show ?thesis by (simp add: store_htons)
qed

lemma ucast_and_ff: "ucast (x AND 0xff) = (ucast x :: u8)" for x :: u64
proof -
  have m: "(0xff :: u64) = mask 8" by (simp add: mask_eq_exp_minus_1)
  show ?thesis unfolding m by (rule bit_eqI) (auto simp: bit_simps)
qed

lemma length_bytes_64_eq: "length_bytes_64 n = rev (store_le 8 (of_nat n :: u64))"
proof -
  have m: "0x000000000000ff00 = push_bit 8 (0xff :: u64)" "0x0000000000ff0000 = push_bit 16 (0xff :: u64)"
    "0x00000000ff000000 = push_bit 24 (0xff :: u64)" "0x000000ff00000000 = push_bit 32 (0xff :: u64)"
    "0x0000ff0000000000 = push_bit 40 (0xff :: u64)" "0x00ff000000000000 = push_bit 48 (0xff :: u64)"
    "0xff00000000000000 = push_bit 56 (0xff :: u64)"
    by (simp_all add: push_bit_eq_mult)
  have "length_bytes_64 n = store_le 8 (htonll (of_nat n))"
    by (simp add: length_bytes_64_def Let_def m store_le_def upt_bytes ucast_and_ff
        byte_of_u64 [unfolded drop_bit_and] del: push_bit_numeral)
  then show ?thesis by (simp add: store_htonll)
qed

lemma and_7f: "n < 128 \<Longrightarrow> (of_nat n AND 0x7f :: u8) = of_nat n"
proof -
  assume "n < 128"
  then have "take_bit 7 n = n" by (simp add: take_bit_nat_eq_self_iff)
  moreover have "(0x7f :: u8) = mask 7" by (simp add: mask_eq_exp_minus_1)
  ultimately show ?thesis by (metis of_nat_take_bit take_bit_eq_mask)
qed

lemma frame_header_server_rfc:
  "n \<noteq> 65536 \<Longrightarrow> frame_header_server opc n = rfc_header True opc False n"
  by (auto simp: frame_header_server_def rfc_header_def rfc_length_def data_length_126_def
      data_length_65536_def frame_type_server_126_def frame_type_server_127_def
      length_bytes_16_eq length_bytes_64_eq and_7f Let_def)

lemma frame_header_client_rfc:
  "n \<noteq> 65536 \<Longrightarrow> frame_header_client opc n = rfc_header True opc True n"
  by (auto simp: frame_header_client_def rfc_header_def rfc_length_def data_length_126_def
      data_length_65536_def frame_type_client_254_def frame_type_client_255_def
      length_bytes_16_eq length_bytes_64_eq and_7f Let_def)

text \<open>At 65536 the length is cut to 16 bits: the header announces an empty payload.\<close>

lemma frame_header_65536:
  "frame_header_server opc 65536 = [0x80 OR opc, 126, 0, 0]"
  "frame_header_client opc 65536 = [0x80 OR opc, 254, 0, 0]"
proof -
  have "(of_nat 65536 :: u16) = 0" by (simp add: word_of_nat_eq_0_iff take_bit_eq_mod)
  then have "length_bytes_16 65536 = [0, 0]"
    by (simp add: length_bytes_16_eq store_le_def upt_bytes)
  then show "frame_header_server opc 65536 = [0x80 OR opc, 126, 0, 0]"
    "frame_header_client opc 65536 = [0x80 OR opc, 254, 0, 0]"
    by (simp_all add: frame_header_server_def frame_header_client_def data_length_126_def
        data_length_65536_def frame_type_server_126_def frame_type_client_254_def)
qed

end
