(* ===== verification/Libc.thy ===== *)
theory Libc
  imports Interfaces
begin

text \<open>
  What the library uses of the C and C++ standard libraries on characters and strings: the
  character classes of the C locale, \<open>strchr\<close>, \<open>c_str\<close>, \<open>strtol\<close>, \<open>std::stoi\<close>,
  \<open>std::to_string\<close> of an unsigned number and \<open>std::string::find\<close>; and \<open>inet_ntoa\<close>.
\<close>

section \<open>Character classes\<close>

definition is_upper :: "u8 \<Rightarrow> bool" where
  "is_upper c \<longleftrightarrow> 65 \<le> c \<and> c \<le> 90"

definition is_digit :: "u8 \<Rightarrow> bool" where
  "is_digit c \<longleftrightarrow> 48 \<le> c \<and> c \<le> 57"

definition is_cntrl :: "u8 \<Rightarrow> bool" where
  "is_cntrl c \<longleftrightarrow> c < 32 \<or> c = 127"

definition is_space :: "u8 \<Rightarrow> bool" where
  "is_space c \<longleftrightarrow> c = 32 \<or> (9 \<le> c \<and> c \<le> 13)"

text \<open>\<open>strchr(s, c) != nullptr\<close>: the terminating NUL counts as a character of the string.\<close>

definition in_cstring :: "string \<Rightarrow> u8 \<Rightarrow> bool" where
  "in_cstring s c \<longleftrightarrow> c = 0 \<or> c \<in> set (bytes_of_string s)"

text \<open>What a reader of \<open>s.c_str()\<close> sees: up to the first NUL.\<close>

definition c_str :: "string \<Rightarrow> string" where
  "c_str s = takeWhile (\<lambda>c. byte_of_char c \<noteq> 0) s"

definition c_bytes :: "bytes \<Rightarrow> bytes" where
  "c_bytes s = takeWhile (\<lambda>c. c \<noteq> 0) s"

section \<open>Doubles\<close>

text \<open>\<open>std::isfinite\<close> of a double, which is its 64 bits.\<close>

definition double_is_finite :: "u64 \<Rightarrow> bool" where
  "double_is_finite x \<longleftrightarrow> (drop_bit 52 x AND 0x7FF) \<noteq> 0x7FF"

section \<open>Numbers\<close>

definition digit_value :: "u8 \<Rightarrow> nat" where
  "digit_value c = unat c - 48"

definition digits_value :: "bytes \<Rightarrow> nat" where
  "digits_value ds = foldl (\<lambda>n d. 10 * n + digit_value d) 0 ds"

text \<open>
  \<open>strtol(s, &end, 10)\<close> on a string without its NUL: white space, a sign, digits. The number
  and what follows it; without digits, 0 and the whole string. The number is cut to \<open>long\<close>.
\<close>

definition clamp_long :: "int \<Rightarrow> int" where
  "clamp_long n = max (- (2 ^ 63)) (min (2 ^ 63 - 1) n)"

definition strtol :: "bytes \<Rightarrow> int \<times> bytes" where
  "strtol s =
     (let r = dropWhile is_space s;
          negative = (r \<noteq> [] \<and> hd r = 45);
          r = (if r \<noteq> [] \<and> (hd r = 45 \<or> hd r = 43) then tl r else r);
          ds = takeWhile is_digit r;
          n = int (digits_value ds)
      in if ds = [] then (0, s)
         else (clamp_long (if negative then - n else n), dropWhile is_digit r))"

text \<open>\<open>std::stoi\<close>: it throws when there is no number, or one that is no \<open>int\<close>.\<close>

definition stoi :: "string \<Rightarrow> exn + int" where
  "stoi s =
     (let b = c_bytes (bytes_of_string s); (n, rest) = strtol b
      in if rest = b then Inl (InvalidArgument ''stoi'')
         else if n < - (2 ^ 31) \<or> n > 2 ^ 31 - 1 then Inl (InvalidArgument ''stoi: out of range'')
         else Inr n)"

text \<open>\<open>std::to_string\<close> of an unsigned number; \<open>%u\<close> of \<open>printf\<close> is the same.\<close>

fun to_decimal :: "nat \<Rightarrow> string" where
  "to_decimal n = (if n < 10 then [char_of (48 + n)]
     else to_decimal (n div 10) @ [char_of (48 + n mod 10)])"

declare to_decimal.simps [simp del]

section \<open>Searching\<close>

text \<open>\<open>s.find(sub) != std::string::npos\<close>\<close>

fun contains_string :: "string \<Rightarrow> string \<Rightarrow> bool" where
  "contains_string sub [] \<longleftrightarrow> sub = []"
| "contains_string sub (c # s) \<longleftrightarrow> take (length sub) (c # s) = sub \<or> contains_string sub s"

section \<open>Internet addresses\<close>

text \<open>The address is in network order: its first byte in memory is the first number.\<close>

definition inet_ntoa :: "u32 \<Rightarrow> string" where
  "inet_ntoa a =
     (let b = store_le 4 a; d = (\<lambda>i. to_decimal (unat (b ! i)))
      in d 0 @ ''.'' @ d 1 @ ''.'' @ d 2 @ ''.'' @ d 3)"

section \<open>Decimal numbers are read back\<close>

lemma byte_of_char_of: "n < 256 \<Longrightarrow> byte_of_char (char_of n) = of_nat n"
  by (simp add: byte_of_char_def)

lemma byte_of_char_eq: "byte_of_char c = w \<longleftrightarrow> c = char_of_byte w"
  by (metis byte_of_char_of_byte char_of_byte_of_char)

lemma digit_char:
  assumes "n < 10"
  shows "is_digit (byte_of_char (char_of (48 + n)))"
    and "digit_value (byte_of_char (char_of (48 + n))) = n"
    and "byte_of_char (char_of (48 + n)) \<noteq> 0"
    and "byte_of_char (char_of (48 + n)) \<noteq> 58"
proof -
  have u: "unat (byte_of_char (char_of (48 + n))) = 48 + n" using assms by simp
  then show "is_digit (byte_of_char (char_of (48 + n)))"
    using assms by (simp add: is_digit_def word_le_nat_alt)
  show "digit_value (byte_of_char (char_of (48 + n))) = n"
    unfolding digit_value_def u by simp
  show "byte_of_char (char_of (48 + n)) \<noteq> 0"
  proof
    assume "byte_of_char (char_of (48 + n)) = 0"
    then have "48 + n = unat (0 :: u8)" using u by (simp only:)
    then show False by simp
  qed
  show "byte_of_char (char_of (48 + n)) \<noteq> 58"
  proof
    assume "byte_of_char (char_of (48 + n)) = 58"
    then have "48 + n = unat (58 :: u8)" using u by (simp only:)
    then show False using assms by simp
  qed
qed

text \<open>The characters of a number are digits, and \<open>digits_value\<close> is the number again.\<close>

lemma to_decimal_digits: "\<forall>d \<in> set (bytes_of_string (to_decimal n)). is_digit d \<and> d \<noteq> 0 \<and> d \<noteq> 58"
proof (induction n rule: to_decimal.induct)
  case (1 n)
  show ?case
  proof (cases "n < 10")
    case True
    then show ?thesis
      using digit_char [of n] by (simp add: to_decimal.simps [of n])
  next
    case False
    then show ?thesis
      using 1 [OF False] digit_char [of "n mod 10"] by (auto simp: to_decimal.simps [of n])
  qed
qed

lemma to_decimal_neq_Nil [simp]: "to_decimal n \<noteq> []"
  by (subst to_decimal.simps) simp

lemma digits_value_to_decimal: "digits_value (bytes_of_string (to_decimal n)) = n"
proof (induction n rule: to_decimal.induct)
  case (1 n)
  show ?case
  proof (cases "n < 10")
    case True
    then show ?thesis
      using digit_char(2) [of n] by (simp add: to_decimal.simps [of n] digits_value_def)
  next
    case False
    then show ?thesis
      using 1 [OF False] digit_char(2) [of "n mod 10"]
      by (simp add: to_decimal.simps [of n] digits_value_def)
  qed
qed

lemma takeWhile_all: "(\<And>x. x \<in> set xs \<Longrightarrow> P x) \<Longrightarrow> takeWhile P xs = xs"
  by (simp add: takeWhile_eq_all_conv)

lemma dropWhile_all: "(\<And>x. x \<in> set xs \<Longrightarrow> P x) \<Longrightarrow> dropWhile P xs = []"
  by (simp add: dropWhile_eq_Nil_conv)

lemma digit_not_space: "is_digit d \<Longrightarrow> \<not> is_space d \<and> d \<noteq> 45 \<and> d \<noteq> 43"
  unfolding is_digit_def is_space_def word_le_nat_alt by auto

lemma strtol_to_decimal:
  assumes "n < 2 ^ 63"
  shows "strtol (bytes_of_string (to_decimal n)) = (int n, [])"
proof -
  let ?b = "bytes_of_string (to_decimal n)"
  note digits = to_decimal_digits [of n, rule_format]
  have ne: "?b \<noteq> []" by (simp add: bytes_of_string_def)
  then have h: "is_digit (hd ?b)" using digits hd_in_set by blast
  have sp: "dropWhile is_space ?b = ?b"
    using ne digit_not_space [OF h] by (cases ?b) auto
  have tw: "takeWhile is_digit ?b = ?b" by (rule takeWhile_all) (use digits in blast)
  have dw: "dropWhile is_digit ?b = []" by (rule dropWhile_all) (use digits in blast)
  have "clamp_long (int n) = int n" using assms by (simp add: clamp_long_def)
  then show ?thesis
    using ne digit_not_space [OF h]
    by (simp add: strtol_def sp tw dw digits_value_to_decimal Let_def)
qed

lemma c_bytes_id: "0 \<notin> set bs \<Longrightarrow> c_bytes bs = bs"
  by (auto simp: c_bytes_def intro: takeWhile_all)

lemma c_str_id: "(\<And>c. c \<in> set s \<Longrightarrow> byte_of_char c \<noteq> 0) \<Longrightarrow> c_str s = s"
  by (simp add: c_str_def takeWhile_all)

lemma stoi_to_decimal:
  assumes "n < 2 ^ 31"
  shows "stoi (to_decimal n) = Inr (int n)"
proof -
  have "0 \<notin> set (bytes_of_string (to_decimal n))" using to_decimal_digits [of n] by blast
  moreover have "strtol (bytes_of_string (to_decimal n)) = (int n, [])"
    using assms by (intro strtol_to_decimal) simp
  ultimately show ?thesis
    using assms by (simp add: stoi_def c_bytes_id bytes_of_string_def)
qed

end
