(* ===== verification/Address.thy ===== *)
theory Address
  imports Libc
begin

text \<open>
  Address.cpp and ip.cpp: an IPv4 address with a port, its textual form, and the choice of the
  local address. The member functions are programs over the object. The C library functions
  that resolve addresses and the interfaces of the machine are the fields of \<open>net_env\<close>.
\<close>

section \<open>The local address\<close>

record ifaddr =
  ifa_name :: string
  ifa_addr :: "sockaddr_in option"

record net_env =
  inet_aton :: "string \<Rightarrow> u32 option"
  getifaddrs :: "ifaddr list option"
  getnameinfo :: "sockaddr_in \<Rightarrow> string option"

definition AF_INET :: u16 where "AF_INET = 2"

definition set_local_ip :: "string \<Rightarrow> (string, unit) prog" where
  "set_local_ip ip = modifyM (\<lambda>_. ip)"

definition get_interface_ip :: "net_env \<Rightarrow> sockaddr_in \<Rightarrow> exn + string" where
  "get_interface_ip N a = (case getnameinfo N a of
       Some host \<Rightarrow> Inr host
     | None \<Rightarrow> Inl (RuntimeError ''getnameinfo() failed''))"

definition match_interface :: "string \<Rightarrow> sockaddr_in \<Rightarrow> bool" where
  "match_interface name a \<longleftrightarrow> take 1 name = ''w'' \<and> sin_family a = AF_INET"

fun scan_interfaces :: "net_env \<Rightarrow> string \<Rightarrow> ifaddr list \<Rightarrow> exn + string" where
  "scan_interfaces N ip [] = Inr ip"
| "scan_interfaces N ip (ifa # rest) = (case ifa_addr ifa of
       None \<Rightarrow> scan_interfaces N ip rest
     | Some a \<Rightarrow>
         if match_interface (ifa_name ifa) a then
           (case get_interface_ip N a of
              Inl e \<Rightarrow> Inl e
            | Inr host \<Rightarrow> scan_interfaces N host rest)
         else scan_interfaces N ip rest)"

text \<open>\<open>chosen\<close> is the static variable \<open>ip_\<close>.\<close>

definition get_local_ip :: "net_env \<Rightarrow> string \<Rightarrow> exn + string" where
  "get_local_ip N chosen =
     (let ip = ''127.0.0.1''
      in if chosen \<noteq> [] then Inr chosen
         else case getifaddrs N of
             Some ifaddrs \<Rightarrow> scan_interfaces N ip ifaddrs
           | None \<Rightarrow> Inl (RuntimeError ''getifaddrs() failed''))"

section \<open>Addresses\<close>

record Address =
  addr :: sockaddr_in

definition zero_Address :: Address where
  "zero_Address = \<lparr>addr = \<lparr>sin_family = AF_INET, sin_port = 0, sin_addr = 0\<rparr>\<rparr>"

definition throw_left :: "exn + 'a \<Rightarrow> ('s, 'a) prog" where
  "throw_left r = (case r of Inl e \<Rightarrow> throwM e | Inr x \<Rightarrow> returnM x)"

text \<open>A null pointer is \<open>None\<close>.\<close>

definition addr_set_ip :: "net_env \<Rightarrow> string option \<Rightarrow> (Address, unit) prog" where
  "addr_set_ip N ip = (case ip of
       Some ip \<Rightarrow> (case inet_aton N ip of
           None \<Rightarrow> throwM (RuntimeError ''Address::set_ip: inet_aton failed'')
         | Some a \<Rightarrow> modifyM (\<lambda>s. s\<lparr>addr := (addr s)\<lparr>sin_addr := a\<rparr>\<rparr>))
     | None \<Rightarrow> throwM (RuntimeError ''Address::set_ip: null address''))"

definition addr_set_port :: "u16 \<Rightarrow> (Address, unit) prog" where
  "addr_set_port port = modifyM (\<lambda>s. s\<lparr>addr := (addr s)\<lparr>sin_port := htons port\<rparr>\<rparr>)"

definition addr_set :: "net_env \<Rightarrow> string option \<Rightarrow> u16 \<Rightarrow> (Address, unit) prog" where
  "addr_set N ip port =
     blockM [modifyM (\<lambda>s. s\<lparr>addr := (addr s)\<lparr>sin_family := AF_INET\<rparr>\<rparr>),
             addr_set_ip N ip, addr_set_port port]"

definition addr_is_valid_integer :: "string \<Rightarrow> bool" where
  "addr_is_valid_integer s = (case stoi s of Inl e \<Rightarrow> False | Inr n \<Rightarrow> True)"

text \<open>The position after the last colon, 0 when there is none.\<close>

definition after_last_colon :: "string \<Rightarrow> nat" where
  "after_last_colon s = length (dropWhile (\<lambda>c. c \<noteq> CHR '':'') (rev s))"

definition addr_parse :: "net_env \<Rightarrow> string \<Rightarrow> (Address, unit) prog" where
  "addr_parse N address =
     (let split_colon = after_last_colon address
      in if split_colon \<noteq> 0 then
           let ip = take (split_colon - 1) address;
               portstr = drop split_colon address
           in if addr_is_valid_integer portstr then
                bindM (throw_left (stoi portstr)) (\<lambda>port.
                addr_set N (Some (c_str ip)) (word_of_int port))
              else throwM (RuntimeError ''Address::parse: invalid port'')
         else throwM (RuntimeError ''Address::parse: invalid address''))"

definition addr_set_string :: "net_env \<Rightarrow> string \<Rightarrow> (Address, unit) prog" where
  "addr_set_string N str = addr_parse N str"

text \<open>Assigning an address to itself changes nothing, so the test for it is not needed.\<close>

definition addr_set_other :: "Address \<Rightarrow> (Address, unit) prog" where
  "addr_set_other other = modifyM (\<lambda>s. s\<lparr>addr := addr other\<rparr>)"

definition addr_is_set :: "Address \<Rightarrow> bool" where
  "addr_is_set a \<longleftrightarrow> sin_port (addr a) \<noteq> 0 \<and> sin_addr (addr a) \<noteq> 0"

definition addr_ip :: "Address \<Rightarrow> string" where
  "addr_ip a = inet_ntoa (sin_addr (addr a))"

definition addr_port :: "Address \<Rightarrow> u16" where
  "addr_port a = ntohs (sin_port (addr a))"

definition addr_tostring :: "Address \<Rightarrow> string" where
  "addr_tostring a = addr_ip a @ '':'' @ to_decimal (unat (addr_port a))"

definition addr_get_sockaddr :: "Address \<Rightarrow> sockaddr_in" where
  "addr_get_sockaddr a = addr a"

text \<open>\<open>operator==\<close> compares the bytes of the structures.\<close>

definition addr_eq :: "Address \<Rightarrow> Address \<Rightarrow> bool" where
  "addr_eq a b \<longleftrightarrow> addr_get_sockaddr b = addr a"

section \<open>Constructors\<close>

definition constructed :: "(Address, unit) prog \<Rightarrow> (string, Address) prog" where
  "constructed m = (\<lambda>ip. case m zero_Address of
       None \<Rightarrow> None
     | Some (Inl e, a) \<Rightarrow> Some (Inl e, ip)
     | Some (Inr (), a) \<Rightarrow> Some (Inr a, ip))"

definition Address_ip_port :: "net_env \<Rightarrow> string option \<Rightarrow> u16 \<Rightarrow> (string, Address) prog" where
  "Address_ip_port N ip port =
     bindM (case ip of
              None \<Rightarrow> bindM (getsM (get_local_ip N)) throw_left
            | Some ip \<Rightarrow> returnM ip) (\<lambda>ipaddress.
     constructed (addr_set N (Some (c_str ipaddress)) port))"

definition Address_port :: "net_env \<Rightarrow> u16 \<Rightarrow> (string, Address) prog" where
  "Address_port N port =
     bindM (Address_ip_port N (Some ''0.0.0.0'') port) (\<lambda>this.
     bindM (bindM (getsM (get_local_ip N)) throw_left) (\<lambda>ip.
     bindM (constructed (bindM (modifyM (\<lambda>_. this)) (\<lambda>_. addr_set N (Some (c_str ip)) port)))
       (\<lambda>this. returnM this)))"

definition Address_default :: "net_env \<Rightarrow> (string, Address) prog" where
  "Address_default N = Address_port N 0"

definition Address_string :: "net_env \<Rightarrow> string \<Rightarrow> (string, Address) prog" where
  "Address_string N str = constructed (addr_parse N str)"

definition Address_copy :: "Address \<Rightarrow> Address" where
  "Address_copy address = zero_Address\<lparr>addr := addr_get_sockaddr address\<rparr>"

section \<open>Parsing what was printed\<close>

lemma colon_byte: "byte_of_char (CHR '':'') = 58"
  by (simp add: byte_of_char_def)

lemma to_decimal_no_colon: "CHR '':'' \<notin> set (to_decimal n)"
  using to_decimal_digits [of n] colon_byte unfolding bytes_of_string_def by force

lemma after_last_colon_eq: "CHR '':'' \<notin> set t \<Longrightarrow> after_last_colon (s @ '':'' @ t) = Suc (length s)"
  unfolding after_last_colon_def by (subst rev_append) (simp add: dropWhile_append2 dropWhile_append)

lemma inet_ntoa_no_nul: "c \<in> set (inet_ntoa a) \<Longrightarrow> byte_of_char c \<noteq> 0"
proof -
  have d: "byte_of_char c \<noteq> 0" if "c \<in> set (to_decimal n)" for n
    using that to_decimal_digits [of n] unfolding bytes_of_string_def by force
  have dot: "byte_of_char (CHR ''.'') \<noteq> 0" by (simp add: byte_of_char_def)
  assume "c \<in> set (inet_ntoa a)"
  then show ?thesis using d dot by (auto simp: inet_ntoa_def Let_def)
qed

lemma parse_tostring:
  assumes "inet_aton N (inet_ntoa (sin_addr (addr a))) = Some (sin_addr (addr a))"
    and "sin_family (addr a) = AF_INET"
  shows "addr_parse N (addr_tostring a) b = Some (Inr (), b\<lparr>addr := addr a\<rparr>)"
proof -
  let ?ip = "addr_ip a" and ?port = "to_decimal (unat (addr_port a))"
  have k: "after_last_colon (addr_tostring a) = Suc (length ?ip)"
    unfolding addr_tostring_def by (rule after_last_colon_eq) (rule to_decimal_no_colon)
  have "unat (addr_port a) < 2 ^ 31"
    using unsigned_less [of "addr_port a", where ?'a = nat] by (simp add: less_trans)
  then have st: "stoi ?port = Inr (int (unat (addr_port a)))" by (rule stoi_to_decimal)
  have ip: "c_str ?ip = ?ip" by (rule c_str_id) (simp add: addr_ip_def inet_ntoa_no_nul)
  have tk: "take (length ?ip) (addr_tostring a) = ?ip" "drop (Suc (length ?ip)) (addr_tostring a) = ?port"
    by (simp_all add: addr_tostring_def)
  have port: "htons (addr_port a) = sin_port (addr a)"
    by (simp add: addr_port_def)
  have "inet_aton N ?ip = Some (sin_addr (addr a))" using assms(1) by (simp add: addr_ip_def)
  then show ?thesis
    unfolding addr_parse_def k
    using assms(2)
    by (simp add: Let_def tk st ip port addr_is_valid_integer_def throw_left_def addr_set_def
        addr_set_ip_def addr_set_port_def run sockaddr_in.equality)
qed

text \<open>\<open>stoi\<close> accepts more than ports: the number is cut to 16 bits, what follows it is ignored.\<close>

lemma parse_port_wraps:
  assumes "inet_aton N ip = Some x" and "c_str ip = ip" and "n < 2 ^ 31"
  shows "addr_parse N (ip @ '':'' @ to_decimal n) b
      = Some (Inr (), b\<lparr>addr := \<lparr>sin_family = AF_INET, sin_port = htons (of_nat n), sin_addr = x\<rparr>\<rparr>)"
proof -
  have k: "after_last_colon (ip @ '':'' @ to_decimal n) = Suc (length ip)"
    by (rule after_last_colon_eq) (rule to_decimal_no_colon)
  show ?thesis
    unfolding addr_parse_def k
    using assms stoi_to_decimal [of n]
    by (simp add: addr_is_valid_integer_def throw_left_def addr_set_def addr_set_ip_def
        addr_set_port_def run)
qed

lemma parse_no_colon:
  "CHR '':'' \<notin> set s \<Longrightarrow>
     addr_parse N s b = Some (Inl (RuntimeError ''Address::parse: invalid address''), b)"
  by (simp add: addr_parse_def after_last_colon_def dropWhile_all run)

end
