(* ===== verification/BaseSocket.thy ===== *)
theory BaseSocket
  imports Address
begin

text \<open>
  BaseSocket.cpp, Socket.cpp and ServerSocket.cpp: a TCP descriptor over the system calls of
  \<open>ILinux\<close>, with the loops that turn partial reads and writes into whole ones, and the two
  classes that delegate to it. An object is the descriptor and the state of the system beneath
  it; \<open>-1\<close> is no descriptor. Logging is not modelled.
\<close>

section \<open>The object\<close>

record 'k BaseSocket =
  sockfd :: int
  kernel :: 'k

definition kInvalidSocket :: int where "kInvalidSocket = -1"
definition MSG_NOSIGNAL :: int where "MSG_NOSIGNAL = 0x4000"
definition MSG_PEEK_DONTWAIT :: int where "MSG_PEEK_DONTWAIT = 0x42"
definition POLLIN :: u16 where "POLLIN = 1"
definition EAGAIN :: int where "EAGAIN = 11"

definition on_kernel :: "('k, 'a) prog \<Rightarrow> ('k BaseSocket, 'a) prog" where
  "on_kernel m = zoomM kernel (\<lambda>k s. s\<lparr>kernel := k\<rparr>) m"

text \<open>A system call with the descriptor of the object.\<close>

definition with_fd :: "(int \<Rightarrow> ('k, 'a) prog) \<Rightarrow> ('k BaseSocket, 'a) prog" where
  "with_fd m = bindM (getsM sockfd) (\<lambda>fd. on_kernel (m fd))"

definition new_BaseSocket :: "int \<Rightarrow> 'k \<Rightarrow> 'k BaseSocket" where
  "new_BaseSocket fd k = \<lparr>sockfd = fd, kernel = k\<rparr>"

section \<open>Writing and reading\<close>

definition bs_write_round ::
  "'k ILinux \<Rightarrow> bytes \<Rightarrow> u64 \<Rightarrow> ('k BaseSocket, u64 + bool) prog" where
  "bs_write_round L buffer sent =
     (if unat sent < length buffer then
        bindM (with_fd (\<lambda>fd. lx_send L fd (drop (unat sent) buffer) MSG_NOSIGNAL)) (\<lambda>n.
        if n < 0 then returnM (Inr False)
        else if n = 0 then returnM (Inr False)
        else returnM (Inl (sent + word_of_int n)))
      else returnM (Inr True))"

definition bs_write :: "'k ILinux \<Rightarrow> bytes \<Rightarrow> ('k BaseSocket, bool) prog" where
  "bs_write L buffer = loopM (bs_write_round L buffer) 0"

text \<open>
  \<open>received\<close> is a \<open>size_t\<close>, so adding the result -1 of a failed \<open>recv\<close> takes one away from it.
\<close>

definition bs_read_round ::
  "'k ILinux \<Rightarrow> nat \<Rightarrow> bytes \<times> u64 \<Rightarrow> ('k BaseSocket, (bytes \<times> u64) + bool \<times> bytes) prog" where
  "bs_read_round L len = (\<lambda>(buffer, received).
     let r = unat received in
     if r < len then
       let requested = len - r in
       bindM (with_fd (\<lambda>fd. lx_recv L fd (take requested (drop r buffer)) 0)) (\<lambda>(n, piece).
       let buffer = take r buffer @ piece @ drop (r + requested) buffer in
       if n < -1 then
         bindM (on_kernel (lx_errno L)) (\<lambda>errno.
         if errno \<noteq> EAGAIN then returnM (Inr (False, buffer))
         else returnM (Inl (buffer, received)))
       else if n = 0 then returnM (Inr (False, buffer))
       else returnM (Inl (buffer, received + word_of_int n)))
     else returnM (Inr (True, buffer)))"

definition bs_read :: "'k ILinux \<Rightarrow> bytes \<Rightarrow> nat \<Rightarrow> ('k BaseSocket, bool \<times> bytes) prog" where
  "bs_read L buffer len = loopM (bs_read_round L len) (buffer, 0)"

section \<open>Opening\<close>

definition bs_connect :: "'k ILinux \<Rightarrow> Address \<Rightarrow> ('k BaseSocket, bool) prog" where
  "bs_connect L address =
     (let addr = addr_get_sockaddr address in
      bindM (on_kernel (lx_socket L)) (\<lambda>fd.
      if fd \<noteq> kInvalidSocket then
        bindM (on_kernel (lx_connect L fd addr)) (\<lambda>ret.
        if ret = 0 then
          bindM (modifyM (\<lambda>s. s\<lparr>sockfd := fd\<rparr>)) (\<lambda>_. returnM True)
        else bindM (on_kernel (lx_close L fd)) (\<lambda>_. returnM False))
      else returnM False))"

definition bs_listen :: "'k ILinux \<Rightarrow> Address \<Rightarrow> ('k BaseSocket, bool) prog" where
  "bs_listen L address =
     (let addr = addr_get_sockaddr address in
      bindM (on_kernel (lx_socket L)) (\<lambda>fd.
      bindM (modifyM (\<lambda>s. s\<lparr>sockfd := fd\<rparr>)) (\<lambda>_.
      if fd \<noteq> kInvalidSocket then
        bindM (with_fd (\<lambda>fd. lx_bind L fd addr)) (\<lambda>ret.
        if ret = 0 then
          bindM (with_fd (\<lambda>fd. lx_listen L fd 10)) (\<lambda>ret. returnM (ret = 0))
        else returnM False)
      else returnM False)))"

section \<open>Waiting and accepting\<close>

text \<open>
  The conversion of a \<open>double\<close> to \<open>int\<close> cuts the fraction. Beyond the range of \<open>int\<close> the language
  leaves it undefined, and the machine instruction gives the least \<open>int\<close>; \<open>poll\<close> then waits without
  end. The theorems on waiting for nothing stay within the range.
\<close>

definition double_to_int :: "rat \<Rightarrow> int" where
  "double_to_int x =
     (let n = (if 0 \<le> x then \<lfloor>x\<rfloor> else \<lceil>x\<rceil>) in if - (2 ^ 31) \<le> n \<and> n < 2 ^ 31 then n else - (2 ^ 31))"

definition bs_do_wait :: "'k ILinux \<Rightarrow> rat \<Rightarrow> ('k BaseSocket, WaitStatus) prog" where
  "bs_do_wait L timeout =
     (let timeout_ms = double_to_int (timeout * 1000) in
      bindM (with_fd (\<lambda>fd. lx_poll L fd POLLIN timeout_ms)) (\<lambda>(pollrc, revents).
      if pollrc < 0 then returnM kWaitError
      else if pollrc > 0 then
        if revents AND POLLIN \<noteq> 0 then returnM kWaitOK else returnM kWaitError
      else returnM kWaitTimeout))"

definition bs_wait :: "'k ILinux \<Rightarrow> rat \<Rightarrow> ('k BaseSocket, WaitStatus) prog" where
  "bs_wait L timeout = (if timeout \<ge> 0 then bs_do_wait L timeout else returnM kWaitError)"

definition bs_accept :: "'k ILinux \<Rightarrow> rat \<Rightarrow> ('k BaseSocket, int) prog" where
  "bs_accept L timeout_in_seconds =
     bindM (bs_wait L timeout_in_seconds) (\<lambda>wait_status.
     if wait_status = kWaitOK then with_fd (lx_accept L) else returnM kInvalidSocket)"

section \<open>Queries\<close>

definition bs_is_connected :: "('k BaseSocket, bool) prog" where
  "bs_is_connected = getsM (\<lambda>s. sockfd s \<noteq> kInvalidSocket)"

text \<open>This one calls \<open>recv\<close> itself, not through \<open>ILinux\<close>; the buffer has 32 bytes.\<close>

definition bs_is_endpoint_connected :: "'k ILinux \<Rightarrow> ('k BaseSocket, bool) prog" where
  "bs_is_endpoint_connected L =
     bindM (with_fd (\<lambda>fd. lx_raw_recv L fd (replicate 32 0) MSG_PEEK_DONTWAIT)) (\<lambda>(n, _).
     returnM (n \<noteq> 0))"

text \<open>The address the caller passed, as it is after the call.\<close>

definition bs_get_address ::
  "'k ILinux \<Rightarrow> net_env \<Rightarrow> Address \<Rightarrow> ('k BaseSocket, Address) prog" where
  "bs_get_address L N address =
     bindM (with_fd (\<lambda>fd. lx_getsockname L fd \<lparr>sin_family = 0, sin_port = 0, sin_addr = 0\<rparr>))
       (\<lambda>local_addr.
     case addr_set N (Some (inet_ntoa (sin_addr local_addr))) (ntohs (sin_port local_addr)) address of
       Some (Inr (), a) \<Rightarrow> returnM a
     | Some (Inl e, a) \<Rightarrow> throwM e
     | None \<Rightarrow> (\<lambda>_. None))"

definition bs_set_nodelay :: "'k ILinux \<Rightarrow> int \<Rightarrow> ('k BaseSocket, unit) prog" where
  "bs_set_nodelay L value =
     bindM (with_fd (\<lambda>fd. lx_setsockopt_nodelay L fd value)) (\<lambda>_. returnM ())"

section \<open>Closing\<close>

text \<open>After the shutdown, what the peer still sent is read and dropped, 512 bytes at a time.\<close>

definition bs_drain_round :: "'k ILinux \<Rightarrow> bytes \<Rightarrow> ('k BaseSocket, bytes + unit) prog" where
  "bs_drain_round L buf =
     bindM (with_fd (\<lambda>fd. lx_recv L fd buf 0)) (\<lambda>(n, buf).
     if n \<le> 0 then returnM (Inr ()) else returnM (Inl buf))"

definition bs_close :: "'k ILinux \<Rightarrow> ('k BaseSocket, unit) prog" where
  "bs_close L =
     bindM (getsM sockfd) (\<lambda>fd.
     whenM (fd \<noteq> kInvalidSocket)
       (bindM (with_fd (lx_shutdown L)) (\<lambda>_.
        bindM (loopM (bs_drain_round L) (replicate 512 0)) (\<lambda>_.
        bindM (with_fd (lx_close L)) (\<lambda>_.
        modifyM (\<lambda>s. s\<lparr>sockfd := kInvalidSocket\<rparr>))))))"

text \<open>The destructor.\<close>

definition bs_destroy :: "'k ILinux \<Rightarrow> ('k BaseSocket, unit) prog" where
  "bs_destroy L = bs_close L"

section \<open>Socket\<close>

definition Socket_fd :: "int \<Rightarrow> 'k \<Rightarrow> 'k BaseSocket" where
  "Socket_fd fd k = new_BaseSocket fd k"

text \<open>The connecting constructor; when it throws, the member is destroyed.\<close>

definition Socket_connect :: "'k ILinux \<Rightarrow> Address \<Rightarrow> ('k, 'k BaseSocket) prog" where
  "Socket_connect L address = (\<lambda>k.
     case bindM (bs_connect L address) (\<lambda>connected.
            if \<not> connected then
              bindM (bs_destroy L) (\<lambda>_. throwM (RuntimeError ''Socket: Failed to connect''))
            else returnM ()) (new_BaseSocket kInvalidSocket k) of
       None \<Rightarrow> None
     | Some (Inl e, s) \<Rightarrow> Some (Inl e, kernel s)
     | Some (Inr (), s) \<Rightarrow> Some (Inr s, kernel s))"

definition Socket :: "'k ILinux \<Rightarrow> 'k BaseSocket ISocket" where
  "Socket L =
     \<lparr>sock_close = bs_close L,
      sock_is_connected = bs_is_connected,
      sock_is_endpoint_connected = bs_is_endpoint_connected L,
      sock_send = bs_write L,
      sock_read = bs_read L,
      sock_wait = bs_wait L,
      sock_turn_buffering_off = bs_set_nodelay L 1,
      sock_turn_buffering_on = bs_set_nodelay L 0\<rparr>"

section \<open>ServerSocket\<close>

definition ServerSocket_open :: "'k ILinux \<Rightarrow> Address \<Rightarrow> ('k, 'k BaseSocket) prog" where
  "ServerSocket_open L address = (\<lambda>k.
     case bindM (bs_listen L address) (\<lambda>listening.
            if \<not> listening then
              bindM (bs_destroy L) (\<lambda>_. throwM (RuntimeError ''ServerSocket: open failed''))
            else returnM ()) (new_BaseSocket kInvalidSocket k) of
       None \<Rightarrow> None
     | Some (Inl e, s) \<Rightarrow> Some (Inl e, kernel s)
     | Some (Inr (), s) \<Rightarrow> Some (Inr s, kernel s))"

definition ServerSocket_accept :: "'k ILinux \<Rightarrow> rat \<Rightarrow> ('k BaseSocket, int) prog" where
  "ServerSocket_accept L timeout = bs_accept L timeout"

definition ServerSocket_get_address ::
  "'k ILinux \<Rightarrow> net_env \<Rightarrow> Address \<Rightarrow> ('k BaseSocket, Address) prog" where
  "ServerSocket_get_address L N address = bs_get_address L N address"

definition ServerSocket_close :: "'k ILinux \<Rightarrow> ('k BaseSocket, unit) prog" where
  "ServerSocket_close L = bs_close L"

section \<open>The system seen from an object that holds a socket\<close>

text \<open>The same system calls, on the state of the object.\<close>

definition linux_of_socket :: "'k ILinux \<Rightarrow> 'k BaseSocket ILinux" where
  "linux_of_socket L =
     \<lparr>lx_clock_gettime = on_kernel (lx_clock_gettime L),
      lx_clock_nanosleep = (\<lambda>s n. on_kernel (lx_clock_nanosleep L s n)),
      lx_getrandom = (\<lambda>b. on_kernel (lx_getrandom L b)),
      lx_poll = (\<lambda>fd e t. on_kernel (lx_poll L fd e t)),
      lx_socket = on_kernel (lx_socket L),
      lx_connect = (\<lambda>fd a. on_kernel (lx_connect L fd a)),
      lx_bind = (\<lambda>fd a. on_kernel (lx_bind L fd a)),
      lx_listen = (\<lambda>fd n. on_kernel (lx_listen L fd n)),
      lx_accept = (\<lambda>fd. on_kernel (lx_accept L fd)),
      lx_getsockname = (\<lambda>fd a. on_kernel (lx_getsockname L fd a)),
      lx_setsockopt_nodelay = (\<lambda>fd v. on_kernel (lx_setsockopt_nodelay L fd v)),
      lx_shutdown = (\<lambda>fd. on_kernel (lx_shutdown L fd)),
      lx_close = (\<lambda>fd. on_kernel (lx_close L fd)),
      lx_recv = (\<lambda>fd b f. on_kernel (lx_recv L fd b f)),
      lx_send = (\<lambda>fd b f. on_kernel (lx_send L fd b f)),
      lx_errno = on_kernel (lx_errno L),
      lx_raw_recv = (\<lambda>fd b f. on_kernel (lx_raw_recv L fd b f))\<rparr>"

end
