(* ===== verification/Stream_Contract.thy ===== *)
theory Stream_Contract
  imports BaseSocket
begin

text \<open>
  What the library relies on of the system and of the socket class, as two interfaces.
  \<open>tcp_kernel\<close> is the documented behaviour of the system calls on a connected descriptor: partial
  reads and writes of one byte or more, \<open>poll\<close>, \<open>shutdown\<close>, and a clock that stays near the time
  that passes, though it may be set.
  \<open>stream_socket\<close> is what the websocket layer expects of an \<open>ISocket\<close>: whole reads and whole
  writes. The class \<open>Socket\<close> turns the first into the second.
\<close>

section \<open>Connections\<close>

text \<open>What the other side has sent and we have not read, and what we have sent.\<close>

record connection =
  up :: bool
  inbox :: bytes
  outbox :: bytes

section \<open>The contract of the system\<close>

definition step_to ::
  "('k \<Rightarrow> 'c) \<Rightarrow> ('k \<Rightarrow> int) \<Rightarrow> 'k \<Rightarrow> 'c \<Rightarrow> 'k \<Rightarrow> bool" where
  "step_to view clock k c k' \<longleftrightarrow> view k' = c \<and> clock k \<le> clock k'"

text \<open>
  \<open>clock\<close> is the time that passes, in nanoseconds: every system call takes some of it. What
  \<open>clock_gettime\<close> reads is \<open>CLOCK_REALTIME\<close>, which can be set forwards and backwards, and can show the
  same time twice; it is taken to be off by \<open>kDrift\<close>, more than a day, at most. Sleeping is taken not
  to be interrupted by a signal. When nothing has arrived, \<open>recv\<close> blocks; if it comes back, then
  with the end of the stream or an error.
\<close>

definition kDrift :: int where "kDrift = 10 ^ 14"

locale tcp_kernel =
  fixes L :: "'k ILinux"
    and conns :: "'k \<Rightarrow> int \<Rightarrow> connection"
    and clock :: "'k \<Rightarrow> int"
  assumes k_send: "\<lbrakk>up (conns k fd); buf \<noteq> []\<rbrakk> \<Longrightarrow>
      wp False (lx_send L fd buf MSG_NOSIGNAL)
        (\<lambda>n k'. 0 < n \<and> nat n \<le> length buf \<and> step_to conns clock k
           ((conns k)(fd := (conns k fd)\<lparr>outbox := outbox (conns k fd) @ take (nat n) buf\<rparr>)) k')
        (\<lambda>_ _. False) k"
    and k_recv: "\<lbrakk>inbox (conns k fd) \<noteq> []; buf \<noteq> []\<rbrakk> \<Longrightarrow>
      wp False (lx_recv L fd buf 0)
        (\<lambda>(n, buf') k'. 0 < n \<and> nat n \<le> length buf \<and> nat n \<le> length (inbox (conns k fd))
           \<and> buf' = take (nat n) (inbox (conns k fd)) @ drop (nat n) buf
           \<and> step_to conns clock k
               ((conns k)(fd := (conns k fd)\<lparr>inbox := drop (nat n) (inbox (conns k fd))\<rparr>)) k')
        (\<lambda>_ _. False) k"
    and k_recv_empty: "inbox (conns k fd) = [] \<Longrightarrow>
      wp True (lx_recv L fd buf 0)
        (\<lambda>(n, buf') k'. n \<le> 0 \<and> length buf' = length buf \<and> step_to conns clock k (conns k) k') (\<lambda>_ _. False) k"
    and k_recv_end: "\<lbrakk>\<not> up (conns k fd); inbox (conns k fd) = []\<rbrakk> \<Longrightarrow>
      wp False (lx_recv L fd buf 0)
        (\<lambda>(n, buf') k'. n \<le> 0 \<and> step_to conns clock k (conns k) k') (\<lambda>_ _. False) k"
    and k_errno: "wp False (lx_errno L) (\<lambda>_. step_to conns clock k (conns k)) (\<lambda>_ _. False) k"
    and k_poll: "\<lbrakk>up (conns k fd); inbox (conns k fd) \<noteq> []\<rbrakk> \<Longrightarrow>
      wp False (lx_poll L fd POLLIN t)
        (\<lambda>(rc, revents) k'. 0 < rc \<and> revents AND POLLIN \<noteq> 0 \<and> step_to conns clock k (conns k) k')
        (\<lambda>_ _. False) k"
    and k_poll_idle: "\<lbrakk>up (conns k fd); inbox (conns k fd) = []; 0 \<le> t\<rbrakk> \<Longrightarrow>
      wp False (lx_poll L fd POLLIN t)
        (\<lambda>(rc, revents) k'. rc = 0 \<and> step_to conns clock k (conns k) k') (\<lambda>_ _. False) k"
    and k_shutdown: "wp False (lx_shutdown L fd)
        (\<lambda>_. step_to conns clock k ((conns k)(fd := (conns k fd)\<lparr>up := False\<rparr>))) (\<lambda>_ _. False) k"
    and k_close: "wp False (lx_close L fd) (\<lambda>_. step_to conns clock k (conns k)) (\<lambda>_ _. False) k"
    and k_setsockopt: "wp False (lx_setsockopt_nodelay L fd v)
        (\<lambda>_. step_to conns clock k (conns k)) (\<lambda>_ _. False) k"
    and k_raw_recv: "wp False (lx_raw_recv L fd buf MSG_PEEK_DONTWAIT)
        (\<lambda>_. step_to conns clock k (conns k)) (\<lambda>_ _. False) k"
    and k_clock: "wp False (lx_clock_gettime L)
        (\<lambda>r k'. (\<exists>t. r = (t div 10 ^ 9, t mod 10 ^ 9) \<and> \<bar>t - clock k'\<bar> \<le> kDrift) \<and> clock k < clock k'
           \<and> step_to conns clock k (conns k) k') (\<lambda>_ _. False) k"
    and k_nanosleep: "\<lbrakk>0 \<le> sec; 0 \<le> nsec; nsec < 10 ^ 9\<rbrakk> \<Longrightarrow>
      wp False (lx_clock_nanosleep L sec nsec)
        (\<lambda>r k'. r = 0 \<and> step_to conns clock k (conns k) k') (\<lambda>_ _. False) k"
    and k_getrandom: "wp False (lx_getrandom L old)
        (\<lambda>(n, new) k'. length new = length old \<and> step_to conns clock k (conns k) k')
        (\<lambda>_ _. False) k"

section \<open>The contract of a socket\<close>

text \<open>
  \<open>conn\<close> is the connection, \<open>ticks\<close> the clock in nanoseconds, \<open>valid\<close> the invariant of the
  objects involved.
\<close>

locale stream_socket =
  fixes S :: "'w ISocket"
    and L :: "'w ILinux"
    and conn :: "'w \<Rightarrow> connection"
    and ticks :: "'w \<Rightarrow> int"
    and valid :: "'w \<Rightarrow> bool"
  assumes s_read: "\<lbrakk>valid w; up (conn w); n \<le> length (inbox (conn w)); n \<le> length buf; n < 2 ^ 63\<rbrakk> \<Longrightarrow>
      wp False (sock_read S buf n)
        (\<lambda>(ok, buf') w'. ok \<and> buf' = take n (inbox (conn w)) @ drop n buf \<and> valid w'
           \<and> step_to conn ticks w ((conn w)\<lparr>inbox := drop n (inbox (conn w))\<rparr>) w')
        (\<lambda>_ _. False) w"
    and s_read_any: "\<lbrakk>valid w; up (conn w); n \<le> length buf\<rbrakk> \<Longrightarrow>
      wp True (sock_read S buf n)
        (\<lambda>(ok, buf') w'. length buf' = length buf \<and> valid w' \<and> up (conn w')
           \<and> outbox (conn w') = outbox (conn w) \<and> ticks w \<le> ticks w')
        (\<lambda>_ _. False) w"
    and s_send: "\<lbrakk>valid w; up (conn w); length buf < 2 ^ 63\<rbrakk> \<Longrightarrow>
      wp False (sock_send S buf)
        (\<lambda>ok w'. ok \<and> valid w'
           \<and> step_to conn ticks w ((conn w)\<lparr>outbox := outbox (conn w) @ buf\<rparr>) w')
        (\<lambda>_ _. False) w"
    and s_wait: "\<lbrakk>valid w; up (conn w); 0 \<le> t; inbox (conn w) = [] \<Longrightarrow> t * 1000 < 2 ^ 31\<rbrakk> \<Longrightarrow>
      wp False (sock_wait S t)
        (\<lambda>st w'. valid w' \<and> step_to conn ticks w (conn w) w'
           \<and> st = (if inbox (conn w) = [] then kWaitTimeout else kWaitOK))
        (\<lambda>_ _. False) w"
    and s_is_connected: "valid w \<Longrightarrow>
      wp False (sock_is_connected S) (\<lambda>b w'. b = up (conn w) \<and> w' = w) (\<lambda>_ _. False) w"
    and s_endpoint: "valid w \<Longrightarrow>
      wp False (sock_is_endpoint_connected S)
        (\<lambda>b w'. valid w' \<and> step_to conn ticks w (conn w) w') (\<lambda>_ _. False) w"
    and s_close: "valid w \<Longrightarrow>
      wp False (sock_close S)
        (\<lambda>_ w'. valid w' \<and> \<not> up (conn w') \<and> outbox (conn w') = outbox (conn w) \<and> ticks w \<le> ticks w')
        (\<lambda>_ _. False) w"
    and s_off: "\<lbrakk>valid w; up (conn w)\<rbrakk> \<Longrightarrow>
      wp False (sock_turn_buffering_off S)
        (\<lambda>_ w'. valid w' \<and> step_to conn ticks w (conn w) w') (\<lambda>_ _. False) w"
    and s_on: "\<lbrakk>valid w; up (conn w)\<rbrakk> \<Longrightarrow>
      wp False (sock_turn_buffering_on S)
        (\<lambda>_ w'. valid w' \<and> step_to conn ticks w (conn w) w') (\<lambda>_ _. False) w"
    and s_clock: "valid w \<Longrightarrow>
      wp False (lx_clock_gettime L)
        (\<lambda>r w'. (\<exists>t. r = (t div 10 ^ 9, t mod 10 ^ 9) \<and> \<bar>t - ticks w'\<bar> \<le> kDrift) \<and> ticks w < ticks w' \<and> valid w'
           \<and> step_to conn ticks w (conn w) w') (\<lambda>_ _. False) w"
    and s_nanosleep: "\<lbrakk>valid w; 0 \<le> sec; 0 \<le> nsec; nsec < 10 ^ 9\<rbrakk> \<Longrightarrow>
      wp False (lx_clock_nanosleep L sec nsec)
        (\<lambda>r w'. r = 0 \<and> valid w'
           \<and> step_to conn ticks w (conn w) w') (\<lambda>_ _. False) w"
    and s_getrandom: "valid w \<Longrightarrow>
      wp False (lx_getrandom L old)
        (\<lambda>(n, new) w'. length new = length old \<and> valid w' \<and> step_to conn ticks w (conn w) w')
        (\<lambda>_ _. False) w"

section \<open>\<open>Socket\<close> on a \<open>tcp_kernel\<close>\<close>

text \<open>The object owns the descriptor \<open>fd\<close> as long as the connection is up.\<close>

definition owns :: "('k \<Rightarrow> int \<Rightarrow> connection) \<Rightarrow> int \<Rightarrow> 'k BaseSocket \<Rightarrow> bool" where
  "owns conns fd s \<longleftrightarrow> fd \<noteq> kInvalidSocket
     \<and> (if up (conns (kernel s) fd) then sockfd s = fd else sockfd s = kInvalidSocket)"

lemma wp_on_kernel:
  "wp T (on_kernel m) Q E s
     = wp T m (\<lambda>x k. Q x (s\<lparr>kernel := k\<rparr>)) (\<lambda>e k. E e (s\<lparr>kernel := k\<rparr>)) (kernel s)"
  by (simp add: on_kernel_def wp_zoom)

lemma wp_with_fd:
  "wp T (with_fd m) Q E s = wp T (m (sockfd s)) (\<lambda>x k. Q x (s\<lparr>kernel := k\<rparr>))
      (\<lambda>e k. E e (s\<lparr>kernel := k\<rparr>)) (kernel s)"
  by (simp add: with_fd_def wp_bind wp_basic wp_on_kernel)

lemma unat_add_word_of_int:
  fixes w :: u64
  assumes "0 \<le> n" and "unat w + nat n < 2 ^ 64"
  shows "unat (w + word_of_int n) = unat w + nat n"
proof -
  have n: "unat (word_of_int n :: u64) = nat n"
  proof -
    have "nat n < 2 ^ 64" using assms(2) by simp
    then have "unat (of_nat (nat n) :: u64) = nat n"
      by (simp only: unsigned_of_nat) (simp add: take_bit_nat_eq_self)
    then show ?thesis using assms(1) by simp
  qed
  have "unat (w + word_of_int n) = (unat w + unat (word_of_int n :: u64)) mod 2 ^ 64"
    by (simp add: unat_word_ariths)
  then show ?thesis using assms(2) by (simp add: n)
qed

text \<open>A write that has got as far as \<open>m\<close> bytes of the buffer, a read of \<open>m\<close> bytes.\<close>

definition wrote :: "(int \<Rightarrow> connection) \<Rightarrow> int \<Rightarrow> bytes \<Rightarrow> int \<Rightarrow> connection" where
  "wrote c fd bs = c(fd := (c fd)\<lparr>outbox := outbox (c fd) @ bs\<rparr>)"

definition took :: "(int \<Rightarrow> connection) \<Rightarrow> int \<Rightarrow> nat \<Rightarrow> int \<Rightarrow> connection" where
  "took c fd m = c(fd := (c fd)\<lparr>inbox := drop m (inbox (c fd))\<rparr>)"

lemma wrote_simps [simp]:
  "up (wrote c fd bs fd') = up (c fd')"
  "inbox (wrote c fd bs fd') = inbox (c fd')"
  "wrote (wrote c fd as) fd bs = wrote c fd (as @ bs)"
  "wrote c fd [] = c"
  by (simp_all add: wrote_def)

lemma took_simps [simp]:
  "up (took c fd m fd') = up (c fd')"
  "inbox (took c fd m fd) = drop m (inbox (c fd))"
  "took (took c fd m) fd n = took c fd (m + n)"
  "took c fd 0 = c"
  by (simp_all add: took_def add.commute)

lemma wp_any: "wp False m Q E s \<Longrightarrow> wp T m Q E s"
  by (auto simp: wp_def split: option.splits)

lemma wp_total_with: "wp False m (\<lambda>_ _. True) (\<lambda>_ _. True) s \<Longrightarrow> wp True m Q E s \<Longrightarrow> wp T m Q E s"
  by (auto simp: wp_def split: option.splits)

lemma wp_outcome: "wp True m Q (\<lambda>_ _. False) s \<Longrightarrow> m s = Some (r, s') \<Longrightarrow> \<exists>x. r = Inr x \<and> Q x s'"
  by (auto simp: wp_def split: sum.splits)

lemma wp_not_none: "wp False m Q E s \<Longrightarrow> m s \<noteq> None"
  by (auto simp: wp_def split: option.splits)

lemma double_to_int_nonneg:
  assumes "0 \<le> t" and "t * 1000 < 2 ^ 31"
  shows "0 \<le> double_to_int (t * 1000)"
proof -
  have "\<lfloor>t * 1000\<rfloor> < 2 ^ 31" using assms(2) by (simp add: floor_less_iff)
  then show ?thesis using assms(1) by (simp add: double_to_int_def Let_def)
qed

context tcp_kernel
begin

lemma bs_write_round_step:
  assumes "sockfd t = fd" and "up (conns (kernel t) fd)" and "unat sent < length buf"
    and "length buf < 2 ^ 63"
  shows "wp False (bs_write_round L buf sent)
    (\<lambda>r t'. \<exists>sent' m. r = Inl sent' \<and> 0 < m \<and> unat sent' = unat sent + m \<and> unat sent' \<le> length buf
       \<and> sockfd t' = fd
       \<and> step_to conns clock (kernel t) (wrote (conns (kernel t)) fd (take m (drop (unat sent) buf)))
           (kernel t'))
    (\<lambda>_ _. False) t"
proof -
  have ne: "drop (unat sent) buf \<noteq> []" using assms(3) by simp
  have u: "unat (sent + word_of_int n) = unat sent + nat n"
    if "0 < n" "nat n \<le> length buf - unat sent" for n
    using that assms(3,4) by (intro unat_add_word_of_int) auto
  show ?thesis
    unfolding bs_write_round_def
    by (simp only: wp_rules wp_with_fd assms(1,3) if_True)
      (rule wp_mono [OF k_send [OF assms(2) ne]],
        auto simp: assms(1) wp_rules wrote_def u intro!: exI [where x = "nat _"])
qed

lemma bs_write_total:
  assumes fd: "sockfd s = fd" and up: "up (conns (kernel s) fd)" and len: "length buf < 2 ^ 63"
  shows "wp False (bs_write L buf)
    (\<lambda>ok s'. ok \<and> sockfd s' = fd
       \<and> step_to conns clock (kernel s) (wrote (conns (kernel s)) fd buf) (kernel s'))
    (\<lambda>_ _. False) s"
proof -
  define I :: "u64 \<Rightarrow> 'k BaseSocket \<Rightarrow> bool" where
    "I sent t \<longleftrightarrow> sockfd t = fd \<and> unat sent \<le> length buf
       \<and> step_to conns clock (kernel s) (wrote (conns (kernel s)) fd (take (unat sent) buf)) (kernel t)"
    for sent t
  have step: "wp False (bs_write_round L buf sent)
      (\<lambda>r t'. case r of
           Inl sent' \<Rightarrow> I sent' t' \<and> length buf - unat sent' < length buf - unat sent
         | Inr ok \<Rightarrow> ok \<and> sockfd t' = fd
             \<and> step_to conns clock (kernel s) (wrote (conns (kernel s)) fd buf) (kernel t'))
      (\<lambda>_ _. False) t" if "I sent t" for sent t
  proof (cases "unat sent < length buf")
    case False
    with that show ?thesis by (simp add: bs_write_round_def wp_rules I_def)
  next
    case True
    have upt: "up (conns (kernel t) fd)" using that up by (simp add: I_def step_to_def)
    show ?thesis
      by (rule wp_mono [OF bs_write_round_step [OF _ upt True len]])
        (use that in \<open>auto simp: I_def step_to_def take_add\<close>)
  qed
  show ?thesis
    unfolding bs_write_def
    by (rule wp_loop_total [where I = I and \<mu> = "\<lambda>sent t. length buf - unat sent"])
      (use step fd in \<open>simp_all add: I_def step_to_def\<close>)
qed

lemma bs_read_round_step:
  assumes "sockfd t = fd" and "unat r < n" and "n - unat r \<le> length (inbox (conns (kernel t) fd))"
    and "n \<le> length buf" and "n < 2 ^ 63"
  shows "wp False (bs_read_round L n (buf, r))
    (\<lambda>res t'. \<exists>r' m. 0 < m \<and> unat r' = unat r + m \<and> unat r' \<le> n \<and> sockfd t' = fd
       \<and> res = Inl (take (unat r) buf @ take m (inbox (conns (kernel t) fd)) @ drop (unat r + m) buf, r')
       \<and> step_to conns clock (kernel t) (took (conns (kernel t)) fd m) (kernel t'))
    (\<lambda>_ _. False) t"
proof -
  let ?r = "unat r" and ?in = "inbox (conns (kernel t) fd)"
  have ne: "take (n - ?r) (drop ?r buf) \<noteq> []" using assms(2,4) by simp
  have ne': "?in \<noteq> []" using assms(2,3) by auto
  have u: "unat (r + word_of_int k) = ?r + nat k" if "0 < k" "nat k \<le> n - ?r" for k
    using that assms(2,5) by (intro unat_add_word_of_int) auto
  have buf: "drop k (take (n - ?r) (drop ?r buf)) @ drop (?r + (n - ?r)) buf = drop (?r + k) buf"
    if "k \<le> n - ?r" for k
  proof -
    have "drop k (take (n - ?r) (drop ?r buf)) = take (n - ?r - k) (drop (?r + k) buf)"
      by (simp add: drop_take add.commute)
    moreover have "?r + (n - ?r) = (n - ?r - k) + (?r + k)" using that assms(2) by simp
    then have "drop (?r + (n - ?r)) buf = drop (n - ?r - k) (drop (?r + k) buf)"
      by (simp only: drop_drop)
    ultimately show ?thesis by (simp only: append_take_drop_id)
  qed
  have len: "length (take (n - ?r) (drop ?r buf)) = n - ?r" using assms(4) by simp
  show ?thesis
    unfolding bs_read_round_def
    by (simp only: wp_rules wp_with_fd assms(1,2) if_True split_def Let_def fst_conv snd_conv)
      (rule wp_mono [OF k_recv [OF ne' ne]],
        auto simp: assms(1) wp_rules took_def u len buf split: prod.splits intro!: exI [where x = "nat _"])
qed

lemma bs_read_total:
  assumes fd: "sockfd s = fd" and "n \<le> length (inbox (conns (kernel s) fd))" and "n \<le> length buf"
    and "n < 2 ^ 63"
  shows "wp False (bs_read L buf n)
    (\<lambda>(ok, buf') s'. ok \<and> buf' = take n (inbox (conns (kernel s) fd)) @ drop n buf \<and> sockfd s' = fd
       \<and> step_to conns clock (kernel s) (took (conns (kernel s)) fd n) (kernel s'))
    (\<lambda>_ _. False) s"
proof -
  let ?in = "inbox (conns (kernel s) fd)"
  define I :: "bytes \<times> u64 \<Rightarrow> 'k BaseSocket \<Rightarrow> bool" where
    "I a t \<longleftrightarrow> sockfd t = fd \<and> unat (snd a) \<le> n
       \<and> fst a = take (unat (snd a)) ?in @ drop (unat (snd a)) buf
       \<and> step_to conns clock (kernel s) (took (conns (kernel s)) fd (unat (snd a))) (kernel t)" for a t
  have step: "wp False (bs_read_round L n a)
      (\<lambda>res t'. case res of
           Inl a' \<Rightarrow> I a' t' \<and> n - unat (snd a') < n - unat (snd a)
         | Inr x \<Rightarrow> fst x \<and> snd x = take n ?in @ drop n buf \<and> sockfd t' = fd
             \<and> step_to conns clock (kernel s) (took (conns (kernel s)) fd n) (kernel t'))
      (\<lambda>_ _. False) t" if I: "I a t" for a t
  proof (cases "unat (snd a) < n")
    case False
    then have "unat (snd a) = n" using I by (simp add: I_def)
    then show ?thesis using I by (auto simp: bs_read_round_def wp_rules I_def split_def)
  next
    case True
    obtain b r where a: "a = (b, r)" by (cases a)
    have inb: "inbox (conns (kernel t) fd) = drop (unat r) ?in"
      using I by (simp add: I_def step_to_def a)
    have lb: "length b = length buf" using I assms(2,3) by (simp add: I_def a)
    have b: "take (unat r) b = take (unat r) ?in" "drop (unat r + m) b = drop (unat r + m) buf" for m
      using I True assms(2,3) by (simp_all add: I_def a add.commute)
    have r: "unat r < n" using True a by simp
    show ?thesis
      unfolding a
      by (rule wp_mono [OF bs_read_round_step [where fd = fd]])
        (use I True assms(2-4) in \<open>auto simp: a r I_def step_to_def lb b inb take_add split: sum.splits\<close>)
  qed
  have "wp False (loopM (bs_read_round L n) (buf, 0))
      (\<lambda>x s'. fst x \<and> snd x = take n ?in @ drop n buf \<and> sockfd s' = fd
         \<and> step_to conns clock (kernel s) (took (conns (kernel s)) fd n) (kernel s')) (\<lambda>_ _. False) s"
    by (rule wp_loop_total [where I = I and \<mu> = "\<lambda>a t. n - unat (snd a)", OF _ step])
      (simp_all add: I_def fd step_to_def)
  then show ?thesis unfolding bs_read_def by (rule wp_mono) auto
qed

text \<open>A read, whatever is there: if it comes back, it has taken some bytes and written none.\<close>

lemma bs_read_any:
  assumes fd: "sockfd s = fd" and n: "n \<le> length buf"
  shows "wp True (bs_read L buf n)
    (\<lambda>(ok, buf') s'. length buf' = length buf \<and> sockfd s' = fd
       \<and> (\<exists>m. step_to conns clock (kernel s) (took (conns (kernel s)) fd m) (kernel s')))
    (\<lambda>_ _. False) s"
proof -
  define I :: "bytes \<Rightarrow> 'k BaseSocket \<Rightarrow> bool" where
    "I b t \<longleftrightarrow> length b = length buf \<and> sockfd t = fd
       \<and> (\<exists>m. step_to conns clock (kernel s) (took (conns (kernel s)) fd m) (kernel t))" for b t
  have I_step: "I b' t'" if "I b t" "length b' = length b" "sockfd t' = fd"
    "step_to conns clock (kernel t) (took (conns (kernel t)) fd m) (kernel t')" for b b' t t' m
    using that by (auto simp: I_def step_to_def)
  have step: "wp True (bs_read_round L n a)
      (\<lambda>res t'. case res of Inl a' \<Rightarrow> I (fst a') t' | Inr x \<Rightarrow> I (snd x) t') (\<lambda>_ _. False) t" if I: "I (fst a) t" for a t
  proof (cases "unat (snd a) < n")
    case False
    then show ?thesis using I by (auto simp: bs_read_round_def wp_rules split_def)
  next
    case True
    obtain b r where a: "a = (b, r)" by (cases a)
    let ?piece = "take (n - unat r) (drop (unat r) b)" and ?in = "inbox (conns (kernel t) fd)"
    have lb: "length b = length buf" and sf: "sockfd t = fd" using I by (simp_all add: I_def a)
    have r: "unat r < n" and ne: "?piece \<noteq> []" using True n lb by (simp_all add: a)
    have recv: "wp True (lx_recv L fd ?piece 0)
        (\<lambda>(m, p) k'. length p = length ?piece
           \<and> (\<exists>i. step_to conns clock (kernel t) (took (conns (kernel t)) fd i) k')) (\<lambda>_ _. False) (kernel t)"
    proof (cases "?in = []")
      case True
      show ?thesis
        by (rule wp_mono [OF k_recv_empty [OF True]])
          (auto intro!: exI [where x = 0] simp: took_simps)
    next
      case False
      show ?thesis
        by (rule wp_mono [OF wp_total_partial [OF k_recv [OF False ne]]]) (auto simp: took_def)
    qed
    have keep: "I (take (unat r) b @ p @ drop (unat r + (n - unat r)) b) (t\<lparr>kernel := k'\<rparr>)"
      if "length p = length ?piece" "step_to conns clock (kernel t) (took (conns (kernel t)) fd i) k'" for p i k'
      using that r n lb by (intro I_step [OF I, of _ _ i]) (simp_all add: a sf)
    have again: "I b' (t\<lparr>kernel := k''\<rparr>)" if "I b' (t\<lparr>kernel := k'\<rparr>)" "step_to conns clock k' (conns k') k''" for b' k' k''
      using that by (intro I_step [OF that(1), of _ _ 0]) (auto simp: I_def)
    show ?thesis
      using recv unfolding a bs_read_round_def
      by (simp only: wp_rules wp_with_fd sf r if_True split_def Let_def fst_conv snd_conv)
        (elim wp_mono, auto simp: wp_rules wp_on_kernel sf split_def
          intro!: wp_mono [OF wp_total_partial [OF k_errno]] intro: keep,
          (rule again [OF keep], simp, assumption, assumption)+)
  qed
  have "wp True (loopM (bs_read_round L n) (buf, 0)) (\<lambda>x s'. I (snd x) s') (\<lambda>_ _. False) s"
    by (rule wp_loop_partial [where I = "\<lambda>a. I (fst a)"], simp add: I_def fd step_to_def, rule exI [where x = 0], simp)
      (rule step)
  then show ?thesis unfolding bs_read_def by (rule wp_mono) (auto simp: I_def)
qed

lemma bs_drain_total:
  assumes "sockfd s = fd" and "\<not> up (conns (kernel s) fd)" and "length buf = 512"
  shows "wp False (loopM (bs_drain_round L) buf)
    (\<lambda>_ s'. sockfd s' = fd \<and> \<not> up (conns (kernel s') fd)
       \<and> outbox (conns (kernel s') fd) = outbox (conns (kernel s) fd)
       \<and> (\<forall>f. f \<noteq> fd \<longrightarrow> conns (kernel s') f = conns (kernel s) f) \<and> clock (kernel s) \<le> clock (kernel s'))
    (\<lambda>_ _. False) s"
proof -
  define I :: "bytes \<Rightarrow> 'k BaseSocket \<Rightarrow> bool" where
    "I b t \<longleftrightarrow> sockfd t = fd \<and> \<not> up (conns (kernel t) fd) \<and> length b = 512
       \<and> outbox (conns (kernel t) fd) = outbox (conns (kernel s) fd)
       \<and> (\<forall>f. f \<noteq> fd \<longrightarrow> conns (kernel t) f = conns (kernel s) f) \<and> clock (kernel s) \<le> clock (kernel t)"
    for b t
  have step: "wp False (bs_drain_round L b)
      (\<lambda>res t'. case res of
           Inl b' \<Rightarrow> I b' t' \<and> length (inbox (conns (kernel t') fd)) < length (inbox (conns (kernel t) fd))
         | Inr _ \<Rightarrow> sockfd t' = fd \<and> \<not> up (conns (kernel t') fd)
             \<and> outbox (conns (kernel t') fd) = outbox (conns (kernel s) fd)
       \<and> (\<forall>f. f \<noteq> fd \<longrightarrow> conns (kernel t') f = conns (kernel s) f) \<and> clock (kernel s) \<le> clock (kernel t'))
      (\<lambda>_ _. False) t" if I: "I b t" for b t
  proof (cases "inbox (conns (kernel t) fd) = []")
    case True
    have dn: "\<not> up (conns (kernel t) fd)" and sf: "sockfd t = fd" using I by (simp_all add: I_def)
    show ?thesis
      unfolding bs_drain_round_def
      by (simp only: wp_rules wp_with_fd sf, rule wp_mono [OF k_recv_end [OF dn True]])
        (use I in \<open>auto simp: wp_rules I_def step_to_def\<close>)
  next
    case False
    have ne: "b \<noteq> []" and sf: "sockfd t = fd" using I by (auto simp: I_def)
    show ?thesis
      unfolding bs_drain_round_def
      by (simp only: wp_rules wp_with_fd sf, rule wp_mono [OF k_recv [OF False ne]])
        (use I in \<open>auto simp: wp_rules I_def step_to_def split: prod.splits\<close>)
  qed
  show ?thesis
    by (rule wp_loop_total [where I = I and \<mu> = "\<lambda>b t. length (inbox (conns (kernel t) fd))"])
      (use step assms in \<open>simp_all add: I_def\<close>)
qed

lemma bs_close_total:
  assumes "sockfd s = fd" and "fd \<noteq> kInvalidSocket"
  shows "wp False (bs_close L)
    (\<lambda>_ s'. sockfd s' = kInvalidSocket \<and> \<not> up (conns (kernel s') fd)
       \<and> outbox (conns (kernel s') fd) = outbox (conns (kernel s) fd)
       \<and> (\<forall>f. f \<noteq> fd \<longrightarrow> conns (kernel s') f = conns (kernel s) f) \<and> clock (kernel s) \<le> clock (kernel s'))
    (\<lambda>_ _. False) s"
proof -
  have tail: "wp False (bindM (loopM (bs_drain_round L) (replicate 512 0)) (\<lambda>_.
        bindM (with_fd (lx_close L)) (\<lambda>_. modifyM (\<lambda>s. s\<lparr>sockfd := kInvalidSocket\<rparr>))))
      (\<lambda>_ s'. sockfd s' = kInvalidSocket \<and> \<not> up (conns (kernel s') fd)
         \<and> outbox (conns (kernel s') fd) = outbox (conns (kernel t) fd)
       \<and> (\<forall>f. f \<noteq> fd \<longrightarrow> conns (kernel s') f = conns (kernel t) f) \<and> clock (kernel t) \<le> clock (kernel s'))
      (\<lambda>_ _. False) t" if "sockfd t = fd" "\<not> up (conns (kernel t) fd)" for t
    unfolding wp_rules wp_with_fd
    by (rule wp_mono [OF bs_drain_total [OF that]], simp, rule wp_mono [OF k_close])
      (auto simp: step_to_def)
  show ?thesis
    unfolding bs_close_def wp_bind [of _ "getsM sockfd"] wp_basic assms(1)
    by (simp only: assms(2) not_False_eq_True if_True wp_bind [of _ "with_fd (lx_shutdown L)"] wp_with_fd assms(1),
        rule wp_mono [OF k_shutdown [of fd]], rule wp_mono [OF tail])
      (use assms in \<open>auto simp: step_to_def\<close>)
qed

end

text \<open>One descriptor of the system, held by a \<open>Socket\<close>.\<close>

locale tcp_socket = tcp_kernel +
  fixes fd :: int
  assumes fd_valid: "fd \<noteq> kInvalidSocket"

text \<open>Whatever the object does to its descriptor, it leaves the other descriptors alone.\<close>

definition keeps :: "('k \<Rightarrow> int \<Rightarrow> connection) \<Rightarrow> int \<Rightarrow> (int \<Rightarrow> connection) \<Rightarrow> 'k BaseSocket \<Rightarrow> bool" where
  "keeps conns fd others s \<longleftrightarrow> owns conns fd s \<and> (\<forall>f. f \<noteq> fd \<longrightarrow> conns (kernel s) f = others f)"

lemma keeps_self: "owns conns fd s \<Longrightarrow> keeps conns fd (conns (kernel s)) s"
  by (simp add: keeps_def)

context tcp_socket
begin

lemma framed_socket: "stream_socket (Socket L) (linux_of_socket L)
  (\<lambda>s. conns (kernel s) fd) (\<lambda>s. clock (kernel s)) (keeps conns fd others)"
proof
  fix w :: "'a BaseSocket" and n :: nat and buf :: bytes and t :: rat and sec nsec :: int and old :: bytes
  note wdefs = Socket_def owns_def keeps_def step_to_def linux_of_socket_def
  {
    assume "keeps conns fd others w" "up (conns (kernel w) fd)" "n \<le> length (inbox (conns (kernel w) fd))"
      "n \<le> length buf" "n < 2 ^ 63"
    then show "wp False (sock_read (Socket L) buf n)
        (\<lambda>(ok, buf') w'. ok \<and> buf' = take n (inbox (conns (kernel w) fd)) @ drop n buf \<and> keeps conns fd others w'
           \<and> step_to (\<lambda>s. conns (kernel s) fd) (\<lambda>s. clock (kernel s)) w
               ((conns (kernel w) fd)\<lparr>inbox := drop n (inbox (conns (kernel w) fd))\<rparr>) w')
        (\<lambda>_ _. False) w"
      by (simp add: Socket_def, intro wp_mono [OF bs_read_total [where fd = fd]])
        (auto simp: wdefs took_def)
  next
    assume "keeps conns fd others w" "up (conns (kernel w) fd)" "n \<le> length buf"
    then show "wp True (sock_read (Socket L) buf n)
        (\<lambda>(ok, buf') w'. length buf' = length buf \<and> keeps conns fd others w' \<and> up (conns (kernel w') fd)
           \<and> outbox (conns (kernel w') fd) = outbox (conns (kernel w) fd) \<and> clock (kernel w) \<le> clock (kernel w'))
        (\<lambda>_ _. False) w"
      by (simp add: Socket_def, intro wp_mono [OF bs_read_any [where fd = fd]])
        (auto simp: wdefs took_def)
  next
    assume "keeps conns fd others w" "up (conns (kernel w) fd)" "length buf < 2 ^ 63"
    then show "wp False (sock_send (Socket L) buf)
        (\<lambda>ok w'. ok \<and> keeps conns fd others w'
           \<and> step_to (\<lambda>s. conns (kernel s) fd) (\<lambda>s. clock (kernel s)) w
               ((conns (kernel w) fd)\<lparr>outbox := outbox (conns (kernel w) fd) @ buf\<rparr>) w')
        (\<lambda>_ _. False) w"
      by (simp add: Socket_def, intro wp_mono [OF bs_write_total [where fd = fd]])
        (auto simp: wdefs wrote_def)
  next
    assume *: "keeps conns fd others w" "up (conns (kernel w) fd)" "0 \<le> t"
      and range: "inbox (conns (kernel w) fd) = [] \<Longrightarrow> t * 1000 < 2 ^ 31"
    have poll: "wp False (lx_poll L fd POLLIN (double_to_int (t * 1000)))
        (\<lambda>(rc, revents) k'. step_to conns clock (kernel w) (conns (kernel w)) k'
           \<and> (if inbox (conns (kernel w) fd) = [] then rc = 0 else 0 < rc \<and> revents AND POLLIN \<noteq> 0))
        (\<lambda>_ _. False) (kernel w)"
    proof (cases "inbox (conns (kernel w) fd) = []")
      case True
      have "0 \<le> double_to_int (t * 1000)" using *(3) range [OF True] by (rule double_to_int_nonneg)
      from k_poll_idle [OF *(2) True this] show ?thesis by (rule wp_mono) (use True in auto)
    next
      case False
      from k_poll [OF *(2) False] show ?thesis by (rule wp_mono) (use False in auto)
    qed
    then show "wp False (sock_wait (Socket L) t)
        (\<lambda>st w'. keeps conns fd others w'
           \<and> step_to (\<lambda>s. conns (kernel s) fd) (\<lambda>s. clock (kernel s)) w (conns (kernel w) fd) w'
           \<and> st = (if inbox (conns (kernel w) fd) = [] then kWaitTimeout else kWaitOK))
        (\<lambda>_ _. False) w"
      unfolding Socket_def bs_wait_def bs_do_wait_def Let_def ISocket.simps
      using * by (simp only: if_True wp_rules wp_with_fd owns_def keeps_def, elim wp_mono)
        (auto simp: wp_rules wdefs split: if_splits)
  next
    assume "keeps conns fd others w"
    then show "wp False (sock_is_connected (Socket L)) (\<lambda>b w'. b = up (conns (kernel w) fd) \<and> w' = w) (\<lambda>_ _. False) w"
      using fd_valid by (auto simp: Socket_def bs_is_connected_def wp_rules owns_def keeps_def split: if_splits)
  next
    assume "keeps conns fd others w"
    then show "wp False (sock_is_endpoint_connected (Socket L))
        (\<lambda>b w'. keeps conns fd others w'
           \<and> step_to (\<lambda>s. conns (kernel s) fd) (\<lambda>s. clock (kernel s)) w (conns (kernel w) fd) w')
        (\<lambda>_ _. False) w"
      by (simp add: Socket_def bs_is_endpoint_connected_def wp_rules wp_with_fd,
          intro wp_mono [OF k_raw_recv]) (auto simp: wdefs wp_rules split: prod.splits)
  next
    assume own: "keeps conns fd others w"
    show "wp False (sock_close (Socket L))
        (\<lambda>_ w'. keeps conns fd others w' \<and> \<not> up (conns (kernel w') fd)
           \<and> outbox (conns (kernel w') fd) = outbox (conns (kernel w) fd) \<and> clock (kernel w) \<le> clock (kernel w'))
        (\<lambda>_ _. False) w"
    proof (cases "up (conns (kernel w) fd)")
      case True
      then have "sockfd w = fd" using own by (simp add: owns_def keeps_def)
      from bs_close_total [OF this fd_valid] show ?thesis
        unfolding Socket_def ISocket.simps
        by (rule wp_mono) (use own in \<open>auto simp: owns_def keeps_def\<close>)
    next
      case False
      then show ?thesis using own by (simp add: Socket_def bs_close_def wp_rules owns_def keeps_def)
    qed
  next
    assume "keeps conns fd others w" "up (conns (kernel w) fd)"
    then show "wp False (sock_turn_buffering_off (Socket L))
        (\<lambda>_ w'. keeps conns fd others w'
           \<and> step_to (\<lambda>s. conns (kernel s) fd) (\<lambda>s. clock (kernel s)) w (conns (kernel w) fd) w')
        (\<lambda>_ _. False) w"
      by (simp add: Socket_def bs_set_nodelay_def wp_rules wp_with_fd,
          intro wp_mono [OF k_setsockopt]) (auto simp: wdefs)
  next
    assume "keeps conns fd others w" "up (conns (kernel w) fd)"
    then show "wp False (sock_turn_buffering_on (Socket L))
        (\<lambda>_ w'. keeps conns fd others w'
           \<and> step_to (\<lambda>s. conns (kernel s) fd) (\<lambda>s. clock (kernel s)) w (conns (kernel w) fd) w')
        (\<lambda>_ _. False) w"
      by (simp add: Socket_def bs_set_nodelay_def wp_rules wp_with_fd,
          intro wp_mono [OF k_setsockopt]) (auto simp: wdefs)
  next
    assume own: "keeps conns fd others w"
    show "wp False (lx_clock_gettime (linux_of_socket L))
        (\<lambda>r w'. (\<exists>t. r = (t div 10 ^ 9, t mod 10 ^ 9) \<and> \<bar>t - clock (kernel w')\<bar> \<le> kDrift)
           \<and> clock (kernel w) < clock (kernel w') \<and> keeps conns fd others w'
           \<and> step_to (\<lambda>s. conns (kernel s) fd) (\<lambda>s. clock (kernel s)) w (conns (kernel w) fd) w')
        (\<lambda>_ _. False) w"
      unfolding linux_of_socket_def ILinux.simps wp_on_kernel
      by (rule wp_mono [OF k_clock]) (use own in \<open>auto simp: owns_def keeps_def step_to_def\<close>)
    show "wp False (lx_clock_nanosleep (linux_of_socket L) sec nsec)
        (\<lambda>r w'. r = 0 \<and> keeps conns fd others w'
           \<and> step_to (\<lambda>s. conns (kernel s) fd) (\<lambda>s. clock (kernel s)) w (conns (kernel w) fd) w')
        (\<lambda>_ _. False) w" if "0 \<le> sec" "0 \<le> nsec" "nsec < 10 ^ 9"
      unfolding linux_of_socket_def ILinux.simps wp_on_kernel
      by (rule wp_mono [OF k_nanosleep [OF that]]) (use own in \<open>auto simp: owns_def keeps_def step_to_def\<close>)
    show "wp False (lx_getrandom (linux_of_socket L) old)
        (\<lambda>(n, new) w'. length new = length old \<and> keeps conns fd others w'
           \<and> step_to (\<lambda>s. conns (kernel s) fd) (\<lambda>s. clock (kernel s)) w (conns (kernel w) fd) w')
        (\<lambda>_ _. False) w"
      unfolding linux_of_socket_def ILinux.simps wp_on_kernel
      by (rule wp_mono [OF k_getrandom]) (use own in \<open>auto simp: owns_def keeps_def step_to_def\<close>)
  }
qed

end

text \<open>The contract without the other descriptors.\<close>

lemma stream_socket_cover:
  assumes s: "\<And>x. stream_socket S L conn ticks (V x)" and v: "\<And>w. valid w = (\<exists>x. V x w)"
  shows "stream_socket S L conn ticks valid"
proof -
  note laws = stream_socket.s_read [OF s]
    stream_socket.s_read_any [OF s]
    stream_socket.s_send [OF s]
    stream_socket.s_wait [OF s]
    stream_socket.s_is_connected [OF s]
    stream_socket.s_endpoint [OF s]
    stream_socket.s_close [OF s]
    stream_socket.s_off [OF s]
    stream_socket.s_on [OF s]
    stream_socket.s_clock [OF s]
    stream_socket.s_nanosleep [OF s]
    stream_socket.s_getrandom [OF s]
  show ?thesis
    by (unfold_locales; unfold v; elim exE; (rule wp_mono, erule laws; force))
qed

sublocale tcp_socket \<subseteq> stream_socket "Socket L" "linux_of_socket L"
  "\<lambda>s. conns (kernel s) fd" "\<lambda>s. clock (kernel s)" "owns conns fd"
  by (rule stream_socket_cover [where V = "keeps conns fd"], rule framed_socket)
    (auto simp: keeps_def)

end
