(* ===== verification/Frame_Recv.thy ===== *)
theory Frame_Recv
  imports Frame_Spec Stream_Contract
begin

text \<open>
  Reading: on a socket that keeps the contract of \<open>stream_socket\<close>, \<open>read_message\<close> takes exactly
  one frame of the other side off the connection and leaves its payload, unmasked, in the
  input buffer. The three assertions reject what the header shows to be wrong.
\<close>

section \<open>The websocket over a contract\<close>

fun peer :: "role \<Rightarrow> role" where
  "peer ServerSide = ClientSide"
| "peer ClientSide = ServerSide"

locale websocket = stream_socket S L conn ticks valid
  for S :: "'w ISocket" and L :: "'w ILinux" and conn :: "'w \<Rightarrow> connection"
    and ticks :: "'w \<Rightarrow> int" and valid :: "'w \<Rightarrow> bool" +
  fixes E :: "'w ws_env"
  assumes env_socket: "ws_socket E = S"
    and env_linux: "ws_linux E = L"
    and env_uninit: "length (ws_uninit E n) = n"

lemma wp_on_world:
  "wp T (on_world m) Q X s
     = wp T m (\<lambda>x w. Q x (s\<lparr>world := w\<rparr>)) (\<lambda>e w. X e (s\<lparr>world := w\<rparr>)) (world s)"
  by (simp add: on_world_def wp_zoom)

text \<open>The world after \<open>n\<close> bytes have been read.\<close>

definition consumed ::
  "('w \<Rightarrow> connection) \<Rightarrow> ('w \<Rightarrow> int) \<Rightarrow> ('w \<Rightarrow> bool) \<Rightarrow> 'w \<Rightarrow> nat \<Rightarrow> 'w \<Rightarrow> bool" where
  "consumed conn ticks valid w n w' \<longleftrightarrow> valid w'
     \<and> step_to conn ticks w ((conn w)\<lparr>inbox := drop n (inbox (conn w))\<rparr>) w'"

lemma consumed_trans:
  "consumed conn ticks valid w n w' \<Longrightarrow> consumed conn ticks valid w' m w'' \<Longrightarrow>
     consumed conn ticks valid w (n + m) w''"
  by (auto simp: consumed_def step_to_def add.commute)

lemma consumedD:
  assumes "consumed conn ticks valid w n w'"
  shows "valid w'" "up (conn w') = up (conn w)" "inbox (conn w') = drop n (inbox (conn w))"
    "outbox (conn w') = outbox (conn w)" "ticks w \<le> ticks w'"
  using assms by (auto simp: consumed_def step_to_def)

section \<open>The bytes of a header\<close>

lemma high_bits_clear:
  fixes w :: u8
  assumes "unat w < 2 ^ k" and "k \<le> n"
  shows "\<not> bit w n"
proof -
  have "take_bit k w = w"
    using assms(1) by (simp add: word_unat_eq_iff unsigned_take_bit_eq take_bit_nat_eq_self_iff)
  then have "bit w n \<longleftrightarrow> n < k \<and> bit w n" by (metis bit_take_bit_iff)
  then show ?thesis using assms(2) by simp
qed

lemma flag_byte:
  fixes opc :: u8
  assumes "unat opc < 2 ^ k" and "k \<le> 7"
  shows "(((if f then 0x80 else 0) OR opc) AND 0x80 \<noteq> 0) = f"
    and "((if f then 0x80 else 0) OR opc) AND mask k = opc"
proof -
  have m: "bit (0x80 :: u8) n \<longleftrightarrow> n = 7" for n
  proof -
    have "(0x80 :: u8) = push_bit 7 1" by (simp add: push_bit_eq_mult)
    then show ?thesis by (simp only: bit_push_bit_iff) (auto simp: bit_1_iff)
  qed
  have o: "\<not> bit opc n" if "k \<le> n" for n using assms(1) that by (rule high_bits_clear)
  have "((if f then 0x80 else 0) OR opc) AND 0x80 = (if f then 0x80 else 0)"
    using o [of 7] assms(2) by (intro bit_eqI) (auto simp: bit_simps m simp del: bit_numeral_word_iff)
  then show "(((if f then 0x80 else 0) OR opc) AND 0x80 \<noteq> 0) = f" by simp
  show "((if f then 0x80 else 0) OR opc) AND mask k = opc"
    using o assms(2)
    by (intro bit_eqI) (auto simp: bit_simps m simp del: bit_numeral_word_iff intro: ccontr)
qed

lemma masks: "(0x0f :: u8) = mask 4" "(0x7f :: u8) = mask 7"
  by (simp_all add: mask_eq_exp_minus_1)

text \<open>What a reader gets out of the two first bytes of a header, and how many follow.\<close>

definition length_code :: "nat \<Rightarrow> u8" where
  "length_code n = (if n < 126 then of_nat n else if n < 65536 then 126 else 127)"

definition length_field :: "nat \<Rightarrow> bytes" where
  "length_field n = (if n < 126 then [] else if n < 65536 then rev (store_le 2 (of_nat n :: u16))
     else rev (store_le 8 (of_nat n :: u64)))"

lemma rfc_header_eq:
  "rfc_header final opc masked n =
     [(if final then 0x80 else 0) OR opc, (if masked then 0x80 else 0) OR length_code n] @ length_field n"
  by (simp add: rfc_header_def rfc_length_def length_code_def length_field_def Let_def)

lemma unat_length_code: "unat (length_code n) < 2 ^ 7"
  by (simp add: length_code_def unsigned_of_nat take_bit_nat_eq_self)

definition header_of :: "bool \<Rightarrow> u8 \<Rightarrow> bool \<Rightarrow> nat \<Rightarrow> FrameHeader" where
  "header_of final opc masked n = \<lparr>fin = final, opcode = opc, fmask = masked, flength = length_code n\<rparr>"

section \<open>Reading the header\<close>

context websocket
begin

lemma socket_read_wp:
  assumes "valid (world s)" and "up (conn (world s))" and "n \<le> length (inbox (conn (world s)))"
    and "n \<le> length buf" and "n < 2 ^ 63"
    and post: "\<And>w'. consumed conn ticks valid (world s) n w' \<Longrightarrow>
      Q (take n (inbox (conn (world s))) @ drop n buf)
        (pt (take n (inbox (conn (world s))) @ drop n buf) (s\<lparr>world := w'\<rparr>))"
  shows "wp False (socket_read E pt buf n) Q X s"
  unfolding socket_read_def wp_rules wp_on_world split_def env_socket
  by (rule wp_mono [OF s_read [OF assms(1-5)]]) (auto simp: consumed_def wp_rules intro: post [unfolded consumed_def])

lemma input_read_frame_header_wp:
  assumes "valid (world s)" and "up (conn (world s))"
    and inb: "inbox (conn (world s)) = ((if final then 0x80 else 0) OR opc) #
         ((if masked then 0x80 else 0) OR length_code n) # rest"
    and "unat opc < 2 ^ 4"
    and post: "\<And>w'. consumed conn ticks valid (world s) 2 w' \<Longrightarrow>
      Q () (s\<lparr>world := w', frame_header := header_of final opc masked n\<rparr>)"
  shows "wp False (input_read_frame_header E) Q X s"
  unfolding input_read_frame_header_def wp_rules
  by (rule socket_read_wp)
    (use assms flag_byte [OF assms(4), of final] flag_byte [OF unat_length_code, of masked n] in
      \<open>simp_all add: env_uninit wp_rules masks header_of_def\<close>)

lemma load_rev_u16: "ntohs (load_le (rev (store_le 2 (w :: u16)))) = w"
  using ntohs_htons [of w] by (simp add: htons_def)

lemma load_rev_u64: "ntohll (load_le (rev (store_le 8 (w :: u64)))) = w"
  using ntohll_htonll [of w] by (simp add: htonll_def)

lemma ucast_of_nat_u64: "n < 2 ^ LENGTH('a::len) \<Longrightarrow> ucast (of_nat n :: 'a word) = (of_nat n :: u64)"
  by (simp add: word_unat_eq_iff unsigned_ucast_eq unsigned_of_nat take_bit_nat_eq_self)

lemma input_read_payload_length_wp:
  assumes "valid (world s)" and "up (conn (world s))"
    and inb: "inbox (conn (world s)) = length_field n @ rest"
    and hd: "flength (frame_header s) = length_code n"
    and "n < 2 ^ 63"
    and post: "\<And>w'. consumed conn ticks valid (world s) (length (length_field n)) w' \<Longrightarrow>
      Q () (s\<lparr>world := w', input_message_length := of_nat n\<rparr>)"
  shows "wp False (input_read_payload_length E) Q X s"
proof -
  consider (short) "n < 126" | (medium) "\<not> n < 126" "n < 65536" | (long) "\<not> n < 65536" by linarith
  then show ?thesis
  proof cases
    case short
    have "consumed conn ticks valid (world s) 0 (world s)"
      using assms(1) by (simp add: consumed_def step_to_def)
    moreover have "of_nat n < (126 :: u8)"
      using short by (simp add: word_less_nat_alt unsigned_of_nat take_bit_nat_eq_self)
    ultimately show ?thesis
      using short post [of "world s"]
      by (simp add: input_read_payload_length_def wp_rules hd length_code_def length_field_def
          ucast_of_nat_u64)
  next
    case medium
    then have "length_field n = rev (store_le 2 (of_nat n :: u16))" "length_code n = 126"
      by (simp_all add: length_field_def length_code_def)
    with medium show ?thesis
      unfolding input_read_payload_length_def input_read_uint16_def wp_rules hd
      by (simp, intro socket_read_wp)
        (use assms in \<open>simp_all add: env_uninit wp_rules load_rev_u16 ucast_of_nat_u64\<close>)
  next
    case long
    then have "length_field n = rev (store_le 8 (of_nat n :: u64))" "length_code n = 127"
      by (simp_all add: length_field_def length_code_def)
    with long show ?thesis
      unfolding input_read_payload_length_def input_read_uint64_def wp_rules hd
      by (simp, intro socket_read_wp)
        (use assms in \<open>simp_all add: env_uninit wp_rules load_rev_u64\<close>)
  qed
qed

text \<open>The mask a client's frame carries, and the bytes that the header takes on the wire.\<close>

lemma input_read_payload_mask_wp:
  assumes "valid (world s)" and "up (conn (world s))"
    and inb: "inbox (conn (world s)) = msk @ rest" and "length msk = 4" and "length (input_mask s) = 4"
    and post: "\<And>w'. consumed conn ticks valid (world s) 4 w' \<Longrightarrow> Q () (s\<lparr>world := w', input_mask := msk\<rparr>)"
  shows "wp False (input_read_payload_mask E) Q X s"
  unfolding input_read_payload_mask_def wp_rules
  by (rule socket_read_wp) (use assms in \<open>simp_all add: wp_rules\<close>)

end

definition masked_by :: "role \<Rightarrow> bool" where
  "masked_by sender = (sender = ClientSide)"

definition mask_bytes :: "role \<Rightarrow> bytes \<Rightarrow> bytes" where
  "mask_bytes sender msk = (if masked_by sender then msk else [])"

definition on_the_wire :: "role \<Rightarrow> bytes \<Rightarrow> bytes \<Rightarrow> bytes" where
  "on_the_wire sender msk payload = (if masked_by sender then apply_mask payload msk else payload)"

lemma rfc_frame_eq:
  "rfc_frame sender final opc msk payload = rfc_header final opc (masked_by sender) (length payload)
     @ mask_bytes sender msk @ on_the_wire sender msk payload"
  by (cases sender) (simp_all add: rfc_frame_def masked_by_def mask_bytes_def on_the_wire_def)

lemma length_on_the_wire [simp]: "length (on_the_wire sender msk payload) = length payload"
  by (simp add: on_the_wire_def)

text \<open>The state after a header has been read.\<close>

definition header_read ::
  "role \<Rightarrow> bool \<Rightarrow> u8 \<Rightarrow> bool \<Rightarrow> bytes \<Rightarrow> nat \<Rightarrow> 'w \<Rightarrow> 'w WebSocket \<Rightarrow> 'w WebSocket" where
  "header_read role final opc masked msk n w s =
     (case role of
        ServerSide \<Rightarrow> s\<lparr>frame_header := header_of final opc masked n, input_message_length := of_nat n,
                        world := w, input_mask := msk\<rparr>
      | ClientSide \<Rightarrow> s\<lparr>frame_header := header_of final opc masked n, world := w,
                        input_message_length := of_nat n\<rparr>)"

context websocket
begin

lemma input_read_header_wp:
  assumes v: "valid (world s)" and u: "up (conn (world s))"
    and inb: "inbox (conn (world s)) = rfc_header final opc masked n
         @ mask_bytes (peer (ws_role E)) msk @ rest"
    and opc: "unat opc < 2 ^ 4" and n: "n < 2 ^ 63" and msk: "length msk = 4" "length (input_mask s) = 4"
    and post: "\<And>w'. consumed conn ticks valid (world s)
         (length (rfc_header final opc masked n) + length (mask_bytes (peer (ws_role E)) msk)) w' \<Longrightarrow>
      Q () (header_read (ws_role E) final opc masked msk n w' s)"
  shows "wp False (input_read_header E) Q X s"
proof -
  define s1 where "s1 w = s\<lparr>world := w, frame_header := header_of final opc masked n\<rparr>" for w
  define s2 where "s2 w = s\<lparr>frame_header := header_of final opc masked n, world := w,
      input_message_length := of_nat n\<rparr>" for w
  have two: "wp False (input_read_payload_length E) Q' X (s1 w1)"
    if w1: "consumed conn ticks valid (world s) 2 w1"
      and Q': "\<And>w2. consumed conn ticks valid (world s) (2 + length (length_field n)) w2 \<Longrightarrow> Q' () (s2 w2)"
    for Q' w1
    by (rule input_read_payload_length_wp)
      (use w1 u inb n Q' consumed_trans [OF w1] in
        \<open>auto simp: s1_def s2_def consumedD [OF w1] rfc_header_eq header_of_def\<close>)
  show ?thesis
  proof (cases "ws_role E")
    case ClientSide
    have c: "blockM [input_read_frame_header E, input_read_payload_length E] = input_read_header E"
      by (simp add: input_read_header_def input_read_header_client_def ClientSide)
    show ?thesis
      unfolding c [symmetric] wp_block
      by (rule input_read_frame_header_wp [where rest = "length_field n @ rest"])
        (use v u inb opc post in \<open>auto simp: ClientSide mask_bytes_def masked_by_def rfc_header_eq header_read_def
            s2_def intro!: two [unfolded s1_def]\<close>)
  next
    case ServerSide
    have c: "blockM [input_read_frame_header E, input_read_payload_length E, input_read_payload_mask E]
        = input_read_header E"
      by (simp add: input_read_header_def input_read_header_server_def ServerSide)
    have three: "wp False (input_read_payload_mask E) Q X (s2 w2)"
      if w2: "consumed conn ticks valid (world s) (2 + length (length_field n)) w2" for w2
      by (rule input_read_payload_mask_wp)
        (use w2 u inb msk post consumed_trans [OF w2, of 4] in
          \<open>auto simp: s2_def consumedD [OF w2] rfc_header_eq ServerSide mask_bytes_def masked_by_def
            header_read_def\<close>)
    show ?thesis
      unfolding c [symmetric] wp_block
      by (rule input_read_frame_header_wp)
        (use v u inb opc in \<open>auto simp: rfc_header_eq intro!: two [unfolded s1_def] three\<close>)
  qed
qed

section \<open>Reading the payload\<close>

lemma input_append_payload_eq:
  "n \<le> length data \<Longrightarrow> input_append_payload E data n s =
     (let piece = (if masked_by (peer (ws_role E)) then apply_mask (take n data) (input_mask s) else take n data)
      in Some (Inr (piece @ drop n data), s\<lparr>input_payload_buffer := input_payload_buffer s @ piece\<rparr>))"
  by (cases "ws_role E")
    (simp_all add: input_append_payload_def input_append_payload_server_def
      input_append_payload_client_def masked_by_def run Let_def)

lemma wp_input_append_payload:
  assumes "n \<le> length data"
    and "piece = (if masked_by (peer (ws_role E)) then apply_mask (take n data) (input_mask s) else take n data)"
  shows "wp T (input_append_payload E data n) Q X s
     = Q (piece @ drop n data) (s\<lparr>input_payload_buffer := input_payload_buffer s @ piece\<rparr>)"
  using assms by (simp add: wp_def input_append_payload_eq Let_def)

lemma input_read_payload_round_wp:
  assumes "valid (world s)" and "up (conn (world s))" and "length buf = 1024"
    and n: "unat (input_message_length s) = length payload" "length payload < 2 ^ 63"
    and p: "p < length payload" "4 dvd p" and msk: "msk = input_mask s"
    and inb: "inbox (conn (world s)) = drop p (on_the_wire (peer (ws_role E)) msk payload) @ rest"
    and k: "k = (if length payload - p > kPayloadBufferLength then kPayloadBufferLength else length payload - p)"
    and post: "\<And>buf' w'. consumed conn ticks valid (world s) k w' \<Longrightarrow> length buf' = 1024 \<Longrightarrow>
      Q (Inl (p + k, buf')) (s\<lparr>world := w',
          input_payload_buffer := input_payload_buffer s @ take k (drop p payload)\<rparr>)"
  shows "wp False (input_read_payload_round E (p, buf)) Q X s"
proof -
  let ?wire = "on_the_wire (peer (ws_role E)) msk payload"
  have k': "k \<le> length payload - p" "k \<le> 1024" using k by (auto simp: kPayloadBufferLength_def)
  have kp: "k \<le> length payload" using k'(1) by (rule order_trans) simp
  have "apply_mask (take k (drop p (apply_mask payload msk))) msk = take k (drop p payload)"
    using apply_mask_piece [OF p(2), of k "apply_mask payload msk" msk] by simp
  then have piece: "take k (drop p payload)
      = (if masked_by (peer (ws_role E)) then apply_mask (take k (drop p ?wire)) msk else take k (drop p ?wire))"
    by (simp add: on_the_wire_def)
  have k63: "k < 2 ^ 63" using kp n(2) by (rule le_less_trans)
  show ?thesis
    unfolding input_read_payload_round_def split_conv wp_rules n(1) Let_def k [symmetric]
    using p(1)
  proof (simp only: if_True, intro socket_read_wp)
    show "k \<le> length (inbox (conn (world s)))" using k' by (simp add: inb)
    show "k \<le> length buf" using k' assms(3) by simp
    show "k < 2 ^ 63" by (rule k63)
    fix w'
    assume w': "consumed conn ticks valid (world s) k w'"
    let ?b = "take k (inbox (conn (world s))) @ drop k buf"
    have tk: "take k ?b = take k (drop p ?wire)"
      using k' assms(3) by (simp add: inb)
    have "wp False (input_append_payload E ?b k) (\<lambda>buf' t. Q (Inl (p + k, buf')) t) X (s\<lparr>world := w'\<rparr>)"
    proof (subst wp_input_append_payload [where piece = "take k (drop p payload)"])
      show "k \<le> length ?b" using k' assms(3) by (simp add: inb)
      show "take k (drop p payload) = (if masked_by (peer (ws_role E))
          then apply_mask (take k ?b) (input_mask (s\<lparr>world := w'\<rparr>)) else take k ?b)"
        unfolding tk using piece by (simp add: msk)
      show "Q (Inl (p + k, take k (drop p payload) @ drop k ?b))
          (s\<lparr>world := w', input_payload_buffer := input_payload_buffer (s\<lparr>world := w'\<rparr>)
             @ take k (drop p payload)\<rparr>)"
        using post [OF w'] k' assms(3) by (simp add: inb)
    qed
    then show "wp False (input_append_payload E ?b k) (\<lambda>x. Q (Inl (p + k, x))) X (s\<lparr>world := w'\<rparr>)" .
  qed (use assms in simp_all)
qed

lemma input_read_payload_wp:
  assumes v: "valid (world s)" and u: "up (conn (world s))"
    and n: "unat (input_message_length s) = length payload" "length payload < 2 ^ 63"
    and msk: "msk = input_mask s"
    and inb: "inbox (conn (world s)) = on_the_wire (peer (ws_role E)) msk payload @ rest"
    and post: "\<And>w'. consumed conn ticks valid (world s) (length payload) w' \<Longrightarrow>
      Q () (s\<lparr>world := w', input_payload_buffer := payload\<rparr>)"
  shows "wp False (input_read_payload E) Q X s"
proof -
  let ?wire = "on_the_wire (peer (ws_role E)) msk payload"
  define I :: "nat \<times> bytes \<Rightarrow> 'w WebSocket \<Rightarrow> bool" where
    "I a t \<longleftrightarrow> (\<exists>w. t = s\<lparr>world := w, input_payload_buffer := take (fst a) payload\<rparr>
        \<and> consumed conn ticks valid (world s) (fst a) w) \<and> length (snd a) = 1024
        \<and> fst a \<le> length payload \<and> (fst a < length payload \<longrightarrow> 4 dvd fst a)" for a t
  have step: "wp False (input_read_payload_round E a)
      (\<lambda>r t'. case r of Inl a' \<Rightarrow> I a' t' \<and> length payload - fst a' < length payload - fst a
                      | Inr b \<Rightarrow> Q b t') X t" if I: "I a t" for a t
  proof (cases "fst a < length payload")
    case False
    with I have "fst a = length payload" by (simp add: I_def)
    with I post n show ?thesis
      by (auto simp: I_def input_read_payload_round_def split_def wp_rules)
  next
    case True
    obtain p buf where a: "a = (p, buf)" by (cases a)
    obtain w where t: "t = s\<lparr>world := w, input_payload_buffer := take p payload\<rparr>"
      and w: "consumed conn ticks valid (world s) p w" and lb: "length buf = 1024" and dv: "4 dvd p"
      using I True by (auto simp: I_def a)
    have plt: "p < length payload" using True a by simp
    have inbw: "inbox (conn w) = drop p ?wire @ rest"
      using plt by (simp add: consumedD [OF w] inb)
    show ?thesis
      unfolding a
    proof (rule input_read_payload_round_wp [where payload = payload and msk = msk and rest = rest
          and k = "if length payload - p > kPayloadBufferLength then kPayloadBufferLength else length payload - p"])
      fix buf' w'
      assume w': "consumed conn ticks valid (world t)
            (if length payload - p > kPayloadBufferLength then kPayloadBufferLength else length payload - p) w'"
        and lb': "length (buf' :: bytes) = 1024"
      define k where "k = (if length payload - p > kPayloadBufferLength then kPayloadBufferLength else length payload - p)"
      have k: "0 < k" "p + k \<le> length payload" "p + k < length payload \<Longrightarrow> k = 1024"
        using plt by (auto simp: k_def kPayloadBufferLength_def split: if_splits)
      have "consumed conn ticks valid (world s) (p + k) w'"
        using consumed_trans [OF w, of k w'] w' by (simp add: t k_def)
      moreover have "4 dvd p + k" if "p + k < length payload"
        using k(3) [OF that] dv by simp
      ultimately have "I (p + k, buf') (t\<lparr>world := w', input_payload_buffer := input_payload_buffer t
            @ take k (drop p payload)\<rparr>)"
        using k lb' by (auto simp: I_def t take_add)
      then show "case Inl (p + (if length payload - p > kPayloadBufferLength then kPayloadBufferLength
              else length payload - p), buf') of
            Inl a' \<Rightarrow> I a' (t\<lparr>world := w', input_payload_buffer := input_payload_buffer t @ take
              (if length payload - p > kPayloadBufferLength then kPayloadBufferLength else length payload - p)
              (drop p payload)\<rparr>) \<and> length payload - fst a' < length payload - fst (p, buf)
          | Inr b \<Rightarrow> Q b (t\<lparr>world := w', input_payload_buffer := input_payload_buffer t @ take
              (if length payload - p > kPayloadBufferLength then kPayloadBufferLength else length payload - p)
              (drop p payload)\<rparr>)"
        unfolding k_def [symmetric] using k by simp
    qed (use plt dv lb inbw consumedD [OF w] u n msk in \<open>simp_all add: t\<close>)
  qed
  have start: "I (0, ws_uninit E kPayloadBufferLength) (s\<lparr>input_payload_buffer := []\<rparr>)"
    using v by (simp add: I_def env_uninit kPayloadBufferLength_def consumed_def step_to_def)
      (rule exI [where x = "world s"], simp)
  show ?thesis
    unfolding input_read_payload_def wp_rules
    by (rule wp_loop_total [where I = I and \<mu> = "\<lambda>a t. length payload - fst a", OF start step])
qed

end

section \<open>A whole frame\<close>

text \<open>What a frame of the peer leaves in the object that has read it.\<close>

definition message_read ::
  "role \<Rightarrow> bool \<Rightarrow> u8 \<Rightarrow> bytes \<Rightarrow> bytes \<Rightarrow> 'w \<Rightarrow> 'w WebSocket \<Rightarrow> 'w WebSocket" where
  "message_read role final opc msk payload w s =
     s\<lparr>frame_header := header_of final opc (masked_by (peer role)) (length payload),
       input_message_length := of_nat (length payload),
       input_mask := (if masked_by (peer role) then msk else input_mask s),
       world := w, input_payload_buffer := payload\<rparr>"

lemma message_read_simps [simp]:
  "frame_header (message_read role final opc msk payload w s)
     = header_of final opc (masked_by (peer role)) (length payload)"
  "input_payload_buffer (message_read role final opc msk payload w s) = payload"
  "world (message_read role final opc msk payload w s) = w"
  "message_arg (message_read role final opc msk payload w s) = message_arg s"
  "is_text (message_read role final opc msk payload w s) = is_text s"
  "is_continuation (message_read role final opc msk payload w s) = is_continuation s"
  "output_mask (message_read role final opc msk payload w s) = output_mask s"
  "output_message_buffer (message_read role final opc msk payload w s) = output_message_buffer s"
  "remote_close_reason (message_read role final opc msk payload w s) = remote_close_reason s"
  "length msk = 4 \<Longrightarrow> length (input_mask s) = 4 \<Longrightarrow>
     length (input_mask (message_read role final opc msk payload w s)) = 4"
  by (simp_all add: message_read_def)

lemma header_of_simps [simp]:
  "fin (header_of final opc masked n) = final"
  "opcode (header_of final opc masked n) = opc"
  "fmask (header_of final opc masked n) = masked"
  "flength (header_of final opc masked n) = length_code n"
  by (simp_all add: header_of_def)

lemma header_read_simps [simp]:
  "frame_header (header_read role final opc masked msk n w s) = header_of final opc masked n"
  "input_message_length (header_read role final opc masked msk n w s) = of_nat n"
  "world (header_read role final opc masked msk n w s) = w"
  by (cases role; simp add: header_read_def)+

lemma header_read_payload:
  "(header_read role final opc (masked_by (peer role)) msk (length payload) w s)
     \<lparr>world := w', input_payload_buffer := payload\<rparr> = message_read role final opc msk payload w' s"
  by (cases role) (simp_all add: header_read_def message_read_def masked_by_def)

lemma valid_opcode_lt: "valid_opcode opc \<Longrightarrow> unat opc < 2 ^ 4"
  by (auto simp: valid_opcode_def opcode_defs)

lemma maximum_payload: "unat kMaximumPayloadLength = 134217728" "kMaximumMessageLength = 134217728"
  by (simp_all add: kMaximumPayloadLength_def kMaximumMessageLength_def)

lemma unat_of_nat_u64: "n < 2 ^ 64 \<Longrightarrow> unat (of_nat n :: u64) = n"
  by (simp add: unsigned_of_nat take_bit_nat_eq_self)

context websocket
begin

lemma wp_input_assert_mask_flag:
  "wp T (input_assert_mask_flag E) Q X s =
     (if fmask (frame_header s) = masked_by (peer (ws_role E)) then Q () s
      else X (RecvError (case ws_role E of ServerSide \<Rightarrow> ''Client sent unmasked frame''
                           | ClientSide \<Rightarrow> ''Server sent masked frame'') kCloseProtocolError) s)"
  by (cases "ws_role E")
    (simp_all add: input_assert_mask_flag_def input_assert_mask_flag_server_def
      input_assert_mask_flag_client_def wp_rules masked_by_def)

lemma wp_input_assert_opcode:
  "wp T input_assert_opcode Q X s =
     (if valid_opcode (opcode (frame_header s)) then Q () s
      else X (RecvError ''Invalid opcode'' kCloseProtocolError) s)"
  by (simp add: input_assert_opcode_def wp_rules)

lemma wp_input_assert_payload_length:
  "wp T input_assert_payload_length Q X s =
     (if unat (input_message_length s) \<le> 134217728 then Q () s
      else X (RecvError ''Message too large'' kCloseTooBig) s)"
  by (simp add: input_assert_payload_length_def wp_rules word_less_nat_alt maximum_payload)

lemmas wp_asserts = wp_input_assert_mask_flag wp_input_assert_opcode wp_input_assert_payload_length

lemma read_message_wp:
  assumes v: "valid (world s)" and u: "up (conn (world s))"
    and inb: "inbox (conn (world s)) = rfc_frame (peer (ws_role E)) final opc msk payload @ rest"
    and opc: "valid_opcode opc" and n: "length payload \<le> 134217728"
    and msk: "length msk = 4" "length (input_mask s) = 4"
    and post: "\<And>w'. consumed conn ticks valid (world s)
         (length (rfc_frame (peer (ws_role E)) final opc msk payload)) w' \<Longrightarrow>
      Q () (message_read (ws_role E) final opc msk payload w' s)"
  shows "wp False (read_message E) Q X s"
proof -
  let ?r = "ws_role E" and ?wire = "on_the_wire (peer (ws_role E)) msk payload"
  let ?h = "rfc_header final opc (masked_by (peer ?r)) (length payload)"
  let ?k = "length ?h + length (mask_bytes (peer ?r) msk)"
  have n64: "length payload < 2 ^ 64" "length payload < 2 ^ 63" using n by simp_all
  have inb': "inbox (conn (world s)) = ?h @ mask_bytes (peer ?r) msk @ ?wire @ rest"
    using inb by (simp add: rfc_frame_eq)
  have payload: "wp False (input_read_payload E) Q X (header_read ?r final opc (masked_by (peer ?r)) msk
        (length payload) w s)"
    if w: "consumed conn ticks valid (world s) ?k w" for w
  proof (rule input_read_payload_wp [where payload = payload and rest = rest, OF _ _ _ n64(2) refl])
    show "unat (input_message_length (header_read ?r final opc (masked_by (peer ?r)) msk (length payload) w s))
        = length payload"
      by (simp add: unat_of_nat_u64 [OF n64(1)])
    show "inbox (conn (world (header_read ?r final opc (masked_by (peer ?r)) msk (length payload) w s)))
        = on_the_wire (peer ?r) (input_mask (header_read ?r final opc (masked_by (peer ?r)) msk
            (length payload) w s)) payload @ rest"
      using consumedD(3) [OF w]
      by (cases ?r) (simp_all add: inb' header_read_def on_the_wire_def masked_by_def)
    fix w'
    assume "consumed conn ticks valid (world (header_read ?r final opc (masked_by (peer ?r)) msk
         (length payload) w s)) (length payload) w'"
    then have "consumed conn ticks valid (world s) (?k + length payload) w'"
      using consumed_trans [OF w] by simp
    then show "Q () ((header_read ?r final opc (masked_by (peer ?r)) msk (length payload) w s)
        \<lparr>world := w', input_payload_buffer := payload\<rparr>)"
      unfolding header_read_payload using post by (simp add: rfc_frame_eq add.assoc)
  qed (use consumedD [OF w] u in simp_all)
  show ?thesis
    unfolding read_message_def wp_block
    by (rule input_read_header_wp [OF v u inb' valid_opcode_lt [OF opc] n64(2) msk])
      (simp add: input_assert_valid_message_def wp_rules wp_asserts opc n unat_of_nat_u64 [OF n64(1)] payload)
qed

text \<open>The header of a frame that is to be rejected is read and nothing else of it.\<close>

lemma read_message_rejects:
  assumes v: "valid (world s)" and u: "up (conn (world s))"
    and inb: "inbox (conn (world s)) = rfc_header final opc masked n
         @ mask_bytes (peer (ws_role E)) msk @ rest"
    and opc: "unat opc < 2 ^ 4" and n: "n < 2 ^ 63"
    and msk: "length msk = 4" "length (input_mask s) = 4"
    and bad: "masked \<noteq> masked_by (peer (ws_role E)) \<or> \<not> valid_opcode opc \<or> n > 134217728"
    and post: "\<And>w' m. consumed conn ticks valid (world s)
         (length (rfc_header final opc masked n) + length (mask_bytes (peer (ws_role E)) msk)) w' \<Longrightarrow>
      X (RecvError m (if masked \<noteq> masked_by (peer (ws_role E)) \<or> \<not> valid_opcode opc
                      then kCloseProtocolError else kCloseTooBig))
        (header_read (ws_role E) final opc masked msk n w' s)"
  shows "wp False (read_message E) Q X s"
proof -
  have n64: "n < 2 ^ 64" using n by (rule less_trans) simp
  show ?thesis
    unfolding read_message_def wp_block
    by (rule input_read_header_wp [OF v u inb opc n msk])
      (use bad post in \<open>auto simp: input_assert_valid_message_def wp_rules wp_asserts unat_of_nat_u64 [OF n64]
        split: if_splits\<close>)
qed

end

end
