(* ===== verification/Frame_Send.thy ===== *)
theory Frame_Send
  imports Frame_Recv
begin

text \<open>
  Writing: on a socket that keeps the contract of \<open>stream_socket\<close>, \<open>make_message\<close> and \<open>send\<close>
  put exactly one frame of RFC 6455 on the connection, whether the message goes out in one
  write or, from 128 kB on, in pieces of 1 kB; and \<open>close_connection\<close> returns with the
  connection down.
\<close>

section \<open>The world after a write\<close>

definition produced ::
  "('w \<Rightarrow> connection) \<Rightarrow> ('w \<Rightarrow> int) \<Rightarrow> ('w \<Rightarrow> bool) \<Rightarrow> 'w \<Rightarrow> bytes \<Rightarrow> 'w \<Rightarrow> bool" where
  "produced conn ticks valid w bs w' \<longleftrightarrow> valid w'
     \<and> step_to conn ticks w ((conn w)\<lparr>outbox := outbox (conn w) @ bs\<rparr>) w'"

lemma produced_trans:
  "produced conn ticks valid w as w' \<Longrightarrow> produced conn ticks valid w' bs w'' \<Longrightarrow>
     produced conn ticks valid w (as @ bs) w''"
  by (auto simp: produced_def step_to_def)

lemma producedD:
  assumes "produced conn ticks valid w bs w'"
  shows "valid w'" "up (conn w') = up (conn w)" "inbox (conn w') = inbox (conn w)"
    "outbox (conn w') = outbox (conn w) @ bs" "ticks w \<le> ticks w'"
  using assms by (auto simp: produced_def step_to_def)

lemma produced_Nil_iff:
  "produced conn ticks valid w [] w' \<longleftrightarrow> valid w' \<and> step_to conn ticks w (conn w) w'"
  by (simp add: produced_def)

section \<open>Making a message\<close>

text \<open>A client draws a new mask for every frame.\<close>

definition drew_mask :: "role \<Rightarrow> bytes \<Rightarrow> 'w \<Rightarrow> 'w WebSocket \<Rightarrow> 'w WebSocket" where
  "drew_mask role msk w s =
     s\<lparr>world := w, output_mask := (if masked_by role then msk else output_mask s)\<rparr>"

lemma drew_mask_simps [simp]:
  "world (drew_mask role msk w s) = w"
  "frame_header (drew_mask role msk w s) = frame_header s"
  "input_payload_buffer (drew_mask role msk w s) = input_payload_buffer s"
  "input_mask (drew_mask role msk w s) = input_mask s"
  "message_arg (drew_mask role msk w s) = message_arg s"
  "is_text (drew_mask role msk w s) = is_text s"
  "is_continuation (drew_mask role msk w s) = is_continuation s"
  "remote_close_reason (drew_mask role msk w s) = remote_close_reason s"
  "length msk = 4 \<Longrightarrow> length (output_mask s) = 4 \<Longrightarrow> length (output_mask (drew_mask role msk w s)) = 4"
  by (simp_all add: drew_mask_def)

lemma four_bytes: "length msk = 4 \<Longrightarrow> [msk ! 0, msk ! Suc 0, msk ! 2, msk ! 3] = msk"
  by (rule nth_equalityI) (auto simp: less_Suc_eq nth_Cons' numeral_eq_Suc)

context websocket
begin

lemma socket_send_wp:
  assumes "valid (world s)" and "up (conn (world s))" and "length buf < 2 ^ 63"
    and post: "\<And>w'. produced conn ticks valid (world s) buf w' \<Longrightarrow> Q True (s\<lparr>world := w'\<rparr>)"
  shows "wp False (socket_send E buf) Q X s"
  unfolding socket_send_def wp_rules wp_on_world env_socket
  by (rule wp_mono [OF s_send [OF assms(1-3)]]) (auto intro: post simp: produced_def)

lemma output_append_header_wp:
  assumes "valid (world s)" and "length (output_mask s) = 4" and "length message \<noteq> 65536"
    and post: "\<And>msk w'. length msk = 4 \<Longrightarrow> produced conn ticks valid (world s) [] w' \<Longrightarrow>
      Q (out @ rfc_header True opc (masked_by (ws_role E)) (length message) @ mask_bytes (ws_role E) msk)
        (drew_mask (ws_role E) msk w' s)"
  shows "wp False (output_append_header E out opc message) Q X s"
proof (cases "ws_role E")
  case ServerSide
  have "produced conn ticks valid (world s) [] (world s)"
    using assms(1) by (simp add: produced_Nil_iff step_to_def)
  from post [OF _ this, of "replicate 4 0"] assms(3) ServerSide show ?thesis
    by (simp add: output_append_header_def output_append_header_server_def wp_rules masked_by_def
        mask_bytes_def drew_mask_def frame_header_server_rfc)
next
  case ClientSide
  have "Q (out @ frame_header_client opc (length message) @ msk) (s\<lparr>world := w', output_mask := msk\<rparr>)"
    if "length msk = 4" "produced conn ticks valid (world s) [] w'" for msk w'
    using post [OF that] assms(3) ClientSide
    by (simp add: masked_by_def mask_bytes_def drew_mask_def frame_header_client_rfc)
  then show ?thesis
    unfolding output_append_header_def output_append_header_client_def ClientSide make_mask_def
    by (simp add: wp_rules wp_on_world env_linux split_def)
      (rule wp_mono [OF s_getrandom], use assms(1,2) in \<open>auto simp: four_bytes produced_Nil_iff\<close>)
qed

lemma output_append_payload_eq:
  "output_append_payload E out message =
     bindM (getsM output_mask) (\<lambda>msk. returnM (out @ on_the_wire (ws_role E) msk message))"
  by (cases "ws_role E")
    (simp_all add: output_append_payload_def output_append_payload_server_def
      output_append_payload_client_def masked_by_def on_the_wire_def mask_pieces_0 fun_eq_iff run)

lemma make_message_wp:
  assumes "valid (world s)" and "length (output_mask s) = 4" and "length message \<noteq> 65536"
    and post: "\<And>msk w'. length msk = 4 \<Longrightarrow> produced conn ticks valid (world s) [] w' \<Longrightarrow>
      Q (rfc_frame (ws_role E) True opc msk message) (drew_mask (ws_role E) msk w' s)"
  shows "wp False (make_message E opc message) Q X s"
  unfolding make_message_def wp_rules
  by (rule output_append_header_wp [OF assms(1-3)])
    (use post in \<open>auto simp: output_append_payload_eq wp_rules rfc_frame_eq drew_mask_def
      on_the_wire_def split: if_splits\<close>)

lemma length_rfc_frame: "length (rfc_frame sender final opc msk payload) \<le> 10 + length msk + length payload"
  by (simp add: rfc_frame_def rfc_header_def rfc_length_def Let_def split: role.split)

end

section \<open>Sending a message\<close>

text \<open>What a successful \<open>send\<close> changes in the object.\<close>

definition sent_state :: "role \<Rightarrow> bytes \<Rightarrow> bytes \<Rightarrow> 'w \<Rightarrow> 'w WebSocket \<Rightarrow> 'w WebSocket" where
  "sent_state role msk out w s =
     s\<lparr>world := w, output_mask := (if masked_by role then msk else output_mask s),
       output_message_buffer := out\<rparr>"

lemma sent_state_eq:
  "(drew_mask role msk w' s)\<lparr>output_message_buffer := out, world := w\<rparr> = sent_state role msk out w s"
  by (simp add: drew_mask_def sent_state_def)

lemma sent_state_simps [simp]:
  "world (sent_state role msk out w s) = w"
  "output_message_buffer (sent_state role msk out w s) = out"
  "(sent_state role msk out w s)\<lparr>world := w'\<rparr> = sent_state role msk out w' s"
  "frame_header (sent_state role msk out w s) = frame_header s"
  "input_payload_buffer (sent_state role msk out w s) = input_payload_buffer s"
  "input_mask (sent_state role msk out w s) = input_mask s"
  "message_arg (sent_state role msk out w s) = message_arg s"
  "is_text (sent_state role msk out w s) = is_text s"
  "is_continuation (sent_state role msk out w s) = is_continuation s"
  "length msk = 4 \<Longrightarrow> length (output_mask s) = 4 \<Longrightarrow> length (output_mask (sent_state role msk out w s)) = 4"
  "on_the_wire role (output_mask (sent_state role msk out w s)) payload = on_the_wire role msk payload"
  by (simp_all add: sent_state_def on_the_wire_def)

context websocket
begin

lemma send_short_data_message_wp:
  assumes v: "valid (world s)" and u: "up (conn (world s))" and "length (output_mask s) = 4"
    and n: "length message \<noteq> 65536" "length message < 2 ^ 62"
    and post: "\<And>msk w'. length msk = 4 \<Longrightarrow>
      produced conn ticks valid (world s) (rfc_frame (ws_role E) True (opcode_of_type type) msk message) w' \<Longrightarrow>
      Q True (sent_state (ws_role E) msk (rfc_frame (ws_role E) True (opcode_of_type type) msk message) w' s)"
  shows "wp False (send_short_data_message E message type) Q X s"
  unfolding send_short_data_message_def wp_rules wp_on_world env_socket
proof (rule make_message_wp [OF v assms(3) n(1)], rule wp_mono [OF s_off])
  fix msk w1 x w2
  let ?f = "rfc_frame (ws_role E) True (opcode_of_type type) msk message"
  assume msk: "length (msk :: bytes) = 4" and w1: "produced conn ticks valid (world s) [] w1"
  let ?s1 = "(drew_mask (ws_role E) msk w1 s)\<lparr>output_message_buffer := ?f\<rparr>"
  show "valid (world ?s1)" "up (conn (world ?s1))" using producedD [OF w1] u by simp_all
  assume w2: "valid w2 \<and> step_to conn ticks (world ?s1) (conn (world ?s1)) w2"
  then have w2': "produced conn ticks valid (world s) [] w2"
    using produced_trans [OF w1, of "[]"] by (simp add: produced_Nil_iff)
  have len: "length ?f < 2 ^ 63"
    using length_rfc_frame [of "ws_role E" True "opcode_of_type type" msk message] msk n(2) by simp
  show "wp False (send_output_buffer E) Q X (?s1\<lparr>world := w2\<rparr>)"
    unfolding send_output_buffer_def wp_rules
    by (rule socket_send_wp)
      (use producedD [OF w2'] produced_trans [OF w2'] u len post [OF msk] in
        \<open>auto simp: sent_state_eq\<close>)
qed auto

lemma send_long_round_wp:
  assumes v: "valid (world s)" and u: "up (conn (world s))"
    and n: "p < length message" "length message < 2 ^ 62" and p: "4 dvd p"
    and k: "k = (if p + kPayloadBufferLength > length message then length message - p else kPayloadBufferLength)"
    and post: "\<And>w'. produced conn ticks valid (world s)
        (take k (drop p (on_the_wire (ws_role E) (output_mask s) message))) w' \<Longrightarrow>
      Q (Inl (True, p + k)) (s\<lparr>world := w'\<rparr>)"
  shows "wp False (send_long_round E message (True, p)) Q X s"
proof -
  have eq: "output_send_payload E (take k (drop p message)) =
     bindM (getsM output_mask) (\<lambda>msk. socket_send E (on_the_wire (ws_role E) msk (take k (drop p message))))"
    by (cases "ws_role E")
      (simp_all add: output_send_payload_def output_send_payload_server_def
        output_send_payload_client_def masked_by_def on_the_wire_def fun_eq_iff run)
  have piece: "on_the_wire (ws_role E) msk (take k (drop p message))
      = take k (drop p (on_the_wire (ws_role E) msk message))" for msk
    using apply_mask_piece [OF p] by (simp add: on_the_wire_def)
  show ?thesis
    unfolding send_long_round_def split_conv Let_def k [symmetric]
    using n(1)
    by (simp add: wp_rules eq piece, intro socket_send_wp)
      (use v u n post in \<open>auto simp: wp_rules\<close>)
qed

lemma send_long_message_payload_wp:
  assumes v: "valid (world s)" and u: "up (conn (world s))" and n: "length message < 2 ^ 62"
    and post: "\<And>w'. produced conn ticks valid (world s)
        (on_the_wire (ws_role E) (output_mask s) message) w' \<Longrightarrow> Q True (s\<lparr>world := w'\<rparr>)"
  shows "wp False (send_long_message_payload E message) Q X s"
proof -
  let ?wire = "on_the_wire (ws_role E) (output_mask s) message"
  define I :: "bool \<times> nat \<Rightarrow> 'w WebSocket \<Rightarrow> bool" where
    "I a t \<longleftrightarrow> fst a \<and> (\<exists>w. t = s\<lparr>world := w\<rparr> \<and> produced conn ticks valid (world s) (take (snd a) ?wire) w)
        \<and> snd a \<le> length message \<and> (snd a < length message \<longrightarrow> 4 dvd snd a)" for a t
  have step: "wp False (send_long_round E message a)
      (\<lambda>r t'. case r of Inl a' \<Rightarrow> I a' t' \<and> length message - snd a' < length message - snd a
                      | Inr b \<Rightarrow> Q b t') X t" if I: "I a t" for a t
  proof (cases "snd a < length message")
    case False
    with I have "snd a = length message" by (simp add: I_def)
    with I post show ?thesis by (auto simp: I_def send_long_round_def split_def wp_rules)
  next
    case True
    obtain p where a: "a = (True, p)" using I by (cases a) (auto simp: I_def)
    obtain w where t: "t = s\<lparr>world := w\<rparr>" and w: "produced conn ticks valid (world s) (take p ?wire) w"
      and dv: "4 dvd p"
      using I True by (auto simp: I_def a)
    have plt: "p < length message" using True a by simp
    define k where "k = (if p + kPayloadBufferLength > length message then length message - p else kPayloadBufferLength)"
    have k: "0 < k" "p + k \<le> length message" "p + k < length message \<Longrightarrow> k = 1024"
      using plt by (auto simp: k_def kPayloadBufferLength_def split: if_splits)
    have I': "I (True, p + k) (t\<lparr>world := w'\<rparr>)"
      if "produced conn ticks valid (world t) (take k (drop p ?wire)) w'" for w'
      using produced_trans [OF w, of "take k (drop p ?wire)" w'] that k dv
      by (auto simp: I_def t take_add)
    show ?thesis
      unfolding a
      by (rule send_long_round_wp [OF _ _ plt n dv k_def])
        (use producedD [OF w] u k I' in \<open>auto simp: t\<close>)
  qed
  have start: "I (True, 0) s"
    using v by (auto simp: I_def produced_def step_to_def intro!: exI [where x = "world s"])
  show ?thesis
    unfolding send_long_message_payload_def
    by (rule wp_loop_total [where I = I and \<mu> = "\<lambda>a t. length message - snd a", OF start step])
qed

lemma send_long_data_message_wp:
  assumes v: "valid (world s)" and u: "up (conn (world s))" and "length (output_mask s) = 4"
    and n: "length message \<noteq> 65536" "length message < 2 ^ 62"
    and post: "\<And>msk out w'. length msk = 4 \<Longrightarrow>
      produced conn ticks valid (world s) (rfc_frame (ws_role E) True (opcode_of_type type) msk message) w' \<Longrightarrow>
      Q True (sent_state (ws_role E) msk out w' s)"
  shows "wp False (send_long_data_message E message type) Q X s"
  unfolding send_long_data_message_def send_long_message_header_def wp_rules wp_on_world env_socket
proof (rule wp_mono [OF s_on [OF v u]])
  fix x w0
  assume w0: "valid w0 \<and> step_to conn ticks (world s) (conn (world s)) w0"
  then have w0': "produced conn ticks valid (world s) [] w0" by (simp add: produced_Nil_iff)
  let ?opc = "opcode_of_type type"
  let ?h = "rfc_header True ?opc (masked_by (ws_role E)) (length message)"
  have payload: "wp False (send_long_message_payload E message) Q X (sent_state (ws_role E) msk out w2 s)"
    if msk: "length msk = 4" and w2: "produced conn ticks valid (world s) (?h @ mask_bytes (ws_role E) msk) w2"
    for msk out w2
    by (rule send_long_message_payload_wp)
      (use u n producedD [OF w2] produced_trans [OF w2] post [OF msk] in
        \<open>auto simp: rfc_frame_eq\<close>)
  have hlen: "length (?h @ mask_bytes (ws_role E) msk) < 2 ^ 63" if "length msk = 4" for msk
    using length_rfc_frame [of "ws_role E" True ?opc msk message] that n(2)
    by (simp add: rfc_frame_eq)
  show "wp False (output_append_header E [] ?opc message)
      (\<lambda>output s. wp False (send_output_buffer E) (\<lambda>sent s.
          if sent then wp False (send_long_message_payload E message) Q X s else Q False s) X
          (s\<lparr>output_message_buffer := output\<rparr>)) X (s\<lparr>world := w0\<rparr>)"
  proof (rule output_append_header_wp)
    fix msk w1
    assume msk: "length (msk :: bytes) = 4" and w1: "produced conn ticks valid (world (s\<lparr>world := w0\<rparr>)) [] w1"
    then have w1': "produced conn ticks valid (world s) [] w1"
      using produced_trans [OF w0', of "[]"] by simp
    let ?out = "[] @ ?h @ mask_bytes (ws_role E) msk"
    have st: "(drew_mask (ws_role E) msk w1 (s\<lparr>world := w0\<rparr>))\<lparr>output_message_buffer := ?out, world := w\<rparr>
        = sent_state (ws_role E) msk ?out w s" for w
      by (simp add: drew_mask_def sent_state_def)
    show "wp False (send_output_buffer E) (\<lambda>sent s.
          if sent then wp False (send_long_message_payload E message) Q X s else Q False s) X
        ((drew_mask (ws_role E) msk w1 (s\<lparr>world := w0\<rparr>))\<lparr>output_message_buffer := ?out\<rparr>)"
      unfolding send_output_buffer_def wp_rules
      by (rule socket_send_wp)
        (use producedD [OF w1'] produced_trans [OF w1'] u hlen [OF msk] payload [OF msk] st in auto)
  qed (use assms producedD [OF w0'] in auto)
qed auto

text \<open>\<open>send\<close>: one frame on the wire, or nothing when the message is too long.\<close>

lemma ws_send_wp:
  assumes v: "valid (world s)" and u: "up (conn (world s))" and "length (output_mask s) = 4"
    and n: "length message < kMaximumMessageLength" "length message \<noteq> 65536"
    and post: "\<And>msk out w'. length msk = 4 \<Longrightarrow>
      produced conn ticks valid (world s) (rfc_frame (ws_role E) True (opcode_of_type type) msk message) w' \<Longrightarrow>
      Q True (sent_state (ws_role E) msk out w' s)"
  shows "wp False (ws_send E message type) Q X s"
proof -
  have n': "length message < 2 ^ 62" using n(1) by (simp add: kMaximumMessageLength_def)
  show ?thesis
  proof (cases "length message < kShortMessageLength")
    case True
    then show ?thesis
      unfolding ws_send_def Let_def using n(1)
      by (simp, intro send_short_data_message_wp [OF v u assms(3) n(2) n']) (rule post)
  next
    case False
    then show ?thesis
      unfolding ws_send_def Let_def using n(1)
      by (simp, intro send_long_data_message_wp [OF v u assms(3) n(2) n']) (rule post)
  qed
qed

lemma ws_send_too_long:
  "length message \<ge> kMaximumMessageLength \<Longrightarrow> ws_send E message type s = Some (Inr False, s)"
  by (simp add: ws_send_def run)

end

end
