(* ===== verification/Message_Recv.thy ===== *)
theory Message_Recv
  imports Frame_Send
begin

text \<open>
  Receiving messages: what one incoming frame does to the object (data is collected, a ping is
  answered, a close frame is answered and the connection closed), and what \<open>recv\<close> makes of the
  frames that wait on the connection.
\<close>

section \<open>The world after reads and writes\<close>

definition moved ::
  "('w \<Rightarrow> connection) \<Rightarrow> ('w \<Rightarrow> int) \<Rightarrow> ('w \<Rightarrow> bool) \<Rightarrow> 'w \<Rightarrow> nat \<Rightarrow> bytes \<Rightarrow> 'w \<Rightarrow> bool" where
  "moved conn ticks valid w n bs w' \<longleftrightarrow> valid w' \<and> step_to conn ticks w
     ((conn w)\<lparr>inbox := drop n (inbox (conn w)), outbox := outbox (conn w) @ bs\<rparr>) w'"

lemma moved_consumed: "moved conn ticks valid w n [] w' \<longleftrightarrow> consumed conn ticks valid w n w'"
  by (simp add: moved_def consumed_def)

lemma moved_produced: "moved conn ticks valid w 0 bs w' \<longleftrightarrow> produced conn ticks valid w bs w'"
  by (simp add: moved_def produced_def)

lemma moved_trans:
  "moved conn ticks valid w n as w' \<Longrightarrow> moved conn ticks valid w' m bs w'' \<Longrightarrow>
     moved conn ticks valid w (n + m) (as @ bs) w''"
  by (auto simp: moved_def step_to_def add.commute)

lemma movedD:
  assumes "moved conn ticks valid w n bs w'"
  shows "valid w'" "up (conn w') = up (conn w)" "inbox (conn w') = drop n (inbox (conn w))"
    "outbox (conn w') = outbox (conn w) @ bs" "ticks w \<le> ticks w'"
  using assms by (auto simp: moved_def step_to_def)

lemma moved_idle: "moved conn ticks valid w 0 [] w' \<longleftrightarrow> valid w' \<and> step_to conn ticks w (conn w) w'"
  by (simp add: moved_def)

lemma moved_refl: "valid w \<Longrightarrow> moved conn ticks valid w 0 [] w"
  by (simp add: moved_def step_to_def)

section \<open>Time\<close>

definition seconds :: "int \<Rightarrow> rat" where
  "seconds t = rat_of_int t / 1000000000"

lemma rat_of_ticks:
  "rat_of_int (t div 1000000000) + rat_of_int (t mod 1000000000) / 1000000000 = seconds t"
proof -
  have "rat_of_int t = rat_of_int (1000000000 * (t div 1000000000) + t mod 1000000000)" by simp
  then have "rat_of_int t = 1000000000 * rat_of_int (t div 1000000000) + rat_of_int (t mod 1000000000)"
    by (simp only: of_int_add of_int_mult of_int_numeral)
  then show ?thesis by (simp add: seconds_def field_simps)
qed

lemma seconds_mono: "s < t \<Longrightarrow> seconds s < seconds t"
  by (simp add: seconds_def divide_strict_right_mono)

context websocket
begin

lemma rcom_time_wp:
  assumes "valid (world s)"
    and post: "\<And>w' t. moved conn ticks valid (world s) 0 [] w' \<Longrightarrow> ticks (world s) < ticks w' \<Longrightarrow>
      \<bar>t - ticks w'\<bar> \<le> kDrift \<Longrightarrow> Q (seconds t) (s\<lparr>world := w'\<rparr>)"
  shows "wp T (on_world (rcom_time (ws_linux E))) Q X s"
  by (rule wp_any) (unfold wp_on_world rcom_time_def wp_rules env_linux split_def,
      rule wp_mono [OF s_clock [OF assms(1)]],
      auto simp: wp_rules rat_of_ticks moved_def step_to_def
        intro!: post [unfolded moved_def step_to_def, simplified])

lemma rcom_sleep_wp:
  assumes "valid (world s)" and "0 \<le> d"
    and post: "\<And>w'. moved conn ticks valid (world s) 0 [] w' \<Longrightarrow> Q () (s\<lparr>world := w'\<rparr>)"
  shows "wp False (on_world (rcom_sleep (ws_linux E) d)) Q X s"
proof -
  have "0 \<le> d - of_int \<lfloor>d\<rfloor>" "d - of_int \<lfloor>d\<rfloor> < 1" by linarith+
  then have n: "0 \<le> \<lfloor>(d - of_int \<lfloor>d\<rfloor>) * 1000000000\<rfloor>" "\<lfloor>(d - of_int \<lfloor>d\<rfloor>) * 1000000000\<rfloor> < 10 ^ 9"
    by (simp_all add: floor_less_iff)
  have "0 \<le> \<lfloor>d\<rfloor>" using assms(2) by simp
  from s_nanosleep [OF assms(1) this n] show ?thesis
    unfolding wp_on_world rcom_sleep_def Let_def wp_rules env_linux
    by (rule wp_mono) (auto simp: moved_def intro!: post)
qed

lemma close_wait_round_wp:
  assumes v: "valid (world s)"
    and leave: "\<And>w'. moved conn ticks valid (world s) 0 [] w' \<Longrightarrow> Q (Inr ()) (s\<lparr>world := w'\<rparr>)"
    and more: "\<And>w' timed_out'. moved conn ticks valid (world s) 0 [] w' \<Longrightarrow> \<not> timed_out \<Longrightarrow>
        ticks (world s) < ticks w' \<Longrightarrow>
        (\<not> timed_out' \<Longrightarrow> \<exists>t > ticks (world s) - kDrift. seconds t - start < timeout) \<Longrightarrow>
        Q (Inl timed_out') (s\<lparr>world := w'\<rparr>)"
  shows "wp False (close_wait_round E timeout start timed_out) Q X s"
  unfolding close_wait_round_def wp_bind wp_on_world [of _ "sock_is_endpoint_connected _"] env_socket
proof (rule wp_mono [OF s_endpoint [OF v]])
  fix connected w1
  assume "valid w1 \<and> step_to conn ticks (world s) (conn (world s)) w1"
  then have w1: "moved conn ticks valid (world s) 0 [] w1" by (simp add: moved_def)
  show "wp False (if connected \<and> \<not> timed_out
      then bindM (on_world (rcom_time (ws_linux E)))
         (\<lambda>now. let time_passed = now - start; timed_out = (timeout \<le> time_passed)
            in if \<not> timed_out
               then bindM (on_world (rcom_sleep (ws_linux E) (min (1 / 10) (timeout - time_passed))))
                  (\<lambda>_. returnM (Inl timed_out))
               else returnM (Inl timed_out))
      else returnM (Inr ())) Q X (s\<lparr>world := w1\<rparr>)"
  proof (cases "connected \<and> \<not> timed_out")
    case False
    then show ?thesis using leave [OF w1] by (simp only: if_False wp_basic)
  next
    case True
    have sleep: "wp False (on_world (rcom_sleep (ws_linux E) d))
        (\<lambda>_. wp False (returnM (Inl False)) Q X) X (s\<lparr>world := w2\<rparr>)"
      if w2: "moved conn ticks valid w1 0 [] w2" and t: "ticks w1 < ticks w2"
        and near: "\<bar>u - ticks w2\<bar> \<le> kDrift" and lt: "seconds u - start < timeout" and d: "0 \<le> d" for w2 d u
    proof (rule rcom_sleep_wp [OF _ d])
      show "valid (world (s\<lparr>world := w2\<rparr>))" using movedD [OF w2] by simp
      fix w3
      assume "moved conn ticks valid (world (s\<lparr>world := w2\<rparr>)) 0 [] w3"
      then have w3: "moved conn ticks valid w2 0 [] w3" by simp
      have "Q (Inl False) (s\<lparr>world := w3\<rparr>)"
      proof (rule more)
        show "moved conn ticks valid (world s) 0 [] w3"
          using moved_trans [OF moved_trans [OF w1 w2] w3] by simp
        show "ticks (world s) < ticks w3" using movedD(5) [OF w1] movedD(5) [OF w3] t by linarith
        show "\<exists>u > ticks (world s) - kDrift. seconds u - start < timeout"
          using movedD(5) [OF w1] near t lt by (intro exI [where x = u]) auto
      qed (use True in auto)
      then show "wp False (returnM (Inl False)) Q X (s\<lparr>world := w2, world := w3\<rparr>)"
        by (simp add: wp_basic)
    qed
    show ?thesis
      using True
      by (simp only: if_True not_False_eq_True simp_thms wp_bind, intro rcom_time_wp)
        (use movedD [OF w1] moved_trans [OF w1] sleep True more in
          \<open>auto simp: Let_def wp_rules not_le intro!: more\<close>)
  qed
qed auto

lemma close_connection_wp:
  assumes v: "valid (world s)"
    and post: "\<And>w'. valid w' \<Longrightarrow> \<not> up (conn w') \<Longrightarrow> outbox (conn w') = outbox (conn (world s)) \<Longrightarrow>
        Q () (s\<lparr>world := w'\<rparr>)"
  shows "wp False (close_connection E) Q X s"
proof -
  have close: "wp False (on_world (sock_close (ws_socket E))) Q X (s\<lparr>world := w\<rparr>)"
    if "moved conn ticks valid (world s) 0 [] w" for w
    unfolding wp_on_world env_socket
    by (rule wp_mono [OF s_close]) (use movedD [OF that] post in auto)
  show ?thesis
  proof (cases "ws_role E")
    case ServerSide
    then show ?thesis
      using close [of "world s"] v by (simp add: close_connection_def close_connection_server_def moved_refl)
  next
    case ClientSide
    define I :: "int \<Rightarrow> bool \<Rightarrow> 'w WebSocket \<Rightarrow> bool" where
      "I t0 timed_out t \<longleftrightarrow> (\<exists>w. t = s\<lparr>world := w\<rparr> \<and> moved conn ticks valid (world s) 0 [] w)"
      for t0 timed_out t
    define \<mu> :: "int \<Rightarrow> bool \<Rightarrow> 'w WebSocket \<Rightarrow> nat" where
      "\<mu> t0 timed_out t = (if timed_out then 0 else Suc (nat (t0 + 500000000 + kDrift - ticks (world t))))"
      for t0 timed_out t
    have step: "wp False (close_wait_round E (1 / 2) (seconds t0) a)
        (\<lambda>r t'. case r of Inl a' \<Rightarrow> I t0 a' t' \<and> \<mu> t0 a' t' < \<mu> t0 a t
                        | Inr b \<Rightarrow> wp False (on_world (sock_close (ws_socket E))) Q X t') X t"
      if I: "I t0 a t" for t0 a t
    proof -
      obtain w where t: "t = s\<lparr>world := w\<rparr>" and w: "moved conn ticks valid (world s) 0 [] w"
        using I by (auto simp: I_def)
      show ?thesis
      proof (rule close_wait_round_wp)
        fix w' a'
        assume w': "moved conn ticks valid (world t) 0 [] w'" and "\<not> a" and inc: "ticks (world t) < ticks w'"
          and more: "\<not> a' \<Longrightarrow> \<exists>u > ticks (world t) - kDrift. seconds u - seconds t0 < 1 / 2"
        have "\<mu> t0 a' (t\<lparr>world := w'\<rparr>) < \<mu> t0 a t"
        proof (cases a')
          case False
          then obtain u where u: "ticks w - kDrift < u" "seconds u - seconds t0 < 1 / 2" using more t by auto
          have "rat_of_int u < rat_of_int (t0 + 500000000)"
            using u(2) by (simp add: seconds_def field_simps)
          then have "ticks w < t0 + 500000000 + kDrift" using u(1) by linarith
          then show ?thesis using False \<open>\<not> a\<close> inc t by (simp add: \<mu>_def)
        qed (use \<open>\<not> a\<close> in \<open>simp add: \<mu>_def\<close>)
        then show "case Inl a' of Inl a' \<Rightarrow> I t0 a' (t\<lparr>world := w'\<rparr>) \<and> \<mu> t0 a' (t\<lparr>world := w'\<rparr>) < \<mu> t0 a t
            | Inr b \<Rightarrow> wp False (on_world (sock_close (ws_socket E))) Q X (t\<lparr>world := w'\<rparr>)"
          using moved_trans [OF w, of 0 "[]" w'] w' by (auto simp: I_def t)
      qed (use movedD [OF w] moved_trans [OF w] close in \<open>auto simp: t\<close>)
    qed
    have loop: "wp False (loopM (close_wait_round E (1 / 2) (seconds t0)) False)
        (\<lambda>_. wp False (on_world (sock_close (ws_socket E))) Q X) X (s\<lparr>world := w\<rparr>)"
      if "moved conn ticks valid (world s) 0 [] w" for t0 w
      by (rule wp_loop_total [where I = "I t0" and \<mu> = "\<mu> t0", OF _ step]) (use that in \<open>auto simp: I_def\<close>)
    show ?thesis
      unfolding close_connection_def close_connection_client_def ClientSide role.case wp_bind
      by (rule rcom_time_wp [OF v]) (rule loop)
  qed
qed

end

section \<open>Processing a frame\<close>

text \<open>What the data of a frame changes in the object, when it is accepted.\<close>

definition continuation_ok :: "'w WebSocket \<Rightarrow> bool" where
  "continuation_ok s \<longleftrightarrow> (opcode (frame_header s) = kContinutationOpcode) = is_continuation s"

definition collected :: "'w WebSocket \<Rightarrow> bytes" where
  "collected s = (if opcode (frame_header s) = kTextOpcode \<or> opcode (frame_header s) = kBinaryOpcode
     then [] else message_arg s) @ input_payload_buffer s"

definition data_accepted :: "'w WebSocket \<Rightarrow> 'w WebSocket" where
  "data_accepted s = s\<lparr>
     is_text := (if opcode (frame_header s) = kTextOpcode then True
                 else if opcode (frame_header s) = kBinaryOpcode then False else is_text s),
     message_arg := collected s, is_continuation := \<not> fin (frame_header s)\<rparr>"

lemma data_accepted_simps [simp]:
  "world (data_accepted s) = world s"
  "message_arg (data_accepted s) = collected s"
  "frame_header (data_accepted s) = frame_header s"
  "is_continuation (data_accepted s) = (\<not> fin (frame_header s))"
  "input_mask (data_accepted s) = input_mask s"
  "output_mask (data_accepted s) = output_mask s"
  "is_text (data_accepted s) = (if opcode (frame_header s) = kTextOpcode then True
                 else if opcode (frame_header s) = kBinaryOpcode then False else is_text s)"
  by (simp_all add: data_accepted_def)

lemma wp_handle_data_payload:
  "wp T handle_data_payload Q X s =
     (if continuation_ok s then
        if length (input_payload_buffer s)
             + (if opcode (frame_header s) = kContinutationOpcode then length (message_arg s) else 0) > 134217728
        then X (RecvError ''Message too big'' kCloseTooBig) s
        else Q () (data_accepted s)
      else X (RecvError ''Unexpected continuation'' kCloseProtocolError) s)"
proof -
  have "wp T (blockM [set_payload_type, copy_payload, prepare_continuation]) Q X s = Q () (data_accepted s)"
    by (simp add: set_payload_type_def copy_payload_def prepare_continuation_def wp_rules
        data_accepted_def collected_def Let_def)
  moreover have "wp T handle_data_payload Q X s = wp T (blockM [assert_continuation, assert_message_length])
      (\<lambda>_. wp T (blockM [set_payload_type, copy_payload, prepare_continuation]) Q X) X s"
    by (simp add: handle_data_payload_def wp_ext)
  ultimately show ?thesis
    by (simp add: assert_continuation_def assert_message_length_def wp_rules maximum_payload(2)
        continuation_ok_def)
qed

lemma opcodes_distinct:
  "has_control_message h \<longleftrightarrow> opcode h \<in> {kCloseOpcode, kPingOpcode, kPongOpcode}"
  "has_data_message h \<longleftrightarrow> opcode h \<in> {kTextOpcode, kBinaryOpcode, kContinutationOpcode}"
  by (auto simp: has_control_message_def has_data_message_def)

lemma opcode_neqs [simp]:
  "kTextOpcode \<noteq> kBinaryOpcode" "kTextOpcode \<noteq> kContinutationOpcode" "kBinaryOpcode \<noteq> kContinutationOpcode"
  "kTextOpcode \<noteq> kCloseOpcode" "kTextOpcode \<noteq> kPingOpcode" "kTextOpcode \<noteq> kPongOpcode"
  "kBinaryOpcode \<noteq> kCloseOpcode" "kBinaryOpcode \<noteq> kPingOpcode" "kBinaryOpcode \<noteq> kPongOpcode"
  "kContinutationOpcode \<noteq> kCloseOpcode" "kContinutationOpcode \<noteq> kPingOpcode"
  "kContinutationOpcode \<noteq> kPongOpcode" "kCloseOpcode \<noteq> kPingOpcode" "kCloseOpcode \<noteq> kPongOpcode"
  "kPingOpcode \<noteq> kPongOpcode"
  "kBinaryOpcode \<noteq> kTextOpcode" "kContinutationOpcode \<noteq> kTextOpcode" "kContinutationOpcode \<noteq> kBinaryOpcode"
  "kCloseOpcode \<noteq> kTextOpcode" "kPingOpcode \<noteq> kTextOpcode" "kPongOpcode \<noteq> kTextOpcode"
  "kCloseOpcode \<noteq> kBinaryOpcode" "kPingOpcode \<noteq> kBinaryOpcode" "kPongOpcode \<noteq> kBinaryOpcode"
  "kCloseOpcode \<noteq> kContinutationOpcode" "kPingOpcode \<noteq> kContinutationOpcode"
  "kPongOpcode \<noteq> kContinutationOpcode" "kPingOpcode \<noteq> kCloseOpcode" "kPongOpcode \<noteq> kCloseOpcode"
  "kPongOpcode \<noteq> kPingOpcode"
  by (simp_all add: opcode_defs)

lemma process_data:
  "opcode (frame_header s) \<in> {kTextOpcode, kBinaryOpcode, kContinutationOpcode} \<Longrightarrow>
     wp T (process_message E) Q X s = wp T handle_data_payload Q X s"
  by (auto simp: process_message_def wp_rules opcodes_distinct)

lemma process_control:
  "opcode (frame_header s) = kPongOpcode \<Longrightarrow> wp T (process_message E) Q X s = Q () s"
  "opcode (frame_header s) = kPingOpcode \<Longrightarrow> wp T (process_message E) Q X s = wp T (send_pong E) Q X s"
  "opcode (frame_header s) = kCloseOpcode \<Longrightarrow>
     wp T (process_message E) Q X s = wp T (answer_close_handshake E) Q X s"
  by (simp_all add: process_message_def wp_rules opcodes_distinct handle_control_message_def
      handle_pong_response_def)

section \<open>Control frames\<close>

text \<open>The code of a close frame: 1005 when its payload is not of two bytes.\<close>

definition close_code_of :: "bytes \<Rightarrow> CloseCode" where
  "close_code_of payload = (if length payload = 2 then load_le (rev payload) else kCloseMissingCode)"

lemma convert_to_uint16_eq: "length b = 2 \<Longrightarrow> convert_to_uint16 b = load_le (rev b)"
proof -
  assume "length b = 2"
  then obtain x y where b: "b = [x, y]" by (auto simp: numeral_2_eq_2 length_Suc_conv)
  have "(push_bit 8 (ucast x) OR ucast y :: u16) = load_le [y, x]"
    by (rule bit_eqI) (auto simp: bit_simps bit_load_le nth_Cons' less_Suc_eq numeral_eq_Suc
        split: if_splits dest: bit_imp_le_length)
  then show ?thesis by (simp add: convert_to_uint16_def b)
qed

lemma wp_get_close_code:
  "wp T get_close_code Q X s = Q () (s\<lparr>remote_close_reason := close_code_of (input_payload_buffer s)\<rparr>)"
  by (simp add: get_close_code_def wp_rules close_code_of_def convert_to_uint16_eq)

lemma close_payload_eq: "close_payload code = rev (store_le 2 code)"
proof -
  have "close_payload code = store_le 2 (htons code)"
    by (simp add: close_payload_def Let_def bytes_of_u16 store_le_def upt_bytes)
  then show ?thesis by (simp add: store_htons)
qed

lemma close_code_round_trip: "close_code_of (close_payload code) = code"
  by (simp add: close_payload_eq close_code_of_def load_store_le)

context websocket
begin

lemma send_frame_wp:
  assumes v: "valid (world s)" and u: "up (conn (world s))" and "length (output_mask s) = 4"
    and n: "length payload \<noteq> 65536" "length payload < 2 ^ 62"
    and post: "\<And>msk w'. length msk = 4 \<Longrightarrow>
      moved conn ticks valid (world s) 0 (rfc_frame (ws_role E) True opc msk payload) w' \<Longrightarrow>
      Q True (drew_mask (ws_role E) msk w' s)"
  shows "wp False (bindM (make_message E opc payload) (\<lambda>message. socket_send E message)) Q X s"
  unfolding wp_bind
proof (rule make_message_wp [OF v assms(3) n(1)])
  fix msk w1
  let ?f = "rfc_frame (ws_role E) True opc msk payload"
  assume msk: "length (msk :: bytes) = 4" and w1: "produced conn ticks valid (world s) [] w1"
  have len: "length ?f < 2 ^ 63"
    using length_rfc_frame [of "ws_role E" True opc msk payload] msk n(2) by simp
  have st: "(drew_mask (ws_role E) msk w1 s)\<lparr>world := w\<rparr> = drew_mask (ws_role E) msk w s" for w
    by (simp add: drew_mask_def)
  show "wp False (socket_send E ?f) Q X (drew_mask (ws_role E) msk w1 s)"
    by (rule socket_send_wp)
      (use producedD [OF w1] produced_trans [OF w1] u len post [OF msk] in \<open>auto simp: st moved_produced\<close>)
qed

lemma send_pong_wp:
  assumes v: "valid (world s)" and u: "up (conn (world s))" and "length (output_mask s) = 4"
    and n: "length (input_payload_buffer s) \<noteq> 65536" "length (input_payload_buffer s) < 2 ^ 62"
    and post: "\<And>msk w'. length msk = 4 \<Longrightarrow>
      moved conn ticks valid (world s) 0
        (rfc_frame (ws_role E) True kPongOpcode msk (input_payload_buffer s)) w' \<Longrightarrow>
      Q () (drew_mask (ws_role E) msk w' s)"
  shows "wp False (send_pong E) Q X s"
proof -
  have "wp False (bindM (make_message E kPongOpcode (input_payload_buffer s)) (\<lambda>message. socket_send E message))
      (\<lambda>_. Q ()) X s"
    by (rule send_frame_wp [OF v u assms(3) n]) (rule post)
  then show ?thesis by (simp add: send_pong_def wp_rules wp_ext)
qed

lemma send_close_message_wp:
  assumes v: "valid (world s)" and u: "up (conn (world s))" and "length (output_mask s) = 4"
    and post: "\<And>msk w'. length msk = 4 \<Longrightarrow>
      moved conn ticks valid (world s) 0 (rfc_frame (ws_role E) True kCloseOpcode msk (close_payload code)) w' \<Longrightarrow>
      Q True (drew_mask (ws_role E) msk w' s)"
  shows "wp False (send_close_message E code) Q X s"
  unfolding send_close_message_def
  by (rule send_frame_wp [OF v u assms(3)]) (auto simp: close_payload_eq intro: post)

text \<open>A close frame is answered with the code of \<open>close_code_of\<close>, and the connection is down.\<close>

lemma answer_close_handshake_wp:
  assumes v: "valid (world s)" and u: "up (conn (world s))" and "length (output_mask s) = 4"
    and post: "\<And>msk w'. length msk = 4 \<Longrightarrow> valid w' \<Longrightarrow> \<not> up (conn w') \<Longrightarrow>
      outbox (conn w') = outbox (conn (world s)) @ rfc_frame (ws_role E) True kCloseOpcode msk
        (close_payload (close_code_of (input_payload_buffer s))) \<Longrightarrow>
      Q () (drew_mask (ws_role E) msk w' (s\<lparr>remote_close_reason := close_code_of (input_payload_buffer s)\<rparr>))"
  shows "wp False (answer_close_handshake E) Q X s"
  unfolding answer_close_handshake_def closing_send_reply_def wp_rules wp_get_close_code
proof (rule send_close_message_wp)
  let ?code = "close_code_of (input_payload_buffer s)"
  let ?s = "s\<lparr>remote_close_reason := ?code\<rparr>"
  fix msk w1
  assume msk: "length (msk :: bytes) = 4"
    and w1: "moved conn ticks valid (world ?s) 0
      (rfc_frame (ws_role E) True kCloseOpcode msk (close_payload (remote_close_reason ?s))) w1"
  have st: "(drew_mask (ws_role E) msk w1 ?s)\<lparr>world := w\<rparr> = drew_mask (ws_role E) msk w ?s" for w
    by (simp add: drew_mask_def)
  show "wp False (close_connection E) Q X (drew_mask (ws_role E) msk w1 ?s)"
    by (rule close_connection_wp) (use movedD [OF w1] post [OF msk] in \<open>auto simp: st\<close>)
qed (use assms in auto)

section \<open>One round of \<open>recv\<close>\<close>

lemma wait_for_data_wp:
  assumes v: "valid (world s)" and u: "up (conn (world s))" and "0 \<le> t"
    and range: "inbox (conn (world s)) = [] \<Longrightarrow> t * 1000 < 2 ^ 31"
    and some: "\<And>w'. inbox (conn (world s)) \<noteq> [] \<Longrightarrow> moved conn ticks valid (world s) 0 [] w' \<Longrightarrow>
        Q True (s\<lparr>world := w'\<rparr>)"
    and none: "\<And>w'. inbox (conn (world s)) = [] \<Longrightarrow> moved conn ticks valid (world s) 0 [] w' \<Longrightarrow> Q False (s\<lparr>world := w'\<rparr>)"
  shows "wp False (wait_for_data E t) Q X s"
  unfolding wait_for_data_def socket_wait_def wp_bind wp_on_world env_socket
  by (rule wp_mono [OF s_wait [OF v u assms(3) range]])
    (use some none in \<open>auto simp: wp_rules moved_idle split: if_splits\<close>)

lemma is_connected_nolock_wp:
  assumes "valid (world s)" and "Q (up (conn (world s))) s"
  shows "wp False (is_connected_nolock E) Q X s"
  unfolding is_connected_nolock_def wp_on_world env_socket
  by (rule wp_mono [OF s_is_connected [OF assms(1)]]) (use assms(2) in auto)

lemma compute_remaning_time_wp:
  assumes "valid (world s)"
    and post: "\<And>w' t. moved conn ticks valid (world s) 0 [] w' \<Longrightarrow> ticks (world s) < ticks w' \<Longrightarrow>
      \<bar>t - ticks w'\<bar> \<le> kDrift \<Longrightarrow> Q (timeout - (seconds t - start)) (s\<lparr>world := w'\<rparr>)"
  shows "wp False (compute_remaning_time E start timeout) Q X s"
  unfolding compute_remaning_time_def wp_bind
  by (rule rcom_time_wp [OF assms(1)]) (simp add: wp_basic post)

text \<open>What a round does after it has handled a frame.\<close>

definition round_goes_on ::
  "rat \<Rightarrow> rat \<Rightarrow> (rat + RecvStatus \<Rightarrow> 'w WebSocket \<Rightarrow> bool) \<Rightarrow> 'w WebSocket \<Rightarrow> bool" where
  "round_goes_on timeout start Q s \<longleftrightarrow>
     (if has_complete_data_message (frame_header s)
      then Q (Inr (if is_text s then kRecvText else kRecvBinary)) s
      else valid (world s) \<and> (if up (conn (world s))
         then \<forall>w' t. moved conn ticks valid (world s) 0 [] w' \<longrightarrow> ticks (world s) < ticks w' \<longrightarrow>
           \<bar>t - ticks w'\<bar> \<le> kDrift \<longrightarrow> Q (Inl (timeout - (seconds t - start))) (s\<lparr>world := w'\<rparr>)
         else Q (Inr kRecvClosed) s))"

lemma try_recv_round_data_wp:
  assumes v: "valid (world s)" and u: "up (conn (world s))" and ne: "inbox (conn (world s)) \<noteq> []"
    and t: "0 \<le> remaining"
    and handle: "\<And>w1. moved conn ticks valid (world s) 0 [] w1 \<Longrightarrow>
      wp False (handle_one_message E) (\<lambda>_. round_goes_on timeout start Q) X (s\<lparr>world := w1\<rparr>)"
  shows "wp False (try_recv_round E timeout start remaining) Q X s"
proof -
  have rest: "wp False (bindM (getsM (\<lambda>s. has_complete_data_message (frame_header s))) (\<lambda>complete.
        if complete then bindM get_message_type (\<lambda>status. returnM (Inr status))
        else
          bindM (is_connected_nolock E) (\<lambda>connected.
          if \<not> connected then returnM (Inr kRecvClosed)
          else bindM (compute_remaning_time E start timeout) (\<lambda>r. returnM (Inl r))))) Q X s1"
    if g: "round_goes_on timeout start Q s1" for s1
  proof (cases "has_complete_data_message (frame_header s1)")
    case True
    then show ?thesis using g by (simp add: wp_rules get_message_type_def round_goes_on_def)
  next
    case False
    then have v1: "valid (world s1)" using g by (simp add: round_goes_on_def)
    show ?thesis
      using False g
      by (simp add: wp_rules wp_ext, intro is_connected_nolock_wp [OF v1])
        (auto simp: round_goes_on_def wp_rules wp_ext intro!: compute_remaning_time_wp)
  qed
  have fwd: "wp False (bindM (whenM True (handle_one_message E)) (\<lambda>_. returnM True)) Q' X s1
      = wp False (handle_one_message E) (\<lambda>_. Q' True) X s1" for Q' s1
    by (simp add: wp_bind wp_basic wp_ext)
  show ?thesis
    unfolding try_recv_round_def wait_and_handle_one_message_def
    by (simp only: t if_True wp_bind [of _ "bindM (wait_for_data E remaining) _"]
          wp_bind [of _ "wait_for_data E remaining"], rule wait_for_data_wp [OF v u t], simp add: ne)
      (use ne in \<open>simp_all only: fwd\<close>, rule wp_mono [OF handle], auto intro: rest)
qed

end

end
