(* ===== verification/Reassembly.thy ===== *)
theory Reassembly
  imports Message_Recv
begin

text \<open>
  \<open>recv\<close> against a specification of what a sequence of frames means: \<open>assemble\<close> is the message
  that the fragments of RFC 6455, section 5.4 make up, with control frames between them. A call
  of \<open>recv\<close> on such a sequence returns the message, with every ping answered; or its time runs
  out between two frames, which leaves the other frames on the connection.
\<close>

section \<open>Frames and messages\<close>

record frame =
  f_fin :: bool
  f_opc :: u8
  f_mask :: bytes
  f_data :: bytes

definition wire_frame :: "role \<Rightarrow> frame \<Rightarrow> bytes" where
  "wire_frame sender f = rfc_frame sender (f_fin f) (f_opc f) (f_mask f) (f_data f)"

definition wire :: "role \<Rightarrow> frame list \<Rightarrow> bytes" where
  "wire sender fs = concat (map (wire_frame sender) fs)"

definition is_ping :: "frame \<Rightarrow> bool" where "is_ping f = (f_opc f = kPingOpcode)"

definition pings :: "frame list \<Rightarrow> bytes list" where
  "pings fs = map f_data (filter is_ping fs)"

definition frame_ok :: "frame \<Rightarrow> bool" where
  "frame_ok f \<longleftrightarrow> length (f_mask f) = 4 \<and> length (f_data f) \<le> 134217728
     \<and> (is_ping f \<longrightarrow> length (f_data f) \<le> 125)"

text \<open>Is the type text, and what are the data, of the message that ends with the last frame.\<close>

fun assemble :: "bool \<Rightarrow> bool \<Rightarrow> bytes \<Rightarrow> frame list \<Rightarrow> (bool \<times> bytes) option" where
  "assemble cont txt acc [] = None"
| "assemble cont txt acc (f # fs) =
     (if f_opc f = kPingOpcode \<or> f_opc f = kPongOpcode then assemble cont txt acc fs
      else if f_opc f \<in> {kTextOpcode, kBinaryOpcode, kContinutationOpcode}
          \<and> (f_opc f = kContinutationOpcode) = cont then
        let txt = (if f_opc f = kTextOpcode then True else if f_opc f = kBinaryOpcode then False else txt);
            acc = (if cont then acc else []) @ f_data f
        in if length acc > 134217728 then None
           else if f_fin f then (if fs = [] then Some (txt, acc) else None)
           else assemble True txt acc fs
      else None)"

text \<open>One pong for every ping, with its data, each with some mask.\<close>

inductive pongs :: "role \<Rightarrow> bytes list \<Rightarrow> bytes \<Rightarrow> bool" for sender where
  none: "pongs sender [] []"
| pong: "length msk = 4 \<Longrightarrow> pongs sender ps bs \<Longrightarrow>
     pongs sender (p # ps) (rfc_frame sender True kPongOpcode msk p @ bs)"

inductive_simps pongs_Nil [simp]: "pongs sender [] bs"
inductive_cases pongs_ConsE: "pongs sender (p # ps) bs"

lemma pongs_one: "length msk = 4 \<Longrightarrow> pongs sender [p] (rfc_frame sender True kPongOpcode msk p)"
  using pong [OF _ none] by force

text \<open>An object that can receive and send.\<close>

definition ready :: "('w \<Rightarrow> connection) \<Rightarrow> ('w \<Rightarrow> bool) \<Rightarrow> 'w WebSocket \<Rightarrow> bool" where
  "ready conn valid s \<longleftrightarrow> valid (world s) \<and> up (conn (world s))
     \<and> length (input_mask s) = 4 \<and> length (output_mask s) = 4"

lemma wire_simps [simp]:
  "wire sender [] = []" "wire sender (f # fs) = wire_frame sender f @ wire sender fs"
  by (simp_all add: wire_def)

lemma wire_frame_neq_Nil [simp]: "wire_frame sender f \<noteq> []"
  by (cases sender) (simp_all add: wire_frame_def rfc_frame_def rfc_header_def)

lemma pings_simps [simp]:
  "pings [] = []" "pings (f # fs) = (if is_ping f then f_data f # pings fs else pings fs)"
  by (simp_all add: pings_def)

section \<open>The outcome of \<open>recv\<close>\<close>

definition recv_outcome ::
  "('w \<Rightarrow> connection) \<Rightarrow> ('w \<Rightarrow> bool) \<Rightarrow> role \<Rightarrow> frame list \<Rightarrow> bytes \<Rightarrow> bool \<times> bytes \<Rightarrow> bytes
     \<Rightarrow> RecvStatus \<Rightarrow> 'w WebSocket \<Rightarrow> bool" where
  "recv_outcome conn valid role fs rest msg out status s \<longleftrightarrow> ready conn valid s \<and>
     ((status = (if fst msg then kRecvText else kRecvBinary) \<and> message_arg s = snd msg
         \<and> \<not> is_continuation s \<and> inbox (conn (world s)) = rest
         \<and> (\<exists>bs. outbox (conn (world s)) = out @ bs \<and> pongs role (pings fs) bs))
      \<or> (status = kRecvTimeOut \<and> (\<exists>fs1 fs2 bs. fs = fs1 @ fs2 \<and> fs2 \<noteq> []
         \<and> inbox (conn (world s)) = wire (peer role) fs2 @ rest
         \<and> outbox (conn (world s)) = out @ bs \<and> pongs role (pings fs1) bs
         \<and> assemble (is_continuation s) (is_text s) (message_arg s) fs2 = Some msg)))"

lemma recv_outcome_Cons:
  assumes "recv_outcome conn valid role fs rest msg out' status s"
    and "out' = out @ bs0" and "pongs role (pings [f]) bs0"
  shows "recv_outcome conn valid role (f # fs) rest msg out status s"
proof -
  have p: "pongs role (pings (f # gs)) (bs0 @ bs)" if "pongs role (pings gs) bs" for gs bs
    using assms(3) that by (cases "is_ping f") (auto elim!: pongs_ConsE intro: pongs.intros)
  from assms(1) show ?thesis
    unfolding recv_outcome_def
  proof (elim conjE disjE exE, goal_cases)
    case (1 bs)
    then show ?case using assms(2) p [of fs bs] by auto
  next
    case (2 fs1 fs2 bs)
    then show ?case using assms(2) p [of fs1 bs]
      by (intro conjI disjI2 exI [where x = "f # fs1"] exI [where x = fs2] exI [where x = "bs0 @ bs"]) auto
  qed
qed

context websocket
begin

lemma handle_one_message_wp:
  assumes r: "ready conn valid s"
    and inb: "inbox (conn (world s)) = wire_frame (peer (ws_role E)) f @ rest"
    and opc: "valid_opcode (f_opc f)" and f: "frame_ok f"
    and process: "\<And>w'. moved conn ticks valid (world s) (length (wire_frame (peer (ws_role E)) f)) [] w' \<Longrightarrow>
      wp False (process_message E) Q X
        (message_read (ws_role E) (f_fin f) (f_opc f) (f_mask f) (f_data f) w' s)"
  shows "wp False (handle_one_message E) Q X s"
  unfolding handle_one_message_def wp_block
  by (rule read_message_wp [where final = "f_fin f" and opc = "f_opc f" and msk = "f_mask f"
        and payload = "f_data f" and rest = rest])
    (use assms in \<open>auto simp: ready_def wire_frame_def frame_ok_def moved_consumed\<close>)

lemma not_complete: "opcode h \<in> {kPingOpcode, kPongOpcode, kCloseOpcode} \<Longrightarrow> \<not> has_complete_data_message h"
  by (auto simp: has_complete_data_message_def opcodes_distinct)

lemma complete_data:
  "opcode h \<in> {kTextOpcode, kBinaryOpcode, kContinutationOpcode} \<Longrightarrow> has_complete_data_message h = fin h"
  by (auto simp: has_complete_data_message_def opcodes_distinct is_data_message_complete_def
      has_unfragmented_text_message_def has_unfragmented_binary_message_def
      has_final_continuation_message_def)

text \<open>What follows a frame that ends no message: time passes, and the loop goes on.\<close>

lemma goes_on:
  assumes r: "ready conn valid s1" and nc: "\<not> has_complete_data_message (frame_header s1)"
    and IH: "\<And>s2 r. ready conn valid s2 \<Longrightarrow> (\<exists>w. s2 = s1\<lparr>world := w\<rparr> \<and> conn w = conn (world s1)) \<Longrightarrow>
       wp False (loopM (try_recv_round E timeout start) r) Q X s2"
  shows "round_goes_on timeout start (\<lambda>r t. case r of
       Inl a' \<Rightarrow> wp False (loopM (try_recv_round E timeout start) a') Q X t | Inr b \<Rightarrow> Q b t) s1"
  using r nc unfolding round_goes_on_def
  by (auto simp: ready_def moved_idle step_to_def intro!: IH)

lemma ready_message_read:
  assumes "ready conn valid s" and "frame_ok f" and "moved conn ticks valid (world s) n bs w"
  shows "ready conn valid (message_read role fi opc (f_mask f) p w s)"
  using assms movedD [OF assms(3)] by (auto simp: ready_def frame_ok_def)

lemma ready_drew_mask:
  assumes "ready conn valid s" and "length msk = 4" and "moved conn ticks valid (world s) n bs w"
  shows "ready conn valid (drew_mask role msk w s)"
  using assms movedD [OF assms(3)] by (auto simp: ready_def)

lemma handle_ping_wp:
  assumes r: "ready conn valid s"
    and inb: "inbox (conn (world s)) = wire_frame (peer (ws_role E)) f @ rest"
    and opc: "f_opc f = kPingOpcode" and f: "frame_ok f"
    and post: "\<And>s'. \<lbrakk>ready conn valid s'; opcode (frame_header s') = kPingOpcode; inbox (conn (world s')) = rest;
        \<exists>msk. length msk = 4 \<and> outbox (conn (world s'))
            = outbox (conn (world s)) @ rfc_frame (ws_role E) True kPongOpcode msk (f_data f);
        is_continuation s' = is_continuation s; is_text s' = is_text s; message_arg s' = message_arg s\<rbrakk> \<Longrightarrow> Q () s'"
  shows "wp False (handle_one_message E) Q X s"
proof (rule handle_one_message_wp [OF r inb _ f])
  show "valid_opcode (f_opc f)" by (simp add: opc valid_opcode_def)
  fix w1
  assume w1: "moved conn ticks valid (world s) (length (wire_frame (peer (ws_role E)) f)) [] w1"
  let ?s1 = "message_read (ws_role E) (f_fin f) (f_opc f) (f_mask f) (f_data f) w1 s"
  have r1: "ready conn valid ?s1" by (rule ready_message_read [OF r f w1])
  have len: "length (f_data f) \<le> 125" using f opc by (simp add: frame_ok_def is_ping_def)
  show "wp False (process_message E) Q X ?s1"
  proof (subst process_control(2), simp add: opc, rule send_pong_wp)
    fix msk w2
    assume msk: "length (msk :: bytes) = 4" and w2: "moved conn ticks valid (world ?s1) 0
        (rfc_frame (ws_role E) True kPongOpcode msk (input_payload_buffer ?s1)) w2"
    show "Q () (drew_mask (ws_role E) msk w2 ?s1)"
      by (rule post)
        (use ready_drew_mask [OF r1 msk w2] movedD [OF w1] movedD [OF w2] msk inb opc in auto)
  qed (use r1 len in \<open>simp_all add: ready_def\<close>)
qed

lemma handle_pong_wp:
  assumes r: "ready conn valid s"
    and inb: "inbox (conn (world s)) = wire_frame (peer (ws_role E)) f @ rest"
    and opc: "f_opc f = kPongOpcode" and f: "frame_ok f"
    and post: "\<And>s'. \<lbrakk>ready conn valid s'; opcode (frame_header s') = kPongOpcode; inbox (conn (world s')) = rest;
        outbox (conn (world s')) = outbox (conn (world s));
        is_continuation s' = is_continuation s; is_text s' = is_text s; message_arg s' = message_arg s\<rbrakk> \<Longrightarrow> Q () s'"
  shows "wp False (handle_one_message E) Q X s"
proof (rule handle_one_message_wp [OF r inb _ f])
  show "valid_opcode (f_opc f)" by (simp add: opc valid_opcode_def)
  fix w1
  assume w1: "moved conn ticks valid (world s) (length (wire_frame (peer (ws_role E)) f)) [] w1"
  show "wp False (process_message E) Q X
      (message_read (ws_role E) (f_fin f) (f_opc f) (f_mask f) (f_data f) w1 s)"
    by (subst process_control(1), simp add: opc, rule post)
      (use ready_message_read [OF r f w1] movedD [OF w1] inb opc in auto)
qed

lemma handle_data_wp:
  assumes r: "ready conn valid s"
    and inb: "inbox (conn (world s)) = wire_frame (peer (ws_role E)) f @ rest"
    and opc: "f_opc f \<in> {kTextOpcode, kBinaryOpcode, kContinutationOpcode}"
    and cont: "(f_opc f = kContinutationOpcode) = is_continuation s" and f: "frame_ok f"
    and ty: "tx = (if f_opc f = kTextOpcode then True else if f_opc f = kBinaryOpcode then False else is_text s)"
    and acc: "acc = (if is_continuation s then message_arg s else []) @ f_data f" "length acc \<le> 134217728"
    and post: "\<And>s'. \<lbrakk>ready conn valid s'; frame_header s' = header_of (f_fin f) (f_opc f) (masked_by (peer (ws_role E)))
          (length (f_data f)); inbox (conn (world s')) = rest;
        outbox (conn (world s')) = outbox (conn (world s));
        is_continuation s' = (\<not> f_fin f); is_text s' = tx; message_arg s' = acc\<rbrakk> \<Longrightarrow> Q () s'"
  shows "wp False (handle_one_message E) Q X s"
proof (rule handle_one_message_wp [OF r inb _ f])
  show "valid_opcode (f_opc f)" using opc by (auto simp: valid_opcode_def)
  fix w1
  assume w1: "moved conn ticks valid (world s) (length (wire_frame (peer (ws_role E)) f)) [] w1"
  let ?s1 = "message_read (ws_role E) (f_fin f) (f_opc f) (f_mask f) (f_data f) w1 s"
  have r1: "ready conn valid ?s1" by (rule ready_message_read [OF r f w1])
  have c1: "continuation_ok ?s1" using cont by (simp add: continuation_ok_def)
  have acc1: "collected ?s1 = acc" using opc cont acc(1) by (auto simp: collected_def)
  have len: "\<not> length (input_payload_buffer ?s1)
      + (if opcode (frame_header ?s1) = kContinutationOpcode then length (message_arg ?s1) else 0) > 134217728"
    using acc cont by (auto split: if_splits)
  have "Q () (data_accepted ?s1)"
    by (rule post) (use r1 acc1 ty movedD [OF w1] inb in \<open>auto simp: ready_def\<close>)
  then show "wp False (process_message E) Q X ?s1"
    using opc c1 len by (subst process_data) (simp, simp only: wp_handle_data_payload if_True if_False)
qed

text \<open>The loop of \<open>recv\<close> on the frames of a message.\<close>

lemma recv_loop_wp:
  assumes "ready conn valid s" and "inbox (conn (world s)) = wire (peer (ws_role E)) fs @ rest"
    and "assemble (is_continuation s) (is_text s) (message_arg s) fs = Some msg"
    and "\<And>f. f \<in> set fs \<Longrightarrow> frame_ok f"
    and "\<And>status s'. recv_outcome conn valid (ws_role E) fs rest msg (outbox (conn (world s))) status s' \<Longrightarrow> Q status s'"
  shows "wp False (loopM (try_recv_round E timeout start) remaining) Q X s"
  using assms
proof (induction fs arbitrary: s remaining Q)
  case (Cons f fs)
  note r = Cons.prems(1) and inb = Cons.prems(2) and asm = Cons.prems(3) and post = Cons.prems(5)
  have f: "frame_ok f" using Cons.prems(4) by simp
  show ?case
  proof (cases "0 \<le> remaining")
    case False
    have "recv_outcome conn valid (ws_role E) (f # fs) rest msg (outbox (conn (world s))) kRecvTimeOut s"
      unfolding recv_outcome_def using r inb asm
      by (intro conjI disjI2 exI [where x = "[]"] exI [where x = "f # fs"]) auto
    then show ?thesis
      using False post by (subst wp_loop_unfold) (simp add: try_recv_round_def wp_rules)
  next
    case True
    let ?Q = "\<lambda>r t. case r of
       Inl a' \<Rightarrow> wp False (loopM (try_recv_round E timeout start) a') Q X t | Inr b \<Rightarrow> Q b t"
    show ?thesis
    proof (subst wp_loop_unfold, rule try_recv_round_data_wp)
      fix w0
      assume w0: "moved conn ticks valid (world s) 0 [] w0"
      let ?s0 = "s\<lparr>world := w0\<rparr>"
      have r0: "ready conn valid ?s0" using r movedD [OF w0] by (simp add: ready_def)
      have inb0: "inbox (conn (world ?s0)) = wire_frame (peer (ws_role E)) f @ (wire (peer (ws_role E)) fs @ rest)"
        using inb movedD [OF w0] by simp
      have out0: "outbox (conn (world ?s0)) = outbox (conn (world s))" using movedD [OF w0] by simp
      have on: "round_goes_on timeout start ?Q s1"
        if "ready conn valid s1" "\<not> has_complete_data_message (frame_header s1)"
          "inbox (conn (world s1)) = wire (peer (ws_role E)) fs @ rest"
          "assemble (is_continuation s1) (is_text s1) (message_arg s1) fs = Some msg"
          "outbox (conn (world s1)) = outbox (conn (world s)) @ bs" "pongs (ws_role E) (pings [f]) bs"
        for s1 bs
      proof (rule goes_on [OF that(1,2)], rule Cons.IH)
        fix s2 :: "'w WebSocket"
        assume "\<exists>w. s2 = s1\<lparr>world := w\<rparr> \<and> conn w = conn (world s1)"
        then obtain w where s2: "s2 = s1\<lparr>world := w\<rparr>" "conn w = conn (world s1)" by blast
        show "inbox (conn (world s2)) = wire (peer (ws_role E)) fs @ rest" using s2 that by simp
        show "assemble (is_continuation s2) (is_text s2) (message_arg s2) fs = Some msg" using s2 that by simp
        show "frame_ok g" if "g \<in> set fs" for g using that Cons.prems(4) by simp
        show "Q status s'" if "recv_outcome conn valid (ws_role E) fs rest msg (outbox (conn (world s2))) status s'"
          for status s'
          using recv_outcome_Cons [OF that] s2 \<open>outbox (conn (world s1)) = _\<close> \<open>pongs _ _ _\<close> post by simp
      qed
      consider (ping) "f_opc f = kPingOpcode" | (pong) "f_opc f = kPongOpcode"
        | (data) "f_opc f \<noteq> kPingOpcode" "f_opc f \<noteq> kPongOpcode" by blast
      then show "wp False (handle_one_message E) (\<lambda>_. round_goes_on timeout start ?Q) X ?s0"
      proof cases
        case ping
        show ?thesis
          by (rule handle_ping_wp [OF r0 inb0 ping f])
            (use asm out0 ping in \<open>auto simp: is_ping_def intro!: on pongs_one not_complete\<close>)
      next
        case pong
        show ?thesis
          by (rule handle_pong_wp [OF r0 inb0 pong f])
            (use asm out0 pong in \<open>auto simp: is_ping_def intro!: on [where bs = "[]"] not_complete\<close>)
      next
        case data
        let ?txt = "if f_opc f = kTextOpcode then True else if f_opc f = kBinaryOpcode then False else is_text s"
        let ?acc = "(if is_continuation s then message_arg s else []) @ f_data f"
        have d: "f_opc f \<in> {kTextOpcode, kBinaryOpcode, kContinutationOpcode}"
          "(f_opc f = kContinutationOpcode) = is_continuation s" "length ?acc \<le> 134217728"
          and a: "if f_fin f then fs = [] \<and> msg = (?txt, ?acc) else assemble True ?txt ?acc fs = Some msg"
          using asm data by (simp_all add: Let_def split: if_splits)
        show ?thesis
        proof (rule handle_data_wp [OF r0 inb0 d(1) _ f refl refl])
          fix s1
          assume s1: "ready conn valid s1"
            "frame_header s1 = header_of (f_fin f) (f_opc f) (masked_by (peer (ws_role E))) (length (f_data f))"
            "inbox (conn (world s1)) = wire (peer (ws_role E)) fs @ rest"
            "outbox (conn (world s1)) = outbox (conn (world ?s0))"
            "is_continuation s1 = (\<not> f_fin f)"
            "is_text s1 = (if f_opc f = kTextOpcode then True else if f_opc f = kBinaryOpcode then False else is_text ?s0)"
            "message_arg s1 = (if is_continuation ?s0 then message_arg ?s0 else []) @ f_data f"
          have c: "has_complete_data_message (frame_header s1) = f_fin f"
            using complete_data [of "frame_header s1"] d(1) s1(2) by simp
          have np: "pings [f] = []" using data by (simp add: is_ping_def)
          show "round_goes_on timeout start ?Q s1"
          proof (cases "f_fin f")
            case True
            then have "recv_outcome conn valid (ws_role E) (f # fs) rest msg (outbox (conn (world s)))
                (if is_text s1 then kRecvText else kRecvBinary) s1"
              unfolding recv_outcome_def using s1 a out0 np by (auto simp: pings_def)
            with True c show ?thesis using post by (auto simp: round_goes_on_def)
          next
            case False
            with s1 a out0 np c show ?thesis by (intro on [where bs = "[]"]) auto
          qed
        qed (use d in \<open>auto split: if_splits\<close>)
      qed
    qed (use r inb True in \<open>auto simp: ready_def\<close>)
  qed
qed simp

section \<open>\<open>recv\<close>\<close>

text \<open>The message is collected in an empty buffer, whatever an earlier call has received.\<close>

lemma ws_recv_start:
  assumes v: "valid (world s)"
    and loop: "\<And>w start. moved conn ticks valid (world s) 0 [] w \<Longrightarrow>
      \<exists>t0. start = seconds t0 \<and> \<bar>t0 - ticks w\<bar> \<le> kDrift \<Longrightarrow>
      wp T (loopM (try_recv_round E timeout start) timeout) (\<lambda>status t. Q (status, message_arg t) t)
        (\<lambda>e t. case e of
            RecvError m code \<Rightarrow> wp T (close_with_handshake E code) (\<lambda>_ t. Q (kRecvError, message_arg t) t) X t
          | _ \<Rightarrow> X e t) (s\<lparr>message_arg := [], world := w\<rparr>)"
  shows "wp T (ws_recv E message timeout) Q X s"
proof -
  have err: "wp T (case e of RecvError m code \<Rightarrow> bindM (close_with_handshake E code) (\<lambda>_. returnM kRecvError)
        | _ \<Rightarrow> throwM e) Q' X
     = (case e of RecvError m code \<Rightarrow> wp T (close_with_handshake E code) (\<lambda>_. Q' kRecvError) X
          | _ \<Rightarrow> X e)" for e Q'
    by (cases e) (simp_all add: fun_eq_iff wp_rules wp_ext)
  have ok: "wp T (bindM (getsM message_arg) (\<lambda>m. returnM (status, m))) Q X
      = (\<lambda>t. Q (status, message_arg t) t)" for status
    by (simp add: fun_eq_iff wp_rules)
  have arg: "(\<lambda>e t. case e of
            RecvError m code \<Rightarrow> wp T (close_with_handshake E code) (\<lambda>_ t. Q (kRecvError, message_arg t) t) X t
          | _ \<Rightarrow> X e t) = (\<lambda>e. case e of
            RecvError m code \<Rightarrow> wp T (close_with_handshake E code) (\<lambda>_ t. Q (kRecvError, message_arg t) t) X
          | _ \<Rightarrow> X e)"
    by (simp add: fun_eq_iff split: exn.split)
  show ?thesis
    unfolding ws_recv_def recv_in_place_def try_recv_def wp_bind wp_catch wp_basic err ok wp_ext
    by (rule rcom_time_wp) (use v in simp, use loop in \<open>simp add: arg err, blast\<close>)
qed

lemma ws_recv_wp:
  assumes r: "ready conn valid s" and inb: "inbox (conn (world s)) = wire (peer (ws_role E)) fs @ rest"
    and asm: "assemble (is_continuation s) (is_text s) [] fs = Some msg"
    and ok: "\<And>f. f \<in> set fs \<Longrightarrow> frame_ok f"
  shows "wp False (ws_recv E message timeout)
    (\<lambda>r s'. recv_outcome conn valid (ws_role E) fs rest msg (outbox (conn (world s))) (fst r) s'
        \<and> snd r = message_arg s') (\<lambda>_ _. False) s"
proof (rule ws_recv_start)
  show "valid (world s)" using r by (simp add: ready_def)
  fix w start
  assume w: "moved conn ticks valid (world s) 0 [] w"
  show "wp False (loopM (try_recv_round E timeout start) timeout)
      (\<lambda>status t. recv_outcome conn valid (ws_role E) fs rest msg (outbox (conn (world s))) (fst (status, message_arg t)) t
         \<and> snd (status, message_arg t) = message_arg t) X (s\<lparr>message_arg := [], world := w\<rparr>)" for X
    by (rule recv_loop_wp) (use assms movedD [OF w] in \<open>auto simp: ready_def\<close>)
qed

end

end
