(* ===== verification/Recv_Outcomes.thy ===== *)
theory Recv_Outcomes
  imports Reassembly
begin

text \<open>
  The other outcomes of \<open>recv\<close>: a message in one last frame, nothing to read until the time is
  over, and a close frame. Frames that are rejected are the subject of the theory Closing.
\<close>

text \<open>Past the deadline of a call there is no time left.\<close>

definition deadline :: "int \<Rightarrow> rat \<Rightarrow> int" where
  "deadline t0 timeout = t0 + \<lceil>timeout * 1000000000\<rceil>"

lemma past_deadline:
  assumes "deadline t0 timeout < t"
  shows "timeout - (seconds t - seconds t0) < 0"
proof -
  have "rat_of_int (t0 + \<lceil>timeout * 1000000000\<rceil>) < rat_of_int t"
    using assms by (simp only: deadline_def of_int_less_iff)
  moreover have "timeout * 1000000000 \<le> rat_of_int \<lceil>timeout * 1000000000\<rceil>" by (rule le_of_int_ceiling)
  ultimately have "rat_of_int t0 + timeout * 1000000000 < rat_of_int t"
    unfolding of_int_add by linarith
  then show ?thesis by (simp add: seconds_def field_simps)
qed

text \<open>A measure for a loop that ends when its time is over.\<close>

definition time_left :: "int \<Rightarrow> rat \<Rightarrow> int \<Rightarrow> rat \<Rightarrow> nat" where
  "time_left t0 timeout t a = (let last = deadline t0 timeout + kDrift
     in if t \<le> last then Suc (Suc (nat (last - t))) else if a < 0 then 0 else 1)"

lemma time_left_decreases:
  assumes "t < t'" and "0 \<le> a" and "\<bar>u - t'\<bar> \<le> kDrift" and "a' = timeout - (seconds u - seconds t0)"
  shows "time_left t0 timeout t' a' < time_left t0 timeout t a"
proof (cases "t \<le> deadline t0 timeout + kDrift")
  case False
  then have "deadline t0 timeout < u" using assms(1,3) by linarith
  with False assms show ?thesis using past_deadline [of t0 timeout u] by (simp add: time_left_def Let_def)
qed (use assms(1) in \<open>simp add: time_left_def Let_def\<close>)

text \<open>A clock that is set while we wait does not take the time left out of the range of an \<open>int\<close>.\<close>

definition kLongestWait :: rat where "kLongestWait = 1900000"

lemma time_left_in_range:
  assumes "timeout \<le> kLongestWait" and "\<bar>t0 - t\<bar> \<le> kDrift" and "\<bar>u - t'\<bar> \<le> kDrift" and "t \<le> t'"
  shows "(timeout - (seconds u - seconds t0)) * 1000 < 2 ^ 31"
proof -
  have "t0 - u \<le> 200000000000000" using assms(2-4) by (simp add: kDrift_def)
  then have "rat_of_int (t0 - u) \<le> 200000000000000" by linarith
  then have "seconds t0 - seconds u \<le> 200000" by (simp add: seconds_def field_simps)
  then show ?thesis using assms(1) by (simp add: kLongestWait_def)
qed

context websocket
begin

section \<open>A last frame\<close>

text \<open>
  The data of the last frame of a message are the whole result: when earlier fragments were
  taken by an earlier call, they are gone.
\<close>

lemma recv_final_frame_wp:
  assumes r: "ready conn valid s"
    and inb: "inbox (conn (world s)) = wire_frame (peer (ws_role E)) f @ rest"
    and opc: "f_opc f \<in> {kTextOpcode, kBinaryOpcode, kContinutationOpcode}"
    and cont: "(f_opc f = kContinutationOpcode) = is_continuation s"
    and f: "frame_ok f" "f_fin f" and t: "0 \<le> timeout"
  shows "wp False (ws_recv E message timeout)
    (\<lambda>r s'. r = (if (if f_opc f = kTextOpcode then True else if f_opc f = kBinaryOpcode then False else is_text s)
                 then kRecvText else kRecvBinary, f_data f)
        \<and> ready conn valid s' \<and> \<not> is_continuation s' \<and> inbox (conn (world s')) = rest
        \<and> outbox (conn (world s')) = outbox (conn (world s))) (\<lambda>_ _. False) s"
proof (rule ws_recv_start)
  show "valid (world s)" using r by (simp add: ready_def)
  fix w start X
  assume w: "moved conn ticks valid (world s) 0 [] w"
  let ?txt = "if f_opc f = kTextOpcode then True else if f_opc f = kBinaryOpcode then False else is_text s"
  let ?s = "s\<lparr>message_arg := [], world := w\<rparr>"
  let ?Q = "\<lambda>status s'. (status, message_arg s') = (if ?txt then kRecvText else kRecvBinary, f_data f)
        \<and> ready conn valid s' \<and> \<not> is_continuation s' \<and> inbox (conn (world s')) = rest
        \<and> outbox (conn (world s')) = outbox (conn (world s))"
  have len: "length (f_data f) \<le> 134217728" using f by (simp add: frame_ok_def)
  show "wp False (loopM (try_recv_round E timeout start) timeout) ?Q X ?s" for X
  proof (subst wp_loop_unfold, rule try_recv_round_data_wp)
    fix w0
    assume w0: "moved conn ticks valid (world ?s) 0 [] w0"
    let ?s0 = "?s\<lparr>world := w0\<rparr>"
    have w0': "moved conn ticks valid (world s) 0 [] w0" using moved_trans [OF w, of 0 "[]" w0] w0 by simp
    show "wp False (handle_one_message E) (\<lambda>_. round_goes_on timeout start
        (\<lambda>r t. case r of Inl a' \<Rightarrow> wp False (loopM (try_recv_round E timeout start) a') ?Q X t | Inr b \<Rightarrow> ?Q b t))
        X ?s0"
    proof (rule handle_data_wp [OF _ _ opc _ f(1) refl refl])
      fix s'
      assume s': "ready conn valid s'" "frame_header s' = header_of (f_fin f) (f_opc f)
            (masked_by (peer (ws_role E))) (length (f_data f))" "inbox (conn (world s')) = rest"
        "outbox (conn (world s')) = outbox (conn (world ?s0))" "is_continuation s' = (\<not> f_fin f)"
        "is_text s' = (if f_opc f = kTextOpcode then True else if f_opc f = kBinaryOpcode then False else is_text ?s0)"
        "message_arg s' = (if is_continuation ?s0 then message_arg ?s0 else []) @ f_data f"
      have "has_complete_data_message (frame_header s')"
        using complete_data [of "frame_header s'"] opc s'(2) f(2) by simp
      then show "round_goes_on timeout start (\<lambda>r t. case r of Inl a' \<Rightarrow>
          wp False (loopM (try_recv_round E timeout start) a') ?Q X t | Inr b \<Rightarrow> ?Q b t) s'"
        using s' f(2) movedD [OF w0'] by (simp add: round_goes_on_def)
    qed (use r cont inb len movedD [OF w0'] in \<open>auto simp: ready_def\<close>)
  qed (use r inb t movedD [OF w] in \<open>auto simp: ready_def\<close>)
qed

section \<open>Nothing to read\<close>

lemma recv_loop_idle_wp:
  assumes r: "ready conn valid s" and inb: "inbox (conn (world s)) = []"
    and t0: "\<bar>t0 - ticks (world s)\<bar> \<le> kDrift" and timeout: "timeout \<le> kLongestWait"
    and post: "\<And>w. conn w = conn (world s) \<Longrightarrow> valid w \<Longrightarrow> Q kRecvTimeOut (s\<lparr>world := w\<rparr>)"
  shows "wp False (loopM (try_recv_round E timeout (seconds t0)) timeout) Q X s"
proof -
  define I :: "rat \<Rightarrow> 'w WebSocket \<Rightarrow> bool" where
    "I a t \<longleftrightarrow> a * 1000 < 2 ^ 31 \<and> (\<exists>w. t = s\<lparr>world := w\<rparr> \<and> conn w = conn (world s) \<and> valid w \<and> ticks (world s) \<le> ticks w)"
    for a t
  have step: "wp False (try_recv_round E timeout (seconds t0) a)
      (\<lambda>r t'. case r of Inl a' \<Rightarrow> I a' t' \<and> time_left t0 timeout (ticks (world t')) a'
                                       < time_left t0 timeout (ticks (world t)) a
                      | Inr b \<Rightarrow> Q b t') X t" if I: "I a t" for a t
  proof (cases "0 \<le> a")
    case False
    then show ?thesis using I post by (auto simp: try_recv_round_def wp_rules I_def)
  next
    case True
    obtain w where t: "t = s\<lparr>world := w\<rparr>" and w: "conn w = conn (world s)" "valid w" "ticks (world s) \<le> ticks w"
      and a: "a * 1000 < 2 ^ 31"
      using I by (auto simp: I_def)
    have more: "I (timeout - (seconds u - seconds t0)) (s\<lparr>world := w'\<rparr>)"
      "time_left t0 timeout (ticks w') (timeout - (seconds u - seconds t0)) < time_left t0 timeout (ticks w) a"
      if "moved conn ticks valid w1 0 [] w'" "ticks w1 < ticks w'" "moved conn ticks valid w 0 [] w1"
        "\<bar>u - ticks w'\<bar> \<le> kDrift" for w' w1 u
    proof -
      have lt: "ticks w < ticks w'" using that(2) movedD(5) [OF that(3)] by simp
      then have "(timeout - (seconds u - seconds t0)) * 1000 < 2 ^ 31"
        using w(3) by (intro time_left_in_range [OF timeout t0 that(4)]) simp
      then show "I (timeout - (seconds u - seconds t0)) (s\<lparr>world := w'\<rparr>)"
        using that(1,3) w lt by (auto simp: I_def moved_idle step_to_def)
      show "time_left t0 timeout (ticks w') (timeout - (seconds u - seconds t0))
          < time_left t0 timeout (ticks w) a"
        by (rule time_left_decreases [OF lt True that(4) refl])
    qed
    show ?thesis
      unfolding try_recv_round_def wait_and_handle_one_message_def
      by (simp only: True if_True wp_bind [of _ "bindM (wait_for_data E a) _"]
          wp_bind [of _ "wait_for_data E a"], rule wait_for_data_wp [OF _ _ True a])
        (use r inb w in \<open>auto simp: t ready_def wp_rules wp_ext intro!: compute_remaning_time_wp\<close>,
          auto simp: moved_idle [symmetric] intro: more dest: movedD)
  qed
  have "timeout * 1000 < 2 ^ 31" using timeout by (simp add: kLongestWait_def)
  then have "I timeout s"
    using r by (auto simp: I_def ready_def intro!: exI [where x = "world s"])
  then show ?thesis
    by (rule wp_loop_total [where I = I and \<mu> = "\<lambda>a t. time_left t0 timeout (ticks (world t)) a", OF _ step])
qed

lemma recv_idle_wp:
  assumes r: "ready conn valid s" and inb: "inbox (conn (world s)) = []" and timeout: "timeout \<le> kLongestWait"
  shows "wp False (ws_recv E message timeout)
    (\<lambda>r s'. r = (kRecvTimeOut, []) \<and> ready conn valid s' \<and> is_continuation s' = is_continuation s
        \<and> conn (world s') = conn (world s)) (\<lambda>_ _. False) s"
proof -
  show ?thesis
  proof (rule ws_recv_start)
    show "valid (world s)" using r by (simp add: ready_def)
    fix w start X
    assume w: "moved conn ticks valid (world s) 0 [] w" and "\<exists>t0. start = seconds t0 \<and> \<bar>t0 - ticks w\<bar> \<le> kDrift"
    then obtain t0 where st: "start = seconds t0" and t0: "\<bar>t0 - ticks w\<bar> \<le> kDrift" by blast
    show "wp False (loopM (try_recv_round E timeout start) timeout)
        (\<lambda>status s'. (status, message_arg s') = (kRecvTimeOut, []) \<and> ready conn valid s'
          \<and> is_continuation s' = is_continuation s \<and> conn (world s') = conn (world s)) X
        (s\<lparr>message_arg := [], world := w\<rparr>)" for X
      unfolding st
      by (rule recv_loop_idle_wp) (use r inb w t0 timeout in \<open>auto simp: ready_def moved_idle step_to_def\<close>)
  qed
qed

section \<open>A close frame\<close>

text \<open>It is answered with the code that \<open>get_close_code\<close> takes it for, the connection is down, and \<open>recv\<close> says so.\<close>

lemma recv_close_wp:
  assumes r: "ready conn valid s"
    and inb: "inbox (conn (world s)) = wire_frame (peer (ws_role E)) f @ rest"
    and opc: "f_opc f = kCloseOpcode" and f: "frame_ok f" and t: "0 \<le> timeout"
  shows "wp False (ws_recv E message timeout)
    (\<lambda>r s'. r = (kRecvClosed, []) \<and> remote_close_reason s' = close_code_of (f_data f)
        \<and> \<not> up (conn (world s'))
        \<and> (\<exists>msk. length msk = 4 \<and> outbox (conn (world s')) = outbox (conn (world s))
              @ rfc_frame (ws_role E) True kCloseOpcode msk (close_payload (close_code_of (f_data f)))))
    (\<lambda>_ _. False) s"
proof (rule ws_recv_start)
  show "valid (world s)" using r by (simp add: ready_def)
  fix w start X
  assume w: "moved conn ticks valid (world s) 0 [] w"
  let ?s = "s\<lparr>message_arg := [], world := w\<rparr>"
  let ?Q = "\<lambda>status s'. (status, message_arg s') = (kRecvClosed, [])
        \<and> remote_close_reason s' = close_code_of (f_data f) \<and> \<not> up (conn (world s'))
        \<and> (\<exists>msk. length msk = 4 \<and> outbox (conn (world s')) = outbox (conn (world s))
              @ rfc_frame (ws_role E) True kCloseOpcode msk (close_payload (close_code_of (f_data f))))"
  show "wp False (loopM (try_recv_round E timeout start) timeout) ?Q X ?s" for X
  proof (subst wp_loop_unfold, rule try_recv_round_data_wp)
    fix w0
    assume w0: "moved conn ticks valid (world ?s) 0 [] w0"
    let ?s0 = "?s\<lparr>world := w0\<rparr>"
    have r0: "ready conn valid ?s0" using r movedD [OF w] movedD [OF w0] by (simp add: ready_def)
    show "wp False (handle_one_message E) (\<lambda>_. round_goes_on timeout start
        (\<lambda>r t. case r of Inl a' \<Rightarrow> wp False (loopM (try_recv_round E timeout start) a') ?Q X t | Inr b \<Rightarrow> ?Q b t))
        X ?s0"
    proof (rule handle_one_message_wp [OF r0 _ _ f])
      show "inbox (conn (world ?s0)) = wire_frame (peer (ws_role E)) f @ rest"
        using inb movedD [OF w] movedD [OF w0] by simp
      show "valid_opcode (f_opc f)" by (simp add: opc valid_opcode_def)
      fix w1
      assume w1: "moved conn ticks valid (world ?s0) (length (wire_frame (peer (ws_role E)) f)) [] w1"
      let ?s1 = "message_read (ws_role E) (f_fin f) (f_opc f) (f_mask f) (f_data f) w1 ?s0"
      have r1: "ready conn valid ?s1" by (rule ready_message_read [OF r0 f w1])
      have out1: "outbox (conn w1) = outbox (conn (world s))"
        using movedD [OF w] movedD [OF w0] movedD [OF w1] by simp
      show "wp False (process_message E) (\<lambda>_. round_goes_on timeout start
          (\<lambda>r t. case r of Inl a' \<Rightarrow> wp False (loopM (try_recv_round E timeout start) a') ?Q X t | Inr b \<Rightarrow> ?Q b t))
          X ?s1"
        by (subst process_control(3), simp add: opc, rule answer_close_handshake_wp)
          (use r1 out1 opc not_complete [of "frame_header ?s1"] in
            \<open>auto simp: ready_def round_goes_on_def drew_mask_def\<close>)
    qed
  qed (use r inb t movedD [OF w] in \<open>auto simp: ready_def\<close>)
qed

end

end
