(* ===== verification/Closing.thy ===== *)
theory Closing
  imports Recv_Outcomes
begin

text \<open>
  Closing from this side, and frames that are rejected with a close frame of our own. While we
  wait for the answer, whatever is left on the connection is read as frames: the payload of the
  rejected frame, and what the peer had sent before. If the wait comes to an end, the object has
  read and written nothing else; and it does, unless what is left stops inside a frame: a read of
  such a frame blocks.
\<close>

section \<open>Reading whatever comes\<close>

text \<open>The object after reads: nothing is written, and the message of the caller is as it was.\<close>

definition kept :: "('w \<Rightarrow> connection) \<Rightarrow> ('w \<Rightarrow> bool) \<Rightarrow> 'w WebSocket \<Rightarrow> 'w WebSocket \<Rightarrow> bool" where
  "kept conn valid s t \<longleftrightarrow> ready conn valid t \<and> outbox (conn (world t)) = outbox (conn (world s))
     \<and> message_arg t = message_arg s"

lemma keptD:
  assumes "kept conn valid s t"
  shows "valid (world t)" "up (conn (world t))" "length (input_mask t) = 4"
    "outbox (conn (world t)) = outbox (conn (world s))" "message_arg t = message_arg s" "ready conn valid t"
  using assms by (simp_all add: kept_def ready_def)

lemma kept_world:
  "kept conn valid s t \<Longrightarrow> valid w \<Longrightarrow> up (conn w) \<Longrightarrow> outbox (conn w) = outbox (conn (world t)) \<Longrightarrow>
     kept conn valid s (t\<lparr>world := w\<rparr>)"
  by (simp add: kept_def ready_def)

lemma kept_fields [simp]:
  "kept conn valid s (t\<lparr>frame_header := h\<rparr>) = kept conn valid s t"
  "kept conn valid s (t\<lparr>input_message_length := n\<rparr>) = kept conn valid s t"
  "kept conn valid s (t\<lparr>input_payload_buffer := b\<rparr>) = kept conn valid s t"
  by (auto simp: kept_def ready_def)

lemma kept_mask: "kept conn valid s t \<Longrightarrow> length msk = 4 \<Longrightarrow> kept conn valid s (t\<lparr>input_mask := msk\<rparr>)"
  by (simp add: kept_def ready_def)

context websocket
begin

lemma socket_read_any:
  assumes k: "kept conn valid s t" and n: "n \<le> length buf"
    and post: "\<And>b w'. length b = length buf \<Longrightarrow> kept conn valid s (t\<lparr>world := w'\<rparr>) \<Longrightarrow> Q b (pt b (t\<lparr>world := w'\<rparr>))"
    and err: "\<And>b w' e. length b = length buf \<Longrightarrow> kept conn valid s (t\<lparr>world := w'\<rparr>) \<Longrightarrow> X e (pt b (t\<lparr>world := w'\<rparr>))"
  shows "wp True (socket_read E pt buf n) Q X t"
  unfolding socket_read_def wp_rules wp_on_world split_def env_socket
  by (rule wp_mono [OF s_read_any [OF keptD(1,2) [OF k] n]])
    (auto simp: wp_rules intro!: post err kept_world [OF k])

lemma input_read_header_any:
  assumes k: "kept conn valid s t"
  shows "wp True (input_read_header E) (\<lambda>_. kept conn valid s) (\<lambda>_. kept conn valid s) t"
proof -
  let ?K = "\<lambda>_. kept conn valid s"
  have head: "wp True (input_read_frame_header E) ?K ?K t" if "kept conn valid s t" for t
    unfolding input_read_frame_header_def wp_rules
    by (rule socket_read_any [OF that]) (simp_all add: env_uninit wp_rules)
  have len16: "wp True (input_read_uint16 E) ?K ?K t" if "kept conn valid s t" for t
    unfolding input_read_uint16_def wp_rules
    by (rule socket_read_any [OF that]) (simp_all add: env_uninit wp_rules)
  have len64: "wp True (input_read_uint64 E) ?K ?K t" if "kept conn valid s t" for t
    unfolding input_read_uint64_def wp_rules
    by (rule socket_read_any [OF that]) (simp_all add: env_uninit wp_rules)
  have len: "wp True (input_read_payload_length E) ?K ?K t" if "kept conn valid s t" for t
    using that
    by (auto simp: input_read_payload_length_def wp_rules intro!: wp_mono [OF len16] wp_mono [OF len64])
  have msk: "wp True (input_read_payload_mask E) ?K ?K t" if "kept conn valid s t" for t
    unfolding input_read_payload_mask_def wp_rules
    by (rule socket_read_any [OF that]) (use keptD(3) [OF that] in \<open>auto simp: wp_rules intro: kept_mask\<close>)
  show ?thesis
    by (cases "ws_role E")
      (auto simp: input_read_header_def input_read_header_server_def input_read_header_client_def wp_block wp_bind
        intro!: wp_mono [OF head [OF k]] wp_mono [OF len] msk len)
qed

lemma input_read_payload_any:
  assumes k: "kept conn valid s t"
  shows "wp True (input_read_payload E) (\<lambda>_. kept conn valid s) (\<lambda>_. kept conn valid s) t"
proof -
  have round: "wp True (input_read_payload_round E a)
      (\<lambda>r t'. case r of Inl a' \<Rightarrow> length (snd a') = kPayloadBufferLength \<and> kept conn valid s t' | Inr _ \<Rightarrow> kept conn valid s t')
      (\<lambda>_. kept conn valid s) t"
    if I: "length (snd a) = kPayloadBufferLength \<and> kept conn valid s t" for a t
  proof -
    obtain p buf where a: "a = (p, buf)" by (cases a)
    have append: "wp True (input_append_payload E b k) (\<lambda>b' t'. length b' = kPayloadBufferLength \<and> kept conn valid s t') X t'"
      if "k \<le> length b" "length b = kPayloadBufferLength" "kept conn valid s t'" for b k t' X
      using that by (subst wp_input_append_payload [OF that(1) refl]) auto
    have piece: "wp True (socket_read E local_array buf k) (\<lambda>b. wp True (input_append_payload E b k)
        (\<lambda>b' t'. length b' = kPayloadBufferLength \<and> kept conn valid s t') (\<lambda>_. kept conn valid s)) (\<lambda>_. kept conn valid s) t"
      if k: "k \<le> kPayloadBufferLength" for k
      by (rule socket_read_any [of s]) (use k I in \<open>auto simp: a intro!: append\<close>)
    show ?thesis
      using that unfolding a input_read_payload_round_def split_conv wp_rules Let_def
      by (auto simp: wp_rules intro!: piece)
  qed
  show ?thesis
    unfolding input_read_payload_def wp_rules
    by (rule wp_loop_partial [where I = "\<lambda>a t. length (snd a) = kPayloadBufferLength \<and> kept conn valid s t", OF _ round])
      (use k in \<open>simp add: env_uninit\<close>)
qed

lemma read_message_any:
  assumes k: "kept conn valid s t"
  shows "wp True (read_message E) (\<lambda>_. kept conn valid s) (\<lambda>_. kept conn valid s) t"
  unfolding read_message_def wp_block
  by (rule wp_mono [OF input_read_header_any [OF k]])
    (auto simp: input_assert_valid_message_def wp_block wp_bind wp_asserts intro: input_read_payload_any)

section \<open>Waiting for the answer\<close>

lemma closing_wait_reply_any:
  assumes r: "ready conn valid s"
  shows "wp True (closing_wait_reply E timeout) (\<lambda>_. kept conn valid s) (\<lambda>_. kept conn valid s) s"
proof -
  let ?K = "\<lambda>_. kept conn valid s"
  have time: "wp True (compute_remaning_time E start timeout) ?K ?K t" if "kept conn valid s t" for start t
    by (rule wp_any, rule compute_remaning_time_wp)
      (use keptD [OF that] in \<open>auto intro!: kept_world [OF that] dest: movedD\<close>)
  have round: "wp True (closing_wait_round E timeout start a)
      (\<lambda>r t'. case r of Inl a' \<Rightarrow> kept conn valid s t' | Inr _ \<Rightarrow> kept conn valid s t') ?K t"
    if k: "kept conn valid s t" for start a t
  proof -
    have waited: "kept conn valid s (t\<lparr>world := w\<rparr>)" if "valid w" "step_to conn ticks (world t) (conn (world t)) w" for w
      using that keptD [OF k] by (intro kept_world [OF k]) (auto simp: step_to_def)
    show ?thesis
      unfolding closing_wait_round_def socket_wait_def wp_if wp_bind wp_on_world env_socket
      using k by (auto simp: wp_rules wp_ext, intro wp_mono [OF wp_any [OF s_wait [OF keptD(1,2) [OF k], of "1/100"]]])
        (auto simp: wp_rules wp_ext intro!: wp_mono [OF read_message_any [OF waited]] wp_mono [OF time] waited)
  qed
  show ?thesis
    unfolding closing_wait_reply_def wp_bind
  proof (rule rcom_time_wp)
    fix w t0
    assume "moved conn ticks valid (world s) 0 [] w"
    then have "kept conn valid s (s\<lparr>world := w\<rparr>)" using r by (auto simp: kept_def ready_def dest: movedD)
    then show "wp True (loopM (closing_wait_round E timeout (seconds t0)) timeout) ?K ?K (s\<lparr>world := w\<rparr>)"
      by (rule wp_loop_partial [where I = "\<lambda>_. kept conn valid s", OF _ round])
  qed (use r in \<open>simp add: ready_def\<close>)
qed

end

section \<open>When the wait ends\<close>

text \<open>
  What is left on a connection, and stops at the end of a frame, or has a close frame or the header
  of a frame to be rejected. The reserved bits of the frames are 0.
\<close>

definition bad_header :: "role \<Rightarrow> u8 \<Rightarrow> bool \<Rightarrow> nat \<Rightarrow> bool" where
  "bad_header sender opc masked n \<longleftrightarrow> masked \<noteq> masked_by sender \<or> \<not> valid_opcode opc \<or> n > 134217728"

inductive settled :: "role \<Rightarrow> bytes \<Rightarrow> bool" for sender :: role where
  settled_end: "settled sender []"
| settled_frame: "\<lbrakk>frame_ok f; valid_opcode (f_opc f); f_opc f \<noteq> kCloseOpcode; settled sender later\<rbrakk>
    \<Longrightarrow> settled sender (wire_frame sender f @ later)"
| settled_close: "\<lbrakk>frame_ok f; f_opc f = kCloseOpcode\<rbrakk> \<Longrightarrow> settled sender (wire_frame sender f @ later)"
| settled_bad: "\<lbrakk>unat opc < 16; n < 2 ^ 63; length msk = 4; bad_header sender opc masked n\<rbrakk>
    \<Longrightarrow> settled sender (rfc_header final opc masked n @ mask_bytes sender msk @ later)"

context websocket
begin

lemma closing_wait_loop_idle_wp:
  assumes r: "ready conn valid s" and inb: "inbox (conn (world s)) = []"
  shows "wp False (loopM (closing_wait_round E timeout (seconds t0)) a) (\<lambda>_ _. True) (\<lambda>_ _. True) s"
proof -
  define I :: "rat \<Rightarrow> 'w WebSocket \<Rightarrow> bool" where
    "I a t \<longleftrightarrow> (\<exists>w. t = s\<lparr>world := w\<rparr> \<and> conn w = conn (world s) \<and> valid w)" for a t
  have step: "wp False (closing_wait_round E timeout (seconds t0) a)
      (\<lambda>r t'. case r of Inl a' \<Rightarrow> I a' t' \<and> time_left t0 timeout (ticks (world t')) a'
                                       < time_left t0 timeout (ticks (world t)) a
                      | Inr b \<Rightarrow> True) (\<lambda>_ _. True) t" if I: "I a t" for a t
  proof (cases "0 \<le> a")
    case False
    then show ?thesis by (auto simp: closing_wait_round_def wp_rules)
  next
    case True
    obtain w where t: "t = s\<lparr>world := w\<rparr>" and w: "conn w = conn (world s)" "valid w"
      using I by (auto simp: I_def)
    have u: "up (conn (world t))" "inbox (conn (world t)) = []" "valid (world t)"
      using r inb w by (simp_all add: t ready_def)
    have tail: "wp False (compute_remaning_time E (seconds t0) timeout)
        (\<lambda>r t'. I r t' \<and> time_left t0 timeout (ticks (world t')) r < time_left t0 timeout (ticks (world t)) a)
        (\<lambda>_ _. True) (t\<lparr>world := w1\<rparr>)" if "valid w1" "conn w1 = conn (world t)" "ticks (world t) \<le> ticks w1" for w1
    proof (rule compute_remaning_time_wp)
      fix w' u
      assume w': "moved conn ticks valid (world (t\<lparr>world := w1\<rparr>)) 0 [] w'"
        "ticks (world (t\<lparr>world := w1\<rparr>)) < ticks w'" "\<bar>u - ticks w'\<bar> \<le> kDrift"
      then have "ticks w < ticks w'" using that(3) by (simp add: t)
      from time_left_decreases [OF this True w'(3) refl, of t0 timeout] w' that w
      show "I (timeout - (seconds u - seconds t0)) (t\<lparr>world := w1, world := w'\<rparr>)
          \<and> time_left t0 timeout (ticks (world (t\<lparr>world := w1, world := w'\<rparr>))) (timeout - (seconds u - seconds t0))
            < time_left t0 timeout (ticks (world t)) a"
        by (auto simp: t I_def moved_idle step_to_def)
    qed (use that in simp)
    show ?thesis
      unfolding closing_wait_round_def socket_wait_def wp_if wp_bind wp_on_world env_socket
      using True u
      by (simp, intro wp_mono [OF s_wait [OF u(3,1), of "1/100"]])
        (auto simp: wp_rules step_to_def intro!: wp_mono [OF tail])
  qed
  show ?thesis
    by (rule wp_loop_total [where I = I and \<mu> = "\<lambda>a t. time_left t0 timeout (ticks (world t)) a", OF _ step])
      (use r in \<open>auto simp: I_def ready_def intro!: exI [where x = "world s"]\<close>)
qed

text \<open>A round of the wait when something is there.\<close>

lemma closing_wait_loop_data_wp:
  assumes r: "ready conn valid s" and inb: "inbox (conn (world s)) \<noteq> []"
    and read: "\<And>w. moved conn ticks valid (world s) 0 [] w \<Longrightarrow> wp False (read_message E)
      (\<lambda>_ t. opcode (frame_header t) \<noteq> kCloseOpcode \<longrightarrow> valid (world t)
         \<and> (\<forall>a' w'. moved conn ticks valid (world t) 0 [] w' \<longrightarrow>
              wp False (loopM (closing_wait_round E timeout start) a') (\<lambda>_ _. True) (\<lambda>_ _. True) (t\<lparr>world := w'\<rparr>)))
      (\<lambda>_ _. True) (s\<lparr>world := w\<rparr>)"
  shows "wp False (loopM (closing_wait_round E timeout start) a) (\<lambda>_ _. True) (\<lambda>_ _. True) s"
proof (cases "0 \<le> a")
  case False
  then show ?thesis by (simp add: wp_loop_unfold [of _ _ a] closing_wait_round_def wp_rules)
next
  case True
  have time: "wp False (compute_remaning_time E start timeout)
      (\<lambda>r. wp False (loopM (closing_wait_round E timeout start) r) (\<lambda>_ _. True) (\<lambda>_ _. True)) (\<lambda>_ _. True) t"
    if "valid (world t)" "\<forall>a' w'. moved conn ticks valid (world t) 0 [] w' \<longrightarrow>
      wp False (loopM (closing_wait_round E timeout start) a') (\<lambda>_ _. True) (\<lambda>_ _. True) (t\<lparr>world := w'\<rparr>)" for t
    by (rule compute_remaning_time_wp) (use that in auto)
  have round: "wp False (closing_wait_round E timeout start a) (\<lambda>r. case r of Inl a' \<Rightarrow> P a' | Inr b \<Rightarrow> \<lambda>t. True)
      (\<lambda>_ _. True) s"
    if time: "\<And>t. \<lbrakk>valid (world t);
        \<forall>a' w'. moved conn ticks valid (world t) 0 [] w' \<longrightarrow>
          wp False (loopM (closing_wait_round E timeout start) a') (\<lambda>_ _. True) (\<lambda>_ _. True) (t\<lparr>world := w'\<rparr>)\<rbrakk> \<Longrightarrow>
        wp False (compute_remaning_time E start timeout) P (\<lambda>_ _. True) t" for P
    unfolding closing_wait_round_def [of E timeout start a] socket_wait_def wp_if wp_bind wp_on_world env_socket
    using True r inb
    by (simp, intro wp_mono [OF s_wait [of "world s" "1/100"]])
      (auto simp: ready_def wp_rules wp_ext moved_idle intro!: wp_mono [OF read [unfolded moved_idle]] that)
  show ?thesis
    unfolding wp_loop_unfold [of _ _ a]
    by (rule wp_mono [OF round [OF time]]) (auto split: sum.splits)
qed

lemma closing_wait_loop_settled_wp:
  assumes "settled (peer (ws_role E)) inb" and "ready conn valid s" and "inbox (conn (world s)) = inb"
  shows "wp False (loopM (closing_wait_round E timeout (seconds t0)) a) (\<lambda>_ _. True) (\<lambda>_ _. True) s"
  using assms
proof (induction arbitrary: s a rule: settled.induct)
  case settled_end
  then show ?case by (intro closing_wait_loop_idle_wp) auto
next
  case (settled_frame f later)
  show ?case
  proof (rule closing_wait_loop_data_wp [OF settled_frame.prems(1)])
    fix w
    assume w: "moved conn ticks valid (world s) 0 [] w"
    have on: "wp False (loopM (closing_wait_round E timeout (seconds t0)) a') (\<lambda>_ _. True) (\<lambda>_ _. True)
        ((message_read (ws_role E) (f_fin f) (f_opc f) (f_mask f) (f_data f) w1 (s\<lparr>world := w\<rparr>))\<lparr>world := w2\<rparr>)"
      if w1: "consumed conn ticks valid w (length (wire_frame (peer (ws_role E)) f)) w1"
        and w2: "moved conn ticks valid w1 0 [] w2" for w1 w2 a'
      by (rule settled_frame.IH)
        (use settled_frame.prems settled_frame.hyps(1) consumedD [OF w1] movedD [OF w2] movedD [OF w] in
          \<open>auto simp: ready_def frame_ok_def\<close>)
    show "wp False (read_message E)
      (\<lambda>_ t. opcode (frame_header t) \<noteq> kCloseOpcode \<longrightarrow> valid (world t)
         \<and> (\<forall>a' w'. moved conn ticks valid (world t) 0 [] w' \<longrightarrow>
              wp False (loopM (closing_wait_round E timeout (seconds t0)) a') (\<lambda>_ _. True) (\<lambda>_ _. True) (t\<lparr>world := w'\<rparr>)))
      (\<lambda>_ _. True) (s\<lparr>world := w\<rparr>)"
      by (rule read_message_wp [where final = "f_fin f" and opc = "f_opc f" and msk = "f_mask f"
            and payload = "f_data f" and rest = later])
        (use settled_frame.prems settled_frame.hyps movedD [OF w] on in
          \<open>auto simp: ready_def frame_ok_def wire_frame_def dest: consumedD(1)\<close>)
  qed (use settled_frame.prems in simp)
next
  case (settled_close f later)
  show ?case
  proof (rule closing_wait_loop_data_wp [OF settled_close.prems(1)])
    fix w
    assume w: "moved conn ticks valid (world s) 0 [] w"
    show "wp False (read_message E)
      (\<lambda>_ t. opcode (frame_header t) \<noteq> kCloseOpcode \<longrightarrow> valid (world t)
         \<and> (\<forall>a' w'. moved conn ticks valid (world t) 0 [] w' \<longrightarrow>
              wp False (loopM (closing_wait_round E timeout (seconds t0)) a') (\<lambda>_ _. True) (\<lambda>_ _. True) (t\<lparr>world := w'\<rparr>)))
      (\<lambda>_ _. True) (s\<lparr>world := w\<rparr>)"
      by (rule read_message_wp [where final = "f_fin f" and opc = "f_opc f" and msk = "f_mask f"
            and payload = "f_data f" and rest = later])
        (use settled_close.prems settled_close.hyps movedD [OF w] in
          \<open>auto simp: ready_def frame_ok_def wire_frame_def valid_opcode_def\<close>)
  qed (use settled_close.prems in simp)
next
  case (settled_bad opc n msk masked final later)
  show ?case
  proof (rule closing_wait_loop_data_wp [OF settled_bad.prems(1)])
    fix w
    assume w: "moved conn ticks valid (world s) 0 [] w"
    show "wp False (read_message E)
      (\<lambda>_ t. opcode (frame_header t) \<noteq> kCloseOpcode \<longrightarrow> valid (world t)
         \<and> (\<forall>a' w'. moved conn ticks valid (world t) 0 [] w' \<longrightarrow>
              wp False (loopM (closing_wait_round E timeout (seconds t0)) a') (\<lambda>_ _. True) (\<lambda>_ _. True) (t\<lparr>world := w'\<rparr>)))
      (\<lambda>_ _. True) (s\<lparr>world := w\<rparr>)"
      by (rule read_message_rejects [where final = final and opc = opc and masked = masked and n = n and msk = msk
            and rest = later])
        (use settled_bad.prems settled_bad.hyps movedD [OF w] in \<open>auto simp: ready_def bad_header_def\<close>)
  qed (use settled_bad.prems in \<open>simp add: rfc_header_def\<close>)
qed

section \<open>Our close frame, and the end of the connection\<close>

definition closed_with :: "'w WebSocket \<Rightarrow> CloseCode \<Rightarrow> 'w WebSocket \<Rightarrow> bool" where
  "closed_with s code s' \<longleftrightarrow> valid (world s') \<and> \<not> up (conn (world s')) \<and> message_arg s' = message_arg s
     \<and> (\<exists>msk. length msk = 4 \<and> outbox (conn (world s')) = outbox (conn (world s))
          @ rfc_frame (ws_role E) True kCloseOpcode msk (close_payload code))"

lemma closing_wait_reply_settled_wp:
  assumes r: "ready conn valid s" and "settled (peer (ws_role E)) (inbox (conn (world s)))"
  shows "wp False (closing_wait_reply E timeout) (\<lambda>_ _. True) (\<lambda>_ _. True) s"
  unfolding closing_wait_reply_def wp_bind
proof (rule rcom_time_wp)
  fix w t0
  assume "moved conn ticks valid (world s) 0 [] w"
  from movedD [OF this]
  show "wp False (loopM (closing_wait_round E timeout (seconds t0)) timeout) (\<lambda>_ _. True) (\<lambda>_ _. True) (s\<lparr>world := w\<rparr>)"
    using assms by (intro closing_wait_loop_settled_wp) (auto simp: ready_def)
qed (use r in \<open>simp add: ready_def\<close>)

text \<open>If \<open>T\<close>, this says nothing of whether the wait for the answer ends.\<close>

lemma close_with_handshake_wp:
  assumes r: "ready conn valid s" and ends: "T \<or> settled (peer (ws_role E)) (inbox (conn (world s)))"
    and post: "\<And>s'. closed_with s code s' \<Longrightarrow> Q () s'"
  shows "wp T (close_with_handshake E code) Q X s"
  unfolding close_with_handshake_def try_close_with_handshake_def wp_catch wp_bind
proof (rule wp_any, rule send_close_message_wp)
  show "valid (world s)" "up (conn (world s))" "length (output_mask s) = 4"
    using r by (simp_all add: ready_def)
  fix msk w1
  assume msk: "length (msk :: bytes) = 4"
    and w1: "moved conn ticks valid (world s) 0 (rfc_frame (ws_role E) True kCloseOpcode msk (close_payload code)) w1"
  let ?s1 = "drew_mask (ws_role E) msk w1 s"
  have r1: "ready conn valid ?s1" by (rule ready_drew_mask [OF r msk w1])
  have close: "wp T (close_connection E) Q X' t" if "kept conn valid ?s1 t" for t X'
    by (rule wp_any, rule close_connection_wp)
      (use keptD [OF that] msk movedD [OF w1] in \<open>auto simp: closed_with_def intro!: post\<close>)
  let ?C = "\<lambda>X' _. wp T (close_connection E) Q X'"
  have wait: "wp T (closing_wait_reply E 5) (?C X') (?C X) ?s1" for X'
  proof -
    have any: "wp True (closing_wait_reply E 5) (?C X') (?C X) ?s1"
      by (rule wp_mono [OF closing_wait_reply_any [OF r1]]) (auto intro: close)
    show ?thesis
    proof (cases T)
      case False
      then have "settled (peer (ws_role E)) (inbox (conn (world ?s1)))" using ends movedD [OF w1] by simp
      from wp_total_with [OF closing_wait_reply_settled_wp [OF r1 this] any] show ?thesis .
    qed (use any in simp)
  qed
  show "wp T (whenM True (closing_wait_reply E 5)) (\<lambda>_. wp T (close_connection E) Q
        (\<lambda>e. wp T (close_without_handshake E) Q X)) (\<lambda>e. wp T (close_without_handshake E) Q X) ?s1"
    by (simp add: wp_basic wait close_without_handshake_def)
qed

end

section \<open>Frames that are rejected\<close>

text \<open>
  The bytes the server takes for a mask are the four behind the header, whatever they are; the
  client reads none. Then our close frame is sent, and what is left is read as frames.
\<close>

definition behind_header :: "role \<Rightarrow> bytes \<Rightarrow> bytes" where
  "behind_header role behind = (case role of ServerSide \<Rightarrow> drop 4 behind | ClientSide \<Rightarrow> behind)"

lemma behind_header_split:
  assumes "role = ServerSide \<Longrightarrow> 4 \<le> length behind"
  obtains msk where "length msk = 4" "behind = mask_bytes (peer role) msk @ behind_header role behind"
proof (cases role)
  case ServerSide
  with assms that [of "take 4 behind"] show ?thesis
    by (simp add: behind_header_def mask_bytes_def masked_by_def)
next
  case ClientSide
  with that [of "replicate 4 0"] show ?thesis
    by (simp add: behind_header_def mask_bytes_def masked_by_def)
qed

context websocket
begin

lemma recv_rejects_wp:
  assumes r: "ready conn valid s"
    and inb: "inbox (conn (world s)) = rfc_header final opc masked n @ behind"
    and four: "ws_role E = ServerSide \<Longrightarrow> 4 \<le> length behind"
    and opc: "unat opc < 16" and n: "n < 2 ^ 63" and t: "0 \<le> timeout"
    and bad: "bad_header (peer (ws_role E)) opc masked n"
    and ends: "T \<or> settled (peer (ws_role E)) (behind_header (ws_role E) behind)"
  shows "wp T (ws_recv E message timeout)
    (\<lambda>r s'. r = (kRecvError, []) \<and> \<not> up (conn (world s'))
       \<and> (\<exists>msk. length msk = 4 \<and> outbox (conn (world s')) = outbox (conn (world s))
          @ rfc_frame (ws_role E) True kCloseOpcode msk (close_payload
             (if masked \<noteq> masked_by (peer (ws_role E)) \<or> \<not> valid_opcode opc
              then kCloseProtocolError else kCloseTooBig)))) (\<lambda>_ _. False) s"
proof (rule behind_header_split [OF four], assumption, rule ws_recv_start)
  show "valid (world s)" using r by (simp add: ready_def)
  fix w start msk
  assume w: "moved conn ticks valid (world s) 0 [] w" and msk: "length msk = 4"
    and behind: "behind = mask_bytes (peer (ws_role E)) msk @ behind_header (ws_role E) behind"
  let ?code = "if masked \<noteq> masked_by (peer (ws_role E)) \<or> \<not> valid_opcode opc then kCloseProtocolError else kCloseTooBig"
  let ?s = "s\<lparr>message_arg := [], world := w\<rparr>"
  let ?Q = "\<lambda>r s'. r = (kRecvError, []) \<and> \<not> up (conn (world s'))
       \<and> (\<exists>msk. length msk = 4 \<and> outbox (conn (world s')) = outbox (conn (world s))
          @ rfc_frame (ws_role E) True kCloseOpcode msk (close_payload ?code))"
  let ?X = "\<lambda>e t. case e of RecvError m code \<Rightarrow>
        wp T (close_with_handshake E code) (\<lambda>_ t. ?Q (kRecvError, message_arg t) t) (\<lambda>_ _. False) t
      | _ \<Rightarrow> False"
  have "inbox (conn (world s)) \<noteq> []" by (simp add: inb rfc_header_def)
  then have "wp False (try_recv_round E timeout start timeout) P ?X ?s" for P
  proof (intro try_recv_round_data_wp)
    fix w0
    assume w0: "moved conn ticks valid (world ?s) 0 [] w0"
    have mv: "moved conn ticks valid (world s) 0 [] w0" using moved_trans [OF w, of 0 "[]" w0] w0 by simp
    let ?s0 = "?s\<lparr>world := w0\<rparr>"
    show "wp False (handle_one_message E) Q' ?X ?s0" for Q'
      unfolding handle_one_message_def wp_block
    proof (rule read_message_rejects [where rest = "behind_header (ws_role E) behind", OF _ _ _ _ n msk _
            bad [unfolded bad_header_def]])
      fix w' m
      assume c: "consumed conn ticks valid (world ?s0) (length (rfc_header final opc masked n)
          + length (mask_bytes (peer (ws_role E)) msk)) w'"
      have inb0: "inbox (conn w0) = rfc_header final opc masked n @ mask_bytes (peer (ws_role E)) msk
          @ behind_header (ws_role E) behind"
        using movedD [OF mv] inb behind by simp
      have w': "inbox (conn w') = behind_header (ws_role E) behind" "valid w'" "up (conn w') = up (conn (world s))"
          "outbox (conn w') = outbox (conn (world s))"
        using consumedD [OF c] movedD [OF mv] by (simp_all add: inb0)
      have hr: "ready conn valid (header_read (ws_role E) final opc masked msk n w' ?s0)"
        "message_arg (header_read (ws_role E) final opc masked msk n w' ?s0) = []"
        using r w' msk by (cases "ws_role E"; simp add: header_read_def ready_def)+
      show "case RecvError m ?code of RecvError m code \<Rightarrow>
          wp T (close_with_handshake E code) (\<lambda>_ t. ?Q (kRecvError, message_arg t) t) (\<lambda>_ _. False)
            (header_read (ws_role E) final opc masked msk n w' ?s0) | _ \<Rightarrow> False"
        unfolding exn.case
        by (rule close_with_handshake_wp [OF hr(1)]) (use w' hr ends in \<open>auto simp: closed_with_def\<close>)
    qed (use r inb behind opc movedD [OF mv] in \<open>auto simp: ready_def\<close>)
  qed (use r t movedD [OF w] in \<open>auto simp: ready_def\<close>)
  then show "wp T (loopM (try_recv_round E timeout start) timeout) (\<lambda>status t. ?Q (status, message_arg t) t) ?X ?s"
    unfolding wp_loop_unfold [of _ _ timeout] by (rule wp_any)
qed

end

end
