(* ===== verification/MemBuffer.thy ===== *)
theory MemBuffer
  imports Libc
begin

text \<open>
  MemBuffer.cpp: a growing array of bytes. The object is its contents; a member function that
  changes it is a program over them. What \<open>vsnprintf\<close> makes of a format and its arguments is
  written out where \<open>printf\<close> is called; here it is the text it produced.
\<close>

type_synonym MemBuffer = bytes

definition mb_copy :: "MemBuffer \<Rightarrow> MemBuffer" where
  "mb_copy buffer = [] @ buffer"

definition mb_assign :: "MemBuffer \<Rightarrow> (MemBuffer, unit) prog" where
  "mb_assign from_buffer = blockM [modifyM (\<lambda>_. []), modifyM (\<lambda>d. d @ from_buffer)]"

definition mb_equal :: "MemBuffer \<Rightarrow> MemBuffer \<Rightarrow> bool" where
  "mb_equal a b = (a = b)"

definition mb_put :: "u8 \<Rightarrow> (MemBuffer, unit) prog" where
  "mb_put c = modifyM (\<lambda>d. d @ [c])"

definition mb_append :: "bytes \<Rightarrow> nat \<Rightarrow> (MemBuffer, unit) prog" where
  "mb_append data len = modifyM (\<lambda>d. d @ take len data)"

definition mb_append_buffer :: "MemBuffer \<Rightarrow> (MemBuffer, unit) prog" where
  "mb_append_buffer buffer = modifyM (\<lambda>d. d @ buffer)"

definition mb_append_string :: "string \<Rightarrow> (MemBuffer, unit) prog" where
  "mb_append_string s = modifyM (\<lambda>d. d @ bytes_of_string s)"

text \<open>\<open>strnlen(s, n)\<close> on the memory at \<open>s\<close>.\<close>

definition strnlen :: "bytes \<Rightarrow> nat \<Rightarrow> nat" where
  "strnlen s n = min n (length (c_bytes s))"

definition mb_append_string_32k_max :: "bytes \<Rightarrow> (MemBuffer, unit) prog" where
  "mb_append_string_32k_max str =
     (let KB_32 = 32 * 1024; lens = strnlen str (KB_32 + 1)
      in if lens = KB_32 + 1
         then throwM (RuntimeError ''MemBuffer::append_string_32k_max() string too long'')
         else modifyM (\<lambda>d. d @ take lens str))"

text \<open>The text comes back through a C string: it ends at its first NUL.\<close>

definition mb_vprintf :: "string \<Rightarrow> string" where
  "mb_vprintf formatted = c_str formatted"

definition mb_printf :: "string \<Rightarrow> (MemBuffer, unit) prog" where
  "mb_printf formatted = mb_append_string (mb_vprintf formatted)"

definition mb_data :: "MemBuffer \<Rightarrow> bytes" where
  "mb_data d = d"

definition mb_tostring :: "MemBuffer \<Rightarrow> string" where
  "mb_tostring d = string_of_bytes d"

definition mb_clear :: "(MemBuffer, unit) prog" where
  "mb_clear = modifyM (\<lambda>_. [])"

definition mb_size :: "MemBuffer \<Rightarrow> nat" where
  "mb_size d = length d"

lemma mb_append_string_32k_max_eq:
  "mb_append_string_32k_max str d =
     (if length (c_bytes str) \<le> 32768 then Some (Inr (), d @ c_bytes str)
      else Some (Inl (RuntimeError ''MemBuffer::append_string_32k_max() string too long''), d))"
proof -
  have "take (length (c_bytes str)) str = c_bytes str"
    unfolding c_bytes_def by (simp add: takeWhile_eq_take [symmetric])
  then show ?thesis
    by (auto simp: mb_append_string_32k_max_def strnlen_def run Let_def min_def)
qed

end
