(* ===== verification/Http_Parser.thy ===== *)
theory Http_Parser
  imports MemBuffer
begin

text \<open>
  HttpParser.cpp: the state machine that reads the head of an HTTP request or response, one
  character at a time. The pure virtual functions, which the parsers of requests and responses
  define, are the fields of \<open>http_virtuals\<close>; the object they fill in is the field \<open>target\<close>.
\<close>

section \<open>The object\<close>

datatype HttpState = kRequestMethod | kRequestMethodSpaces | kRequestUri | kRequestUriSpaces
  | kRequestVersion | kRequestLineLF | kResponseVersion | kResponseVersionSpaces | kResponseCode
  | kResponseCodeSpaces | kResponseReason | kResponseReasonLF | kHeaderStart | kHeaderName
  | kHeaderSpaces | kHeaderValue | kHeaderLF | kHeadersEndLF | kBody | kErrorState

record 'r HttpParser =
  hp_state :: HttpState
  hp_buffer :: MemBuffer
  hp_name :: string
  target :: 'r

record 'r http_virtuals =
  v_set_method :: "('r HttpParser, unit) prog"
  v_set_uri :: "('r HttpParser, unit) prog"
  v_set_version :: "('r HttpParser, unit) prog"
  v_set_code :: "('r HttpParser, unit) prog"
  v_set_reason :: "('r HttpParser, unit) prog"
  v_add_header :: "('r HttpParser, unit) prog"

definition kMaxHeaderNameLength :: nat where "kMaxHeaderNameLength = 128"
definition kMaxHeaderValueLength :: nat where "kMaxHeaderValueLength = 1024"
definition kMaxUriLength :: nat where "kMaxUriLength = 2048"

definition parse_timeout_seconds :: rat where "parse_timeout_seconds = 5"

lemmas http_limits = kMaxHeaderNameLength_def kMaxHeaderValueLength_def kMaxUriLength_def

definition new_HttpParser :: "'r \<Rightarrow> 'r HttpParser" where
  "new_HttpParser r = \<lparr>hp_state = kErrorState, hp_buffer = [], hp_name = [], target = r\<rparr>"

section \<open>Characters\<close>

text \<open>\<open>strchr\<close> finds the NUL that ends the string as well.\<close>

definition is_valid_version_char :: "u8 \<Rightarrow> bool" where
  "is_valid_version_char c = in_cstring ''HTTP/0123456789.'' c"

definition is_separator :: "u8 \<Rightarrow> bool" where
  "is_separator c =
     in_cstring (''()<>@,;:'' @ [CHR 0x5C, CHR 0x27] @ ''/[]?={} '' @ [CHR 0x09]) c"

definition is_token_character :: "u8 \<Rightarrow> bool" where
  "is_token_character c = (let a = is_cntrl c; b = is_separator c in \<not> a \<and> \<not> b)"

definition CR :: u8 where "CR = 13"
definition LF :: u8 where "LF = 10"
definition SP :: u8 where "SP = 32"
definition COLON :: u8 where "COLON = 58"

lemmas http_chars = CR_def LF_def SP_def COLON_def

section \<open>The state machine\<close>

definition hp_error :: "string \<Rightarrow> ('r HttpParser, unit) prog" where
  "hp_error msg =
     bindM (modifyM (\<lambda>p. p\<lparr>hp_state := kErrorState\<rparr>)) (\<lambda>_.
     throwM (RuntimeError (''HttpParser: '' @ msg)))"

definition go_to :: "HttpState \<Rightarrow> ('r HttpParser, unit) prog" where
  "go_to st = modifyM (\<lambda>p. p\<lparr>hp_state := st\<rparr>)"

definition hp_put :: "u8 \<Rightarrow> ('r HttpParser, unit) prog" where
  "hp_put c = modifyM (\<lambda>p. p\<lparr>hp_buffer := hp_buffer p @ [c]\<rparr>)"

text \<open>\<open>buffer_.clear(); buffer_.put(c);\<close> and the next state.\<close>

definition start_with :: "u8 \<Rightarrow> HttpState \<Rightarrow> ('r HttpParser, unit) prog" where
  "start_with c st = blockM [modifyM (\<lambda>p. p\<lparr>hp_buffer := []\<rparr>), hp_put c, go_to st]"

definition store_header_name :: "('r HttpParser, unit) prog" where
  "store_header_name = modifyM (\<lambda>p. p\<lparr>hp_name := mb_tostring (hp_buffer p)\<rparr>)"

text \<open>The cases of the switch, for the header lines, the status line and the request line.\<close>

definition handle_header_char ::
  "'r http_virtuals \<Rightarrow> u8 \<Rightarrow> nat \<Rightarrow> HttpState \<Rightarrow> ('r HttpParser, unit) prog" where
  "handle_header_char V c sz st = (case st of
       kHeaderStart \<Rightarrow>
         if c = CR then go_to kHeadersEndLF
         else if is_token_character c then start_with c kHeaderName
         else hp_error ''Unexpected char in header name''
     | kHeaderName \<Rightarrow>
         if c = COLON then blockM [store_header_name, go_to kHeaderSpaces]
         else if is_token_character c then
           if sz < kMaxHeaderNameLength then hp_put c else hp_error ''Header name too long''
         else hp_error ''Unexpected char in header name''
     | kHeaderSpaces \<Rightarrow>
         if c = SP then returnM ()
         else if c = CR then hp_error ''Unexpected CR header value''
         else start_with c kHeaderValue
     | kHeaderValue \<Rightarrow>
         if c = CR then blockM [v_add_header V, go_to kHeaderLF]
         else if sz < kMaxHeaderValueLength then hp_put c
         else hp_error ''Header value too long''
     | kHeaderLF \<Rightarrow>
         if c = LF then go_to kHeaderStart else hp_error ''Expected CRLF at end of header''
     | kHeadersEndLF \<Rightarrow>
         if c = LF then go_to kBody else hp_error ''Expected CRLF at end of headers''
     | _ \<Rightarrow> hp_error ''http_parser_handle_char: reached invalid state'')"

definition handle_status_char ::
  "'r http_virtuals \<Rightarrow> u8 \<Rightarrow> nat \<Rightarrow> HttpState \<Rightarrow> ('r HttpParser, unit) prog" where
  "handle_status_char V c sz st = (case st of
       kResponseVersion \<Rightarrow>
         if sz > 8 then hp_error ''HTTP version too long''
         else if c = SP then blockM [v_set_version V, go_to kResponseVersionSpaces]
         else hp_put c
     | kResponseVersionSpaces \<Rightarrow>
         if c = SP then returnM () else start_with c kResponseCode
     | kResponseCode \<Rightarrow>
         if sz > 3 then hp_error ''HTTP code too long''
         else if c = SP then blockM [v_set_code V, go_to kResponseCodeSpaces]
         else if is_digit c then hp_put c
         else hp_error ''Unexpected char in status code''
     | kResponseCodeSpaces \<Rightarrow>
         if c = SP then returnM () else start_with c kResponseReason
     | kResponseReason \<Rightarrow>
         if sz > 128 then hp_error ''HTTP status reason too long''
         else if c = CR then blockM [v_set_reason V, go_to kResponseReasonLF]
         else hp_put c
     | kResponseReasonLF \<Rightarrow>
         if c = LF then go_to kHeaderStart else hp_error ''Expected CRLF while reading status''
     | _ \<Rightarrow> handle_header_char V c sz st)"

definition handle_char_in ::
  "'r http_virtuals \<Rightarrow> u8 \<Rightarrow> nat \<Rightarrow> HttpState \<Rightarrow> ('r HttpParser, unit) prog" where
  "handle_char_in V c sz st = (case st of
       kRequestMethod \<Rightarrow>
         if sz > 8 then hp_error ''Method string too long''
         else if c = SP then blockM [v_set_method V, go_to kRequestMethodSpaces]
         else if is_upper c then hp_put c
         else hp_error ''Unexpected char in method''
     | kRequestMethodSpaces \<Rightarrow>
         if c = SP then returnM () else start_with c kRequestUri
     | kRequestUri \<Rightarrow>
         if sz > kMaxUriLength then hp_error ''URI too long''
         else if c = SP then blockM [v_set_uri V, go_to kRequestUriSpaces]
         else hp_put c
     | kRequestUriSpaces \<Rightarrow>
         if c = SP then returnM () else start_with c kRequestVersion
     | kRequestVersion \<Rightarrow>
         if c = CR then blockM [v_set_version V, go_to kRequestLineLF]
         else if sz > 8 then hp_error ''HTTP version too long''
         else if \<not> is_valid_version_char c then hp_error ''Invalid character in HTTP version''
         else hp_put c
     | kRequestLineLF \<Rightarrow>
         if c = LF then go_to kHeaderStart else hp_error ''Expected CRLF while reading request''
     | _ \<Rightarrow> handle_status_char V c sz st)"

definition handle_char :: "'r http_virtuals \<Rightarrow> u8 \<Rightarrow> ('r HttpParser, unit) prog" where
  "handle_char V c =
     bindM (getsM (\<lambda>p. (mb_size (hp_buffer p), hp_state p))) (\<lambda>(sz, st). handle_char_in V c sz st)"

section \<open>Reading from a socket\<close>

text \<open>The state is the parser and the state of the socket.\<close>

definition on_parser :: "('r HttpParser, 'a) prog \<Rightarrow> ('r HttpParser \<times> 'w, 'a) prog" where
  "on_parser m = zoomM fst (\<lambda>p s. (p, snd s)) m"

definition on_socket :: "('w, 'a) prog \<Rightarrow> ('r HttpParser \<times> 'w, 'a) prog" where
  "on_socket m = zoomM snd (\<lambda>w s. (fst s, w)) m"

definition read_char ::
  "'r http_virtuals \<Rightarrow> 'w ISocket \<Rightarrow> u8 \<Rightarrow> ('r HttpParser \<times> 'w, unit) prog" where
  "read_char V S uninit =
     bindM (on_socket (sock_read S [uninit] 1)) (\<lambda>(success, c).
     bindM (whenM (\<not> success) (on_parser (hp_error ''read_char failed''))) (\<lambda>_.
     on_parser (handle_char V (c ! 0))))"

definition parse_round ::
  "'r http_virtuals \<Rightarrow> 'w ISocket \<Rightarrow> u8 \<Rightarrow> unit \<Rightarrow> ('r HttpParser \<times> 'w, unit + unit) prog" where
  "parse_round V S uninit = (\<lambda>_.
     bindM (on_socket (sock_wait S parse_timeout_seconds)) (\<lambda>status.
     bindM (whenM (status \<noteq> kWaitOK) (on_parser (hp_error ''Socket timed out''))) (\<lambda>_.
     bindM (read_char V S uninit) (\<lambda>_.
     bindM (on_parser (getsM hp_state)) (\<lambda>st.
     if st = kBody then returnM (Inr ()) else returnM (Inl ()))))))"

definition hp_parse ::
  "'r http_virtuals \<Rightarrow> 'w ISocket \<Rightarrow> u8 \<Rightarrow> ('r HttpParser \<times> 'w, unit) prog" where
  "hp_parse V S uninit =
     bindM (on_parser (modifyM (\<lambda>p. p\<lparr>hp_buffer := []\<rparr>))) (\<lambda>_.
     loopM (parse_round V S uninit) ())"

definition hp_parse_request ::
  "'r http_virtuals \<Rightarrow> 'w ISocket \<Rightarrow> u8 \<Rightarrow> ('r HttpParser \<times> 'w, unit) prog" where
  "hp_parse_request V S uninit =
     blockM [on_parser (go_to kRequestMethod), hp_parse V S uninit]"

definition hp_parse_response ::
  "'r http_virtuals \<Rightarrow> 'w ISocket \<Rightarrow> u8 \<Rightarrow> ('r HttpParser \<times> 'w, unit) prog" where
  "hp_parse_response V S uninit =
     blockM [on_parser (go_to kResponseVersion), hp_parse V S uninit]"

end
