(* ===== verification/Http_Messages.thy ===== *)
theory Http_Messages
  imports Http_Parser Util
begin

text \<open>
  Request.cpp, Response.cpp and the parsers that fill them in, RequestParser.cpp and
  ResponseParser.cpp: the instances of the virtual functions of HttpParser, and the checks the
  opening handshake makes of the parsed message.
\<close>

section \<open>The request\<close>

record HttpHeader =
  h_name :: string
  h_value :: string

datatype Method = kGetMethod | kUnsupportedMethod

record Request =
  rq_method :: Method
  rq_uri :: string
  rq_headers :: "HttpHeader list"

definition new_Request :: Request where
  "new_Request = \<lparr>rq_method = kUnsupportedMethod, rq_uri = [], rq_headers = []\<rparr>"

definition rq_set_method :: "Method \<Rightarrow> Request \<Rightarrow> Request" where
  "rq_set_method m r = r\<lparr>rq_method := m\<rparr>"

definition rq_set_uri :: "string \<Rightarrow> Request \<Rightarrow> Request" where
  "rq_set_uri u r = r\<lparr>rq_uri := u\<rparr>"

definition rq_add_header :: "string \<Rightarrow> string \<Rightarrow> Request \<Rightarrow> Request" where
  "rq_add_header n v r = r\<lparr>rq_headers := rq_headers r @ [\<lparr>h_name = n, h_value = v\<rparr>]\<rparr>"

text \<open>
  \<open>get_header_value\<close> scans for the first header of the name. It returns whether there is one
  and the value, the empty string when there is none.
\<close>

fun find_header :: "string \<Rightarrow> HttpHeader list \<Rightarrow> bool \<times> string" where
  "find_header n [] = (False, [])"
| "find_header n (h # hs) = (if n = h_name h then (True, h_value h) else find_header n hs)"

definition rq_get_header_value :: "string \<Rightarrow> Request \<Rightarrow> bool \<times> string" where
  "rq_get_header_value n r = find_header n (rq_headers r)"

text \<open>A check throws or passes.\<close>

definition quoted :: "string \<Rightarrow> string" where
  "quoted s = [CHR 0x27] @ s @ [CHR 0x27]"

definition check :: "bool \<Rightarrow> string \<Rightarrow> exn + unit" where
  "check ok msg = (if ok then Inr () else Inl (RuntimeError msg))"

fun checks :: "(exn + unit) list \<Rightarrow> exn + unit" where
  "checks [] = Inr ()"
| "checks (Inl e # cs) = Inl e"
| "checks (Inr u # cs) = checks cs"

definition http_method_is_get :: "Request \<Rightarrow> exn + unit" where
  "http_method_is_get r = check (\<not> rq_method r \<noteq> kGetMethod) ''Request: Bad HTTP method''"

definition is_valid_websocket_key :: "string \<Rightarrow> exn + unit" where
  "is_valid_websocket_key key =
     (if length key \<noteq> 24 then Inl (RuntimeError ''Request: bad key length'')
      else if key ! 22 \<noteq> CHR ''='' \<or> key ! 23 \<noteq> CHR ''='' then
        Inl (RuntimeError (''Request: expected closing '' @ quoted ''='' @ '' chars''))
      else if \<not> is_base64_string key then Inl (RuntimeError ''Request: invalid char'')
      else Inr ())"

definition has_valid_websocket_key :: "Request \<Rightarrow> exn + unit" where
  "has_valid_websocket_key r =
     (let (has, header_value) = rq_get_header_value ''Sec-WebSocket-Key'' r
      in if \<not> has then Inl (RuntimeError ''Request: Missing Sec-WebSocket-Key header'')
         else is_valid_websocket_key header_value)"

definition has_valid_websocket_version :: "Request \<Rightarrow> exn + unit" where
  "has_valid_websocket_version r =
     (let (has, header_value) = rq_get_header_value ''Sec-WebSocket-Version'' r
      in check (has \<and> header_value = ''13'') ''Request: Bad Sec-WebSocket-Version header'')"

definition connection_header_is_upgrade :: "Request \<Rightarrow> exn + unit" where
  "connection_header_is_upgrade r =
     (let (has, header_value) = rq_get_header_value ''Connection'' r
      in check (has \<and> (contains_string ''Upgrade'' header_value
                     \<or> contains_string ''upgrade'' header_value))
           ''Request: Bad Connection header'')"

definition upgrade_header_is_websocket :: "Request \<Rightarrow> exn + unit" where
  "upgrade_header_is_websocket r =
     (let (has, header_value) = rq_get_header_value ''Upgrade'' r
      in check (has \<and> header_value = ''websocket'') ''Request: Bad Upgrade header'')"

definition rq_assert_websocket :: "Request \<Rightarrow> exn + unit" where
  "rq_assert_websocket r =
     checks [http_method_is_get r, has_valid_websocket_key r, has_valid_websocket_version r,
             connection_header_is_upgrade r, upgrade_header_is_websocket r]"

section \<open>The response\<close>

record Response =
  rs_code :: int
  rs_headers :: "HttpHeader list"

definition new_Response :: Response where
  "new_Response = \<lparr>rs_code = 0, rs_headers = []\<rparr>"

definition rs_set_code :: "int \<Rightarrow> Response \<Rightarrow> Response" where
  "rs_set_code c r = r\<lparr>rs_code := c\<rparr>"

definition rs_add_header :: "string \<Rightarrow> string \<Rightarrow> Response \<Rightarrow> Response" where
  "rs_add_header n v r = r\<lparr>rs_headers := rs_headers r @ [\<lparr>h_name = n, h_value = v\<rparr>]\<rparr>"

definition rs_get_header_value :: "string \<Rightarrow> Response \<Rightarrow> bool \<times> string" where
  "rs_get_header_value n r = find_header n (rs_headers r)"

definition header_equals :: "string \<Rightarrow> string \<Rightarrow> Response \<Rightarrow> bool" where
  "header_equals n expected r =
     (let (found, v) = rs_get_header_value n r in found \<and> v = expected)"

definition status_equals_101 :: "Response \<Rightarrow> exn + unit" where
  "status_equals_101 r = check (\<not> rs_code r \<noteq> 101) ''Response: Expected 101 status''"

definition connection_header_equals_upgrade :: "Response \<Rightarrow> exn + unit" where
  "connection_header_equals_upgrade r =
     check (header_equals ''Connection'' ''Upgrade'' r \<or> header_equals ''Connection'' ''upgrade'' r)
       (''Response: Bad '' @ quoted ''Connection'' @ '' header'')"

definition upgrade_header_equals_websocket :: "Response \<Rightarrow> exn + unit" where
  "upgrade_header_equals_websocket r =
     check (header_equals ''Upgrade'' ''websocket'' r) (''Response: Bad '' @ quoted ''Upgrade'' @ '' header'')"

definition accept_header_is_valid :: "string \<Rightarrow> Response \<Rightarrow> exn + unit" where
  "accept_header_is_valid accept r =
     check (header_equals ''Sec-WebSocket-Accept'' accept r)
       (''Response: Bad '' @ quoted ''Sec-WebSocket-Accept'' @ '' header'')"

definition rs_assert_websocket :: "string \<Rightarrow> Response \<Rightarrow> exn + unit" where
  "rs_assert_websocket accept r =
     checks [status_equals_101 r, connection_header_equals_upgrade r,
             upgrade_header_equals_websocket r, accept_header_is_valid accept r]"

section \<open>The parser of requests\<close>

definition hp_value :: "('r HttpParser, string) prog" where
  "hp_value = getsM (\<lambda>p. mb_tostring (hp_buffer p))"

definition on_target :: "('r \<Rightarrow> 'r) \<Rightarrow> ('r HttpParser, unit) prog" where
  "on_target f = modifyM (\<lambda>p. p\<lparr>target := f (target p)\<rparr>)"

definition rqp_set_method :: "(Request HttpParser, unit) prog" where
  "rqp_set_method = bindM hp_value (\<lambda>v.
     if v = ''GET'' then on_target (rq_set_method kGetMethod) else hp_error ''Method not allowed'')"

definition rqp_set_uri :: "(Request HttpParser, unit) prog" where
  "rqp_set_uri = bindM hp_value (\<lambda>v. on_target (rq_set_uri v))"

definition rqp_set_version :: "(Request HttpParser, unit) prog" where
  "rqp_set_version = bindM hp_value (\<lambda>v.
     whenM (v \<noteq> ''HTTP/1.1'') (hp_error ''Unsupported HTTP version''))"

definition rqp_set_code :: "(Request HttpParser, unit) prog" where
  "rqp_set_code = hp_error (''Didn'' @ [CHR 0x27] @ ''t expect a response code'')"

definition rqp_set_reason :: "(Request HttpParser, unit) prog" where
  "rqp_set_reason = hp_error (''Didn'' @ [CHR 0x27] @ ''t expect a response reason'')"

definition rqp_add_header :: "(Request HttpParser, unit) prog" where
  "rqp_add_header = bindM hp_value (\<lambda>v.
     bindM (getsM hp_name) (\<lambda>n. on_target (rq_add_header n v)))"

definition RequestParser :: "Request http_virtuals" where
  "RequestParser = \<lparr>v_set_method = rqp_set_method, v_set_uri = rqp_set_uri,
     v_set_version = rqp_set_version, v_set_code = rqp_set_code, v_set_reason = rqp_set_reason,
     v_add_header = rqp_add_header\<rparr>"

definition rqp_parse :: "'w ISocket \<Rightarrow> u8 \<Rightarrow> (Request HttpParser \<times> 'w, unit) prog" where
  "rqp_parse S uninit = hp_parse_request RequestParser S uninit"

section \<open>The parser of responses\<close>

definition rsp_set_method :: "(Response HttpParser, unit) prog" where
  "rsp_set_method = hp_error (''Didn'' @ [CHR 0x27] @ ''t expect a method'')"

definition rsp_set_uri :: "(Response HttpParser, unit) prog" where
  "rsp_set_uri = hp_error (''Didn'' @ [CHR 0x27] @ ''t expect an URI'')"

definition rsp_set_version :: "(Response HttpParser, unit) prog" where
  "rsp_set_version = bindM hp_value (\<lambda>v.
     whenM (v \<noteq> ''HTTP/1.1'') (hp_error ''Unsupported HTTP version''))"

definition rsp_set_code :: "(Response HttpParser, unit) prog" where
  "rsp_set_code = bindM hp_value (\<lambda>v.
     let (code, endptr) = strtol (c_bytes (bytes_of_string v))
     in if endptr = [] \<and> 100 \<le> code \<and> code < 600 then on_target (rs_set_code code)
        else hp_error ''Invalid status code'')"

definition rsp_set_reason :: "(Response HttpParser, unit) prog" where
  "rsp_set_reason = returnM ()"

definition rsp_add_header :: "(Response HttpParser, unit) prog" where
  "rsp_add_header = bindM hp_value (\<lambda>v.
     bindM (getsM hp_name) (\<lambda>n. on_target (rs_add_header n v)))"

definition ResponseParser :: "Response http_virtuals" where
  "ResponseParser = \<lparr>v_set_method = rsp_set_method, v_set_uri = rsp_set_uri,
     v_set_version = rsp_set_version, v_set_code = rsp_set_code, v_set_reason = rsp_set_reason,
     v_add_header = rsp_add_header\<rparr>"

definition rsp_parse :: "'w ISocket \<Rightarrow> u8 \<Rightarrow> (Response HttpParser \<times> 'w, unit) prog" where
  "rsp_parse S uninit = hp_parse_response ResponseParser S uninit"

end
