(* ===== verification/Handshake.thy ===== *)
theory Handshake
  imports WebSocket Http_Messages BaseSocket
begin

text \<open>
  The opening handshake of RFC 6455: the constructors of ServerSideWebSocket.cpp and
  ClientSideWebSocket.cpp with what they call, \<open>make_accept_string\<close> of WebSocket.cpp, and
  SocketFactory.cpp, which puts a socket, a parser and a websocket together.
\<close>

section \<open>The interfaces of the parsers\<close>

text \<open>
  IRequestParser.h and IResponseParser.h. The state of \<open>parse\<close> is the parser and the state of
  the socket it reads from.
\<close>

record ('p, 'w) IRequestParser =
  irq_parse :: "'w ISocket \<Rightarrow> ('p \<times> 'w, unit) prog"
  irq_request :: "'p \<Rightarrow> Request"

record ('p, 'w) IResponseParser =
  irs_parse :: "'w ISocket \<Rightarrow> ('p \<times> 'w, unit) prog"
  irs_response :: "'p \<Rightarrow> Response"

definition request_parser :: "u8 \<Rightarrow> (Request HttpParser, 'w) IRequestParser" where
  "request_parser uninit =
     \<lparr>irq_parse = (\<lambda>S. rqp_parse S uninit), irq_request = target\<rparr>"

definition response_parser :: "u8 \<Rightarrow> (Response HttpParser, 'w) IResponseParser" where
  "response_parser uninit =
     \<lparr>irs_parse = (\<lambda>S. rsp_parse S uninit), irs_response = target\<rparr>"

section \<open>The strings of the handshake\<close>

definition websocket_guid :: string where
  "websocket_guid = ''258EAFA5-E914-47DA-95CA-C5AB0DC85B11''"

definition make_accept_string :: "string \<Rightarrow> string" where
  "make_accept_string key =
     (let data = key @ websocket_guid;
          digest = SHA1 (bytes_of_string data)
      in encode_base64 (take 20 digest))"

definition http_eol :: string where
  "http_eol = [CHR 0x0D, CHR 0x0A]"

definition make_http_response :: "MemBuffer \<Rightarrow> string \<Rightarrow> MemBuffer" where
  "make_http_response response accept =
     response @ bytes_of_string (mb_vprintf
      (''HTTP/1.1 101 Switching Protocols'' @ http_eol @
       ''Upgrade: websocket'' @ http_eol @
       ''Connection: Upgrade'' @ http_eol @
       ''Sec-WebSocket-Accept: '' @ c_str accept @ http_eol @
       http_eol))"

definition make_http_request :: "MemBuffer \<Rightarrow> string \<Rightarrow> string \<Rightarrow> MemBuffer" where
  "make_http_request request host key =
     request @ bytes_of_string (mb_vprintf
      (''GET / HTTP/1.1'' @ http_eol @
       ''Host: '' @ c_str host @ http_eol @
       ''Connection: Upgrade'' @ http_eol @
       ''Upgrade: websocket'' @ http_eol @
       ''Sec-WebSocket-Version: 13'' @ http_eol @
       ''Sec-WebSocket-Key: '' @ c_str key @ http_eol @
       http_eol))"

section \<open>The server's side\<close>

text \<open>The parser is an object beside the websocket.\<close>

definition on_websocket :: "('w WebSocket, 'a) prog \<Rightarrow> ('p \<times> 'w WebSocket, 'a) prog" where
  "on_websocket m = zoomM snd (\<lambda>w s. (fst s, w)) m"

definition with_parser :: "('p \<times> 'w, 'a) prog \<Rightarrow> ('p \<times> 'w WebSocket, 'a) prog" where
  "with_parser m = zoomM (\<lambda>s. (fst s, world (snd s))) (\<lambda>(p, w) s. (p, (snd s)\<lparr>world := w\<rparr>)) m"

definition upgrade_connection :: "'w ws_env \<Rightarrow> Request \<Rightarrow> ('w WebSocket, unit) prog" where
  "upgrade_connection E request =
     (let (found, key) = rq_get_header_value ''Sec-WebSocket-Key'' request;
          accept = make_accept_string key;
          response = make_http_response [] accept
      in bindM (socket_send E response) (\<lambda>sent.
         whenM (\<not> sent)
           (throwM (RuntimeError ''ServerSideWebSocket::upgrade_connection send failed''))))"

definition handshake_server ::
  "'w ws_env \<Rightarrow> ('p, 'w) IRequestParser \<Rightarrow> ('p \<times> 'w WebSocket, unit) prog" where
  "handshake_server E P =
     bindM (with_parser (irq_parse P (ws_socket E))) (\<lambda>_.
     bindM (getsM (\<lambda>s. irq_request P (fst s))) (\<lambda>request.
     bindM (throw_left (rq_assert_websocket request)) (\<lambda>_.
     on_websocket (upgrade_connection E request))))"

text \<open>
  A constructor: the object when the handshake succeeds, the exception again when it throws.
  The log line in between is not modelled.
\<close>

definition after_handshake ::
  "'w ws_env \<Rightarrow> ('p \<times> 'w WebSocket, unit) prog \<Rightarrow> ('p \<times> 'w, 'w WebSocket) prog" where
  "after_handshake E handshake = (\<lambda>(p, w).
     case catchM handshake throwM (p, new_WebSocket E w) of
       None \<Rightarrow> None
     | Some (r, (p', s)) \<Rightarrow> (case r of Inl e \<Rightarrow> Some (Inl e, (p', world s))
         | Inr _ \<Rightarrow> Some (Inr s, (p', world s))))"

definition ServerSideWebSocket_new ::
  "'w ws_env \<Rightarrow> ('p, 'w) IRequestParser \<Rightarrow> ('p \<times> 'w, 'w WebSocket) prog" where
  "ServerSideWebSocket_new E P = after_handshake E (handshake_server E P)"

section \<open>The client's side\<close>

text \<open>The array has a 17th byte, which stays zero and is not encoded.\<close>

definition make_key :: "'w ws_env \<Rightarrow> ('w WebSocket, string) prog" where
  "make_key E =
     (let bytes = replicate 17 0 in
      bindM (on_world (lx_getrandom (ws_linux E) (take 16 bytes))) (\<lambda>(n, random).
      let bytes = random @ drop 16 bytes in
      returnM (encode_base64 (take 16 bytes))))"

definition send_http_request :: "'w ws_env \<Rightarrow> string \<Rightarrow> string \<Rightarrow> ('w WebSocket, unit) prog" where
  "send_http_request E host key =
     (let request = make_http_request [] host key
      in bindM (socket_send E request) (\<lambda>sent.
         whenM (\<not> sent)
           (throwM (RuntimeError ''ClientSideWebSocket::send_http_request send failed''))))"

definition handshake_client ::
  "'w ws_env \<Rightarrow> ('p, 'w) IResponseParser \<Rightarrow> Address \<Rightarrow> ('p \<times> 'w WebSocket, unit) prog" where
  "handshake_client E P address =
     bindM (on_websocket (make_key E)) (\<lambda>key.
     let accept = make_accept_string key;
         host = addr_tostring address
     in bindM (on_websocket (send_http_request E host key)) (\<lambda>_.
        bindM (with_parser (irs_parse P (ws_socket E))) (\<lambda>_.
        bindM (getsM (\<lambda>s. irs_response P (fst s))) (\<lambda>response.
        throw_left (rs_assert_websocket accept response)))))"

definition ClientSideWebSocket_new ::
  "'w ws_env \<Rightarrow> ('p, 'w) IResponseParser \<Rightarrow> Address \<Rightarrow> ('p \<times> 'w, 'w WebSocket) prog" where
  "ClientSideWebSocket_new E P address = after_handshake E (handshake_client E P address)"

section \<open>SocketFactory\<close>

text \<open>The environment of a websocket whose socket is a \<open>Socket\<close> on the system \<open>L\<close>.\<close>

definition tcp_env :: "role \<Rightarrow> 'k ILinux \<Rightarrow> (nat \<Rightarrow> bytes) \<Rightarrow> 'k BaseSocket ws_env" where
  "tcp_env role L uninit = \<lparr>ws_role = role, ws_socket = Socket L, ws_linux = linux_of_socket L,
     ws_uninit = uninit\<rparr>"

lemma tcp_env_simps [simp]:
  "ws_role (tcp_env role L uninit) = role" "ws_socket (tcp_env role L uninit) = Socket L"
  "ws_linux (tcp_env role L uninit) = linux_of_socket L" "ws_uninit (tcp_env role L uninit) = uninit"
  by (simp_all add: tcp_env_def)

text \<open>
  The factory's functions run on the system. When the constructor of the websocket throws, the
  socket, which it had taken over, is destroyed with it.
\<close>

definition or_destroy ::
  "'k ILinux \<Rightarrow> ('p \<times> 'k BaseSocket, 'k BaseSocket WebSocket) prog \<Rightarrow> 'p \<Rightarrow> 'k BaseSocket
     \<Rightarrow> ((exn + 'k BaseSocket WebSocket) \<times> 'k) option" where
  "or_destroy L constructor p w = (case constructor (p, w) of
       None \<Rightarrow> None
     | Some (r, (p', w')) \<Rightarrow> (case r of
           Inl e \<Rightarrow> (case bs_destroy L w' of None \<Rightarrow> None
             | Some (d, w'') \<Rightarrow> Some (Inl e, kernel w''))
         | Inr s \<Rightarrow> Some (Inr s, kernel w')))"

definition new_server_side_websocket ::
  "'k ILinux \<Rightarrow> (nat \<Rightarrow> bytes) \<Rightarrow> u8 \<Rightarrow> int \<Rightarrow> ('k, 'k BaseSocket WebSocket) prog" where
  "new_server_side_websocket L uninit c fd = (\<lambda>k.
     let request = new_Request;
         parser = new_HttpParser request;
         socket = Socket_fd fd k
     in or_destroy L (ServerSideWebSocket_new (tcp_env ServerSide L uninit) (request_parser c))
          parser socket)"

definition new_client_side_websocket ::
  "'k ILinux \<Rightarrow> (nat \<Rightarrow> bytes) \<Rightarrow> u8 \<Rightarrow> Address \<Rightarrow> ('k, 'k BaseSocket WebSocket) prog" where
  "new_client_side_websocket L uninit c remote_address =
     (let response = new_Response;
          parser = new_HttpParser response
      in bindM (Socket_connect L remote_address) (\<lambda>socket. \<lambda>k.
           or_destroy L (ClientSideWebSocket_new (tcp_env ClientSide L uninit) (response_parser c)
             remote_address) parser (socket\<lparr>kernel := k\<rparr>)))"

end
