(* ===== verification/Small_Kernel.thy ===== *)
theory Small_Kernel
  imports Closing Handshake
begin

text \<open>
  A small system that keeps the contract \<open>tcp_kernel\<close>: reads of three bytes and writes of five
  bytes at most, a clock that moves by a nanosecond with every reading of it, random bytes that
  are not. It shows that the contracts can be met, and concrete runs of the model use it. The
  other system calls succeed.
\<close>

record machine =
  m_conns :: "int \<Rightarrow> connection"
  m_clock :: int

definition small_read :: "int \<Rightarrow> bytes \<Rightarrow> machine \<Rightarrow> nat" where
  "small_read fd buf k = min 3 (min (length buf) (length (inbox (m_conns k fd))))"

definition small_write :: "bytes \<Rightarrow> nat" where
  "small_write buf = min 5 (length buf)"

definition small_linux :: "machine ILinux" where
  "small_linux =
     \<lparr>lx_clock_gettime = (\<lambda>k. let t = m_clock k + 1 in
        Some (Inr (t div 1000000000, t mod 1000000000), k\<lparr>m_clock := t\<rparr>)),
      lx_clock_nanosleep = (\<lambda>s n k.
        Some (Inr 0, k\<lparr>m_clock := m_clock k + max 0 (s * 1000000000 + n)\<rparr>)),
      lx_getrandom = (\<lambda>b. returnM (int (length b), map of_nat [0..<length b])),
      lx_poll = (\<lambda>fd events t k.
        if inbox (m_conns k fd) = [] then Some (Inr (0, 0), k\<lparr>m_clock := m_clock k + max 0 t * 1000000\<rparr>)
        else Some (Inr (1, POLLIN), k)),
      lx_socket = returnM 3,
      lx_connect = (\<lambda>fd a k. Some (Inr 0,
        k\<lparr>m_conns := (m_conns k)(fd := \<lparr>up = True, inbox = inbox (m_conns k fd), outbox = []\<rparr>)\<rparr>)),
      lx_bind = (\<lambda>fd a. returnM 0),
      lx_listen = (\<lambda>fd n. returnM 0),
      lx_accept = (\<lambda>fd. returnM 4),
      lx_getsockname = (\<lambda>fd a. returnM a),
      lx_setsockopt_nodelay = (\<lambda>fd v. returnM 0),
      lx_shutdown = (\<lambda>fd k. Some (Inr 0,
        k\<lparr>m_conns := (m_conns k)(fd := (m_conns k fd)\<lparr>up := False\<rparr>)\<rparr>)),
      lx_close = (\<lambda>fd. returnM 0),
      lx_recv = (\<lambda>fd buf flags k. let n = small_read fd buf k in
        Some (Inr (int n, take n (inbox (m_conns k fd)) @ drop n buf),
          k\<lparr>m_conns := (m_conns k)(fd := (m_conns k fd)\<lparr>inbox := drop n (inbox (m_conns k fd))\<rparr>)\<rparr>)),
      lx_send = (\<lambda>fd buf flags k. let n = small_write buf in
        Some (Inr (int n),
          k\<lparr>m_conns := (m_conns k)(fd := (m_conns k fd)\<lparr>outbox := outbox (m_conns k fd) @ take n buf\<rparr>)\<rparr>)),
      lx_errno = returnM 0,
      lx_raw_recv = (\<lambda>fd buf flags k. Some (Inr (if up (m_conns k fd) then 1 else 0, buf), k))\<rparr>"

interpretation small: tcp_kernel small_linux m_conns m_clock
proof
  fix fd :: int and buf :: bytes and k :: machine
  assume "up (m_conns k fd)" "buf \<noteq> []"
  then have "0 < small_write buf" by (simp add: small_write_def)
  then show "wp False (lx_send small_linux fd buf MSG_NOSIGNAL)
        (\<lambda>n k'. 0 < n \<and> nat n \<le> length buf \<and> step_to m_conns m_clock k
           ((m_conns k)(fd := (m_conns k fd)\<lparr>outbox := outbox (m_conns k fd) @ take (nat n) buf\<rparr>)) k')
        (\<lambda>_ _. False) k"
    by (simp add: small_linux_def wp_def Let_def step_to_def) (simp add: small_write_def)
next
  fix fd :: int and buf :: bytes and k :: machine
  assume "inbox (m_conns k fd) \<noteq> []" "buf \<noteq> []"
  then have "0 < small_read fd buf k" "small_read fd buf k \<le> length buf"
    "small_read fd buf k \<le> length (inbox (m_conns k fd))" by (simp_all add: small_read_def)
  then show "wp False (lx_recv small_linux fd buf 0)
        (\<lambda>(n, buf') k'. 0 < n \<and> nat n \<le> length buf \<and> nat n \<le> length (inbox (m_conns k fd))
           \<and> buf' = take (nat n) (inbox (m_conns k fd)) @ drop (nat n) buf
           \<and> step_to m_conns m_clock k
               ((m_conns k)(fd := (m_conns k fd)\<lparr>inbox := drop (nat n) (inbox (m_conns k fd))\<rparr>)) k')
        (\<lambda>_ _. False) k"
    by (simp add: small_linux_def wp_def Let_def step_to_def)
next
  fix k :: machine
  show "wp False (lx_clock_gettime small_linux)
        (\<lambda>r k'. (\<exists>t. r = (t div 10 ^ 9, t mod 10 ^ 9) \<and> \<bar>t - m_clock k'\<bar> \<le> kDrift) \<and> m_clock k < m_clock k'
           \<and> step_to m_conns m_clock k (m_conns k) k') (\<lambda>_ _. False) k"
    by (simp add: small_linux_def wp_def Let_def step_to_def)
      (rule exI [where x = "m_clock k + 1"], simp add: kDrift_def)
qed (auto simp: small_linux_def wp_def Let_def step_to_def POLLIN_def small_read_def run
      fun_upd_idem_iff)

interpretation small_socket: tcp_socket small_linux m_conns m_clock 3
  by unfold_locales (simp add: kInvalidSocket_def)

section \<open>Websockets on a \<open>Socket\<close>\<close>

locale tcp_websocket = tcp_socket +
  fixes role :: role and uninit :: "nat \<Rightarrow> bytes"
  assumes length_uninit: "length (uninit n) = n"

sublocale tcp_websocket \<subseteq> websocket "Socket L" "linux_of_socket L" "\<lambda>s. conns (kernel s) fd"
  "\<lambda>s. clock (kernel s)" "owns conns fd" "tcp_env role L uninit"
  by unfold_locales (simp_all add: length_uninit)

context tcp_websocket
begin

lemma is_websocket: "websocket (Socket L) (linux_of_socket L) (\<lambda>s. conns (kernel s) fd)
    (\<lambda>s. clock (kernel s)) (owns conns fd) (tcp_env role L uninit)"
  by unfold_locales

end

definition zeroes :: "nat \<Rightarrow> bytes" where
  "zeroes n = replicate n 0"

interpretation small_server: tcp_websocket small_linux m_conns m_clock 3 ServerSide zeroes
  by unfold_locales (simp add: zeroes_def)

interpretation small_client: tcp_websocket small_linux m_conns m_clock 3 ClientSide zeroes
  by unfold_locales (simp add: zeroes_def)

lemma tcp_websocketI:
  "tcp_kernel L conns clock \<Longrightarrow> fd \<noteq> kInvalidSocket \<Longrightarrow> (\<And>n. length (uninit n) = n) \<Longrightarrow>
     tcp_websocket L conns clock fd uninit"
  by (simp add: tcp_websocket_def tcp_socket_def tcp_socket_axioms_def tcp_websocket_axioms_def)

section \<open>Concrete states\<close>

text \<open>Every descriptor is a connection on which \<open>inb\<close> has arrived.\<close>

definition demo_machine :: "bytes \<Rightarrow> machine" where
  "demo_machine inb = \<lparr>m_conns = (\<lambda>_. \<lparr>up = True, inbox = inb, outbox = []\<rparr>), m_clock = 0\<rparr>"

lemma length_zeroes: "length (zeroes n) = n"
  by (simp add: zeroes_def)

lemma fd_3: "(3 :: int) \<noteq> kInvalidSocket"
  by (simp add: kInvalidSocket_def)

lemmas demo_contract = small.tcp_kernel_axioms fd_3 length_zeroes

end
