(* ===== verification/Sha1_Spec.thy ===== *)
theory Sha1_Spec
  imports Sha1
begin

text \<open>
  FIPS 180 SHA-1 and the proof that sha1.cpp computes it: \<open>SHA1Transform_fips\<close> for a block,
  \<open>represents\<close> for a context fed with any pieces, \<open>SHA1_digest_fips\<close> for the digest.
\<close>

section \<open>The specification\<close>

text \<open>The message schedule of a block of sixteen words.\<close>

fun W :: "u32 list \<Rightarrow> nat \<Rightarrow> u32" where
  "W M t = (if t < 16 then M ! t
            else rol (W M (t - 3) XOR W M (t - 8) XOR W M (t - 14) XOR W M (t - 16)) 1)"

declare W.simps [simp del]

definition fips_f :: "nat \<Rightarrow> u32 \<Rightarrow> u32 \<Rightarrow> u32 \<Rightarrow> u32" where
  "fips_f t b c d =
     (if t < 20 then (b AND c) XOR (NOT b AND d)
      else if t < 40 then b XOR c XOR d
      else if t < 60 then (b AND c) XOR (b AND d) XOR (c AND d)
      else b XOR c XOR d)"

definition fips_K :: "nat \<Rightarrow> u32" where
  "fips_K t = (if t < 20 then 0x5A827999 else if t < 40 then 0x6ED9EBA1
               else if t < 60 then 0x8F1BBCDC else 0xCA62C1D6)"

type_synonym fips_vars = "u32 \<times> u32 \<times> u32 \<times> u32 \<times> u32"

fun fips_step :: "u32 list \<Rightarrow> nat \<Rightarrow> fips_vars \<Rightarrow> fips_vars" where
  "fips_step M t (a, b, c, d, e) =
     (rol a 5 + fips_f t b c d + e + fips_K t + W M t, a, rol b 30, c, d)"

text \<open>The sixteen big endian words of a block of 64 bytes.\<close>

definition fips_words :: "bytes \<Rightarrow> u32 list" where
  "fips_words block = map (\<lambda>i. load_le (rev (take 4 (drop (4 * i) block)))) [0..<16]"

definition fips_block :: "u32 list \<Rightarrow> bytes \<Rightarrow> u32 list" where
  "fips_block H block =
     (let (a, b, c, d, e) = fold (fips_step (fips_words block)) [0..<80]
            (H ! 0, H ! 1, H ! 2, H ! 3, H ! 4)
      in [H ! 0 + a, H ! 1 + b, H ! 2 + c, H ! 3 + d, H ! 4 + e])"

text \<open>All full blocks of a message.\<close>

function fips_blocks :: "u32 list \<Rightarrow> bytes \<Rightarrow> u32 list" where
  "fips_blocks H m =
     (if length m < 64 then H else fips_blocks (fips_block H (take 64 m)) (drop 64 m))"
  by pat_completeness auto
termination
  by (relation "measure (\<lambda>(H, m). length m)") auto

declare fips_blocks.simps [simp del]

definition fips_H0 :: "u32 list" where
  "fips_H0 = [0x67452301, 0xEFCDAB89, 0x98BADCFE, 0x10325476, 0xC3D2E1F0]"

definition fips_zeros :: "nat \<Rightarrow> nat" where
  "fips_zeros n = (119 - n mod 64) mod 64"

definition fips_pad :: "bytes \<Rightarrow> bytes" where
  "fips_pad m = m @ [0x80] @ replicate (fips_zeros (length m)) 0
                  @ rev (store_le 8 (of_nat (8 * length m) :: u64))"

definition fips_sha1 :: "bytes \<Rightarrow> bytes" where
  "fips_sha1 m = concat (map (\<lambda>w. rev (store_le 4 w)) (fips_blocks fips_H0 (fips_pad m)))"

section \<open>One transformation is one block step\<close>

lemma f_ch: "((w AND (x XOR y)) XOR y) = (w AND x) XOR (NOT w AND y)" for w x y :: u32
  by (rule bit_eqI) (auto simp: bit_simps)

lemma f_maj: "(((w OR x) AND y) OR (w AND x)) = (w AND x) XOR (w AND y) XOR (x AND y)"
  for w x y :: u32
  by (rule bit_eqI) (auto simp: bit_simps)

lemma swap_masks:
  "bit (0xFF00FF00 :: u32) n \<longleftrightarrow> 8 \<le> n \<and> n < 16 \<or> 24 \<le> n \<and> n < 32"
  "bit (0x00FF00FF :: u32) n \<longleftrightarrow> n < 8 \<or> 16 \<le> n \<and> n < 24"
proof -
  have "(0xFF00FF00 :: u32) = push_bit 8 (mask 8) OR push_bit 24 (mask 8)"
    "(0x00FF00FF :: u32) = mask 8 OR push_bit 16 (mask 8)"
    by (simp_all add: mask_eq_exp_minus_1 push_bit_eq_mult)
  then show "bit (0xFF00FF00 :: u32) n \<longleftrightarrow> 8 \<le> n \<and> n < 16 \<or> 24 \<le> n \<and> n < 32"
    "bit (0x00FF00FF :: u32) n \<longleftrightarrow> n < 8 \<or> 16 \<le> n \<and> n < 24"
    by (auto simp only: bit_or_iff bit_push_bit_iff bit_mask_iff possible_bit_word)
      (auto simp: bit_push_bit_iff bit_mask_iff possible_bit_word)
qed

lemma bit_rol: "n \<le> 32 \<Longrightarrow> k < 32 \<Longrightarrow>
    bit (rol v n) k \<longleftrightarrow> (if n \<le> k then bit v (k - n) else bit v (k + 32 - n))"
  by (auto simp: rol_def bit_simps add.commute dest: bit_imp_le_length)

lemma blk0_swap:
  assumes "length bs = 4"
  shows "(rol (load_le bs) 24 AND 0xFF00FF00) OR (rol (load_le bs) 8 AND 0x00FF00FF)
           = (load_le (rev bs) :: u32)"
proof (rule bit_eqI)
  fix n assume "possible_bit TYPE(u32) n"
  then have n: "n < 32" by simp
  obtain b0 b1 b2 b3 where bs: "bs = [b0, b1, b2, b3]"
    using assms by (auto simp: length_Suc_conv numeral_eq_Suc)
  define r where "r = n mod 8"
  have r: "r < 8" by (simp add: r_def)
  have q: "n = r \<or> n = r + 8 \<or> n = r + 16 \<or> n = r + 24"
  proof -
    have "n div 8 < 4" "n = 8 * (n div 8) + r" using n by (simp_all add: r_def less_mult_imp_div_less)
    then show ?thesis by arith
  qed
  have k: "(r + 8 * c) div 8 = c" "(r + 8 * c) mod 8 = r" for c using r by simp_all
  have "(r + 8) div 8 = 1" "(r + 16) div 8 = 2" "(r + 24) div 8 = 3"
    "(r + 8) mod 8 = r" "(r + 16) mod 8 = r" "(r + 24) mod 8 = r" "r div 8 = 0" "r mod 8 = r"
    using r k [of 1] k [of 2] k [of 3] by (simp_all del: div_mult_self2 mod_mult_self2)
  note d = this
  have "(16 + r) div 8 = 2" "(24 + r) div 8 = 3" "(16 + r) mod 8 = r" "(24 + r) mod 8 = r"
    using d by (simp_all only: add.commute [of _ r])
  note d = d this
  have "r + 32 - 24 = r + 8" "r + 8 + 32 - 24 = r + 16" "r + 16 + 32 - 24 = r + 24"
    "r + 24 - 24 = r" "r + 32 - 8 = r + 24" "r + 8 - 8 = r" "r + 16 - 8 = r + 8"
    "r + 24 - 8 = r + 16"
    by simp_all
  note a = this
  show "bit ((rol (load_le bs) 24 AND 0xFF00FF00) OR (rol (load_le bs) 8 AND 0x00FF00FF)) n
      \<longleftrightarrow> bit (load_le (rev bs) :: u32) n"
    using q r
    by (elim disjE) (simp_all add: bit_or_iff bit_and_iff swap_masks bit_rol bit_load_le bs d a
        del: load_le.simps bit_numeral_word_iff)
qed

text \<open>The block after \<open>i\<close> rounds: the last sixteen words of the schedule, or still raw input.\<close>

definition sched :: "bytes \<Rightarrow> nat \<Rightarrow> u32 list \<Rightarrow> bool" where
  "sched buffer i l \<longleftrightarrow> length l = 16
     \<and> (\<forall>t. t < i \<longrightarrow> i \<le> t + 16 \<longrightarrow> l ! (t mod 16) = W (fips_words buffer) t)
     \<and> (\<forall>t. i \<le> t \<longrightarrow> t < 16 \<longrightarrow> l ! t = load_le (take 4 (drop (4 * t) buffer)))"

lemma sched_blk0:
  assumes "sched buffer i l" and "i < 16" and "length buffer = 64"
  shows "fst (blk0 i l) = W (fips_words buffer) i" and "sched buffer (Suc i) (snd (blk0 i l))"
proof -
  have raw: "l ! i = load_le (take 4 (drop (4 * i) buffer))" and len: "length l = 16"
    using assms by (auto simp: sched_def)
  have "length (take 4 (drop (4 * i) buffer)) = 4" using assms by simp
  then have sw: "(rol (l ! i) 24 AND 0xFF00FF00) OR (rol (l ! i) 8 AND 0x00FF00FF)
      = W (fips_words buffer) i"
    using assms(2) by (simp add: raw blk0_swap W.simps fips_words_def)
  show "fst (blk0 i l) = W (fips_words buffer) i"
    by (simp add: blk0_def Let_def sw)
  have b: "snd (blk0 i l) = l[i := W (fips_words buffer) i]"
    by (simp add: blk0_def Let_def sw)
  show "sched buffer (Suc i) (snd (blk0 i l))"
    unfolding b using assms(1,2) by (auto simp: sched_def nth_list_update less_Suc_eq)
qed

lemma sched_blk:
  assumes "sched buffer i l" and "16 \<le> i"
  shows "fst (blk i l) = W (fips_words buffer) i" and "sched buffer (Suc i) (snd (blk i l))"
proof -
  have cell: "l ! (t mod 16) = W (fips_words buffer) t" if "t < i" "i \<le> t + 16" for t
    using assms that by (auto simp: sched_def)
  have m: "(i + 13) mod 16 = (i - 3) mod 16" "(i + 8) mod 16 = (i - 8) mod 16"
    "(i + 2) mod 16 = (i - 14) mod 16" "i mod 16 = (i - 16) mod 16"
  proof -
    obtain k where k: "i = k + 16" using assms(2) by (metis add.commute le_Suc_ex)
    show "(i + 13) mod 16 = (i - 3) mod 16" "(i + 8) mod 16 = (i - 8) mod 16"
      "(i + 2) mod 16 = (i - 14) mod 16" "i mod 16 = (i - 16) mod 16"
      unfolding k using mod_add_self2 [of "k + 13" 16] mod_add_self2 [of "k + 8" 16]
        mod_add_self2 [of "k + 2" 16] by (simp_all add: ac_simps)
  qed
  have cells: "l ! ((i + 13) mod 16) = W (fips_words buffer) (i - 3)"
    "l ! ((i + 8) mod 16) = W (fips_words buffer) (i - 8)"
    "l ! ((i + 2) mod 16) = W (fips_words buffer) (i - 14)"
    "l ! (i mod 16) = W (fips_words buffer) (i - 16)"
    by (subst m, rule cell; use assms(2) in linarith)+
  have w: "rol (l ! ((i + 13) mod 16) XOR l ! ((i + 8) mod 16) XOR l ! ((i + 2) mod 16)
      XOR l ! (i mod 16)) 1 = W (fips_words buffer) i"
    using assms(2) cells by (simp only: W.simps [of _ i] not_less if_False) simp
  show "fst (blk i l) = W (fips_words buffer) i"
    by (simp only: blk_def Let_def w fst_conv)
  have b: "snd (blk i l) = l[i mod 16 := W (fips_words buffer) i]"
    by (simp only: blk_def Let_def w snd_conv)
  have d: "t mod 16 \<noteq> i mod 16" if "t < i" "i < t + 16" for t
  proof
    assume "t mod 16 = i mod 16"
    then have "16 dvd i - t" using that(1) mod_eq_dvd_iff_nat [of t i 16] by simp
    then show False using that by (auto dest: dvd_imp_le)
  qed
  show "sched buffer (Suc i) (snd (blk i l))"
    unfolding b sched_def
  proof (intro conjI allI impI)
    fix t assume t: "t < Suc i" "Suc i \<le> t + 16"
    show "l[i mod 16 := W (fips_words buffer) i] ! (t mod 16) = W (fips_words buffer) t"
    proof (cases "t = i")
      case False
      with t have lt: "t < i" "i < t + 16" by simp_all
      then have "t mod 16 \<noteq> i mod 16" by (rule d)
      moreover have "l ! (t mod 16) = W (fips_words buffer) t"
        by (rule cell) (use lt in simp_all)
      ultimately show ?thesis by (metis nth_list_update_neq)
    qed (use assms(1) in \<open>simp add: sched_def\<close>)
  qed (use assms in \<open>auto simp: sched_def\<close>)
qed

text \<open>The working variables of the code and of FIPS, in step.\<close>

definition in_step :: "bytes \<Rightarrow> nat \<Rightarrow> sha1_vars \<Rightarrow> fips_vars \<Rightarrow> bool" where
  "in_step buffer i s f \<longleftrightarrow>
     (case s of (v, w, x, y, z, l) \<Rightarrow> f = (v, w, x, y, z) \<and> sched buffer i l)"

lemma in_step_R0:
  assumes "in_step buffer i s f" "i < 16" "length buffer = 64"
  shows "in_step buffer (Suc i) (R0 i s) (fips_step (fips_words buffer) i f)"
proof -
  obtain v w x y z l where s: "s = (v, w, x, y, z, l)" by (cases s)
  then have f: "f = (v, w, x, y, z)" and l: "sched buffer i l"
    using assms(1) by (simp_all add: in_step_def)
  note b = sched_blk0 [OF l assms(2,3)]
  show ?thesis
    using assms(2) b
    by (cases "blk0 i l") (simp add: s f in_step_def fips_f_def fips_K_def f_ch)
qed

lemma in_step_R:
  assumes "in_step buffer i s f" "16 \<le> i"
  shows "i < 20 \<Longrightarrow> in_step buffer (Suc i) (R1 i s) (fips_step (fips_words buffer) i f)"
    and "20 \<le> i \<Longrightarrow> i < 40 \<Longrightarrow> in_step buffer (Suc i) (R2 i s) (fips_step (fips_words buffer) i f)"
    and "40 \<le> i \<Longrightarrow> i < 60 \<Longrightarrow> in_step buffer (Suc i) (R3 i s) (fips_step (fips_words buffer) i f)"
    and "60 \<le> i \<Longrightarrow> i < 80 \<Longrightarrow> in_step buffer (Suc i) (R4 i s) (fips_step (fips_words buffer) i f)"
proof -
  obtain v w x y z l where s: "s = (v, w, x, y, z, l)" by (cases s)
  then have f: "f = (v, w, x, y, z)" and l: "sched buffer i l"
    using assms(1) by (simp_all add: in_step_def)
  note b = sched_blk [OF l assms(2)]
  show "i < 20 \<Longrightarrow> in_step buffer (Suc i) (R1 i s) (fips_step (fips_words buffer) i f)"
    and "20 \<le> i \<Longrightarrow> i < 40 \<Longrightarrow> in_step buffer (Suc i) (R2 i s) (fips_step (fips_words buffer) i f)"
    and "40 \<le> i \<Longrightarrow> i < 60 \<Longrightarrow> in_step buffer (Suc i) (R3 i s) (fips_step (fips_words buffer) i f)"
    and "60 \<le> i \<Longrightarrow> i < 80 \<Longrightarrow> in_step buffer (Suc i) (R4 i s) (fips_step (fips_words buffer) i f)"
    using b by (cases "blk i l"; simp add: s f in_step_def fips_f_def fips_K_def f_ch f_maj)+
qed

lemma in_step_fold:
  assumes "in_step buffer a s f" and "a \<le> b"
    and "\<And>i s f. in_step buffer i s f \<Longrightarrow> a \<le> i \<Longrightarrow> i < b \<Longrightarrow>
      in_step buffer (Suc i) (R i s) (fips_step (fips_words buffer) i f)"
  shows "in_step buffer b (fold R [a..<b] s) (fold (fips_step (fips_words buffer)) [a..<b] f)"
  using assms(2,1,3) by (induction b rule: dec_induct) auto

theorem SHA1Transform_fips:
  assumes "length buffer = 64"
  shows "SHA1Transform state buffer = fips_block state buffer"
proof -
  define F where "F = fips_step (fips_words buffer)"
  define l :: "u32 list" where "l = map (\<lambda>i. load_le (take 4 (drop (4 * i) buffer))) [0..<16]"
  define s0 where "s0 = (state ! 0, state ! 1, state ! 2, state ! 3, state ! 4, l)"
  define f0 where "f0 = (state ! 0, state ! 1, state ! 2, state ! 3, state ! 4)"
  have "in_step buffer 0 s0 f0"
    by (simp add: in_step_def sched_def s0_def f0_def l_def)
  then have "in_step buffer 16 (fold R0 [0..<16] s0) (fold F [0..<16] f0)"
    unfolding F_def by (rule in_step_fold) (use assms in \<open>simp_all add: in_step_R0\<close>)
  then have "in_step buffer 20 (fold R1 [16..<20] (fold R0 [0..<16] s0))
      (fold F [16..<20] (fold F [0..<16] f0))" (is "in_step _ _ ?s1 ?f1")
    unfolding F_def by (rule in_step_fold) (simp_all add: in_step_R)
  then have "in_step buffer 40 (fold R2 [20..<40] ?s1) (fold F [20..<40] ?f1)"
    unfolding F_def by (rule in_step_fold) (simp_all add: in_step_R)
  then have "in_step buffer 60 (fold R3 [40..<60] (fold R2 [20..<40] ?s1))
      (fold F [40..<60] (fold F [20..<40] ?f1))"
    unfolding F_def by (rule in_step_fold) (simp_all add: in_step_R)
  then have "in_step buffer 80 (fold R4 [60..<80] (fold R3 [40..<60] (fold R2 [20..<40] ?s1)))
      (fold F [60..<80] (fold F [40..<60] (fold F [20..<40] ?f1)))"
    unfolding F_def by (rule in_step_fold) (simp_all add: in_step_R)
  also have "fold F [60..<80] (fold F [40..<60] (fold F [20..<40] ?f1)) = fold F [0..<80] f0"
  proof -
    have "[0..<80] = [0..<16] @ [16..<20] @ [20..<40] @ [40..<60] @ [60..<80::nat]"
      using upt_add_eq_append [of 0 16 64] upt_add_eq_append [of 16 20 60]
        upt_add_eq_append [of 20 40 40] upt_add_eq_append [of 40 60 20]
      by (simp del: upt_rec_numeral)
    then show ?thesis by (simp only: fold_append comp_apply)
  qed
  finally obtain l' where
    e: "fold R4 [60..<80] (fold R3 [40..<60] (fold R2 [20..<40] ?s1)) =
      (case fold F [0..<80] f0 of (a, b, c, d, e) \<Rightarrow> (a, b, c, d, e, l'))"
    unfolding in_step_def by (auto simp del: upt_rec_numeral split: prod.splits)
  show ?thesis
    unfolding SHA1Transform_def fips_block_def Let_def l_def [symmetric] s0_def [symmetric]
      f0_def [symmetric] F_def [symmetric] e
    by (simp del: upt_rec_numeral split: prod.split)
qed

section \<open>A context represents the bytes it was fed\<close>

lemma fips_blocks_append:
  assumes "64 dvd length m"
  shows "fips_blocks H (m @ n) = fips_blocks (fips_blocks H m) n"
  using assms
proof (induction H m rule: fips_blocks.induct)
  case (1 H m)
  show ?case
  proof (cases "length m < 64")
    case True
    with "1.prems" have "m = []" by (auto dest: dvd_imp_le)
    then show ?thesis by (simp add: fips_blocks.simps [of H "[]"])
  next
    case False
    with "1.prems" have "64 dvd length (drop 64 m)" by (simp add: dvd_minus_self)
    with False "1.IH" show ?thesis
      by (simp add: fips_blocks.simps [of H m] fips_blocks.simps [of H "m @ n"])
  qed
qed

lemma fips_blocks_short: "length m < 64 \<Longrightarrow> fips_blocks H m = H"
  by (simp add: fips_blocks.simps)

lemma fips_blocks_one: "length m = 64 \<Longrightarrow> fips_blocks H m = fips_block H m"
  by (simp add: fips_blocks.simps [of H m] fips_blocks_short)

lemma length_fips_block [simp]: "length (fips_block H b) = 5"
  by (simp add: fips_block_def split: prod.split)

lemma length_fips_blocks: "length H = 5 \<Longrightarrow> length (fips_blocks H m) = 5"
  by (induction H m rule: fips_blocks.induct) (simp add: fips_blocks.simps)

text \<open>The full blocks of the bytes seen so far, and what is left over.\<close>

definition full :: "bytes \<Rightarrow> bytes" where "full m = take (64 * (length m div 64)) m"
definition rest :: "bytes \<Rightarrow> bytes" where "rest m = drop (64 * (length m div 64)) m"

lemma full_rest: "full m @ rest m = m"
  by (simp add: full_def rest_def)

lemma length_full: "length (full m) = 64 * (length m div 64)"
  by (simp add: full_def)

lemma length_rest: "length (rest m) = length m mod 64"
  by (simp add: rest_def minus_mult_div_eq_mod)

lemma fips_blocks_full: "fips_blocks H (full m) = fips_blocks H m"
proof -
  have "fips_blocks H (full m @ rest m) = fips_blocks (fips_blocks H (full m)) (rest m)"
    by (rule fips_blocks_append) (simp add: length_full)
  then show ?thesis by (simp add: full_rest fips_blocks_short length_rest)
qed

definition represents :: "SHA1_CTX \<Rightarrow> bytes \<Rightarrow> bool" where
  "represents c m \<longleftrightarrow> length (sha_buffer c) = 64
     \<and> sha_state c = fips_blocks fips_H0 m
     \<and> take (length m mod 64) (sha_buffer c) = rest m
     \<and> uint (snd (sha_count c)) * 2 ^ 32 + uint (fst (sha_count c)) = 8 * int (length m)"

lemma represents_init: "length (sha_buffer c) = 64 \<Longrightarrow> represents (SHA1Init c) []"
  by (simp add: represents_def SHA1Init_def fips_blocks_short fips_H0_def rest_def)

lemma update_loop:
  "i \<le> length data \<Longrightarrow> SHA1Update_loop state data i (length data) =
     (fips_blocks state (drop i data), i + 64 * ((length data - i) div 64))"
proof (induction "length data - i" arbitrary: i state rule: less_induct)
  case less
  show ?case
  proof (cases "i + 63 < length data")
    case True
    then have "SHA1Update_loop state data i (length data) =
      SHA1Update_loop (fips_block state (take 64 (drop i data))) data (i + 64) (length data)"
      by (simp add: SHA1Update_loop.simps [of state] SHA1Transform_fips)
    also have "\<dots> = (fips_blocks (fips_block state (take 64 (drop i data))) (drop (i + 64) data),
        i + 64 + 64 * ((length data - (i + 64)) div 64))"
      by (rule less.hyps) (use True in simp_all)
    also have "i + 64 + 64 * ((length data - (i + 64)) div 64) = i + 64 * ((length data - i) div 64)"
    proof -
      have "length data - i = length data - (i + 64) + 64" using True by simp
      then have "(length data - i) div 64 = (length data - (i + 64)) div 64 + 1"
        by (simp only: div_add_self2)
      then show ?thesis by simp
    qed
    finally have "SHA1Update_loop state data i (length data) =
        (fips_blocks (fips_block state (take 64 (drop i data))) (drop (i + 64) data),
         i + 64 * ((length data - i) div 64))" .
    moreover have "fips_blocks state (drop i data) =
        fips_blocks (fips_block state (take 64 (drop i data))) (drop (i + 64) data)"
    proof -
      have "\<not> length (drop i data) < 64" using True by simp
      then show ?thesis by (subst fips_blocks.simps) (simp add: add.commute)
    qed
    ultimately show ?thesis by simp
  next
    case False
    then have "length data - i < 64" by linarith
    then show ?thesis using False less.prems
      by (simp add: SHA1Update_loop.simps [of state] fips_blocks_short)
  qed
qed

lemma counted_mod:
  fixes c0 c1 :: u32
  assumes "uint c1 * 2 ^ 32 + uint c0 = 8 * int n"
  shows "unat (drop_bit 3 c0 AND 63) = n mod 64" and "unat c0 div 8 mod 64 = n mod 64"
proof -
  have "0 \<le> uint c0" "uint c0 < 2 ^ 32" using uint_bounded [of c0] by simp_all
  then have "uint c0 = 8 * int n mod 2 ^ 32" using assms
    by (metis mod_mult_self3 mod_pos_pos_trivial)
  then have "uint c0 = int (8 * n mod 2 ^ 32)" by (simp add: zmod_int)
  then have "unat c0 = 8 * n mod 2 ^ 32" by (simp only: unat_eq_nat_uint nat_int)
  then have u: "unat c0 = 8 * n mod (8 * 2 ^ 29)" by simp
  show n: "unat c0 div 8 mod 64 = n mod 64"
    unfolding u by (subst mod_mult_mult1) (simp add: mod_mod_cancel)
  have "(63 :: u32) = mask 6" by (simp add: mask_eq_exp_minus_1)
  then have "drop_bit 3 c0 AND 63 = take_bit 6 (drop_bit 3 c0)" by (simp only: take_bit_eq_mask)
  then have "unat (drop_bit 3 c0 AND 63) = take_bit 6 (drop_bit 3 (unat c0))"
    by (simp only: unsigned_take_bit_eq unsigned_drop_bit_eq)
      (simp add: take_bit_take_bit take_bit_drop_bit)
  then show "unat (drop_bit 3 c0 AND 63) = n mod 64"
    by (simp only: take_bit_eq_mod drop_bit_eq_div n [symmetric]) simp
qed

lemma counted_bits:
  fixes c0 c1 :: u32
  assumes "uint c1 * 2 ^ 32 + uint c0 = 8 * int n" and "8 * (n + k) < 2 ^ 64" and "k < 2 ^ 32"
    and "len = of_nat k"
  shows "uint ((if c0 + push_bit 3 len < c0 then c1 + 1 else c1) + drop_bit 29 len) * 2 ^ 32
      + uint (c0 + push_bit 3 len) = 8 * int (n + k)"
    and "unat (drop_bit 3 c0 AND 63) = n mod 64"
proof -
  have len: "uint len = int k" using assms(3,4) by (simp add: uint_nat unat_of_nat)
  have c: "0 \<le> uint c0" "uint c0 < 2 ^ 32" "0 \<le> uint c1" "uint c1 < 2 ^ 32"
    using uint_bounded [of c0] uint_bounded [of c1] by simp_all
  define lo where "lo = 8 * int k mod 2 ^ 32"
  define hi where "hi = int k div 2 ^ 29"
  have k: "8 * int k = hi * 2 ^ 32 + lo"
  proof -
    have "8 * int k mod (8 * 2 ^ 29) = 8 * (int k mod 2 ^ 29)" by (rule mod_mult_mult1)
    moreover have "int k = int k div 536870912 * 536870912 + int k mod 536870912" by simp
    then have "8 * int k = int k div 536870912 * 4294967296 + 8 * (int k mod 536870912)"
      by linarith
    ultimately show ?thesis by (simp add: lo_def hi_def)
  qed
  have lo: "0 \<le> lo" "lo < 2 ^ 32" by (simp_all add: lo_def)
  have hi: "0 \<le> hi" "hi < 8" using assms(3) by (simp_all add: hi_def)
  have ush: "uint (push_bit 3 len) = lo"
    by (simp add: push_bit_eq_mult uint_word_ariths len lo_def mult.commute)
  have uhi: "uint (drop_bit 29 len) = hi"
    by (simp add: drop_bit_eq_div uint_div len hi_def)
  have usum: "uint (c0 + push_bit 3 len) =
      (if uint c0 + lo < 2 ^ 32 then uint c0 + lo else uint c0 + lo - 2 ^ 32)"
    using c lo by (simp add: uint_word_ariths ush mod_add_if_z)
  have less: "c0 + push_bit 3 len < c0 \<longleftrightarrow> \<not> uint c0 + lo < 2 ^ 32"
    unfolding word_less_def usum using c lo by auto
  have tot: "(uint c1 + hi) * 2 ^ 32 + (uint c0 + lo) = 8 * int (n + k)"
    using assms(1) k by (simp add: algebra_simps)
  have bnd: "8 * int (n + k) < 2 ^ 64" using assms(2) by simp
  show "uint ((if c0 + push_bit 3 len < c0 then c1 + 1 else c1) + drop_bit 29 len) * 2 ^ 32
      + uint (c0 + push_bit 3 len) = 8 * int (n + k)"
  proof (cases "uint c0 + lo < 2 ^ 32")
    case True
    have "(uint c1 + hi) * 2 ^ 32 \<le> (uint c1 + hi) * 2 ^ 32 + (uint c0 + lo)"
      using c lo by simp
    also have "\<dots> < 2 ^ 32 * 2 ^ 32" using tot bnd by simp
    finally have "uint c1 + hi < 2 ^ 32" by (simp only: mult_less_cancel_right) simp
    then have "uint (c1 + drop_bit 29 len) = uint c1 + hi"
      using c hi by (simp add: uint_word_ariths uhi)
    then show ?thesis using True tot by (simp add: less usum)
  next
    case False
    have "(uint c1 + 1 + hi) * 2 ^ 32 = (uint c1 + hi) * 2 ^ 32 + 2 ^ 32"
      by (simp add: algebra_simps)
    also have "\<dots> \<le> (uint c1 + hi) * 2 ^ 32 + (uint c0 + lo)" using False by simp
    also have "\<dots> < 2 ^ 32 * 2 ^ 32" using tot bnd by simp
    finally have "uint c1 + 1 + hi < 2 ^ 32" by (simp only: mult_less_cancel_right) simp
    then have "uint (c1 + 1 + drop_bit 29 len) = uint c1 + 1 + hi"
      using c hi by (simp add: uint_word_ariths uhi)
    then show ?thesis using False tot by (simp add: less usum algebra_simps)
  qed
  show "unat (drop_bit 3 c0 AND 63) = n mod 64" by (rule counted_mod [OF assms(1)])
qed

lemma rest_append: "64 dvd length m \<Longrightarrow> rest (m @ n) = rest n"
  by (auto simp: rest_def elim!: dvdE)

lemma rest_short: "length n < 64 \<Longrightarrow> rest n = n"
  by (simp add: rest_def)

lemma memcpy_front:
  "length b = 64 \<Longrightarrow> length d \<le> 64 \<Longrightarrow> length (memcpy_at b 0 d) = 64"
  "length b = 64 \<Longrightarrow> length d \<le> 64 \<Longrightarrow> take (length d) (memcpy_at b 0 d) = d"
  by (simp_all add: memcpy_at_def)

lemma represents_update:
  assumes rep: "represents c m" and len: "length data < 2 ^ 32"
    and bits: "8 * (length m + length data) < 2 ^ 64"
  shows "represents (SHA1Update c data) (m @ data)"
proof -
  obtain c0 c1 where cnt: "sha_count c = (c0, c1)" by (cases "sha_count c")
  define j where "j = length m mod 64"
  define k where "k = length data"
  define l where "l = (of_nat k :: u32)"
  have l: "unat l = k" using len by (simp add: l_def k_def unat_of_nat)
  have j: "j < 64" by (simp add: j_def)
  have buf: "length (sha_buffer c) = 64" "take j (sha_buffer c) = rest m"
    and st: "sha_state c = fips_blocks fips_H0 m"
    and cs: "uint c1 * 2 ^ 32 + uint c0 = 8 * int (length m)"
    using rep by (simp_all add: represents_def cnt j_def)
  note count = counted_bits [OF cs bits [folded k_def] len [folded k_def] l_def]
  have m: "full m @ rest m @ data = m @ data" using full_rest [of m] by simp
  have blocks: "fips_blocks fips_H0 (m @ data) = fips_blocks (sha_state c) (rest m @ data)"
    using fips_blocks_append [of "full m" fips_H0 "rest m @ data"]
    by (simp add: m length_full st fips_blocks_full)
  have rests: "rest (m @ data) = rest (rest m @ data)"
    using rest_append [of "full m" "rest m @ data"] by (simp add: m length_full)
  have lr: "length (rest m) = j" by (simp add: length_rest j_def)
  have lmod: "length (m @ data) mod 64 = (j + k) mod 64"
    by (simp add: j_def k_def mod_simps)
  show ?thesis
  proof (cases "j + k > 63")
    case False
    then have u: "SHA1Update c data = c\<lparr>sha_state := sha_state c,
        sha_count := (c0 + push_bit 3 l, (if c0 + push_bit 3 l < c0 then c1 + 1 else c1) + drop_bit 29 l),
        sha_buffer := memcpy_at (sha_buffer c) j data\<rparr>"
      unfolding SHA1Update_def Let_def cnt
      by (simp add: count(2) l flip: l_def k_def j_def)
    have "take (j + k) (memcpy_at (sha_buffer c) j data) = rest m @ data"
      using buf j lr by (simp add: memcpy_at_def k_def)
    moreover have "length (memcpy_at (sha_buffer c) j data) = 64"
      using buf False lr by (simp add: memcpy_at_def k_def)
    moreover have "length (m @ data) mod 64 = j + k" using False lmod by simp
    moreover have "rest (m @ data) = rest m @ data"
      unfolding rests by (rule rest_short) (use False lr in \<open>simp add: k_def\<close>)
    moreover have "fips_blocks fips_H0 (m @ data) = sha_state c"
      unfolding blocks by (rule fips_blocks_short) (use False lr in \<open>simp add: k_def\<close>)
    ultimately show ?thesis
      unfolding represents_def u using count(1) by (simp add: k_def)
  next
    case True
    define i where "i = 64 - j"
    have i: "i \<le> k" "j + i = 64" using True j by (simp_all add: i_def)
    define b1 where "b1 = memcpy_at (sha_buffer c) j (take i data)"
    have b1: "b1 = rest m @ take i data"
      using buf j i by (simp add: b1_def memcpy_at_def k_def)
    have len1: "length b1 = 64" using i lr by (simp add: b1 k_def)
    define q where "q = (k - i) div 64"
    define H where "H = fips_blocks (fips_block (sha_state c) b1) (drop i data)"
    have loop: "SHA1Update_loop (SHA1Transform (sha_state c) b1) data i k = (H, i + 64 * q)"
      using update_loop [of i data] i len1 by (simp add: SHA1Transform_fips H_def q_def k_def)
    have u: "SHA1Update c data = c\<lparr>sha_state := H,
        sha_count := (c0 + push_bit 3 l, (if c0 + push_bit 3 l < c0 then c1 + 1 else c1) + drop_bit 29 l),
        sha_buffer := memcpy_at b1 0 (take (k - (i + 64 * q)) (drop (i + 64 * q) data))\<rparr>"
      using True unfolding SHA1Update_def Let_def cnt
      by (simp add: count(2) l loop flip: l_def k_def j_def i_def b1_def)
    have split: "rest m @ data = b1 @ drop i data" by (simp add: b1)
    have hb: "fips_blocks fips_H0 (m @ data) = H"
      using fips_blocks_append [of b1 "sha_state c" "drop i data"]
      by (simp add: blocks split len1 H_def fips_blocks_one)
    have "rest (m @ data) = rest (drop i data)"
      unfolding rests split by (rule rest_append) (simp add: len1)
    also have "\<dots> = drop (i + 64 * q) data" by (simp add: rest_def q_def k_def add.commute)
    finally have rt: "rest (m @ data) = drop (i + 64 * q) data" .
    have lrt: "length (drop (i + 64 * q) data) = length (m @ data) mod 64"
      unfolding rt [symmetric] by (rule length_rest)
    then have "length (drop (i + 64 * q) data) < 64" by simp
    then have nb: "length (memcpy_at b1 0 (drop (i + 64 * q) data)) = 64"
      "take (length (m @ data) mod 64) (memcpy_at b1 0 (drop (i + 64 * q) data))
         = drop (i + 64 * q) data"
      unfolding lrt [symmetric] by (simp_all only: memcpy_front len1 less_imp_le)
    show ?thesis
      unfolding represents_def u using count(1) nb hb rt by (simp add: k_def)
  qed
qed

lemma represents_pad:
  assumes "represents c m" and "8 * (length m + 64) < 2 ^ 64"
  shows "represents (SHA1_pad c) (m @ replicate ((120 - length m mod 64) mod 64) 0)"
proof -
  have "represents (SHA1_pad c) (m @ replicate z 0)"
    if "represents c m" "z = (120 - length m mod 64) mod 64" "8 * (length m + z) < 2 ^ 64" for z
    using that
  proof (induction z arbitrary: c m)
    case 0
    have "length m mod 64 = 56" using "0.prems"(2)
      by (rule_tac ccontr) (use pad_left_decreases [of "length m mod 64"] in simp)
    then have "fst (sha_count c) AND 504 = 448"
      using "0.prems"(1) counted_mod(2) by (auto simp: represents_def and_504_eq_448)
    then show ?case using "0.prems"(1) by (simp add: SHA1_pad.simps [of c])
  next
    case (Suc z)
    have n56: "length m mod 64 \<noteq> 56" using Suc.prems(2) by auto
    then have "fst (sha_count c) AND 504 \<noteq> 448"
      using Suc.prems(1) counted_mod(2) by (auto simp: represents_def and_504_eq_448)
    then have s: "SHA1_pad c = SHA1_pad (SHA1Update c [0])" by (simp add: SHA1_pad.simps [of c])
    have "represents (SHA1Update c [0]) (m @ [0])"
      by (rule represents_update) (use Suc.prems in simp_all)
    moreover have "z = (120 - length (m @ [0 :: u8]) mod 64) mod 64"
    proof -
      have "length (m @ [0 :: u8]) mod 64 = (length m mod 64 + 1) mod 64" by (simp add: mod_simps)
      moreover have "(120 - (r + 1) mod 64) mod 64 = z"
        if "r < 64" "r \<noteq> 56" "Suc z = (120 - r) mod 64" for r :: nat
      proof (cases "r = 63")
        case False
        with that have "(r + 1) mod 64 = r + 1" "r + 1 < 64" by simp_all
        with that show ?thesis using pad_mod [of r] pad_mod [of "r + 1"] by (auto split: if_splits)
      qed (use that in simp)
      ultimately show ?thesis using n56 Suc.prems(2) by simp
    qed
    ultimately have "represents (SHA1_pad (SHA1Update c [0])) ((m @ [0]) @ replicate z 0)"
      by (intro Suc.IH) (use Suc.prems in simp_all)
    then show ?case by (simp add: s)
  qed
  moreover have "(120 - length m mod 64) mod 64 \<le> 64" by simp
  then have "8 * (length m + (120 - length m mod 64) mod 64) \<le> 8 * (length m + 64)" by simp
  then have "8 * (length m + (120 - length m mod 64) mod 64) < 2 ^ 64"
    using assms(2) by (rule le_less_trans)
  ultimately show ?thesis using assms(1) by blast
qed

lemma finalcount:
  fixes c0 c1 :: u32
  assumes "uint c1 * 2 ^ 32 + uint c0 = 8 * int n"
  shows "map (\<lambda>i. ucast (drop_bit ((3 - (i mod 4)) * 8) (if i \<ge> 4 then c0 else c1) AND 255)) [0..<8]
     = rev (store_le 8 (of_nat (8 * n) :: u64))"
proof -
  have "(of_nat (8 * n) :: u64) = word_of_int (uint c1 * 2 ^ 32 + uint c0)"
    unfolding assms by (metis of_int_of_nat_eq of_nat_mult of_nat_numeral)
  also have "\<dots> = word_cat c1 c0"
    by (simp add: word_cat_eq push_bit_eq_mult unsigned_ucast_eq)
  finally have w: "(of_nat (8 * n) :: u64) = word_cat c1 c0" .
  have m: "(255 :: u32) = mask 8" by (simp add: mask_eq_exp_minus_1)
  have "ucast (drop_bit ((3 - (i mod 4)) * 8) (if i \<ge> 4 then c0 else c1) AND 255)
      = (ucast (drop_bit (8 * (7 - i)) (word_cat c1 c0 :: u64)) :: u8)" if "i < 8" for i
  proof (rule bit_eqI)
    fix k assume "possible_bit TYPE(u8) k"
    then have k: "k < 8" by simp
    show "bit (ucast (drop_bit ((3 - (i mod 4)) * 8) (if i \<ge> 4 then c0 else c1) AND 255) :: u8) k
      \<longleftrightarrow> bit (ucast (drop_bit (8 * (7 - i)) (word_cat c1 c0 :: u64)) :: u8) k"
    proof (cases "i < 4")
      case True
      then have "8 * (7 - i) + k - 32 = (3 - i) * 8 + k" "32 \<le> 8 * (7 - i) + k"
        "8 * (7 - i) + k < 64"
        using k by (simp_all add: algebra_simps)
      then show ?thesis using True k unfolding m by (simp add: bit_simps)
    next
      case False
      then have "i mod 4 = i - 4" using that by (simp add: le_mod_geq)
      moreover have "8 * (7 - i) = (3 - (i - 4)) * 8" using False by simp
      moreover have "(3 - (i - 4)) * 8 + k < 32" using False that k by simp
      ultimately show ?thesis using False k unfolding m by (simp add: bit_simps mult.commute)
    qed
  qed
  then show ?thesis
    unfolding w by (intro nth_equalityI) (simp_all add: rev_nth)
qed

lemma digest_bytes:
  assumes "length H = 5"
  shows "map (\<lambda>i. ucast (drop_bit ((3 - (i mod 4)) * 8) (H ! (i div 4)) AND 255)) [0..<20]
     = concat (map (\<lambda>w. rev (store_le 4 w)) (H :: u32 list))"
proof -
  obtain a b c d e where H: "H = [a, b, c, d, e]"
    using assms by (auto simp: length_Suc_conv numeral_eq_Suc)
  have m: "(255 :: u32) = mask 8" by (simp add: mask_eq_exp_minus_1)
  have u: "ucast (x AND 255) = (ucast x :: u8)" for x :: u32
    unfolding m by (rule bit_eqI) (simp add: bit_simps)
  have "[0..<20] = [0, 1, 2, 3, 4, 5, 6, 7, 8, 9, 10, 11, 12, 13, 14, 15, 16, 17, 18, 19::nat]"
    by (simp add: upt_rec)
  then show ?thesis
    by (simp add: H u store_le_def upt_bytes)
qed

theorem SHA1_digest_fips:
  assumes "represents c m" and "8 * (length m + 128) < 2 ^ 64"
  shows "SHA1Final c = fips_sha1 m"
proof -
  obtain c0 c1 where cnt: "sha_count c = (c0, c1)" by (cases "sha_count c")
  have fc: "map (\<lambda>i. ucast (drop_bit ((3 - (i mod 4)) * 8)
      (if i \<ge> 4 then fst (sha_count c) else snd (sha_count c)) AND 255)) [0..<8]
      = rev (store_le 8 (of_nat (8 * length m) :: u64))" (is "?fc = ?bits")
    using assms(1) finalcount [of c1 c0 "length m"] by (simp only: cnt represents_def fst_conv snd_conv)
  define z where "z = (120 - length (m @ [0x80 :: u8]) mod 64) mod 64"
  have z: "z = fips_zeros (length m)" "z < 64"
    unfolding z_def fips_zeros_def by (cases "length m mod 64 = 63") (auto simp: mod_Suc)
  have "represents (SHA1Update c [0x80]) (m @ [0x80])"
    by (rule represents_update [OF assms(1)]) (use assms(2) in simp_all)
  then have "represents (SHA1_pad (SHA1Update c [0x80])) ((m @ [0x80]) @ replicate z 0)"
    unfolding z_def by (rule represents_pad) (use assms(2) in simp)
  then have "represents (SHA1Update (SHA1_pad (SHA1Update c [0x80])) ?fc)
      (((m @ [0x80]) @ replicate z 0) @ ?fc)"
    by (rule represents_update) (use assms(2) z(2) in simp_all)
  then have "sha_state (SHA1Update (SHA1_pad (SHA1Update c [0x80])) ?fc)
      = fips_blocks fips_H0 (fips_pad m)" (is "?H = _")
    unfolding fc by (simp add: represents_def fips_pad_def z(1))
  moreover have "length (fips_blocks fips_H0 (fips_pad m)) = 5"
    by (rule length_fips_blocks) (simp add: fips_H0_def)
  ultimately show ?thesis
    unfolding SHA1Final_def Let_def fips_sha1_def by (simp only: digest_bytes)
qed

end
