(* ===== verification/WebSocket_Properties.thy ===== *)
theory WebSocket_Properties
  imports Small_Kernel Sha1_Spec
begin

text \<open>
  What the websocket classes do on a \<open>Socket\<close> over any system that keeps the contract
  \<open>tcp_kernel\<close>, with concrete runs on the small system.
\<close>

section \<open>States\<close>

text \<open>The connection of a websocket, and that it is open and the object well formed.\<close>

definition tcp_conn :: "('k \<Rightarrow> int \<Rightarrow> connection) \<Rightarrow> int \<Rightarrow> 'k BaseSocket WebSocket \<Rightarrow> connection" where
  "tcp_conn conns fd s = conns (kernel (world s)) fd"

definition tcp_ready :: "('k \<Rightarrow> int \<Rightarrow> connection) \<Rightarrow> int \<Rightarrow> 'k BaseSocket WebSocket \<Rightarrow> bool" where
  "tcp_ready conns fd s = ready (\<lambda>w. conns (kernel w) fd) (owns conns fd) s"

definition demo :: "role \<Rightarrow> bytes \<Rightarrow> machine BaseSocket WebSocket" where
  "demo role inb = new_WebSocket (tcp_env role small_linux zeroes) (Socket_fd 3 (demo_machine inb))"

lemma demo_simps [simp]:
  "tcp_conn m_conns 3 (demo role inb) = \<lparr>up = True, inbox = inb, outbox = []\<rparr>"
  "is_continuation (demo role inb) = False" "is_text (demo role inb) = False"
  "tcp_ready m_conns 3 (demo role inb)"
  by (simp_all add: demo_def demo_machine_def tcp_conn_def new_WebSocket_def Socket_fd_def
      new_BaseSocket_def tcp_ready_def ready_def owns_def kInvalidSocket_def zeroes_def)

text \<open>The same object after an earlier call has taken a first fragment.\<close>

definition demo_inside :: "role \<Rightarrow> bytes \<Rightarrow> machine BaseSocket WebSocket" where
  "demo_inside role inb = (demo role inb)\<lparr>is_continuation := True, message_arg := [1]\<rparr>"

lemma demo_inside_simps [simp]:
  "tcp_conn m_conns 3 (demo_inside role inb) = \<lparr>up = True, inbox = inb, outbox = []\<rparr>"
  "is_continuation (demo_inside role inb)" "is_text (demo_inside role inb) = False"
  "tcp_ready m_conns 3 (demo_inside role inb)"
  by (simp_all add: demo_inside_def demo_def demo_machine_def tcp_conn_def new_WebSocket_def Socket_fd_def
      new_BaseSocket_def tcp_ready_def ready_def owns_def kInvalidSocket_def zeroes_def)

section \<open>The socket\<close>

text \<open>C25: However few bytes the system takes at a time, \<open>BaseSocket::write\<close> puts the whole
  buffer on the connection, in order, and returns true.\<close>

theorem write_is_whole:
  assumes "tcp_kernel L conns clock" and "sockfd s = fd" and "up (conns (kernel s) fd)"
    and "length buf < 2 ^ 63"
  shows "\<exists>s'. bs_write L buf s = Some (Inr True, s') \<and> sockfd s' = fd
     \<and> outbox (conns (kernel s') fd) = outbox (conns (kernel s) fd) @ buf"
  using wp_returns [OF tcp_kernel.bs_write_total [OF assms]]
  by (auto simp: step_to_def wrote_def)

lemma write_is_whole_witness:
  "\<exists>s'. bs_write small_linux [1, 2, 3, 4, 5, 6, 7] (Socket_fd 3 (demo_machine [])) = Some (Inr True, s')
     \<and> sockfd s' = 3 \<and> outbox (m_conns (kernel s') 3) = [1, 2, 3, 4, 5, 6, 7]"
  using write_is_whole [OF small.tcp_kernel_axioms, of "Socket_fd 3 (demo_machine [])" 3 "[1, 2, 3, 4, 5, 6, 7]"]
  by (simp add: Socket_fd_def new_BaseSocket_def demo_machine_def)

text \<open>C26: However few bytes the system delivers at a time, \<open>BaseSocket::read\<close> of \<open>n\<close> bytes that
  the peer has sent returns true with exactly these bytes in the front of the buffer.\<close>

theorem read_is_whole:
  assumes "tcp_kernel L conns clock" and "sockfd s = fd"
    and "n \<le> length (inbox (conns (kernel s) fd))" and "n \<le> length buf" and "n < 2 ^ 63"
  shows "\<exists>s'. bs_read L buf n s = Some (Inr (True, take n (inbox (conns (kernel s) fd)) @ drop n buf), s')
     \<and> inbox (conns (kernel s') fd) = drop n (inbox (conns (kernel s) fd))"
  using wp_returns [OF tcp_kernel.bs_read_total [OF assms]]
  by (auto simp: step_to_def)

lemma read_is_whole_witness:
  "\<exists>s'. bs_read small_linux (replicate 6 0) 5 (Socket_fd 3 (demo_machine [1, 2, 3, 4, 5, 6, 7]))
        = Some (Inr (True, [1, 2, 3, 4, 5, 0]), s')
     \<and> inbox (m_conns (kernel s') 3) = [6, 7]"
  using read_is_whole [OF small.tcp_kernel_axioms, of "Socket_fd 3 (demo_machine [1, 2, 3, 4, 5, 6, 7])" 3 5 "replicate 6 0"]
  by (simp add: Socket_fd_def new_BaseSocket_def demo_machine_def)

text \<open>C37: When the first \<open>recv\<close> fails with -1, \<open>BaseSocket::read\<close> takes the result for a number of
  bytes: it reports success without having read anything.\<close>

theorem failed_recv_is_success:
  assumes "0 < n" and "n < 2 ^ 63"
    and "lx_recv L (sockfd s) (take n buf) 0 (kernel s) = Some (Inr (-1, take n buf), k')"
  shows "bs_read L buf n s = Some (Inr (True, buf), s\<lparr>kernel := k'\<rparr>)"
proof -
  have m1: "unat (-1 :: u64) = 2 ^ 64 - 1" by (simp add: unsigned_minus_1_eq_mask mask_eq_exp_minus_1)
  have "\<not> 2 ^ 64 - 1 < n" using assms(2) by simp
  then have second: "bs_read_round L n (buf, -1) t = Some (Inr (Inr (True, buf)), t)" for t
    by (simp add: bs_read_round_def Let_def m1 run)
  have first: "bs_read_round L n (buf, 0) s = Some (Inr (Inl (buf, -1)), s\<lparr>kernel := k'\<rparr>)"
    using assms by (simp add: bs_read_round_def Let_def run with_fd_def on_kernel_def)
  show ?thesis
    by (simp add: bs_read_def loopM.simps first second)
qed

definition failing_linux :: "machine ILinux" where
  "failing_linux = small_linux\<lparr>lx_recv := (\<lambda>fd buf flags. returnM (-1, buf))\<rparr>"

lemma failed_recv_is_success_witness:
  "bs_read failing_linux [0, 0] 2 (Socket_fd 3 (demo_machine [])) = Some (Inr (True, [0, 0]), Socket_fd 3 (demo_machine []))"
  using failed_recv_is_success [of 2 failing_linux "Socket_fd 3 (demo_machine [])" "[0, 0]" "demo_machine []"]
  by (simp add: failing_linux_def run Socket_fd_def new_BaseSocket_def)

section \<open>Sending\<close>

lemma tcp_send:
  assumes "tcp_kernel L conns clock" and "fd \<noteq> kInvalidSocket" and "\<And>n. length (uninit n) = n"
    and "tcp_ready conns fd s" and "length message < kMaximumMessageLength" and "length message \<noteq> 65536"
  shows "\<exists>msk s'. ws_send (tcp_env role L uninit) message type s = Some (Inr True, s')
     \<and> tcp_ready conns fd s' \<and> length msk = 4
     \<and> outbox (tcp_conn conns fd s') = outbox (tcp_conn conns fd s)
         @ rfc_frame role True (opcode_of_type type) msk message
     \<and> inbox (tcp_conn conns fd s') = inbox (tcp_conn conns fd s)"
proof -
  note ws = tcp_websocket.is_websocket [OF tcp_websocketI [OF assms(1-3)], where role = role]
  have "wp False (ws_send (tcp_env role L uninit) message type)
     (\<lambda>b s'. b \<and> tcp_ready conns fd s' \<and> (\<exists>msk. length msk = 4 \<and> outbox (tcp_conn conns fd s')
         = outbox (tcp_conn conns fd s) @ rfc_frame role True (opcode_of_type type) msk message)
         \<and> inbox (tcp_conn conns fd s') = inbox (tcp_conn conns fd s)) (\<lambda>_ _. False) s"
    by (rule websocket.ws_send_wp [OF ws])
      (use assms(4-6) in \<open>auto simp: tcp_ready_def ready_def tcp_conn_def produced_def step_to_def\<close>)
  from wp_returns [OF this] show ?thesis by auto
qed



section \<open>Receiving\<close>

text \<open>\<open>recv\<close> of a message that the peer has sent in one frame or as the last fragment returns at
  once with the message and its type, having read that frame and nothing else.\<close>

theorem recv_takes_a_frame:
  assumes "tcp_kernel L conns clock" and "fd \<noteq> kInvalidSocket" and "\<And>n. length (uninit n) = n"
    and "tcp_ready conns fd s" and "inbox (tcp_conn conns fd s) = wire_frame (peer role) f @ later"
    and "f_opc f \<in> {kTextOpcode, kBinaryOpcode, kContinutationOpcode}"
    and "(f_opc f = kContinutationOpcode) = is_continuation s" and "frame_ok f" and "f_fin f"
    and "0 \<le> timeout"
  shows "\<exists>s'. ws_recv (tcp_env role L uninit) buffer timeout s
      = Some (Inr (if f_opc f = kTextOpcode \<or> f_opc f = kContinutationOpcode \<and> is_text s
                   then kRecvText else kRecvBinary, f_data f), s')
     \<and> tcp_ready conns fd s' \<and> \<not> is_continuation s'
     \<and> inbox (tcp_conn conns fd s') = later \<and> outbox (tcp_conn conns fd s') = outbox (tcp_conn conns fd s)"
proof -
  note ws = tcp_websocket.is_websocket [OF tcp_websocketI [OF assms(1-3)], where role = role]
  from wp_returns [OF websocket.recv_final_frame_wp
      [OF ws, where f = f and rest = later and timeout = timeout and message = buffer and s = s ]]
  show ?thesis
    using assms(4-) by (auto simp: tcp_ready_def tcp_conn_def)
qed

definition demo_frame :: "bool \<Rightarrow> u8 \<Rightarrow> bytes \<Rightarrow> frame" where
  "demo_frame final opc data = \<lparr>f_fin = final, f_opc = opc, f_mask = [7, 7, 7, 7], f_data = data\<rparr>"

lemma demo_frame_simps [simp]:
  "f_fin (demo_frame final opc data) = final" "f_opc (demo_frame final opc data) = opc"
  "f_data (demo_frame final opc data) = data"
  "length data \<le> 125 \<Longrightarrow> frame_ok (demo_frame final opc data)"
  by (simp_all add: demo_frame_def frame_ok_def)

lemma recv_takes_a_frame_witness:
  "\<exists>s'. ws_recv (tcp_env ServerSide small_linux zeroes) [] 0
        (demo ServerSide (wire_frame ClientSide (demo_frame True kTextOpcode [104, 105]) @ [9]))
      = Some (Inr (kRecvText, [104, 105]), s')
     \<and> tcp_ready m_conns 3 s' \<and> \<not> is_continuation s'
     \<and> inbox (tcp_conn m_conns 3 s') = [9] \<and> outbox (tcp_conn m_conns 3 s') = []"
  using recv_takes_a_frame [OF demo_contract, where role = ServerSide and buffer = "[]" and timeout = 0
      and f = "demo_frame True kTextOpcode [104, 105]" and later = "[9]"
      and s = "demo ServerSide (wire_frame ClientSide (demo_frame True kTextOpcode [104, 105]) @ [9])"]
  by simp

text \<open>C2: \<open>recv\<close> on the frames of a fragmented message, with pings and pongs between them, returns
  their data joined, with a pong of the same data sent for every ping; or its time is over
  between two frames, and the other frames are still on the connection.\<close>

theorem recv_assembles_fragments:
  assumes "tcp_kernel L conns clock" and "fd \<noteq> kInvalidSocket" and "\<And>n. length (uninit n) = n"
    and "tcp_ready conns fd s" and "inbox (tcp_conn conns fd s) = wire (peer role) fs @ later"
    and "assemble (is_continuation s) (is_text s) [] fs = Some msg"
    and "\<forall>f \<in> set fs. frame_ok f"
  shows "\<exists>status s'. ws_recv (tcp_env role L uninit) buffer timeout s = Some (Inr (status, message_arg s'), s')
     \<and> recv_outcome (\<lambda>w. conns (kernel w) fd) (owns conns fd) role fs later msg
         (outbox (tcp_conn conns fd s)) status s'"
proof -
  note ws = tcp_websocket.is_websocket [OF tcp_websocketI [OF assms(1-3)], where role = role]
  from wp_returns [OF websocket.ws_recv_wp
      [OF ws, where fs = fs and rest = later and timeout = timeout and message = buffer and s = s 
        and msg = msg]]
  show ?thesis
    using assms(4-) by (auto simp: tcp_ready_def tcp_conn_def)
qed

lemma recv_assembles_fragments_witness:
  "\<exists>status s'. ws_recv (tcp_env ServerSide small_linux zeroes) [] 1
        (demo ServerSide (wire ClientSide [demo_frame False kBinaryOpcode [1], demo_frame True kPingOpcode [5],
             demo_frame True kContinutationOpcode [2]] @ []))
      = Some (Inr (status, message_arg s'), s')
     \<and> recv_outcome (\<lambda>w. m_conns (kernel w) 3) (owns m_conns 3) ServerSide
          [demo_frame False kBinaryOpcode [1], demo_frame True kPingOpcode [5],
             demo_frame True kContinutationOpcode [2]] [] (False, [1, 2]) [] status s'"
  using recv_assembles_fragments [OF demo_contract, where role = ServerSide and buffer = "[]" and timeout = 1
      and fs = "[demo_frame False kBinaryOpcode [1], demo_frame True kPingOpcode [5],
             demo_frame True kContinutationOpcode [2]]" and later = "[]" and msg = "(False, [1, 2])"
      and s = "demo ServerSide (wire ClientSide [demo_frame False kBinaryOpcode [1], demo_frame True kPingOpcode [5],
             demo_frame True kContinutationOpcode [2]] @ [])"]
  by (auto simp: Let_def)

text \<open>C17: When nothing arrives, \<open>recv\<close> returns \<open>kRecvTimeOut\<close>: its loop ends, for every timeout
  of at most 1,900,000 seconds (22 days), negative ones included. Every system call takes some
  time, but \<open>clock_gettime(CLOCK_REALTIME)\<close>, which the loop reads, need not grow: it may be set
  forwards or backwards, or show the same time again, as long as it stays within 10^14 nanoseconds
  (27 hours) of the time that has passed. The bounds keep the milliseconds that \<open>BaseSocket\<close> casts to an
  \<open>int\<close> for \<open>poll\<close> in the range of \<open>int\<close>; beyond it the cast is not defined.\<close>

theorem recv_ends:
  assumes "tcp_kernel L conns clock" and "fd \<noteq> kInvalidSocket" and "\<And>n. length (uninit n) = n"
    and "tcp_ready conns fd s" and "inbox (tcp_conn conns fd s) = []" and "timeout \<le> kLongestWait"
  shows "\<exists>s'. ws_recv (tcp_env role L uninit) buffer timeout s = Some (Inr (kRecvTimeOut, []), s')
     \<and> tcp_ready conns fd s' \<and> is_continuation s' = is_continuation s
     \<and> tcp_conn conns fd s' = tcp_conn conns fd s"
proof -
  note ws = tcp_websocket.is_websocket [OF tcp_websocketI [OF assms(1-3)], where role = role]
  from wp_returns [OF websocket.recv_idle_wp
      [OF ws, where timeout = timeout and message = buffer and s = s ]]
  show ?thesis
    using assms(4-) by (auto simp: tcp_ready_def tcp_conn_def)
qed

lemma recv_ends_witness:
  "\<exists>s'. ws_recv (tcp_env ClientSide small_linux zeroes) [1, 2] (1 / 4) (demo ClientSide [])
        = Some (Inr (kRecvTimeOut, []), s')
     \<and> tcp_ready m_conns 3 s' \<and> is_continuation s' = False
     \<and> tcp_conn m_conns 3 s' = \<lparr>up = True, inbox = [], outbox = []\<rparr>"
  using recv_ends [OF demo_contract, where role = ClientSide and buffer = "[1, 2]" and timeout = "1 / 4"
      and s = "demo ClientSide []"]
  by (simp add: kLongestWait_def)

text \<open>The payload of a code that came in two bytes is those two bytes.\<close>

lemma close_payload_echo:
  assumes "length data = 2"
  shows "close_payload (close_code_of data) = data"
  using store_load_le [of "rev data", where 'a = 16] assms by (simp add: close_payload_eq close_code_of_def)

lemma close_payload_missing: "length data \<noteq> 2 \<Longrightarrow> close_payload (close_code_of data) = [0x03, 0xED]"
  by (simp add: close_payload_eq close_code_of_def kCloseMissingCode_def store_le_def upt_bytes)

lemma length_close_payload: "length (close_payload code) = 2"
  by (simp add: close_payload_eq)

text \<open>C15: A close frame is answered with one close frame, the connection is closed, and
  \<open>recv\<close> returns \<open>kRecvClosed\<close>. A payload of two bytes, the code alone, is answered with the same two
  bytes. Every other payload, none or a code with a reason, is answered with the bytes 3 and 237,
  the code 1005, though \<open>WebSocketConstants.h\<close> (61-66) says that 1005 must not be set in a close
  frame: the code of a frame with a reason is lost. \<open>get_close_code\<close> keeps the same code as the
  reason of the close.\<close>

theorem close_is_answered:
  assumes "tcp_kernel L conns clock" and "fd \<noteq> kInvalidSocket" and "\<And>n. length (uninit n) = n"
    and "tcp_ready conns fd s" and "inbox (tcp_conn conns fd s) = wire_frame (peer role) f @ later"
    and "f_opc f = kCloseOpcode" and "frame_ok f" and "0 \<le> timeout"
  shows "\<exists>msk s'. ws_recv (tcp_env role L uninit) buffer timeout s = Some (Inr (kRecvClosed, []), s')
     \<and> \<not> up (tcp_conn conns fd s') \<and> remote_close_reason s' = close_code_of (f_data f) \<and> length msk = 4
     \<and> outbox (tcp_conn conns fd s') = outbox (tcp_conn conns fd s)
         @ rfc_frame role True kCloseOpcode msk (if length (f_data f) = 2 then f_data f else [0x03, 0xED])"
proof -
  note ws = tcp_websocket.is_websocket [OF tcp_websocketI [OF assms(1-3)], where role = role]
  from wp_returns [OF websocket.recv_close_wp
      [OF ws, where f = f and rest = later and timeout = timeout and message = buffer and s = s ]]
  show ?thesis
    using assms(4-) by (auto simp: tcp_ready_def tcp_conn_def close_payload_echo close_payload_missing)
qed

lemma close_is_answered_witness:
  "(\<exists>msk s'. ws_recv (tcp_env ServerSide small_linux zeroes) [] 0
        (demo ServerSide (wire_frame ClientSide (demo_frame True kCloseOpcode (close_payload kCloseGoingAway)) @ []))
      = Some (Inr (kRecvClosed, []), s')
     \<and> \<not> up (tcp_conn m_conns 3 s') \<and> remote_close_reason s' = kCloseGoingAway \<and> length msk = 4
     \<and> outbox (tcp_conn m_conns 3 s') = rfc_frame ServerSide True kCloseOpcode msk (close_payload kCloseGoingAway))
   \<and> (\<exists>msk s'. ws_recv (tcp_env ClientSide small_linux zeroes) [] 0
        (demo ClientSide (wire_frame ServerSide (demo_frame True kCloseOpcode [3, 233, 98, 121, 101]) @ []))
      = Some (Inr (kRecvClosed, []), s')
     \<and> \<not> up (tcp_conn m_conns 3 s') \<and> remote_close_reason s' = kCloseMissingCode \<and> length msk = 4
     \<and> outbox (tcp_conn m_conns 3 s') = rfc_frame ClientSide True kCloseOpcode msk [0x03, 0xED])"
  using close_is_answered [OF demo_contract, where role = ServerSide and buffer = "[]" and timeout = 0
      and f = "demo_frame True kCloseOpcode (close_payload kCloseGoingAway)" and later = "[]"
      and s = "demo ServerSide (wire_frame ClientSide (demo_frame True kCloseOpcode (close_payload kCloseGoingAway)) @ [])"]
    close_is_answered [OF demo_contract, where role = ClientSide and buffer = "[]" and timeout = 0
      and f = "demo_frame True kCloseOpcode [3, 233, 98, 121, 101]" and later = "[]"
      and s = "demo ClientSide (wire_frame ServerSide (demo_frame True kCloseOpcode [3, 233, 98, 121, 101]) @ [])"]
  by (simp add: close_code_round_trip length_close_payload) (simp add: close_code_of_def)

text \<open>C16: A frame with the wrong masking flag, an opcode that is not defined, or a payload of more than
  128 MB makes \<open>recv\<close> return \<open>kRecvError\<close> and an empty message, after it has sent exactly one close
  frame, of code 1002 or 1009, and closed the connection. The payload of the frame is not skipped:
  while it waits for the answer to its close frame, \<open>recv\<close> reads whatever is behind the header (for
  a server, behind the four bytes that it takes for the masking key, which must have come) as
  frames. Whatever bytes these are, \<open>recv\<close> has no other outcome. It does come back if they are
  \<open>settled\<close>: frames with no reserved bits, up to the end of the bytes, or up to a close frame or
  the header of another bad frame. Of other bytes nothing is claimed: when they stop inside a
  frame, the read of it blocks until the peer sends the rest or closes.\<close>

theorem bad_frame_is_rejected:
  assumes "tcp_kernel L conns clock" and "fd \<noteq> kInvalidSocket" and "\<And>n. length (uninit n) = n"
    and "tcp_ready conns fd s"
    and "inbox (tcp_conn conns fd s) = rfc_header final opc masked n @ behind"
    and "role = ServerSide \<Longrightarrow> 4 \<le> length behind"
    and "unat opc < 16" and "n < 2 ^ 63" and "0 \<le> timeout"
    and "masked \<noteq> masked_by (peer role) \<or> \<not> valid_opcode opc \<or> n > 134217728"
  shows "(\<forall>r s'. ws_recv (tcp_env role L uninit) buffer timeout s = Some (r, s') \<longrightarrow>
       r = Inr (kRecvError, []) \<and> \<not> up (tcp_conn conns fd s')
     \<and> (\<exists>msk. length msk = 4 \<and> outbox (tcp_conn conns fd s') = outbox (tcp_conn conns fd s)
         @ rfc_frame role True kCloseOpcode msk (close_payload
             (if masked \<noteq> masked_by (peer role) \<or> \<not> valid_opcode opc
              then kCloseProtocolError else kCloseTooBig))))
   \<and> (settled (peer role) (behind_header role behind) \<longrightarrow>
       ws_recv (tcp_env role L uninit) buffer timeout s \<noteq> None)"
proof -
  note ws = tcp_websocket.is_websocket [OF tcp_websocketI [OF assms(1-3)], where role = role]
  note rejects = websocket.recv_rejects_wp [OF ws, where final = final and opc = opc and masked = masked
      and n = n and behind = behind and timeout = timeout and message = buffer and s = s]
  let ?Q = "\<lambda>r s'. r = (kRecvError, []) \<and> \<not> up (tcp_conn conns fd s')
     \<and> (\<exists>msk. length msk = 4 \<and> outbox (tcp_conn conns fd s') = outbox (tcp_conn conns fd s)
         @ rfc_frame role True kCloseOpcode msk (close_payload
             (if masked \<noteq> masked_by (peer role) \<or> \<not> valid_opcode opc
              then kCloseProtocolError else kCloseTooBig)))"
  have any: "wp True (ws_recv (tcp_env role L uninit) buffer timeout) ?Q (\<lambda>_ _. False) s"
    by (rule wp_mono [OF rejects]) (use assms(4-) in \<open>auto simp: tcp_ready_def tcp_conn_def bad_header_def\<close>)
  have ends: "wp False (ws_recv (tcp_env role L uninit) buffer timeout) (\<lambda>_ _. True) (\<lambda>_ _. True) s"
    if "settled (peer role) (behind_header role behind)"
    by (rule wp_mono [OF rejects]) (use that assms(4-) in \<open>auto simp: tcp_ready_def tcp_conn_def bad_header_def\<close>)
  show ?thesis
    using wp_outcome [OF any] wp_not_none [OF ends] by blast
qed

lemma bad_frame_is_rejected_witness:
  "\<exists>msk s'. ws_recv (tcp_env ServerSide small_linux zeroes) [] 0
        (demo ServerSide (rfc_header True 1 False 10 @ [1, 2, 3, 4] @ rfc_header True 1 False 0 @ [5, 6, 7, 8]))
      = Some (Inr (kRecvError, []), s')
     \<and> \<not> up (tcp_conn m_conns 3 s') \<and> length msk = 4
     \<and> outbox (tcp_conn m_conns 3 s') = rfc_frame ServerSide True kCloseOpcode msk (close_payload kCloseProtocolError)"
proof -
  let ?behind = "[1, 2, 3, 4] @ rfc_header True 1 False 0 @ [5, 6, 7, 8]"
  have "bad_header ClientSide 1 False 0" by (simp add: bad_header_def masked_by_def)
  from settled_bad [OF _ _ _ this, of "[5, 6, 7, 8]" True "[]"]
  have "settled (peer ServerSide) (behind_header ServerSide ?behind)"
    by (simp add: behind_header_def mask_bytes_def masked_by_def)
  with bad_frame_is_rejected [OF demo_contract, where role = ServerSide and buffer = "[]" and timeout = 0
      and final = True and opc = 1 and masked = False and n = 10 and behind = ?behind
      and s = "demo ServerSide (rfc_header True 1 False 10 @ ?behind)"]
  show ?thesis by (auto simp: masked_by_def)
qed

section \<open>From end to end\<close>

text \<open>C1: What one side sends is what the other receives: when the bytes that \<open>send\<close> has put on
  the connection arrive, \<open>recv\<close> of the other class, which is not inside a fragmented message, returns
  that message and its type, for every message of less than 128 MB, except those of exactly 65536
  bytes, whose header announces none.\<close>

theorem message_crosses:
  assumes "tcp_kernel L conns clock" and "fd \<noteq> kInvalidSocket" and "\<And>n. length (uninit n) = n"
    and "tcp_kernel L' conns' clock'" and "fd' \<noteq> kInvalidSocket" and "\<And>n. length (uninit' n) = n"
    and "tcp_ready conns fd s" and "length message < kMaximumMessageLength" and "length message \<noteq> 65536"
    and "tcp_ready conns' fd' r" and "\<not> is_continuation r" and "0 \<le> timeout"
    and sent: "ws_send (tcp_env role L uninit) message type s = Some (Inr b, s')"
    and arrived: "inbox (tcp_conn conns' fd' r)
      = drop (length (outbox (tcp_conn conns fd s))) (outbox (tcp_conn conns fd s'))"
  shows "\<exists>r'. ws_recv (tcp_env (peer role) L' uninit') buffer timeout r
     = Some (Inr (if type = kTextMessage then kRecvText else kRecvBinary, message), r')"
proof -
  note ws = tcp_websocket.is_websocket [OF tcp_websocketI [OF assms(1-3)], where role = role]
  have "wp False (ws_send (tcp_env role L uninit) message type)
     (\<lambda>b s'. \<exists>msk. length msk = 4 \<and> outbox (tcp_conn conns fd s')
         = outbox (tcp_conn conns fd s) @ rfc_frame role True (opcode_of_type type) msk message) (\<lambda>_ _. False) s"
    by (rule websocket.ws_send_wp [OF ws])
      (use assms(7-9) in \<open>auto simp: tcp_ready_def ready_def tcp_conn_def produced_def step_to_def\<close>)
  from wp_returns [OF this] sent obtain msk where msk: "length msk = 4"
    and out: "outbox (tcp_conn conns fd s')
       = outbox (tcp_conn conns fd s) @ rfc_frame role True (opcode_of_type type) msk message"
    by auto
  define f where "f = \<lparr>f_fin = True, f_opc = opcode_of_type type, f_mask = msk, f_data = message\<rparr>"
  have f: "frame_ok f" "f_fin f" "f_data f = message"
    "f_opc f = (if type = kTextMessage then kTextOpcode else kBinaryOpcode)"
    using msk assms(8) by (auto simp: f_def frame_ok_def is_ping_def opcode_of_type_def kMaximumMessageLength_def)
  have pp: "peer (peer role) = role" by (cases role) simp_all
  have inb: "inbox (conns' (kernel (world r)) fd') = wire_frame (peer (peer role)) f @ []"
    using arrived unfolding out by (simp add: pp wire_frame_def f_def tcp_conn_def)
  note ws' = tcp_websocket.is_websocket [OF tcp_websocketI [OF assms(4-6)], where role = "peer role"]
  from wp_returns [OF websocket.recv_final_frame_wp
      [OF ws', where f = f and rest = "[]" and timeout = timeout and message = buffer and s = r]]
  show ?thesis
    using assms(10-12) inb f by (auto simp: tcp_ready_def split: if_splits)
qed

lemma message_crosses_witness:
  "\<exists>s' r'. ws_send (tcp_env ClientSide small_linux zeroes) [104, 105] kBinaryMessage (demo ClientSide [])
        = Some (Inr True, s')
     \<and> ws_recv (tcp_env ServerSide small_linux zeroes) [] 1 (demo ServerSide (outbox (tcp_conn m_conns 3 s')))
        = Some (Inr (kRecvBinary, [104, 105]), r')"
proof -
  obtain s' where s': "ws_send (tcp_env ClientSide small_linux zeroes) [104, 105] kBinaryMessage (demo ClientSide [])
        = Some (Inr True, s')"
    using tcp_send [OF demo_contract, of "demo ClientSide []" "[104, 105]" ClientSide kBinaryMessage]
    by (auto simp: kMaximumMessageLength_def)
  show ?thesis
    using message_crosses [OF demo_contract demo_contract, of "demo ClientSide []" "[104, 105]"
        "demo ServerSide (outbox (tcp_conn m_conns 3 s'))" 1 ClientSide kBinaryMessage True s' "[]"] s'
    by (simp add: kMaximumMessageLength_def)
qed

section \<open>What goes wrong\<close>

text \<open>C38: When the time of a call of \<open>recv\<close> is over after a first fragment, the next call starts
  with an empty buffer but takes the rest of the message: it returns the last fragment alone as
  the message.\<close>

theorem recv_forgets_fragments:
  assumes "tcp_kernel L conns clock" and "fd \<noteq> kInvalidSocket" and "\<And>n. length (uninit n) = n"
    and "tcp_ready conns fd s" and "is_continuation s"
    and "inbox (tcp_conn conns fd s)
      = rfc_frame (peer role) True kContinutationOpcode msk tail @ later"
    and "length msk = 4" and "length tail \<le> 134217728" and "0 \<le> timeout"
  shows "\<exists>s'. ws_recv (tcp_env role L uninit) buffer timeout s
     = Some (Inr (if is_text s then kRecvText else kRecvBinary, tail), s')"
proof -
  note ws = tcp_websocket.is_websocket [OF tcp_websocketI [OF assms(1-3)], where role = role]
  from wp_returns [OF websocket.recv_final_frame_wp
      [OF ws, where f = "\<lparr>f_fin = True, f_opc = kContinutationOpcode, f_mask = msk, f_data = tail\<rparr>"
        and rest = later and timeout = timeout and message = buffer and s = s]]
  show ?thesis
    using assms(4-) by (auto simp: tcp_ready_def tcp_conn_def wire_frame_def frame_ok_def is_ping_def)
qed

lemma recv_forgets_fragments_witness:
  "\<exists>s'. ws_recv (tcp_env ServerSide small_linux zeroes) [] 0
        (demo_inside ServerSide (rfc_frame ClientSide True kContinutationOpcode [1, 2, 3, 4] [2] @ []))
      = Some (Inr (kRecvBinary, [2]), s')"
  using recv_forgets_fragments [OF demo_contract, where role = ServerSide and timeout = 0 and buffer = "[]"
      and s = "demo_inside ServerSide (rfc_frame ClientSide True kContinutationOpcode [1, 2, 3, 4] [2] @ [])"
      and msk = "[1, 2, 3, 4]" and tail = "[2]" and later = "[]"]
  by simp

text \<open>C39: A server's message goes out as the frame of RFC 6455, except that a message of 65536
  bytes gets a header that announces 0 bytes: the receiver takes its data for frames.\<close>

theorem header_announces_length:
  assumes "ws_role E = ServerSide"
  shows "make_message E opc message s =
     Some (Inr (if length message = 65536 then [0x80 OR opc, 126, 0, 0] @ message
                else rfc_frame ServerSide True opc [] message), s)"
  using assms
  by (simp add: make_message_def output_append_header_def output_append_header_server_def
      output_append_payload_def output_append_payload_server_def run frame_header_65536
      frame_header_server_rfc rfc_frame_def)

lemma header_announces_length_witness:
  "make_message (tcp_env ServerSide small_linux zeroes) kTextOpcode (replicate 65536 0) (demo ServerSide [])
     = Some (Inr ([0x81, 126, 0, 0] @ replicate 65536 0), demo ServerSide [])"
  using header_announces_length [of "tcp_env ServerSide small_linux zeroes" kTextOpcode "replicate 65536 0"
      "demo ServerSide []"]
  by (simp add: kTextOpcode_def)

section \<open>SHA-1\<close>

text \<open>C20: \<open>SHA1\<close> computes the digest of FIPS 180-4 of any data shorter than 4 GB, the most that its
  32 bit length takes.\<close>

theorem SHA1_is_fips:
  assumes "length data < 2 ^ 32"
  shows "SHA1 data = fips_sha1 data"
proof -
  let ?c = "SHA1Init \<lparr>sha_state = replicate 5 0, sha_count = (0, 0), sha_buffer = replicate 64 0\<rparr>"
  have "represents ?c []" by (rule represents_init) simp
  then have "represents (SHA1Update ?c data) ([] @ data)"
    by (rule represents_update) (use assms in simp_all)
  then show ?thesis
    unfolding SHA1_def Let_def by (intro SHA1_digest_fips) (use assms in simp_all)
qed

lemma SHA1_is_fips_witness:
  "SHA1 (bytes_of_string ''abc'') = fips_sha1 (bytes_of_string ''abc'')"
  using SHA1_is_fips [of "bytes_of_string ''abc''"] by (simp add: bytes_of_string_def)

end
