(* ===== verification/Http_Spec.thy ===== *)
theory Http_Spec
  imports Http_Messages Stream_Contract
begin

text \<open>
  What the HTTP parser does with the bytes it gets. \<open>parse_bytes\<close> is the parser as a function of
  the bytes that have arrived, and on a socket that keeps the contract \<open>stream_socket\<close> the
  parser is this function, however the bytes come in; the buffer stays within its bounds; and
  the printed head of a request or a response is read back to the byte.
\<close>

section \<open>The parser as a function of the bytes\<close>

fun parse_bytes :: "'r http_virtuals \<Rightarrow> bytes \<Rightarrow> 'r HttpParser
    \<Rightarrow> ((exn + unit) \<times> 'r HttpParser \<times> bytes) option" where
  "parse_bytes V [] p = (case hp_error ''Socket timed out'' p of None \<Rightarrow> None
     | Some (r, q) \<Rightarrow> Some (r, q, []))"
| "parse_bytes V (c # cs) p = (case handle_char V c p of None \<Rightarrow> None
     | Some (r, q) \<Rightarrow> (case r of Inl e \<Rightarrow> Some (Inl e, q, cs)
         | Inr _ \<Rightarrow> if hp_state q = kBody then Some (Inr (), q, cs) else parse_bytes V cs q))"

lemma hp_error_run: "hp_error msg p = Some (Inl (RuntimeError (''HttpParser: '' @ msg)), p\<lparr>hp_state := kErrorState\<rparr>)"
  by (simp add: hp_error_def run)

lemma wp_on_parser [wp_rules]:
  "wp T (on_parser m) Q E s
     = wp T m (\<lambda>x p. Q x (p, snd s)) (\<lambda>e p. E e (p, snd s)) (fst s)"
  by (simp add: on_parser_def wp_zoom)

lemma wp_on_socket [wp_rules]:
  "wp T (on_socket m) Q E s
     = wp T m (\<lambda>x w. Q x (fst s, w)) (\<lambda>e w. E e (fst s, w)) (snd s)"
  by (simp add: on_socket_def wp_zoom)

context stream_socket
begin

definition parsed_to :: "'w \<Rightarrow> bytes \<Rightarrow> 'w \<Rightarrow> bool" where
  "parsed_to w cs w' \<longleftrightarrow> valid w' \<and> step_to conn ticks w ((conn w)\<lparr>inbox := cs\<rparr>) w'"

lemma parsed_to_trans: "parsed_to w cs w' \<Longrightarrow> parsed_to w' ds w'' \<Longrightarrow> parsed_to w ds w''"
  by (auto simp: parsed_to_def step_to_def)

lemma parse_round_timeout:
  assumes "valid w" and "up (conn w)" and "inbox (conn w) = []"
    and post: "\<And>w'. parsed_to w [] w' \<Longrightarrow>
      X (RuntimeError (''HttpParser: '' @ ''Socket timed out'')) (p\<lparr>hp_state := kErrorState\<rparr>, w')"
  shows "wp False (parse_round V S uninit u) Q X (p, w)"
  unfolding parse_round_def wp_rules
  by (rule wp_mono [OF s_wait])
    (use assms(1-3) in \<open>auto simp: parse_timeout_seconds_def wp_rules wp_ext hp_error_def
       parsed_to_def step_to_def intro!: post [simplified]\<close>)

lemma parse_round_char:
  assumes "valid w" and "up (conn w)" and inb: "inbox (conn w) = c # ds"
    and post: "\<And>w'. parsed_to w ds w' \<Longrightarrow>
      wp False (handle_char V c) (\<lambda>_ q. Q (if hp_state q = kBody then Inr () else Inl ()) (q, w'))
        (\<lambda>e q. X e (q, w')) p"
  shows "wp False (parse_round V S uninit u) Q X (p, w)"
  unfolding parse_round_def wp_rules
proof (rule wp_mono [OF s_wait], goal_cases)
  case (5 st w1)
  then have w1: "valid w1" "up (conn w1)" "conn w1 = conn w" "ticks w \<le> ticks w1" and st: "st = kWaitOK"
    using assms(2) inb by (auto simp: step_to_def)
  have got: "wp False (handle_char V c) (\<lambda>_ q. (hp_state q = kBody \<longrightarrow> Q (Inr ()) (q, w2))
      \<and> (hp_state q \<noteq> kBody \<longrightarrow> Q (Inl ()) (q, w2))) (\<lambda>e q. X e (q, w2)) p"
    if "valid w2" "conn w2 = (conn w)\<lparr>inbox := ds\<rparr>" "ticks w1 \<le> ticks w2" for w2
    by (rule wp_mono [OF post [of w2]]) (use that w1 in \<open>auto simp: parsed_to_def step_to_def\<close>)
  show ?case
    unfolding read_char_def wp_rules
    by (simp add: wp_rules st, rule wp_mono [OF s_read [OF w1(1,2)]])
      (use w1 inb in \<open>auto simp: wp_rules wp_ext step_to_def intro!: got\<close>)
qed (use assms(1,2) in \<open>auto simp: parse_timeout_seconds_def\<close>)

lemma hp_loop_wp:
  assumes "valid w" and "up (conn w)" and "parse_bytes V (inbox (conn w)) p = Some (r, q, cs)"
  shows "wp False (loopM (parse_round V S uninit) ())
    (\<lambda>_ s. r = Inr () \<and> fst s = q \<and> parsed_to w cs (snd s))
    (\<lambda>e s. r = Inl e \<and> fst s = q \<and> parsed_to w cs (snd s)) (p, w)"
  using assms
proof (induction "inbox (conn w)" arbitrary: w p)
  case Nil
  show ?case
    unfolding wp_loop_unfold [of False _ "()"]
    by (rule parse_round_timeout) (use Nil in \<open>auto simp: hp_error_run\<close>)
next
  case (Cons c ds)
  show ?case
    unfolding wp_loop_unfold [of False _ "()"]
  proof (rule parse_round_char [OF Cons.prems(1,2) Cons.hyps(2) [symmetric]])
    fix w1
    assume w1: "parsed_to w ds w1"
    then have "inbox (conn w1) = ds" "up (conn w1)" "valid w1"
      using Cons.prems by (auto simp: parsed_to_def step_to_def)
    note IH = Cons.hyps(1) [OF this(1) [symmetric] this(3,2), unfolded this(1)]
    have step: "parse_bytes V (c # ds) p = Some (r, q, cs)" using Cons.prems(3) Cons.hyps(2) by simp
    show "wp False (handle_char V c)
       (\<lambda>_ q'. case if hp_state q' = kBody then Inr () else Inl () of
          Inl a' \<Rightarrow> wp False (loopM (parse_round V S uninit) a')
            (\<lambda>_ s. r = Inr () \<and> fst s = q \<and> parsed_to w cs (snd s))
            (\<lambda>e s. r = Inl e \<and> fst s = q \<and> parsed_to w cs (snd s)) (q', w1)
        | Inr b \<Rightarrow> r = Inr () \<and> fst (q', w1) = q \<and> parsed_to w cs (snd (q', w1)))
       (\<lambda>e q'. r = Inl e \<and> fst (q', w1) = q \<and> parsed_to w cs (snd (q', w1))) p"
      using step w1 
      by (auto simp: wp_def [of _ "handle_char V c"] split: option.splits sum.splits prod.splits if_splits
          intro!: wp_mono [OF IH] dest: parsed_to_trans)
  qed
qed

lemma hp_parse_wp:
  assumes "valid w" and "up (conn w)"
    and "parse_bytes V (inbox (conn w)) (p\<lparr>hp_buffer := []\<rparr>) = Some (r, q, cs)"
  shows "wp False (hp_parse V S uninit)
    (\<lambda>_ s. r = Inr () \<and> fst s = q \<and> parsed_to w cs (snd s))
    (\<lambda>e s. r = Inl e \<and> fst s = q \<and> parsed_to w cs (snd s)) (p, w)"
  using hp_loop_wp [OF assms] by (simp add: hp_parse_def wp_rules)

end

section \<open>What a request that was accepted looks like\<close>

definition wf_name :: "string \<Rightarrow> bool" where
  "wf_name n \<longleftrightarrow> n \<noteq> [] \<and> length n \<le> kMaxHeaderNameLength
     \<and> (\<forall>c \<in> set (bytes_of_string n). is_token_character c)"

definition wf_value :: "string \<Rightarrow> bool" where
  "wf_value v \<longleftrightarrow> v \<noteq> [] \<and> length v \<le> kMaxHeaderValueLength \<and> hd (bytes_of_string v) \<noteq> SP
     \<and> CR \<notin> set (bytes_of_string v)"

definition wf_header :: "HttpHeader \<Rightarrow> bool" where
  "wf_header h \<longleftrightarrow> wf_name (h_name h) \<and> wf_value (h_value h)"

definition wf_uri :: "string \<Rightarrow> bool" where
  "wf_uri u \<longleftrightarrow> u \<noteq> [] \<and> length u \<le> kMaxUriLength \<and> SP \<notin> set (bytes_of_string u)"

definition wf_request :: "Request \<Rightarrow> bool" where
  "wf_request r \<longleftrightarrow> rq_method r = kGetMethod \<and> wf_uri (rq_uri r) \<and> list_all wf_header (rq_headers r)"

text \<open>What the buffer holds in each state.\<close>

fun lexeme :: "HttpState \<Rightarrow> bytes \<Rightarrow> bool" where
  "lexeme kRequestMethod b \<longleftrightarrow> length b \<le> 9"
| "lexeme kRequestMethodSpaces b \<longleftrightarrow> length b \<le> 8"
| "lexeme kRequestUri b \<longleftrightarrow> b \<noteq> [] \<and> length b \<le> 2049 \<and> SP \<notin> set b"
| "lexeme kRequestUriSpaces b \<longleftrightarrow> length b \<le> 2048"
| "lexeme kRequestVersion b \<longleftrightarrow> length b \<le> 9"
| "lexeme kRequestLineLF b \<longleftrightarrow> length b \<le> 9"
| "lexeme kHeaderName b \<longleftrightarrow> b \<noteq> [] \<and> length b \<le> 128 \<and> (\<forall>c \<in> set b. is_token_character c)"
| "lexeme kHeaderSpaces b \<longleftrightarrow> length b \<le> 128"
| "lexeme kHeaderValue b \<longleftrightarrow> b \<noteq> [] \<and> length b \<le> 1024 \<and> hd b \<noteq> SP \<and> CR \<notin> set b"
| "lexeme kErrorState b \<longleftrightarrow> length b \<le> 2049"
| "lexeme _ b \<longleftrightarrow> length b \<le> 1024"

text \<open>How far the request is filled in.\<close>

fun filled :: "HttpState \<Rightarrow> Request \<Rightarrow> bool" where
  "filled kRequestMethod r \<longleftrightarrow> True"
| "filled kRequestMethodSpaces r \<longleftrightarrow> rq_method r = kGetMethod"
| "filled kRequestUri r \<longleftrightarrow> rq_method r = kGetMethod"
| "filled kErrorState r \<longleftrightarrow> True"
| "filled _ r \<longleftrightarrow> rq_method r = kGetMethod \<and> wf_uri (rq_uri r)"

fun of_response :: "HttpState \<Rightarrow> bool" where
  "of_response kResponseVersion = True"
| "of_response kResponseVersionSpaces = True"
| "of_response kResponseCode = True"
| "of_response kResponseCodeSpaces = True"
| "of_response kResponseReason = True"
| "of_response kResponseReasonLF = True"
| "of_response _ = False"

definition request_inv :: "Request HttpParser \<Rightarrow> bool" where
  "request_inv p \<longleftrightarrow> \<not> of_response (hp_state p) \<and> lexeme (hp_state p) (hp_buffer p)
     \<and> filled (hp_state p) (target p)
     \<and> (hp_state p \<in> {kHeaderSpaces, kHeaderValue} \<longrightarrow> wf_name (hp_name p))
     \<and> list_all wf_header (rq_headers (target p))"

lemma lexeme_short: "lexeme st b \<Longrightarrow> length b \<le> 2049"
  by (cases st) auto

lemmas parser_defs = handle_char_def handle_char_in_def handle_status_char_def handle_header_char_def RequestParser_def go_to_def hp_put_def
  start_with_def hp_error_def store_header_name_def hp_value_def on_target_def

lemma handle_char_inv:
  assumes "request_inv p"
  shows "wp False (handle_char RequestParser c) (\<lambda>_. request_inv) (\<lambda>_. request_inv) p"
proof -
  have short: "length (hp_buffer p) \<le> 2049"
    using assms lexeme_short by (auto simp: request_inv_def)
  show ?thesis
    using assms
    by (cases "hp_state p")
      (auto simp: request_inv_def parser_defs wp_rules http_limits mb_size_def mb_tostring_def
        rqp_set_method_def rqp_set_uri_def rqp_set_version_def rqp_add_header_def
        rq_set_method_def rq_set_uri_def rq_add_header_def wf_uri_def wf_header_def wf_name_def
        wf_value_def hd_append intro: le_trans [OF _ short])
qed

text \<open>The parser of requests always comes to an end, and what it accepts is well formed.\<close>

lemma parse_bytes_inv:
  assumes "request_inv p"
  shows "\<exists>r q ds. parse_bytes RequestParser cs p = Some (r, q, ds) \<and> request_inv q
     \<and> (r = Inr () \<longrightarrow> hp_state q = kBody)"
  using assms
proof (induction cs arbitrary: p)
  case Nil
  then have "length (hp_buffer p) \<le> 2049" using lexeme_short by (auto simp: request_inv_def)
  with Nil show ?case by (auto simp: hp_error_run request_inv_def)
next
  case (Cons c cs)
  from handle_char_inv [OF Cons.prems, of c] show ?case
  proof (cases rule: wp_totalE)
    case (returns x t)
    with Cons.IH [of t] show ?thesis by auto
  next
    case (throws e t)
    then show ?thesis by auto
  qed
qed

lemma accepted_wf: "request_inv q \<Longrightarrow> hp_state q = kBody \<Longrightarrow> wf_request (target q)"
  by (simp add: request_inv_def wf_request_def)

lemma new_parser_inv: "request_inv ((new_HttpParser new_Request)\<lparr>hp_state := kRequestMethod, hp_buffer := []\<rparr>)"
  by (simp add: request_inv_def new_HttpParser_def new_Request_def)

context stream_socket
begin

lemma rqp_parse_wp:
  assumes "valid w" and "up (conn w)"
    and "parse_bytes RequestParser (inbox (conn w)) (p\<lparr>hp_state := kRequestMethod, hp_buffer := []\<rparr>) = Some (r, q, cs)"
  shows "wp False (rqp_parse S uninit)
    (\<lambda>_ s. r = Inr () \<and> fst s = q \<and> parsed_to w cs (snd s))
    (\<lambda>e s. r = Inl e \<and> fst s = q \<and> parsed_to w cs (snd s)) (p, w)"
  unfolding rqp_parse_def hp_parse_request_def go_to_def wp_rules
  using hp_parse_wp [of w RequestParser "p\<lparr>hp_state := kRequestMethod\<rparr>"] assms by simp

lemma rsp_parse_wp:
  assumes "valid w" and "up (conn w)"
    and "parse_bytes ResponseParser (inbox (conn w)) (p\<lparr>hp_state := kResponseVersion, hp_buffer := []\<rparr>) = Some (r, q, cs)"
  shows "wp False (rsp_parse S uninit)
    (\<lambda>_ s. r = Inr () \<and> fst s = q \<and> parsed_to w cs (snd s))
    (\<lambda>e s. r = Inl e \<and> fst s = q \<and> parsed_to w cs (snd s)) (p, w)"
  unfolding rsp_parse_def hp_parse_response_def go_to_def wp_rules
  using hp_parse_wp [of w ResponseParser "p\<lparr>hp_state := kResponseVersion\<rparr>"] assms by simp

end

section \<open>Reading a run of characters\<close>

definition eats :: "'r http_virtuals \<Rightarrow> 'r HttpParser \<Rightarrow> bytes \<Rightarrow> 'r HttpParser \<Rightarrow> bool" where
  "eats V p cs q \<longleftrightarrow> (\<forall>ds. parse_bytes V (cs @ ds) p = parse_bytes V ds q)"

lemma eats_Nil: "eats V p [] p"
  by (simp add: eats_def)

lemma eats_trans [trans]: "eats V p cs q \<Longrightarrow> eats V q ds r \<Longrightarrow> eats V p (cs @ ds) r"
  by (simp add: eats_def)

lemma eats_char:
  "handle_char V c p = Some (Inr (), q) \<Longrightarrow> hp_state q \<noteq> kBody \<Longrightarrow> eats V p [c] q"
  by (simp add: eats_def)

text \<open>Characters that the state only puts in the buffer.\<close>

lemma eats_run:
  assumes "hp_state p \<noteq> kBody"
    and "\<And>c n. c \<in> set cs \<Longrightarrow> n < length (hp_buffer p) + length cs \<Longrightarrow>
      handle_char_in V c n (hp_state p) = hp_put c"
  shows "eats V p cs (p\<lparr>hp_buffer := hp_buffer p @ cs\<rparr>)"
  using assms
proof (induction cs arbitrary: p)
  case Nil
  then show ?case by (simp add: eats_Nil)
next
  case (Cons c cs)
  let ?q = "p\<lparr>hp_buffer := hp_buffer p @ [c]\<rparr>"
  have "handle_char V c p = Some (Inr (), ?q)"
    using Cons.prems(2) [of c "length (hp_buffer p)"]
    by (simp add: handle_char_def run mb_size_def hp_put_def)
  then have first: "eats V p [c] ?q" using Cons.prems(1) by (intro eats_char) simp_all
  have "eats V ?q cs (?q\<lparr>hp_buffer := hp_buffer ?q @ cs\<rparr>)"
    by (rule Cons.IH) (use Cons.prems in auto)
  with first show ?case using eats_trans [OF first] by fastforce
qed

lemma eats_run_to:
  assumes "hp_state p \<noteq> kBody" and "hp_buffer p @ cs = b"
    and "\<And>c n. c \<in> set cs \<Longrightarrow> n < length b \<Longrightarrow> handle_char_in V c n (hp_state p) = hp_put c"
  shows "eats V p cs (p\<lparr>hp_buffer := b\<rparr>)"
  using eats_run [of p cs V] assms by auto

section \<open>Headers\<close>

definition crlf :: bytes where "crlf = [CR, LF]"

definition header_line :: "HttpHeader \<Rightarrow> bytes" where
  "header_line h = bytes_of_string (h_name h) @ [COLON, SP] @ bytes_of_string (h_value h) @ crlf"

text \<open>The virtual \<open>add_header\<close> stores the name that was kept and the value in the buffer.\<close>

definition adds_header :: "'r http_virtuals \<Rightarrow> (HttpHeader \<Rightarrow> 'r \<Rightarrow> 'r) \<Rightarrow> bool" where
  "adds_header V add \<longleftrightarrow> (\<forall>p. v_add_header V p = Some (Inr (), p\<lparr>target :=
     add \<lparr>h_name = hp_name p, h_value = mb_tostring (hp_buffer p)\<rparr> (target p)\<rparr>))"

lemma header_eta: "\<lparr>h_name = h_name h, h_value = h_value h\<rparr> = h"
  by simp

lemma string_of_bytes_eq: "string_of_bytes b = s \<longleftrightarrow> b = bytes_of_string s"
  by (metis bytes_of_string_of_bytes string_of_bytes_of_string)

lemma colon_cr_not_token: "\<not> is_token_character COLON" "\<not> is_token_character CR"
  by (simp_all add: is_token_character_def is_separator_def is_cntrl_def http_chars in_cstring_def
      byte_of_char_def)

lemma eats_header_line:
  assumes V: "adds_header V add" and st: "hp_state p = kHeaderStart" and h: "wf_header h"
  shows "eats V p (header_line h)
    (p\<lparr>hp_name := h_name h, hp_buffer := bytes_of_string (h_value h), target := add h (target p)\<rparr>)"
proof -
  obtain n ns where n: "bytes_of_string (h_name h) = n # ns"
    using h by (cases "bytes_of_string (h_name h)") (auto simp: wf_header_def wf_name_def)
  obtain v vs where v: "bytes_of_string (h_value h) = v # vs"
    using h by (cases "bytes_of_string (h_value h)") (auto simp: wf_header_def wf_value_def)
  have lens: "length (n # ns) \<le> 128" "length (v # vs) \<le> 1024"
    using h n v length_bytes_of_string [of "h_name h"] length_bytes_of_string [of "h_value h"]
    by (simp_all add: wf_header_def wf_name_def wf_value_def http_limits)
  have toks: "\<forall>c \<in> set (n # ns). is_token_character c"
    using h n by (simp add: wf_header_def wf_name_def)
  have vals: "v \<noteq> SP" "CR \<notin> set (v # vs)" using h v by (simp_all add: wf_header_def wf_value_def)
  have ncr: "n \<noteq> CR" using toks colon_cr_not_token by auto
  note step = handle_char_def run mb_size_def mb_tostring_def st ncr vals colon_cr_not_token
    http_limits
  have "eats V p [n] (p\<lparr>hp_state := kHeaderName, hp_buffer := [n]\<rparr>)" (is "eats V p _ ?p1")
    by (rule eats_char) (use toks in \<open>auto simp: step parser_defs\<close>)
  also have "eats V ?p1 ns (?p1\<lparr>hp_buffer := n # ns\<rparr>)" (is "eats V _ _ ?p2")
    by (rule eats_run_to) (use toks lens in \<open>auto simp: step parser_defs\<close>)
  also have "eats V ?p2 [COLON] (?p2\<lparr>hp_state := kHeaderSpaces, hp_name := h_name h\<rparr>)" (is "eats V _ _ ?p3")
    by (rule eats_char) (auto simp: step parser_defs n [symmetric])
  also have "eats V ?p3 [SP] ?p3"
    by (rule eats_char) (auto simp: step parser_defs)
  also have "eats V ?p3 [v] (?p3\<lparr>hp_state := kHeaderValue, hp_buffer := [v]\<rparr>)" (is "eats V _ _ ?p4")
    by (rule eats_char) (use vals in \<open>auto simp: step parser_defs\<close>)
  also have "eats V ?p4 vs (?p4\<lparr>hp_buffer := v # vs\<rparr>)" (is "eats V _ _ ?p5")
    by (rule eats_run_to) (use vals lens in \<open>auto simp: step parser_defs\<close>)
  also have "eats V ?p5 [CR] (?p5\<lparr>target := add h (target p), hp_state := kHeaderLF\<rparr>)" (is "eats V _ _ ?p6")
    by (rule eats_char) (use V in \<open>auto simp: step parser_defs adds_header_def v [symmetric] header_eta\<close>)
  also have "eats V ?p6 [LF] (?p6\<lparr>hp_state := kHeaderStart\<rparr>)" (is "eats V _ _ ?p7")
    by (rule eats_char) (auto simp: step parser_defs)
  finally show ?thesis
    using st by (cases p) (simp add: header_line_def n v crlf_def)
qed

lemma eats_headers:
  assumes "adds_header V add" and "hp_state p = kHeaderStart" and "list_all wf_header hs"
  shows "\<exists>q. eats V p (concat (map header_line hs)) q \<and> hp_state q = kHeaderStart
     \<and> target q = fold add hs (target p)"
  using assms(2,3)
proof (induction hs arbitrary: p)
  case Nil
  then show ?case using eats_Nil by auto
next
  case (Cons h hs)
  let ?p = "p\<lparr>hp_name := h_name h, hp_buffer := bytes_of_string (h_value h), target := add h (target p)\<rparr>"
  have "hp_state ?p = kHeaderStart" "list_all wf_header hs" using Cons.prems by simp_all
  from Cons.IH [OF this] obtain q where q: "eats V ?p (concat (map header_line hs)) q"
    "hp_state q = kHeaderStart" "target q = fold add hs (target ?p)" by blast
  have "eats V p (header_line h) ?p" using Cons.prems by (intro eats_header_line [OF assms(1)]) simp_all
  from eats_trans [OF this q(1)] q(2,3) show ?case by auto
qed

lemma parse_end:
  assumes "hp_state p = kHeaderStart"
  shows "parse_bytes V (crlf @ ds) p = Some (Inr (), p\<lparr>hp_state := kBody\<rparr>, ds)"
  using assms by (simp add: crlf_def parser_defs run http_chars)

section \<open>Requests are read back\<close>

definition request_text :: "Request \<Rightarrow> bytes" where
  "request_text r = bytes_of_string ''GET '' @ bytes_of_string (rq_uri r)
     @ bytes_of_string '' HTTP/1.1'' @ crlf @ concat (map header_line (rq_headers r)) @ crlf"

definition put_header :: "HttpHeader \<Rightarrow> Request \<Rightarrow> Request" where
  "put_header h r = rq_add_header (h_name h) (h_value h) r"

lemma fold_put_header: "fold put_header hs r = r\<lparr>rq_headers := rq_headers r @ hs\<rparr>"
  by (induction hs arbitrary: r) (auto simp: put_header_def rq_add_header_def)

lemma RequestParser_adds: "adds_header RequestParser put_header"
  by (simp add: adds_header_def RequestParser_def rqp_add_header_def run hp_value_def on_target_def
      put_header_def)

lemma eats_request_line:
  assumes st: "hp_state p = kRequestMethod" "hp_buffer p = []" and u: "wf_uri (rq_uri r)"
  shows "\<exists>q. eats RequestParser p (bytes_of_string ''GET '' @ bytes_of_string (rq_uri r)
     @ bytes_of_string '' HTTP/1.1'' @ crlf) q \<and> hp_state q = kHeaderStart
     \<and> target q = (target p)\<lparr>rq_method := kGetMethod, rq_uri := rq_uri r\<rparr>"
proof -
  obtain c cs where c: "bytes_of_string (rq_uri r) = c # cs"
    using u by (cases "bytes_of_string (rq_uri r)") (auto simp: wf_uri_def)
  have len: "length (c # cs) \<le> 2048" and sp: "SP \<notin> set (c # cs)"
    using u c length_bytes_of_string [of "rq_uri r"] by (simp_all add: wf_uri_def http_limits)
  have uri: "string_of_bytes (c # cs) = rq_uri r" by (simp only: c [symmetric]) simp
  have get: "bytes_of_string ''GET '' = [71, 69, 84] @ [SP]"
    "bytes_of_string '' HTTP/1.1'' = [SP] @ [72] @ [84, 84, 80, 47, 49, 46, 49]"
    by (simp_all add: byte_of_char_def SP_def)
  let ?V = RequestParser
  note step = handle_char_def run mb_size_def mb_tostring_def st http_limits RequestParser_def
  have "eats ?V p [71, 69, 84] (p\<lparr>hp_buffer := [71, 69, 84]\<rparr>)" (is "eats _ _ _ ?p1")
    by (rule eats_run_to) (use st in \<open>auto simp: step parser_defs SP_def is_upper_def\<close>)
  also have "eats ?V ?p1 [SP] (?p1\<lparr>hp_state := kRequestMethodSpaces,
      target := (target p)\<lparr>rq_method := kGetMethod\<rparr>\<rparr>)" (is "eats _ _ _ ?p2")
    by (rule eats_char) (auto simp: step parser_defs rqp_set_method_def rq_set_method_def
      string_of_bytes_eq byte_of_char_def simp del: string_of_bytes_simps)
  also have "eats ?V ?p2 [c] (?p2\<lparr>hp_state := kRequestUri, hp_buffer := [c]\<rparr>)" (is "eats _ _ _ ?p3")
    by (rule eats_char) (use sp in \<open>auto simp: step parser_defs\<close>)
  also have "eats ?V ?p3 cs (?p3\<lparr>hp_buffer := c # cs\<rparr>)" (is "eats _ _ _ ?p4")
    by (rule eats_run_to) (use sp len in \<open>auto simp: step parser_defs\<close>)
  also have "eats ?V ?p4 [SP] (?p4\<lparr>hp_state := kRequestUriSpaces,
      target := (target p)\<lparr>rq_method := kGetMethod, rq_uri := rq_uri r\<rparr>\<rparr>)" (is "eats _ _ _ ?p5")
    by (rule eats_char)
      (use len uri in \<open>auto simp: step parser_defs rqp_set_uri_def rq_set_uri_def\<close>)
  also have "eats ?V ?p5 [72] (?p5\<lparr>hp_state := kRequestVersion, hp_buffer := [72]\<rparr>)" (is "eats _ _ _ ?p6")
    by (rule eats_char) (auto simp: step parser_defs SP_def)
  also have "eats ?V ?p6 [84, 84, 80, 47, 49, 46, 49] (?p6\<lparr>hp_buffer := [72, 84, 84, 80, 47, 49, 46, 49]\<rparr>)"
    (is "eats _ _ _ ?p7")
    by (rule eats_run_to)
      (auto simp: step parser_defs is_valid_version_char_def in_cstring_def byte_of_char_def CR_def)
  also have "eats ?V ?p7 [CR] (?p7\<lparr>hp_state := kRequestLineLF\<rparr>)" (is "eats _ _ _ ?p8")
    by (rule eats_char) (auto simp: step parser_defs rqp_set_version_def string_of_bytes_eq byte_of_char_def
      simp del: string_of_bytes_simps)
  also have "eats ?V ?p8 [LF] (?p8\<lparr>hp_state := kHeaderStart\<rparr>)" (is "eats _ _ _ ?p9")
    by (rule eats_char) (auto simp: step parser_defs)
  finally have "eats ?V p (bytes_of_string ''GET '' @ (c # cs) @ bytes_of_string '' HTTP/1.1'' @ crlf) ?p9"
    unfolding get crlf_def by simp
  then show ?thesis by (intro exI [where x = ?p9]) (simp add: c)
qed

lemma parse_request_text:
  assumes st: "hp_state p = kRequestMethod" "hp_buffer p = []" and r: "wf_request r"
  shows "\<exists>q. parse_bytes RequestParser (request_text r @ ds) p = Some (Inr (), q, ds)
     \<and> hp_state q = kBody
     \<and> target q = \<lparr>rq_method = kGetMethod, rq_uri = rq_uri r, rq_headers = rq_headers (target p) @ rq_headers r\<rparr>"
proof -
  have r': "wf_uri (rq_uri r)" "list_all wf_header (rq_headers r)" using r by (simp_all add: wf_request_def)
  obtain q1 where q1: "eats RequestParser p (bytes_of_string ''GET '' @ bytes_of_string (rq_uri r)
     @ bytes_of_string '' HTTP/1.1'' @ crlf) q1" "hp_state q1 = kHeaderStart"
     "target q1 = (target p)\<lparr>rq_method := kGetMethod, rq_uri := rq_uri r\<rparr>"
    using eats_request_line [OF st r'(1)] by blast
  obtain q2 where q2: "eats RequestParser q1 (concat (map header_line (rq_headers r))) q2"
     "hp_state q2 = kHeaderStart" "target q2 = fold put_header (rq_headers r) (target q1)"
    using eats_headers [OF RequestParser_adds q1(2) r'(2)] by blast
  have "parse_bytes RequestParser (request_text r @ ds) p = parse_bytes RequestParser (crlf @ ds) q2"
    using eats_trans [OF q1(1) q2(1)] by (simp add: eats_def request_text_def del: bytes_of_string_simps)
  then show ?thesis
    using q1(3) q2(2,3) by (simp add: parse_end fold_put_header)
qed

section \<open>Responses are read back\<close>

definition wf_reason :: "string \<Rightarrow> bool" where
  "wf_reason u \<longleftrightarrow> u \<noteq> [] \<and> length u \<le> 128 \<and> hd (bytes_of_string u) \<noteq> SP
     \<and> CR \<notin> set (bytes_of_string u)"

definition wf_response :: "Response \<Rightarrow> bool" where
  "wf_response r \<longleftrightarrow> 100 \<le> rs_code r \<and> rs_code r < 600 \<and> list_all wf_header (rs_headers r)"

definition response_text :: "string \<Rightarrow> Response \<Rightarrow> bytes" where
  "response_text reason r = bytes_of_string ''HTTP/1.1 '' @ bytes_of_string (to_decimal (nat (rs_code r)))
     @ [SP] @ bytes_of_string reason @ crlf @ concat (map header_line (rs_headers r)) @ crlf"

definition put_rs_header :: "HttpHeader \<Rightarrow> Response \<Rightarrow> Response" where
  "put_rs_header h r = rs_add_header (h_name h) (h_value h) r"

lemma fold_put_rs_header: "fold put_rs_header hs r = r\<lparr>rs_headers := rs_headers r @ hs\<rparr>"
  by (induction hs arbitrary: r) (auto simp: put_rs_header_def rs_add_header_def)

lemma ResponseParser_adds: "adds_header ResponseParser put_rs_header"
  by (simp add: adds_header_def ResponseParser_def rsp_add_header_def run hp_value_def on_target_def
      put_rs_header_def)

lemma three_digits:
  assumes "100 \<le> n" and "n < 1000"
  shows "length (to_decimal n) = 3"
proof -
  have "\<not> n < 10" "\<not> n div 10 < 10" "n div 10 div 10 < 10" using assms by auto
  then show ?thesis by (simp add: to_decimal.simps [of n] to_decimal.simps [of "n div 10"]
      to_decimal.simps [of "n div 10 div 10"])
qed

lemma eats_status_line:
  assumes st: "hp_state p = kResponseVersion" "hp_buffer p = []"
    and code: "100 \<le> rs_code r" "rs_code r < 600" and reason: "wf_reason reason"
  shows "\<exists>q. eats ResponseParser p (bytes_of_string ''HTTP/1.1 ''
     @ bytes_of_string (to_decimal (nat (rs_code r))) @ [SP] @ bytes_of_string reason @ crlf) q
     \<and> hp_state q = kHeaderStart \<and> target q = (target p)\<lparr>rs_code := rs_code r\<rparr>"
proof -
  let ?ds = "bytes_of_string (to_decimal (nat (rs_code r)))"
  have len: "length ?ds = 3" using code by (simp add: three_digits)
  obtain c cs where c: "?ds = c # cs" using len by (cases ?ds) auto
  have dig: "\<forall>d \<in> set (c # cs). is_digit d" and sp: "SP \<notin> set (c # cs)" 
    using to_decimal_digits [of "nat (rs_code r)"] c by (auto simp: is_digit_def SP_def)
  have "0 \<notin> set ?ds" using to_decimal_digits by blast
  then have "c_bytes ?ds = ?ds" by (rule c_bytes_id)
  then have val: "strtol (c_bytes (c # cs)) = (rs_code r, [])"
    using code strtol_to_decimal [of "nat (rs_code r)"] by (simp add: c [symmetric])
  obtain v vs where v: "bytes_of_string reason = v # vs"
    using reason by (cases "bytes_of_string reason") (auto simp: wf_reason_def)
  have rl: "length (v # vs) \<le> 128" "v \<noteq> SP" "CR \<notin> set (v # vs)"
    using reason v length_bytes_of_string [of reason] by (simp_all add: wf_reason_def)
  have get: "bytes_of_string ''HTTP/1.1 '' = [72, 84, 84, 80, 47, 49, 46, 49] @ [SP]"
    by (simp_all add: byte_of_char_def SP_def)
  let ?V = ResponseParser
  note step = handle_char_def run mb_size_def mb_tostring_def st http_limits ResponseParser_def
  have "eats ?V p [72, 84, 84, 80, 47, 49, 46, 49] (p\<lparr>hp_buffer := [72, 84, 84, 80, 47, 49, 46, 49]\<rparr>)"
    (is "eats _ _ _ ?p1")
    by (rule eats_run_to) (use st in \<open>auto simp: step parser_defs SP_def\<close>)
  also have "eats ?V ?p1 [SP] (?p1\<lparr>hp_state := kResponseVersionSpaces\<rparr>)" (is "eats _ _ _ ?p2")
    by (rule eats_char)
      (auto simp: step parser_defs rsp_set_version_def string_of_bytes_eq byte_of_char_def
        simp del: string_of_bytes_simps)
  also have "eats ?V ?p2 [c] (?p2\<lparr>hp_state := kResponseCode, hp_buffer := [c]\<rparr>)" (is "eats _ _ _ ?p3")
    by (rule eats_char) (use sp in \<open>auto simp: step parser_defs\<close>)
  also have "eats ?V ?p3 cs (?p3\<lparr>hp_buffer := c # cs\<rparr>)" (is "eats _ _ _ ?p4")
    by (rule eats_run_to) (use sp dig len c in \<open>auto simp: step parser_defs\<close>)
  also have "eats ?V ?p4 [SP] (?p4\<lparr>target := (target p)\<lparr>rs_code := rs_code r\<rparr>,
      hp_state := kResponseCodeSpaces\<rparr>)" (is "eats _ _ _ ?p5")
    by (rule eats_char)
      (use len c val code in \<open>auto simp: step parser_defs rsp_set_code_def rs_set_code_def Let_def
        simp del: string_of_bytes_simps\<close>)
  also have "eats ?V ?p5 [v] (?p5\<lparr>hp_state := kResponseReason, hp_buffer := [v]\<rparr>)" (is "eats _ _ _ ?p6")
    by (rule eats_char) (use rl in \<open>auto simp: step parser_defs\<close>)
  also have "eats ?V ?p6 vs (?p6\<lparr>hp_buffer := v # vs\<rparr>)" (is "eats _ _ _ ?p7")
    by (rule eats_run_to) (use rl in \<open>auto simp: step parser_defs\<close>)
  also have "eats ?V ?p7 [CR] (?p7\<lparr>hp_state := kResponseReasonLF\<rparr>)" (is "eats _ _ _ ?p8")
    by (rule eats_char) (use rl in \<open>auto simp: step parser_defs rsp_set_reason_def\<close>)
  also have "eats ?V ?p8 [LF] (?p8\<lparr>hp_state := kHeaderStart\<rparr>)" (is "eats _ _ _ ?p9")
    by (rule eats_char) (auto simp: step parser_defs)
  finally have "eats ?V p (bytes_of_string ''HTTP/1.1 '' @ (c # cs) @ [SP] @ (v # vs) @ crlf) ?p9"
    unfolding get crlf_def by simp
  then show ?thesis by (intro exI [where x = ?p9]) (simp add: c v)
qed

lemma parse_response_text:
  assumes st: "hp_state p = kResponseVersion" "hp_buffer p = []" and r: "wf_response r" "wf_reason reason"
  shows "\<exists>q. parse_bytes ResponseParser (response_text reason r @ ds) p = Some (Inr (), q, ds)
     \<and> hp_state q = kBody
     \<and> target q = \<lparr>rs_code = rs_code r, rs_headers = rs_headers (target p) @ rs_headers r\<rparr>"
proof -
  have r': "100 \<le> rs_code r" "rs_code r < 600" "list_all wf_header (rs_headers r)"
    using r by (simp_all add: wf_response_def)
  obtain q1 where q1: "eats ResponseParser p (bytes_of_string ''HTTP/1.1 ''
     @ bytes_of_string (to_decimal (nat (rs_code r))) @ [SP] @ bytes_of_string reason @ crlf) q1"
     "hp_state q1 = kHeaderStart" "target q1 = (target p)\<lparr>rs_code := rs_code r\<rparr>"
    using eats_status_line [OF st r'(1,2) r(2)] by blast
  obtain q2 where q2: "eats ResponseParser q1 (concat (map header_line (rs_headers r))) q2"
     "hp_state q2 = kHeaderStart" "target q2 = fold put_rs_header (rs_headers r) (target q1)"
    using eats_headers [OF ResponseParser_adds q1(2) r'(3)] by blast
  have "parse_bytes ResponseParser (response_text reason r @ ds) p = parse_bytes ResponseParser (crlf @ ds) q2"
    using eats_trans [OF q1(1) q2(1)] by (simp add: eats_def response_text_def del: bytes_of_string_simps)
  then show ?thesis
    using q1(3) q2(2,3) by (simp add: parse_end fold_put_rs_header)
qed

end
