(* ===== verification/Base64_Spec.thy ===== *)
theory Base64_Spec
  imports Util
begin

text \<open>
  base64 as RFC 4648 describes it: groups of three bytes are read as one number and its four
  digits to the base 64 are printed. A decoder that follows the RFC takes what
  \<open>encode_base64\<close> prints back to the bytes, and the text has the shape that
  \<open>is_base64_string\<close> accepts.
\<close>

section \<open>The decoder\<close>

fun position :: "'a \<Rightarrow> 'a list \<Rightarrow> nat" where
  "position x [] = 0"
| "position x (y # ys) = (if x = y then 0 else Suc (position x ys))"

definition sextet :: "char \<Rightarrow> nat" where
  "sextet c = position c base64_table"

definition group_value :: "char \<Rightarrow> char \<Rightarrow> char \<Rightarrow> char \<Rightarrow> nat" where
  "group_value a b c d = ((sextet a * 64 + sextet b) * 64 + sextet c) * 64 + sextet d"

fun decode_base64 :: "string \<Rightarrow> bytes" where
  "decode_base64 (a # b # c # d # s) =
     (if c = CHR ''='' then [of_nat (group_value a b CHR ''A'' CHR ''A'' div 65536)]
      else if d = CHR ''='' then
        (let n = group_value a b c CHR ''A'' in [of_nat (n div 65536), of_nat (n div 256 mod 256)])
      else (let n = group_value a b c d
            in [of_nat (n div 65536), of_nat (n div 256 mod 256), of_nat (n mod 256)] @ decode_base64 s))"
| "decode_base64 _ = []"

section \<open>Digits\<close>

lemma position_nth: "distinct xs \<Longrightarrow> i < length xs \<Longrightarrow> position (xs ! i) xs = i"
proof (induction xs arbitrary: i)
  case (Cons x xs)
  then show ?case by (cases i) (auto simp: nth_mem)
qed simp

lemma length_table [simp]: "length base64_table = 64"
  by (simp add: base64_table_def)

lemma distinct_table: "distinct base64_table"
  by (simp add: base64_table_def)

lemma sextet_nth [simp]: "i < 64 \<Longrightarrow> sextet (base64_table ! i) = i"
  by (simp add: sextet_def position_nth distinct_table)

lemma table_no_pad: "CHR ''='' \<notin> set base64_table"
  by (simp add: base64_table_def)

lemma base64_char_nth: "base64_char p = base64_table ! (unat p mod 64)"
proof -
  have "unat (p AND 0x3F) = unat p mod 64"
  proof -
    have "(0x3F :: u32) = mask 6" by (simp add: mask_eq_exp_minus_1)
    then have "unat (p AND 0x3F) = unat (take_bit 6 p)" by (simp only: take_bit_eq_mask)
    then show ?thesis by (simp add: unsigned_take_bit_eq) (simp add: take_bit_eq_mod)
  qed
  then show ?thesis by (simp add: base64_char_def)
qed

lemma base64_char_in_table [simp]: "base64_char p \<in> set base64_table"
  by (simp add: base64_char_nth nth_mem)

lemma base64_char_not_pad [simp]: "base64_char p \<noteq> CHR ''=''"
  using base64_char_in_table table_no_pad by metis

lemma unat_drop_bit: "unat (drop_bit k p) = unat p div 2 ^ k" for p :: u32
proof -
  have "unat p < 2 ^ 32" using unsigned_less [of p] by simp
  then have "take_bit 32 (unat p) = unat p" by (rule take_bit_nat_eq_self)
  then show ?thesis by (simp only: unsigned_drop_bit_eq) (simp add: drop_bit_eq_div)
qed

lemma sextet_base64_char: "sextet (base64_char (drop_bit k p)) = unat p div 2 ^ k mod 64"
  by (simp only: base64_char_nth unat_drop_bit) simp

lemma sextet_base64_char_0: "sextet (base64_char p) = unat p mod 64"
  by (simp add: base64_char_nth)

lemma sextet_A: "sextet CHR ''A'' = 0"
  by (simp add: sextet_def base64_table_def)

lemma digits_64:
  fixes n :: nat
  assumes "n < 64 ^ 4"
  shows "((n div 2 ^ 18 mod 64 * 64 + n div 2 ^ 12 mod 64) * 64 + n div 2 ^ 6 mod 64) * 64 + n mod 64 = n"
proof -
  have "n div 2 ^ 18 mod 64 = n div 2 ^ 18" using assms by (simp add: div_less_iff_less_mult)
  moreover have "n div 2 ^ 12 = (n div 2 ^ 6) div 64" "n div 2 ^ 18 = (n div 2 ^ 12) div 64" "n div 2 ^ 6 = n div 64"
    by (simp_all add: div_mult2_eq [symmetric])
  ultimately show ?thesis by (simp only: div_mult_mod_eq)
qed

text \<open>The number made of the bytes of a group.\<close>

lemma unat_group:
  fixes a b c :: u8
  shows "unat (push_bit 16 (ucast a) + push_bit 8 (ucast b) + ucast c :: u32)
     = unat a * 65536 + unat b * 256 + unat c"
proof -
  have lt: "unat a < 256" "unat b < 256" "unat c < 256" using unsigned_less [of a]
      unsigned_less [of b] unsigned_less [of c] by simp_all
  have 1: "unat (push_bit 16 (ucast a) :: u32) = unat a * 65536"
    using lt by (simp add: push_bit_eq_mult unat_word_ariths unsigned_ucast_eq take_bit_nat_eq_self)
  have 2: "unat (push_bit 8 (ucast b) :: u32) = unat b * 256"
    using lt by (simp add: push_bit_eq_mult unat_word_ariths unsigned_ucast_eq take_bit_nat_eq_self)
  have 3: "unat (ucast c :: u32) = unat c"
    using lt by (simp add: unsigned_ucast_eq take_bit_nat_eq_self)
  show ?thesis using lt by (simp add: unat_word_ariths 1 2 3)
qed

section \<open>Decoding takes the text back\<close>

lemma group_bytes:
  fixes a b c :: u8
  defines "n \<equiv> unat a * 65536 + unat b * 256 + unat c"
  shows "n < 64 ^ 4" and "of_nat (n div 65536) = a" and "of_nat (n div 256 mod 256) = b"
    and "of_nat (n mod 256) = c"
proof -
  have lt: "unat a < 256" "unat b < 256" "unat c < 256" using unsigned_less [of a]
      unsigned_less [of b] unsigned_less [of c] by simp_all
  then show "n < 64 ^ 4" by (simp add: n_def)
  have n: "n = (unat a * 256 + unat b) * 256 + unat c" by (simp add: n_def)
  have "n div 65536 = unat a" using lt by (simp add: n_def)
  moreover have "n div 256 = unat a * 256 + unat b" "n mod 256 = unat c"
    unfolding n using lt by (simp_all only: div_mult_self3 mod_mult_self3) simp_all
  ultimately have "n div 65536 = unat a" "n div 256 mod 256 = unat b" "n mod 256 = unat c"
    using lt by simp_all
  then show "of_nat (n div 65536) = a" "of_nat (n div 256 mod 256) = b" "of_nat (n mod 256) = c"
    by simp_all
qed

lemma decode_group:
  fixes a b c :: u8
  defines "p \<equiv> push_bit 16 (ucast a) + push_bit 8 (ucast b) + ucast c :: u32"
  shows "group_value (base64_char (drop_bit 18 p)) (base64_char (drop_bit 12 p))
     (base64_char (drop_bit 6 p)) (base64_char p) = unat a * 65536 + unat b * 256 + unat c"
  unfolding group_value_def sextet_base64_char
  unfolding sextet_base64_char_0 p_def unat_group
  by (rule digits_64) (use group_bytes(1) in simp)

text \<open>The last digits of a group that has no third byte are zero.\<close>

lemma decode_group_2:
  fixes a b :: u8
  defines "p \<equiv> push_bit 16 (ucast a) + push_bit 8 (ucast b) :: u32"
  shows "group_value (base64_char (drop_bit 18 p)) (base64_char (drop_bit 12 p))
     (base64_char (drop_bit 6 p)) CHR ''A'' = unat a * 65536 + unat b * 256"
proof -
  have "base64_char p = CHR ''A''"
    using unat_group [of a b 0] by (simp add: base64_char_nth p_def base64_table_def)
  then show ?thesis using decode_group [of a b 0] by (simp add: p_def)
qed

lemma decode_group_1:
  fixes a :: u8
  defines "p \<equiv> push_bit 16 (ucast a) :: u32"
  shows "group_value (base64_char (drop_bit 18 p)) (base64_char (drop_bit 12 p)) CHR ''A'' CHR ''A''
     = unat a * 65536"
proof -
  have "unat p = unat a * 65536" using unat_group [of a 0 0] by (simp add: p_def)
  then have "unat (drop_bit 6 p) mod 64 = 0"
    by (simp only: unat_drop_bit) simp
  then have "base64_char (drop_bit 6 p) = CHR ''A''"
    by (simp add: base64_char_nth base64_table_def)
  then show ?thesis using decode_group_2 [of a 0] by (simp add: p_def)
qed

lemma decode_encode: "decode_base64 (encode_base64 bs) = bs"
proof (induction bs rule: encode_base64.induct)
  case (2 a)
  then show ?case using group_bytes [of a 0 0] by (simp add: Let_def decode_group_1)
next
  case (3 a b)
  then show ?case using group_bytes [of a b 0] by (simp add: Let_def decode_group_2)
next
  case (4 a b c data)
  then show ?case using group_bytes [of a b c] by (simp add: Let_def decode_group)
qed simp

section \<open>The shape of the text\<close>

lemma length_encode: "length (encode_base64 bs) = 4 * ((length bs + 2) div 3)"
proof (induction bs rule: encode_base64.induct)
  case (4 a b c data)
  have "(length (a # b # c # data) + 2) div 3 = Suc ((length data + 2) div 3)" by simp
  then show ?case using 4 by (simp add: Let_def)
qed (simp_all add: Let_def)

lemma encode_chars: "set (encode_base64 bs) \<subseteq> insert CHR ''='' (set base64_table)"
  by (induction bs rule: encode_base64.induct) (auto simp: Let_def)

text \<open>One byte over a multiple of three: two padding characters.\<close>

lemma encode_pad_2:
  assumes "length bs mod 3 = 1"
  shows "\<exists>body. encode_base64 bs = body @ ''=='' \<and> body \<noteq> [] \<and> set body \<subseteq> set base64_table"
  using assms
proof (induction bs rule: encode_base64.induct)
  case (2 a)
  then show ?case by (auto simp: Let_def intro!: exI [where x = "[_, _]"])
next
  case (4 a b c data)
  have "length data mod 3 = 1" using "4.prems" by simp
  then obtain body where "encode_base64 data = body @ ''=='' \<and> body \<noteq> [] \<and> set body \<subseteq> set base64_table"
    using "4.IH" by blast
  then show ?case by (auto simp: Let_def intro!: exI [where x = "_ # _ # _ # _ # body"])
qed auto

lemma is_base64_stringI:
  assumes "s = body @ pad" and "body \<noteq> []" and "set body \<subseteq> set base64_table"
    and "length pad \<le> 2" and "set pad \<subseteq> {CHR ''=''}"
  shows "is_base64_string s"
proof -
  have "takeWhile (\<lambda>c. c \<in> set base64_table) s = body" "dropWhile (\<lambda>c. c \<in> set base64_table) s = pad"
    using assms table_no_pad by (cases pad, auto simp: takeWhile_append dropWhile_append)+
  then show ?thesis using assms by (auto simp: is_base64_string_def list_all_iff)
qed

end
