(* ===== verification/Handshake_Spec.thy ===== *)
theory Handshake_Spec
  imports Small_Kernel Http_Spec Base64_Spec
begin

text \<open>
  The opening handshake on a socket that keeps its contract. The server answers exactly the
  requests that pass the checks, and sends nothing before that; the client's request passes
  them, and the client takes exactly the answer that proves its key was read.
\<close>

section \<open>The server\<close>

lemma wp_with_parser:
  "wp T (with_parser m) Q X (p, s) = wp T m (\<lambda>x r. Q x (fst r, s\<lparr>world := snd r\<rparr>))
     (\<lambda>e r. X e (fst r, s\<lparr>world := snd r\<rparr>)) (p, world s)"
  by (simp add: with_parser_def wp_zoom split_def)

lemma wp_on_websocket:
  "wp T (on_websocket m) Q X (p, s) = wp T m (\<lambda>x t. Q x (p, t)) (\<lambda>e t. X e (p, t)) s"
  by (simp add: on_websocket_def wp_zoom)

lemma wp_throw_left:
  "wp T (throw_left r) Q X s = (case r of Inl e \<Rightarrow> X e s | Inr x \<Rightarrow> Q x s)"
  by (simp add: throw_left_def wp_rules split: sum.split)

text \<open>What the server does with the request it read: the exception, or what it sends.\<close>

definition server_reply :: "Request \<Rightarrow> exn + bytes" where
  "server_reply r = (case rq_assert_websocket r of Inl e \<Rightarrow> Inl e
     | Inr _ \<Rightarrow> Inr (make_http_response [] (make_accept_string (snd (rq_get_header_value ''Sec-WebSocket-Key'' r)))))"

definition request_start :: "Request HttpParser" where
  "request_start = (new_HttpParser new_Request)\<lparr>hp_state := kRequestMethod, hp_buffer := []\<rparr>"

definition response_start :: "Response HttpParser" where
  "response_start = (new_HttpParser new_Response)\<lparr>hp_state := kResponseVersion, hp_buffer := []\<rparr>"

definition server_outcome :: "bytes \<Rightarrow> (exn + bytes) \<times> bytes" where
  "server_outcome cs = (case parse_bytes RequestParser cs request_start of
       Some (Inr _, q, ds) \<Rightarrow> (server_reply (target q), ds)
     | Some (Inl e, q, ds) \<Rightarrow> (Inl e, ds)
     | None \<Rightarrow> (Inl (RuntimeError []), cs))"

definition answered :: "('w \<Rightarrow> connection) \<Rightarrow> ('w \<Rightarrow> int) \<Rightarrow> ('w \<Rightarrow> bool) \<Rightarrow> 'w \<Rightarrow> bytes \<Rightarrow> bytes \<Rightarrow> 'w \<Rightarrow> bool" where
  "answered conn ticks valid w ds out w' \<longleftrightarrow> valid w'
     \<and> step_to conn ticks w ((conn w)\<lparr>inbox := ds, outbox := outbox (conn w) @ out\<rparr>) w'"

lemma length_c_str: "length (c_str s) \<le> length s"
  by (simp add: c_str_def length_takeWhile_le)

lemma length_http_response: "length (make_http_response [] a) < 1000 + length a"
proof -
  have "length (make_http_response [] a) \<le> length (''HTTP/1.1 101 Switching Protocols'' @ http_eol @
       ''Upgrade: websocket'' @ http_eol @ ''Connection: Upgrade'' @ http_eol @
       ''Sec-WebSocket-Accept: '' @ c_str a @ http_eol @ http_eol)"
    unfolding make_http_response_def mb_vprintf_def append_Nil length_bytes_of_string by (rule length_c_str)
  also have "\<dots> < 1000 + length a" using length_c_str [of a] by (simp add: http_eol_def)
  finally show ?thesis .
qed

lemma make_accept_length: "length (make_accept_string k) \<le> 28"
  by (simp add: make_accept_string_def length_encode Let_def)

context websocket
begin

lemma upgrade_connection_wp:
  assumes "valid (world s)" and "up (conn (world s))"
    and post: "\<And>w'. produced conn ticks valid (world s)
        (make_http_response [] (make_accept_string (snd (rq_get_header_value ''Sec-WebSocket-Key'' r)))) w' \<Longrightarrow>
      Q () (s\<lparr>world := w'\<rparr>)"
  shows "wp False (upgrade_connection E r) Q X s"
  unfolding upgrade_connection_def Let_def split_def wp_rules
  by (rule socket_send_wp)
    (use assms length_http_response [of "make_accept_string (snd (rq_get_header_value ''Sec-WebSocket-Key'' r))"]
       make_accept_length [of "snd (rq_get_header_value ''Sec-WebSocket-Key'' r)"] in \<open>auto simp: wp_rules\<close>)

lemma handshake_server_wp:
  assumes "valid (world s)" and "up (conn (world s))"
    and out: "server_outcome (inbox (conn (world s))) = (r, ds)"
  shows "wp False (handshake_server E (request_parser c))
    (\<lambda>_ t. \<exists>out w'. r = Inr out \<and> answered conn ticks valid (world s) ds out w' \<and> snd t = s\<lparr>world := w'\<rparr>)
    (\<lambda>e t. \<exists>w'. r = Inl e \<and> answered conn ticks valid (world s) ds [] w' \<and> snd t = s\<lparr>world := w'\<rparr>)
    (new_HttpParser new_Request, s)"
proof -
  obtain r0 q ds0 where p: "parse_bytes RequestParser (inbox (conn (world s))) request_start = Some (r0, q, ds0)"
    using parse_bytes_inv [OF new_parser_inv] unfolding request_start_def by blast
  have parsed: "parsed_to (world s) ds0 w' \<Longrightarrow> answered conn ticks valid (world s) ds0 [] w'" for w'
    by (simp add: parsed_to_def answered_def)
  have sent: "parsed_to (world s) ds0 w1 \<Longrightarrow> produced conn ticks valid w1 out w2 \<Longrightarrow>
      answered conn ticks valid (world s) ds0 out w2" for w1 w2 out
    by (auto simp: parsed_to_def answered_def produced_def step_to_def)
  show ?thesis
    unfolding handshake_server_def wp_rules wp_with_parser env_socket
  proof (rule wp_mono)
    show "wp False (irq_parse (request_parser c) S)
      (\<lambda>_ t. r0 = Inr () \<and> fst t = q \<and> parsed_to (world s) ds0 (snd t))
      (\<lambda>e t. r0 = Inl e \<and> fst t = q \<and> parsed_to (world s) ds0 (snd t)) (new_HttpParser new_Request, world s)"
      using rqp_parse_wp [OF assms(1,2)] p by (simp add: request_parser_def request_start_def)
  next
    fix x t
    assume t: "r0 = Inr () \<and> fst t = q \<and> parsed_to (world s) ds0 (snd t)"
    have up': "valid (snd t)" "up (conn (snd t))"
      using t assms(2) by (auto simp: parsed_to_def step_to_def)
    have o: "r = server_reply (target q)" "ds = ds0" using out p t by (simp_all add: server_outcome_def)
    show "wp False (throw_left (rq_assert_websocket (irq_request (request_parser c) (fst (fst t, s\<lparr>world := snd t\<rparr>)))))
      (\<lambda>_. wp False (on_websocket (upgrade_connection E (irq_request (request_parser c) (fst (fst t, s\<lparr>world := snd t\<rparr>)))))
         (\<lambda>_ t. \<exists>out w'. r = Inr out \<and> answered conn ticks valid (world s) ds out w' \<and> snd t = s\<lparr>world := w'\<rparr>)
         (\<lambda>e t. \<exists>w'. r = Inl e \<and> answered conn ticks valid (world s) ds [] w' \<and> snd t = s\<lparr>world := w'\<rparr>))
      (\<lambda>e t. \<exists>w'. r = Inl e \<and> answered conn ticks valid (world s) ds [] w' \<and> snd t = s\<lparr>world := w'\<rparr>)
      (fst t, s\<lparr>world := snd t\<rparr>)"
      using t parsed
      by (auto simp: wp_throw_left wp_on_websocket o server_reply_def request_parser_def split: sum.split
          intro!: upgrade_connection_wp up') (use sent in blast)
  next
    fix e t
    assume "r0 = Inl e \<and> fst t = q \<and> parsed_to (world s) ds0 (snd t)"
    then show "\<exists>w'. r = Inl e \<and> answered conn ticks valid (world s) ds [] w'
        \<and> snd (fst t, s\<lparr>world := snd t\<rparr>) = s\<lparr>world := w'\<rparr>"
      using parsed out p by (auto simp: server_outcome_def)
  qed
qed

end

section \<open>The client\<close>

lemma handle_response_char_total: "handle_char ResponseParser c p \<noteq> None"
  by (cases "hp_state p")
    (simp_all add: handle_char_def handle_char_in_def handle_status_char_def handle_header_char_def ResponseParser_def run hp_error_def go_to_def hp_put_def
      start_with_def store_header_name_def rsp_set_method_def rsp_set_uri_def rsp_set_version_def
      rsp_set_code_def rsp_set_reason_def rsp_add_header_def hp_value_def on_target_def Let_def split_def)

lemma parse_response_total: "\<exists>r q ds. parse_bytes ResponseParser cs p = Some (r, q, ds)"
proof (induction cs arbitrary: p)
  case Nil
  show ?case by (simp add: hp_error_run)
next
  case (Cons c cs)
  obtain r t where "handle_char ResponseParser c p = Some (r, t)"
    using handle_response_char_total [of c p] by auto
  then show ?case using Cons.IH [of t] by (cases r) auto
qed

text \<open>Whether the client accepts what it read, as the answer to its key.\<close>

definition client_outcome :: "string \<Rightarrow> bytes \<Rightarrow> (exn + unit) \<times> bytes" where
  "client_outcome key cs = (case parse_bytes ResponseParser cs response_start of
       Some (Inr _, q, ds) \<Rightarrow> (rs_assert_websocket (make_accept_string key) (target q), ds)
     | Some (Inl e, q, ds) \<Rightarrow> (Inl e, ds)
     | None \<Rightarrow> (Inl (RuntimeError []), cs))"

lemma length_http_request: "length (make_http_request [] h k) < 1000 + length h + length k"
proof -
  have "length (make_http_request [] h k) \<le> length (''GET / HTTP/1.1'' @ http_eol @
       ''Host: '' @ c_str h @ http_eol @ ''Connection: Upgrade'' @ http_eol @
       ''Upgrade: websocket'' @ http_eol @ ''Sec-WebSocket-Version: 13'' @ http_eol @
       ''Sec-WebSocket-Key: '' @ c_str k @ http_eol @ http_eol)"
    unfolding make_http_request_def mb_vprintf_def append_Nil length_bytes_of_string by (rule length_c_str)
  also have "\<dots> < 1000 + length h + length k"
    using length_c_str [of h] length_c_str [of k] by (simp add: http_eol_def)
  finally show ?thesis .
qed

context websocket
begin

lemma handshake_client_wp:
  assumes v: "valid (world s)" and u: "up (conn (world s))"
    and rnd: "lx_getrandom L (replicate 16 0) (world s) = Some (Inr (n, bs), w1)"
    and host: "length (addr_tostring a) < 2 ^ 60"
    and out: "client_outcome (encode_base64 bs) (inbox (conn (world s))) = (r, ds)"
  shows "wp False (handshake_client E (response_parser c) a)
    (\<lambda>_ t. \<exists>w'. r = Inr () \<and> snd t = s\<lparr>world := w'\<rparr> \<and> answered conn ticks valid (world s) ds
       (make_http_request [] (addr_tostring a) (encode_base64 bs)) w')
    (\<lambda>e t. \<exists>w'. r = Inl e \<and> snd t = s\<lparr>world := w'\<rparr> \<and> answered conn ticks valid (world s) ds
       (make_http_request [] (addr_tostring a) (encode_base64 bs)) w')
    (new_HttpParser new_Response, s)"
proof -
  let ?key = "encode_base64 bs"
  let ?req = "make_http_request [] (addr_tostring a) ?key"
  have w1: "length bs = 16" "valid w1" "step_to conn ticks (world s) (conn (world s)) w1"
    using s_getrandom [OF v, of "replicate 16 0"] by (simp_all add: wp_def rnd)
  have key: "length ?key = 24" by (simp add: length_encode w1)
  have short: "length ?req < 2 ^ 63"
    using length_http_request [of "addr_tostring a" ?key] host key by simp
  obtain r0 q ds0 where p: "parse_bytes ResponseParser (inbox (conn (world s))) response_start = Some (r0, q, ds0)"
    using parse_response_total by blast
  have sent: "answered conn ticks valid (world s) ds0 ?req w3"
    if "produced conn ticks valid w1 ?req w2" "parsed_to w2 ds0 w3" for w2 w3
    using that w1 by (auto simp: parsed_to_def answered_def produced_def step_to_def)
  show ?thesis
    unfolding handshake_client_def make_key_def send_http_request_def Let_def wp_rules wp_on_websocket
      wp_on_world env_linux split_def
  proof (simp add: wp_def [of _ "lx_getrandom L _"] rnd wp_rules w1, rule socket_send_wp [OF _ _ short], goal_cases)
    case (3 w2)
    then have w2: "produced conn ticks valid w1 ?req w2" by simp
    have w2': "valid w2" "up (conn w2)" "inbox (conn w2) = inbox (conn (world s))"
      using producedD [OF w2] w1 u by (auto simp: step_to_def)
    have parse: "wp False (irs_parse (response_parser c) S)
      (\<lambda>_ t. r0 = Inr () \<and> fst t = q \<and> parsed_to w2 ds0 (snd t))
      (\<lambda>e t. r0 = Inl e \<and> fst t = q \<and> parsed_to w2 ds0 (snd t)) (new_HttpParser new_Response, w2)"
      using rsp_parse_wp [OF w2'(1,2)] p w2'(3) by (simp add: response_parser_def response_start_def)
    show ?case
      using out p
      by (simp add: wp_rules wp_with_parser env_socket, intro wp_mono [OF parse])
        (auto simp: wp_rules wp_throw_left client_outcome_def response_parser_def split: sum.splits,
          (use sent [OF w2] in blast)+)
  qed (use w1 u in \<open>auto simp: step_to_def\<close>)
qed

end

section \<open>What the two sides print\<close>

definition client_request :: "string \<Rightarrow> string \<Rightarrow> Request" where
  "client_request host key = \<lparr>rq_method = kGetMethod, rq_uri = ''/'', rq_headers =
     [\<lparr>h_name = ''Host'', h_value = host\<rparr>, \<lparr>h_name = ''Connection'', h_value = ''Upgrade''\<rparr>,
      \<lparr>h_name = ''Upgrade'', h_value = ''websocket''\<rparr>,
      \<lparr>h_name = ''Sec-WebSocket-Version'', h_value = ''13''\<rparr>,
      \<lparr>h_name = ''Sec-WebSocket-Key'', h_value = key\<rparr>]\<rparr>"

definition server_response :: "string \<Rightarrow> Response" where
  "server_response accept = \<lparr>rs_code = 101, rs_headers =
     [\<lparr>h_name = ''Upgrade'', h_value = ''websocket''\<rparr>, \<lparr>h_name = ''Connection'', h_value = ''Upgrade''\<rparr>,
      \<lparr>h_name = ''Sec-WebSocket-Accept'', h_value = accept\<rparr>]\<rparr>"

definition no_nul :: "string \<Rightarrow> bool" where
  "no_nul s \<longleftrightarrow> 0 \<notin> set (bytes_of_string s)"

lemma c_str_no_nul: "no_nul s \<Longrightarrow> c_str s = s"
  by (rule c_str_id) (auto simp: no_nul_def bytes_of_string_def)

lemma no_nul_simps [simp]: "no_nul []" "no_nul (c # s) \<longleftrightarrow> byte_of_char c \<noteq> 0 \<and> no_nul s"
  "no_nul (s @ t) \<longleftrightarrow> no_nul s \<and> no_nul t"
  by (auto simp: no_nul_def)

lemma http_eol_bytes: "bytes_of_string http_eol = crlf" "no_nul http_eol"
  by (simp_all add: http_eol_def crlf_def http_chars byte_of_char_def)

lemma colon_space: "bytes_of_string '': '' = [COLON, SP]"
  by (simp add: http_chars byte_of_char_def)

lemma request_printed:
  assumes "no_nul host" and "no_nul key"
  shows "make_http_request [] host key = request_text (client_request host key)"
  using assms
  by (simp add: make_http_request_def mb_vprintf_def c_str_no_nul byte_of_char_def http_eol_bytes
      request_text_def client_request_def header_line_def http_chars crlf_def)

lemma response_printed:
  assumes "no_nul accept"
  shows "make_http_response [] accept = response_text ''Switching Protocols'' (server_response accept)"
  using assms
  by (simp add: make_http_response_def mb_vprintf_def c_str_no_nul byte_of_char_def http_eol_bytes
      response_text_def server_response_def header_line_def http_chars crlf_def to_decimal.simps)

section \<open>The two sides accept each other\<close>

text \<open>Characters that a header value may hold anywhere.\<close>

definition plain :: "string \<Rightarrow> bool" where
  "plain s \<longleftrightarrow> (\<forall>c \<in> set (bytes_of_string s). 32 < c \<and> c < 127)"

lemma plain_simps [simp]: "plain []" "plain (c # s) \<longleftrightarrow> 32 < byte_of_char c \<and> byte_of_char c < 127 \<and> plain s"
  "plain (s @ t) \<longleftrightarrow> plain s \<and> plain t"
  by (auto simp: plain_def)

lemma plain_value: "plain s \<Longrightarrow> s \<noteq> [] \<Longrightarrow> length s \<le> 1024 \<Longrightarrow> wf_value s"
  by (cases s) (auto simp: plain_def wf_value_def http_limits http_chars)

lemma plain_no_nul: "plain s \<Longrightarrow> no_nul s"
  by (auto simp: plain_def no_nul_def)

lemma plain_base64: "plain (encode_base64 bs)"
proof -
  have "plain (CHR ''='' # base64_table)"
    by (simp add: base64_table_def byte_of_char_def)
  then show ?thesis
    using encode_chars [of bs] unfolding plain_def bytes_of_string_def by auto
qed

lemma wf_base64:
  assumes "bs \<noteq> []" and "length bs < 700"
  shows "wf_value (encode_base64 bs)"
proof (rule plain_value [OF plain_base64])
  have "0 < length (encode_base64 bs)" using assms by (cases bs) (simp_all add: length_encode)
  then show "encode_base64 bs \<noteq> []" by simp
  show "length (encode_base64 bs) \<le> 1024" using assms by (simp add: length_encode)
qed

lemma wf_names: "wf_name ''Host''" "wf_name ''Connection''" "wf_name ''Upgrade''"
  "wf_name ''Sec-WebSocket-Version''" "wf_name ''Sec-WebSocket-Key''" "wf_name ''Sec-WebSocket-Accept''"
  by (simp_all add: wf_name_def http_limits is_token_character_def is_cntrl_def is_separator_def
      in_cstring_def byte_of_char_def)

lemma wf_client_request:
  assumes "wf_value host" and "wf_value key"
  shows "wf_request (client_request host key)"
  using assms
  by (simp add: wf_request_def client_request_def wf_header_def wf_names wf_uri_def http_limits
      http_chars byte_of_char_def) (simp add: wf_value_def http_limits http_chars byte_of_char_def)

lemma wf_server_response:
  assumes "wf_value accept"
  shows "wf_response (server_response accept)" "wf_reason ''Switching Protocols''"
  using assms
  by (simp_all add: wf_response_def server_response_def wf_header_def wf_names wf_value_def wf_reason_def
      http_limits http_chars byte_of_char_def)

lemma key_accepted:
  assumes "length bs = 16"
  shows "is_valid_websocket_key (encode_base64 bs) = Inr ()"
proof -
  obtain body where b: "encode_base64 bs = body @ ''==''" "body \<noteq> []" "set body \<subseteq> set base64_table"
    using encode_pad_2 [of bs] assms by auto
  have len: "length (encode_base64 bs) = 24" using assms by (simp add: length_encode)
  then have "length body = 22" using b(1) by simp
  moreover have "is_base64_string (encode_base64 bs)"
    by (rule is_base64_stringI [OF b]) auto
  ultimately show ?thesis
    using len by (simp add: is_valid_websocket_key_def b(1) nth_append)
qed

lemma client_request_accepted:
  assumes "length bs = 16"
  shows "rq_assert_websocket (client_request host (encode_base64 bs)) = Inr ()"
  using key_accepted [OF assms]
  by (simp add: rq_assert_websocket_def client_request_def http_method_is_get_def check_def
      has_valid_websocket_key_def has_valid_websocket_version_def rq_get_header_value_def
      connection_header_is_upgrade_def upgrade_header_is_websocket_def)

lemma server_response_accepted: "rs_assert_websocket accept (server_response accept) = Inr ()"
  by (simp add: rs_assert_websocket_def server_response_def status_equals_101_def check_def
      connection_header_equals_upgrade_def upgrade_header_equals_websocket_def accept_header_is_valid_def
      header_equals_def rs_get_header_value_def)

lemma wf_accept: "wf_value (make_accept_string key)" "no_nul (make_accept_string key)"
proof -
  have "length (SHA1 bs) = 20" for bs by (simp add: SHA1_def SHA1Final_def Let_def)
  then have "take 20 (SHA1 bs) \<noteq> []" for bs by (metis length_0_conv take_all_iff order_refl zero_neq_numeral)
  then show "wf_value (make_accept_string key)"
    unfolding make_accept_string_def Let_def by (intro wf_base64) auto
  show "no_nul (make_accept_string key)"
    unfolding make_accept_string_def Let_def by (rule plain_no_nul [OF plain_base64])
qed

text \<open>The server reads the client's request and sends its answer.\<close>

lemma server_outcome_hello:
  assumes "wf_value host" and "no_nul host" and "length bs = 16"
  shows "server_outcome (make_http_request [] host (encode_base64 bs) @ ds)
     = (Inr (make_http_response [] (make_accept_string (encode_base64 bs))), ds)"
proof -
  let ?r = "client_request host (encode_base64 bs)"
  have "wf_request ?r" using assms by (intro wf_client_request wf_base64) auto
  moreover have "make_http_request [] host (encode_base64 bs) = request_text ?r"
    by (rule request_printed [OF assms(2) plain_no_nul [OF plain_base64]])
  ultimately obtain q where "parse_bytes RequestParser (make_http_request [] host (encode_base64 bs) @ ds) request_start
       = Some (Inr (), q, ds)" and "target q = ?r"
    using parse_request_text [of request_start ?r ds]
    by (auto simp: request_start_def new_HttpParser_def new_Request_def client_request_def)
  then show ?thesis
    using client_request_accepted [OF assms(3)]
    by (simp add: server_outcome_def server_reply_def) (simp add: client_request_def rq_get_header_value_def)
qed

text \<open>The client reads the server's answer to its key.\<close>

lemma client_outcome_hello:
  "client_outcome key (make_http_response [] (make_accept_string key) @ ds) = (Inr (), ds)"
proof -
  let ?r = "server_response (make_accept_string key)"
  obtain q where "parse_bytes ResponseParser (make_http_response [] (make_accept_string key) @ ds) response_start
       = Some (Inr (), q, ds)" and "target q = ?r"
    using parse_response_text [OF _ _ wf_server_response [OF wf_accept(1)], of response_start key ds]
    by (auto simp: response_printed [OF wf_accept(2)] response_start_def new_HttpParser_def new_Response_def
        server_response_def)
  then show ?thesis by (simp add: client_outcome_def server_response_accepted)
qed

text \<open>A printed address can be sent as a header.\<close>

lemma length_to_decimal: "0 < k \<Longrightarrow> n < 10 ^ k \<Longrightarrow> length (to_decimal n) \<le> k"
proof (induction k arbitrary: n)
  case (Suc k)
  show ?case
  proof (cases "n < 10")
    case True
    then show ?thesis by (subst to_decimal.simps) simp
  next
    case False
    then have "0 < k" using Suc.prems by (cases k) auto
    moreover have "n div 10 < 10 ^ k" using Suc.prems(2) by (simp add: div_less_iff_less_mult)
    ultimately show ?thesis using Suc.IH [of "n div 10"] False by (subst to_decimal.simps) simp
  qed
qed simp

lemma plain_to_decimal: "plain (to_decimal n)"
proof -
  have "32 < d \<and> d < 127" if "is_digit d" for d
    using that by (simp add: is_digit_def word_le_nat_alt word_less_nat_alt)
  then show ?thesis using to_decimal_digits [of n] by (auto simp: plain_def)
qed

lemma length_byte: "length (to_decimal (unat (b :: u8))) \<le> 3"
  using unsigned_less [of b, where ?'a = nat] by (intro length_to_decimal) simp_all

lemma host_ok: "plain (addr_tostring a)" "length (addr_tostring a) \<le> 32" "addr_tostring a \<noteq> []"
proof -
  show "plain (addr_tostring a)"
    by (simp add: addr_tostring_def addr_ip_def inet_ntoa_def Let_def plain_to_decimal byte_of_char_def)
  have "length (to_decimal (unat (addr_port a))) \<le> 5"
    using unsigned_less [of "addr_port a", where ?'a = nat] by (intro length_to_decimal) simp_all
  then show "length (addr_tostring a) \<le> 32"
    using length_byte [of "store_le 4 (sin_addr (addr a)) ! 0"] length_byte [of "store_le 4 (sin_addr (addr a)) ! 1"]
      length_byte [of "store_le 4 (sin_addr (addr a)) ! 2"] length_byte [of "store_le 4 (sin_addr (addr a)) ! 3"]
    by (simp add: addr_tostring_def addr_ip_def inet_ntoa_def Let_def)
  show "addr_tostring a \<noteq> []" by (simp add: addr_tostring_def)
qed

lemma host_value: "wf_value (addr_tostring a)" "no_nul (addr_tostring a)"
  using host_ok [of a] by (auto intro: plain_value plain_no_nul)

end
