(* ===== verification/Handshake_Properties.thy ===== *)
theory Handshake_Properties
  imports Handshake_Spec
begin

text \<open>
  The HTTP parser and the opening handshake on a \<open>Socket\<close> over any system that keeps the
  contract \<open>tcp_kernel\<close>, with concrete runs on the small system.
\<close>

section \<open>From the contract to the socket\<close>

definition open_socket :: "('k \<Rightarrow> int \<Rightarrow> connection) \<Rightarrow> int \<Rightarrow> 'k BaseSocket \<Rightarrow> bool" where
  "open_socket conns fd w \<longleftrightarrow> sockfd w = fd \<and> fd \<noteq> kInvalidSocket \<and> up (conns (kernel w) fd)"

definition fd_conn :: "('k \<Rightarrow> int \<Rightarrow> connection) \<Rightarrow> int \<Rightarrow> 'k BaseSocket \<Rightarrow> connection" where
  "fd_conn conns fd w = conns (kernel w) fd"

lemma open_socket_owns: "open_socket conns fd w \<Longrightarrow> owns conns fd w \<and> up (fd_conn conns fd w)"
  by (auto simp: open_socket_def owns_def fd_conn_def)

lemma open_socket_stream:
  assumes "tcp_kernel L conns clock" and "open_socket conns fd w"
  shows "stream_socket (Socket L) (linux_of_socket L) (fd_conn conns fd) (\<lambda>s. clock (kernel s)) (owns conns fd)"
proof -
  have "tcp_websocket L conns clock fd zeroes"
    using assms by (intro tcp_websocketI) (auto simp: open_socket_def zeroes_def)
  from tcp_websocket.is_websocket [OF this] show ?thesis
    by (simp add: websocket_def fd_conn_def [abs_def])
qed

lemma open_socket_websocket:
  assumes "tcp_kernel L conns clock" and "open_socket conns fd w" and "\<And>n. length (uninit n) = n"
  shows "websocket (Socket L) (linux_of_socket L) (fd_conn conns fd) (\<lambda>s. clock (kernel s)) (owns conns fd)
    (tcp_env role L uninit)"
proof -
  have "tcp_websocket L conns clock fd uninit"
    using assms by (intro tcp_websocketI) (auto simp: open_socket_def)
  from tcp_websocket.is_websocket [OF this, of role] show ?thesis
    by (simp add: fd_conn_def [abs_def])
qed

text \<open>A constructor from what its handshake does.\<close>

lemma after_handshake_run:
  assumes "wp False h (\<lambda>_. Q) X (p, new_WebSocket E w)"
  shows "(\<exists>p' s. after_handshake E h (p, w) = Some (Inr s, (p', world s)) \<and> Q (p', s))
    \<or> (\<exists>e p' s. after_handshake E h (p, w) = Some (Inl e, (p', world s)) \<and> X e (p', s))"
  using assms
  by (cases rule: wp_totalE) (auto simp: after_handshake_def run split: prod.splits)

section \<open>Runs on the small system\<close>

definition demo_socket :: "bytes \<Rightarrow> machine BaseSocket" where
  "demo_socket inb = Socket_fd 3 (demo_machine inb)"

lemma demo_socket_simps [simp]:
  "open_socket m_conns 3 (demo_socket inb)"
  "fd_conn m_conns 3 (demo_socket inb) = \<lparr>up = True, inbox = inb, outbox = []\<rparr>"
  by (simp_all add: demo_socket_def demo_machine_def open_socket_def fd_conn_def Socket_fd_def new_BaseSocket_def
      kInvalidSocket_def)

definition demo_request :: Request where
  "demo_request = \<lparr>rq_method = kGetMethod, rq_uri = ''/'', rq_headers = [\<lparr>h_name = ''Host'', h_value = ''h''\<rparr>]\<rparr>"

lemma wf_demo_request: "wf_request demo_request"
  by (simp add: demo_request_def wf_request_def wf_header_def wf_names wf_uri_def wf_value_def
      http_limits http_chars byte_of_char_def)

section \<open>The parser\<close>

text \<open>C23: The head of a well formed request, printed and sent in any pieces, is read back: method,
  URI and headers in order, and not a byte more is taken from the connection.\<close>

theorem request_is_read_back:
  assumes "tcp_kernel L conns clock" and "open_socket conns fd w"
    and "wf_request r" and "inbox (fd_conn conns fd w) = request_text r @ ds"
  shows "\<exists>p w'. rqp_parse (Socket L) c (new_HttpParser new_Request, w) = Some (Inr (), (p, w'))
     \<and> target p = r \<and> fd_conn conns fd w' = (fd_conn conns fd w)\<lparr>inbox := ds\<rparr>"
proof -
  note st = open_socket_stream [OF assms(1,2)]
  obtain q where q: "parse_bytes RequestParser (request_text r @ ds) request_start = Some (Inr (), q, ds)"
      "target q = r"
    using parse_request_text [of request_start r ds] assms(3)
    by (auto simp: request_start_def new_HttpParser_def new_Request_def wf_request_def)
  have "wp False (rqp_parse (Socket L) c)
    (\<lambda>_ s. fst s = q \<and> fd_conn conns fd (snd s) = (fd_conn conns fd w)\<lparr>inbox := ds\<rparr>) (\<lambda>_ _. False)
    (new_HttpParser new_Request, w)"
    by (rule wp_mono [OF stream_socket.rqp_parse_wp [OF st, of w "new_HttpParser new_Request"]])
      (use open_socket_owns [OF assms(2)] q assms(4) in
        \<open>auto simp: request_start_def stream_socket.parsed_to_def [OF st] step_to_def\<close>)
  from wp_returns [OF this] q(2) show ?thesis by auto
qed

lemma request_is_read_back_witness:
  "\<exists>p w'. rqp_parse (Socket small_linux) 0 (new_HttpParser new_Request,
       demo_socket (request_text demo_request @ [1, 2])) = Some (Inr (), (p, w'))
     \<and> target p = demo_request \<and> inbox (fd_conn m_conns 3 w') = [1, 2]"
  using request_is_read_back [OF small.tcp_kernel_axioms demo_socket_simps(1) wf_demo_request, of _ "[1, 2]" 0]
  by fastforce

text \<open>C24: Whatever arrives, the parser of requests comes to an end; what it accepts is a GET with a
  non-empty URI of at most 2048 characters and headers whose names and values keep the limits
  and the character classes, and its buffer never holds more than 2049 bytes.\<close>

theorem accepted_requests_are_well_formed:
  assumes "tcp_kernel L conns clock" and "open_socket conns fd w"
  shows "\<exists>r p w'. rqp_parse (Socket L) c (new_HttpParser new_Request, w) = Some (r, (p, w'))
     \<and> (r = Inr () \<longrightarrow> wf_request (target p)) \<and> length (hp_buffer p) \<le> 2049"
proof -
  note st = open_socket_stream [OF assms]
  obtain r q ds where q: "parse_bytes RequestParser (inbox (fd_conn conns fd w)) request_start = Some (r, q, ds)"
      "request_inv q" "r = Inr () \<longrightarrow> hp_state q = kBody"
    using parse_bytes_inv [OF new_parser_inv] unfolding request_start_def by blast
  have "length (hp_buffer q) \<le> 2049"
    using q(2) lexeme_short by (auto simp: request_inv_def)
  moreover have "wp False (rqp_parse (Socket L) c)
    (\<lambda>_ s. r = Inr () \<and> fst s = q \<and> stream_socket.parsed_to (fd_conn conns fd) (\<lambda>s. clock (kernel s)) (owns conns fd) w ds (snd s))
    (\<lambda>e s. r = Inl e \<and> fst s = q \<and> stream_socket.parsed_to (fd_conn conns fd) (\<lambda>s. clock (kernel s)) (owns conns fd) w ds (snd s))
    (new_HttpParser new_Request, w)"
    by (rule stream_socket.rqp_parse_wp [OF st]) (use open_socket_owns [OF assms(2)] q(1) in \<open>simp_all add: request_start_def\<close>)
  ultimately show ?thesis
    using q(2,3) accepted_wf by (elim wp_totalE) auto
qed

lemma accepted_requests_are_well_formed_witness:
  "\<exists>r p w'. rqp_parse (Socket small_linux) 0 (new_HttpParser new_Request,
       demo_socket (bytes_of_string ''PUT /x'')) = Some (r, (p, w'))
     \<and> (r = Inr () \<longrightarrow> wf_request (target p)) \<and> length (hp_buffer p) \<le> 2049"
  by (rule accepted_requests_are_well_formed [OF small.tcp_kernel_axioms demo_socket_simps(1)])

section \<open>The opening handshake\<close>

lemma server_runs:
  assumes "tcp_kernel L conns clock" and "open_socket conns fd w" and "\<And>n. length (uninit n) = n"
    and "server_outcome (inbox (fd_conn conns fd w)) = (r, ds)"
  shows "case r of
      Inr out \<Rightarrow> \<exists>p s. ServerSideWebSocket_new (tcp_env ServerSide L uninit) (request_parser c)
          (new_HttpParser new_Request, w) = Some (Inr s, (p, world s))
        \<and> fd_conn conns fd (world s)
            = (fd_conn conns fd w)\<lparr>inbox := ds, outbox := outbox (fd_conn conns fd w) @ out\<rparr>
    | Inl e \<Rightarrow> \<exists>p w'. ServerSideWebSocket_new (tcp_env ServerSide L uninit) (request_parser c)
          (new_HttpParser new_Request, w) = Some (Inl e, (p, w'))
        \<and> fd_conn conns fd w' = (fd_conn conns fd w)\<lparr>inbox := ds\<rparr>"
proof -
  note ws = open_socket_websocket [OF assms(1-3), where role = ServerSide]
  let ?E = "tcp_env ServerSide L uninit"
  have s: "world (new_WebSocket ?E w) = w" by (simp add: new_WebSocket_def)
  have "wp False (handshake_server ?E (request_parser c))
    (\<lambda>_ t. \<exists>out w'. r = Inr out \<and> answered (fd_conn conns fd) (\<lambda>s. clock (kernel s)) (owns conns fd) w ds out w'
       \<and> snd t = (new_WebSocket ?E w)\<lparr>world := w'\<rparr>)
    (\<lambda>e t. \<exists>w'. r = Inl e \<and> answered (fd_conn conns fd) (\<lambda>s. clock (kernel s)) (owns conns fd) w ds [] w'
       \<and> snd t = (new_WebSocket ?E w)\<lparr>world := w'\<rparr>)
    (new_HttpParser new_Request, new_WebSocket ?E w)"
    using websocket.handshake_server_wp [OF ws, of "new_WebSocket ?E w" r ds] open_socket_owns [OF assms(2)] assms(4)
    by (simp add: s)
  from after_handshake_run [OF this] show ?thesis
    by (auto simp: ServerSideWebSocket_new_def answered_def step_to_def)
qed

text \<open>C21: The server's constructor comes to an end whatever arrives. It returns a websocket exactly
  for a request that parses and passes the checks, having sent the answer to its key; in every
  other case it throws, having sent nothing.\<close>

theorem server_opens:
  assumes "tcp_kernel L conns clock" and "open_socket conns fd w" and "\<And>n. length (uninit n) = n"
    and "server_outcome (inbox (fd_conn conns fd w)) = (r, ds)"
  shows "case r of
      Inr out \<Rightarrow> \<exists>p s. ServerSideWebSocket_new (tcp_env ServerSide L uninit) (request_parser c)
          (new_HttpParser new_Request, w) = Some (Inr s, (p, world s))
        \<and> fd_conn conns fd (world s)
            = (fd_conn conns fd w)\<lparr>inbox := ds, outbox := outbox (fd_conn conns fd w) @ out\<rparr>
    | Inl e \<Rightarrow> \<exists>p w'. ServerSideWebSocket_new (tcp_env ServerSide L uninit) (request_parser c)
          (new_HttpParser new_Request, w) = Some (Inl e, (p, w'))
        \<and> fd_conn conns fd w' = (fd_conn conns fd w)\<lparr>inbox := ds\<rparr>"
  using assms by (rule server_runs)

lemma demo_hello:
  "server_outcome (make_http_request [] (addr_tostring zero_Address) (encode_base64 (zeroes 16)))
     = (Inr (make_http_response [] (make_accept_string (encode_base64 (zeroes 16)))), [])"
  using server_outcome_hello [OF host_value, of "zeroes 16" zero_Address "[]"] by (simp add: length_zeroes)

lemma server_opens_witness:
  "\<exists>p s. ServerSideWebSocket_new (tcp_env ServerSide small_linux zeroes) (request_parser 0)
      (new_HttpParser new_Request,
       demo_socket (make_http_request [] (addr_tostring zero_Address) (encode_base64 (zeroes 16))))
      = Some (Inr s, (p, world s))
    \<and> outbox (fd_conn m_conns 3 (world s)) = make_http_response [] (make_accept_string (encode_base64 (zeroes 16)))"
  using server_opens [OF small.tcp_kernel_axioms demo_socket_simps(1) length_zeroes, of
      "make_http_request [] (addr_tostring zero_Address) (encode_base64 (zeroes 16))" _ _ 0] demo_hello
  by fastforce

text \<open>The client on any answer; the key is made of the random bytes that it draws.\<close>

lemma client_runs:
  assumes "tcp_kernel L conns clock" and "open_socket conns fd w" and "\<And>n. length (uninit n) = n"
    and rnd: "lx_getrandom L (replicate 16 0) (kernel w) = Some (Inr (n, bs), k1)"
    and "client_outcome (encode_base64 bs) (inbox (fd_conn conns fd w)) = (r, ds)"
  shows "\<exists>res p w'. ClientSideWebSocket_new (tcp_env ClientSide L uninit) (response_parser c) a
       (new_HttpParser new_Response, w) = Some (res, (p, w'))
     \<and> (case r of Inl e \<Rightarrow> res = Inl e | Inr _ \<Rightarrow> \<exists>s. res = Inr s \<and> world s = w')
     \<and> fd_conn conns fd w' = (fd_conn conns fd w)\<lparr>inbox := ds,
         outbox := outbox (fd_conn conns fd w) @ make_http_request [] (addr_tostring a) (encode_base64 bs)\<rparr>"
proof -
  note ws = open_socket_websocket [OF assms(1-3), where role = ClientSide]
  let ?E = "tcp_env ClientSide L uninit"
  have s: "world (new_WebSocket ?E w) = w" by (simp add: new_WebSocket_def)
  have rnd': "lx_getrandom (linux_of_socket L) (replicate 16 0) w = Some (Inr (n, bs), w\<lparr>kernel := k1\<rparr>)"
    using rnd by (simp add: linux_of_socket_def on_kernel_def run)
  have h: "length (addr_tostring a) < 2 ^ 60" using host_ok(2) [of a] by simp
  let ?post = "\<lambda>t. \<exists>w'. snd t = (new_WebSocket ?E w)\<lparr>world := w'\<rparr> \<and> answered (fd_conn conns fd)
     (\<lambda>s. clock (kernel s)) (owns conns fd) w ds (make_http_request [] (addr_tostring a) (encode_base64 bs)) w'"
  have "wp False (handshake_client ?E (response_parser c) a) (\<lambda>_ t. r = Inr () \<and> ?post t) (\<lambda>e t. r = Inl e \<and> ?post t)
    (new_HttpParser new_Response, new_WebSocket ?E w)"
    by (rule wp_mono [OF websocket.handshake_client_wp [OF ws, of "new_WebSocket ?E w"]])
      (use open_socket_owns [OF assms(2)] assms(5) rnd' h in \<open>auto simp: s\<close>)
  from after_handshake_run [OF this] show ?thesis
    by (auto simp: ClientSideWebSocket_new_def answered_def step_to_def)
qed

text \<open>C11: Each side accepts what the other sends: the client's request makes the server return a
  websocket and send its answer, and this answer makes the client return one. Neither takes
  more from the connection than the handshake, so the first frames can follow at once.\<close>

theorem handshake_opens_both:
  assumes "tcp_kernel L conns clock" and "open_socket conns fd w" and "\<And>n. length (uninit n) = n"
    and "tcp_kernel L' conns' clock'" and "open_socket conns' fd' w'" and "\<And>n. length (uninit' n) = n"
    and "lx_getrandom L (replicate 16 0) (kernel w) = Some (Inr (n, bs), k1)"
    and "hello = make_http_request [] (addr_tostring a) (encode_base64 bs)"
    and "answer = make_http_response [] (make_accept_string (encode_base64 bs))"
    and "inbox (fd_conn conns fd w) = answer @ ds" and "inbox (fd_conn conns' fd' w') = hello @ ds'"
  shows "\<exists>p s p' s'. ClientSideWebSocket_new (tcp_env ClientSide L uninit) (response_parser c) a
       (new_HttpParser new_Response, w) = Some (Inr s, (p, world s))
     \<and> fd_conn conns fd (world s)
         = (fd_conn conns fd w)\<lparr>inbox := ds, outbox := outbox (fd_conn conns fd w) @ hello\<rparr>
     \<and> ServerSideWebSocket_new (tcp_env ServerSide L' uninit') (request_parser c')
         (new_HttpParser new_Request, w') = Some (Inr s', (p', world s'))
     \<and> fd_conn conns' fd' (world s')
         = (fd_conn conns' fd' w')\<lparr>inbox := ds', outbox := outbox (fd_conn conns' fd' w') @ answer\<rparr>"
proof -
  have bs: "length bs = 16"
    using tcp_kernel.k_getrandom [OF assms(1), of "replicate 16 0" "kernel w"] assms(7) by (simp add: wp_def)
  have "client_outcome (encode_base64 bs) (inbox (fd_conn conns fd w)) = (Inr (), ds)"
    unfolding assms(9,10) by (rule client_outcome_hello)
  note client = client_runs [OF assms(1-3,7) this, where c = c and a = a]
  have "server_outcome (inbox (fd_conn conns' fd' w')) = (Inr answer, ds')"
    unfolding assms(8,9,11) by (rule server_outcome_hello [OF host_value bs])
  note server = server_runs [OF assms(4-6) this, where c = c']
  from client server show ?thesis by (fastforce simp: assms(8))
qed

lemma demo_random: "lx_getrandom small_linux (replicate 16 0) k
    = Some (Inr (16, [0, 1, 2, 3, 4, 5, 6, 7, 8, 9, 10, 11, 12, 13, 14, 15]), k)"
  by (simp add: small_linux_def run upt_rec)

lemma handshake_opens_both_witness:
  "let hello = make_http_request [] (addr_tostring zero_Address)
         (encode_base64 [0, 1, 2, 3, 4, 5, 6, 7, 8, 9, 10, 11, 12, 13, 14, 15]);
       answer = make_http_response [] (make_accept_string
         (encode_base64 [0, 1, 2, 3, 4, 5, 6, 7, 8, 9, 10, 11, 12, 13, 14, 15]))
   in (\<exists>p s. ClientSideWebSocket_new (tcp_env ClientSide small_linux zeroes) (response_parser 0) zero_Address
         (new_HttpParser new_Response, demo_socket (answer @ [0x81, 0])) = Some (Inr s, (p, world s))
       \<and> outbox (fd_conn m_conns 3 (world s)) = hello)
    \<and> (\<exists>p s. ServerSideWebSocket_new (tcp_env ServerSide small_linux zeroes) (request_parser 0)
         (new_HttpParser new_Request, demo_socket (hello @ [])) = Some (Inr s, (p, world s))
       \<and> outbox (fd_conn m_conns 3 (world s)) = answer)"
  unfolding Let_def
  using handshake_opens_both [OF small.tcp_kernel_axioms
      demo_socket_simps(1) [of "make_http_response [] (make_accept_string
         (encode_base64 [0, 1, 2, 3, 4, 5, 6, 7, 8, 9, 10, 11, 12, 13, 14, 15])) @ [0x81, 0]"] length_zeroes
      small.tcp_kernel_axioms
      demo_socket_simps(1) [of "make_http_request [] (addr_tostring zero_Address)
         (encode_base64 [0, 1, 2, 3, 4, 5, 6, 7, 8, 9, 10, 11, 12, 13, 14, 15]) @ []"] length_zeroes
      demo_random refl refl, where ds = "[0x81, 0]" and ds' = "[]" and c = 0 and c' = 0]
  by fastforce

text \<open>C22: A client that has drawn the bytes \<open>bs\<close> for its key returns a websocket only if the
  answer that it read has the status 101 and the accept string of that key.\<close>

theorem client_needs_proof_of_key:
  assumes "tcp_kernel L conns clock" and "open_socket conns fd w" and "\<And>n. length (uninit n) = n"
    and "lx_getrandom L (replicate 16 0) (kernel w) = Some (Inr (n, bs), k1)"
    and "ClientSideWebSocket_new (tcp_env ClientSide L uninit) (response_parser c) a
       (new_HttpParser new_Response, w) = Some (Inr s, (p, w'))"
  shows "\<exists>q ds. parse_bytes ResponseParser (inbox (fd_conn conns fd w)) response_start = Some (Inr (), q, ds)
     \<and> rs_code (target q) = 101
     \<and> rs_get_header_value ''Sec-WebSocket-Accept'' (target q) = (True, make_accept_string (encode_base64 bs))"
proof -
  obtain r ds where o: "client_outcome (encode_base64 bs) (inbox (fd_conn conns fd w)) = (r, ds)"
    by fastforce
  have "r = Inr ()"
    using client_runs [OF assms(1-4) o, where c = c and a = a] assms(5) by (cases r) auto
  with o obtain q where q: "parse_bytes ResponseParser (inbox (fd_conn conns fd w)) response_start = Some (Inr (), q, ds)"
    "rs_assert_websocket (make_accept_string (encode_base64 bs)) (target q) = Inr ()"
    using parse_response_total [of "inbox (fd_conn conns fd w)" response_start]
    by (auto simp: client_outcome_def split: sum.splits)
  then have "rs_code (target q) = 101"
     "rs_get_header_value ''Sec-WebSocket-Accept'' (target q) = (True, make_accept_string (encode_base64 bs))"
    by (auto simp: rs_assert_websocket_def check_def status_equals_101_def accept_header_is_valid_def
        connection_header_equals_upgrade_def upgrade_header_equals_websocket_def header_equals_def split: if_splits prod.splits)
  with q(1) show ?thesis by blast
qed


lemma client_needs_proof_of_key_witness:
  "\<exists>s p w'. ClientSideWebSocket_new (tcp_env ClientSide small_linux zeroes) (response_parser 0) zero_Address
       (new_HttpParser new_Response, demo_socket (make_http_response [] (make_accept_string
         (encode_base64 [0, 1, 2, 3, 4, 5, 6, 7, 8, 9, 10, 11, 12, 13, 14, 15])))) = Some (Inr s, (p, w'))
     \<and> (\<exists>q ds. parse_bytes ResponseParser (make_http_response [] (make_accept_string
         (encode_base64 [0, 1, 2, 3, 4, 5, 6, 7, 8, 9, 10, 11, 12, 13, 14, 15]))) response_start = Some (Inr (), q, ds)
       \<and> rs_code (target q) = 101)"
proof -
  let ?key = "encode_base64 [0, 1, 2, 3, 4, 5, 6, 7, 8, 9, 10, 11, 12, 13, 14, 15]"
  let ?w = "demo_socket (make_http_response [] (make_accept_string ?key))"
  have "client_outcome ?key (inbox (fd_conn m_conns 3 ?w)) = (Inr (), [])"
    using client_outcome_hello [of ?key "[]"] by simp
  from client_runs [OF small.tcp_kernel_axioms demo_socket_simps(1) length_zeroes demo_random this, of 0 zero_Address]
  obtain s p w' where run: "ClientSideWebSocket_new (tcp_env ClientSide small_linux zeroes) (response_parser 0)
      zero_Address (new_HttpParser new_Response, ?w) = Some (Inr s, (p, w'))" by auto
  from client_needs_proof_of_key [OF small.tcp_kernel_axioms demo_socket_simps(1) length_zeroes demo_random run]
  show ?thesis using run by simp blast
qed

section \<open>Base64 and addresses\<close>

text \<open>A decoder after RFC 4648 takes what \<open>encode_base64\<close> prints back to the bytes; the text is
  four characters for every three bytes begun.\<close>

theorem base64_is_read_back:
  "decode_base64 (encode_base64 bs) = bs \<and> length (encode_base64 bs) = 4 * ((length bs + 2) div 3)"
  by (simp add: decode_encode length_encode)

text \<open>C40: \<open>Address::parse\<close> reads back what \<open>Address::tostring\<close> prints, on a system whose
  \<open>inet_aton\<close> reads back the dotted numbers of this address.\<close>

theorem address_is_read_back:
  assumes "inet_aton N (inet_ntoa (sin_addr (addr a))) = Some (sin_addr (addr a))"
    and "sin_family (addr a) = AF_INET"
  shows "addr_parse N (addr_tostring a) b = Some (Inr (), b\<lparr>addr := addr a\<rparr>)"
  using assms by (rule parse_tostring)

definition demo_net :: net_env where
  "demo_net = \<lparr>inet_aton = (\<lambda>s. if s = ''127.0.0.1'' then Some 0x0100007F else None),
     getifaddrs = Some [], getnameinfo = (\<lambda>_. Some ''127.0.0.1'')\<rparr>"

definition demo_address :: Address where
  "demo_address = \<lparr>addr = \<lparr>sin_family = AF_INET, sin_port = htons 10101, sin_addr = 0x0100007F\<rparr>\<rparr>"

lemma demo_ip: "inet_ntoa 0x0100007F = ''127.0.0.1''"
  by (simp add: inet_ntoa_def store_le_def Let_def upt_rec to_decimal.simps char_of_eq_iff)

lemma address_is_read_back_witness:
  "addr_parse demo_net (addr_tostring demo_address) zero_Address = Some (Inr (), demo_address)"
  using address_is_read_back [of demo_net demo_address zero_Address]
  by (simp add: demo_address_def demo_net_def demo_ip zero_Address_def)

text \<open>\<open>Address::parse\<close> takes any number up to \<open>INT_MAX\<close> as a port and keeps its last 16 bits:
  an address with the port 65536 + n is the address with the port n.\<close>

theorem address_port_wraps:
  assumes "inet_aton N ip = Some x" and "c_str ip = ip" and "n < 2 ^ 31 - 65536"
  shows "addr_parse N (ip @ '':'' @ to_decimal (65536 + n)) b = addr_parse N (ip @ '':'' @ to_decimal n) b"
proof -
  have "(of_nat (65536 + n) :: u16) = of_nat n" by (simp add: of_nat_eq_iff take_bit_eq_mod)
  then show ?thesis
    using parse_port_wraps [OF assms(1,2), of "65536 + n" b] parse_port_wraps [OF assms(1,2), of n b] assms(3)
    by (simp del: of_nat_add of_nat_numeral)
qed

lemma address_port_wraps_witness:
  "addr_parse demo_net (''127.0.0.1'' @ '':'' @ to_decimal 65616) zero_Address
     = addr_parse demo_net (''127.0.0.1'' @ '':'' @ to_decimal 80) zero_Address"
  using address_port_wraps [of demo_net "''127.0.0.1''" "0x0100007F" 80 zero_Address]
  by (simp add: demo_net_def c_str_def byte_of_char_def)

end
