(* ===== verification/Json_Value.thy ===== *)
theory Json_Value
  imports Libc "HOL-Library.List_Lexorder" "HOL-Library.Char_ord"
begin

text \<open>
  The values of json.hpp, the JSON library beside the sources, and the operations on them that
  librcom uses: \<open>operator[]\<close> with a string, \<open>contains\<close>, \<open>is_null\<close> and the implicit conversions. A
  string is a sequence of bytes; an object is a \<open>std::map\<close>, a list that is sorted by its
  distinct keys; integers are 64 bit words, a signed one to be read with \<open>sint\<close>; a double is
  its 64 bits. Binary values, which no JSON text has, are left out.
\<close>

section \<open>Values\<close>

datatype json =
    JNull
  | JBool bool
  | JInt u64
  | JUInt u64
  | JFloat u64
  | JString string
  | JArray "json list"
  | JObject "(string \<times> json) list"
  | JDiscarded

text \<open>\<open>std::map::operator[]\<close> followed by an assignment, and \<open>find\<close>.\<close>

fun obj_put :: "string \<Rightarrow> json \<Rightarrow> (string \<times> json) list \<Rightarrow> (string \<times> json) list" where
  "obj_put k v [] = [(k, v)]"
| "obj_put k v ((k', v') # ps) =
     (if k < k' then (k, v) # (k', v') # ps
      else if k = k' then (k, v) # ps
      else (k', v') # obj_put k v ps)"

definition obj_find :: "string \<Rightarrow> (string \<times> json) list \<Rightarrow> json option" where
  "obj_find k ps = map_of ps k"

lemma obj_find_put: "obj_find k (obj_put k' v ps) = (if k = k' then Some v else obj_find k ps)"
  unfolding obj_find_def by (induction k' v ps rule: obj_put.induct) auto

lemma map_of_put [simp]: "map_of (obj_put k v ps) = (map_of ps)(k \<mapsto> v)"
  using obj_find_put by (auto simp: obj_find_def fun_eq_iff)

lemma keys_obj_put: "fst ` set (obj_put k v ps) = insert k (fst ` set ps)"
  by (induction k v ps rule: obj_put.induct) auto

abbreviation sorted_keys :: "(string \<times> json) list \<Rightarrow> bool" where
  "sorted_keys ps \<equiv> sorted_wrt (<) (map fst ps)"

lemma sorted_obj_put: "sorted_keys ps \<Longrightarrow> sorted_keys (obj_put k v ps)"
proof (induction k v ps rule: obj_put.induct)
  case (2 k v k' v' ps)
  show ?case
  proof (cases "k < k' \<or> k = k'")
    case True
    with 2 show ?thesis by (auto intro: less_trans)
  next
    case False
    then have lt: "k' < k" by auto
    have "\<forall>x \<in> fst ` set ps. k' < x" using "2.prems" by auto
    then have "\<forall>x \<in> fst ` set (obj_put k v ps). k' < x" using lt by (auto simp: keys_obj_put)
    with False 2 show ?thesis by (auto simp: image_iff)
  qed
qed simp

text \<open>Putting at the end of a sorted object appends.\<close>

lemma obj_put_append:
  "\<forall>x \<in> fst ` set ps. x < k \<Longrightarrow> obj_put k v ps = ps @ [(k, v)]"
  by (induction ps) (auto simp: less_le_not_le)

section \<open>Types and errors\<close>

fun type_name :: "json \<Rightarrow> string" where
  "type_name JNull = ''null''"
| "type_name (JObject ps) = ''object''"
| "type_name (JArray vs) = ''array''"
| "type_name (JString s) = ''string''"
| "type_name (JBool b) = ''boolean''"
| "type_name JDiscarded = ''discarded''"
| "type_name _ = ''number''"

text \<open>
  \<open>exception::name\<close> and the messages of \<open>type_error\<close>; without \<open>JSON_DIAGNOSTICS\<close> the
  diagnostics are empty.
\<close>

definition json_exception_name :: "string \<Rightarrow> nat \<Rightarrow> string" where
  "json_exception_name ename i = ''[json.exception.'' @ ename @ ''.'' @ to_decimal i @ ''] ''"

definition json_type_error :: "nat \<Rightarrow> string \<Rightarrow> exn" where
  "json_type_error i what_arg = JsonError (json_exception_name ''type_error'' i @ what_arg)"

section \<open>Access\<close>

text \<open>
  \<open>operator[]\<close> makes a null value an object, and puts a null where the key is missing. The
  element, and the value itself as it is afterwards.
\<close>

definition json_index :: "string \<Rightarrow> json \<Rightarrow> exn + json \<times> json" where
  "json_index key j =
     (let j = (if j = JNull then JObject [] else j)
      in case j of
           JObject ps \<Rightarrow> (case obj_find key ps of
               Some v \<Rightarrow> Inr (v, JObject ps)
             | None \<Rightarrow> Inr (JNull, JObject (obj_put key JNull ps)))
         | _ \<Rightarrow> Inl (json_type_error 305
             (''cannot use operator[] with a string argument with '' @ type_name j)))"

text \<open>Reading an element: what \<open>operator[]\<close> may add is null, and reads as null again.\<close>

definition json_get :: "string \<Rightarrow> json \<Rightarrow> exn + json" where
  "json_get key j = (case json_index key j of Inl e \<Rightarrow> Inl e | Inr (v, _) \<Rightarrow> Inr v)"

lemma json_get_again: "json_index k j = Inr (v, j') \<Longrightarrow> json_get k' j' = json_get k' j"
  by (cases j) (auto simp: json_get_def json_index_def Let_def obj_find_def split: option.splits)

text \<open>\<open>j[key] = v\<close>\<close>

definition json_set :: "string \<Rightarrow> json \<Rightarrow> json \<Rightarrow> exn + json" where
  "json_set key v j = (case json_index key j of
       Inl e \<Rightarrow> Inl e
     | Inr (_, j') \<Rightarrow> (case j' of JObject ps \<Rightarrow> Inr (JObject (obj_put key v ps)) | _ \<Rightarrow> Inr j'))"

fun json_contains :: "string \<Rightarrow> json \<Rightarrow> bool" where
  "json_contains key (JObject ps) \<longleftrightarrow> obj_find key ps \<noteq> None"
| "json_contains key _ \<longleftrightarrow> False"

definition json_is_null :: "json \<Rightarrow> bool" where
  "json_is_null j \<longleftrightarrow> j = JNull"

section \<open>Conversions\<close>

definition json_to_string :: "json \<Rightarrow> exn + string" where
  "json_to_string j = (case j of JString s \<Rightarrow> Inr s
     | _ \<Rightarrow> Inl (json_type_error 302 (''type must be string, but is '' @ type_name j)))"

definition json_to_bool :: "json \<Rightarrow> exn + bool" where
  "json_to_bool j = (case j of JBool b \<Rightarrow> Inr b
     | _ \<Rightarrow> Inl (json_type_error 302 (''type must be boolean, but is '' @ type_name j)))"

text \<open>
  What the C library and the floating point of the machine do with doubles is a parameter: the
  double that \<open>strtod\<close> reads, and the cast of a double to 16 bits.
\<close>

record json_env =
  strtod :: "bytes \<Rightarrow> u64"
  double_to_int16 :: "u64 \<Rightarrow> u16"

text \<open>To a 16 bit integer: a number is cut to its low 16 bits, a boolean is 0 or 1.\<close>

definition json_to_int16 :: "json_env \<Rightarrow> json \<Rightarrow> exn + u16" where
  "json_to_int16 F j = (case j of
       JUInt n \<Rightarrow> Inr (ucast n)
     | JInt n \<Rightarrow> Inr (ucast n)
     | JFloat x \<Rightarrow> Inr (double_to_int16 F x)
     | JBool b \<Rightarrow> Inr (if b then 1 else 0)
     | _ \<Rightarrow> Inl (json_type_error 302 (''type must be number, but is '' @ type_name j)))"

end
