(* ===== verification/Json_Lexer.thy ===== *)
theory Json_Lexer
  imports Json_Value
begin

text \<open>
  The class \<open>lexer\<close> of json.hpp: it cuts a text into tokens, one byte at a time with one byte of
  \<open>unget\<close>, checks that strings are UTF-8, and keeps the position and the bytes of the token for
  the messages. The locale is the C locale. Comments are off where the library parses, so
  \<open>scan_comment\<close> is left out.
\<close>

section \<open>Tokens and the lexer\<close>

datatype token_type = uninitialized | literal_true | literal_false | literal_null | value_string
  | value_unsigned | value_integer | value_float | begin_array | begin_object | end_array
  | end_object | name_separator | value_separator | parse_error | end_of_input | literal_or_value

definition q_char :: char where "q_char = CHR 0x22"
definition bs_char :: char where "bs_char = CHR 0x5C"
definition apos :: char where "apos = CHR 0x27"

fun token_type_name :: "token_type \<Rightarrow> string" where
  "token_type_name uninitialized = ''<uninitialized>''"
| "token_type_name literal_true = ''true literal''"
| "token_type_name literal_false = ''false literal''"
| "token_type_name literal_null = ''null literal''"
| "token_type_name value_string = ''string literal''"
| "token_type_name value_unsigned = ''number literal''"
| "token_type_name value_integer = ''number literal''"
| "token_type_name value_float = ''number literal''"
| "token_type_name begin_array = [apos] @ ''['' @ [apos]"
| "token_type_name begin_object = [apos] @ ''{'' @ [apos]"
| "token_type_name end_array = [apos] @ '']'' @ [apos]"
| "token_type_name end_object = [apos] @ ''}'' @ [apos]"
| "token_type_name name_separator = [apos] @ '':'' @ [apos]"
| "token_type_name value_separator = [apos] @ '','' @ [apos]"
| "token_type_name parse_error = ''<parse error>''"
| "token_type_name end_of_input = ''end of input''"
| "token_type_name literal_or_value =
     [apos] @ ''['' @ [apos] @ '', '' @ [apos] @ ''{'' @ [apos] @ '', or a literal''"

text \<open>The current character is an \<open>int\<close>, -1 at the end of the input.\<close>

record json_lexer =
  ia :: bytes
  jcurrent :: int
  next_unget :: bool
  chars_read_total :: nat
  chars_read_current_line :: nat
  lines_read :: nat
  token_string :: bytes
  token_buffer :: bytes
  error_message :: string
  lex_integer :: u64
  lex_unsigned :: u64
  lex_float :: u64

definition new_lexer :: "bytes \<Rightarrow> json_lexer" where
  "new_lexer input = \<lparr>ia = input, jcurrent = -1, next_unget = False, chars_read_total = 0,
     chars_read_current_line = 0, lines_read = 0, token_string = [], token_buffer = [],
     error_message = [], lex_integer = 0, lex_unsigned = 0, lex_float = 0\<rparr>"

section \<open>Input\<close>

definition get_character :: "json_lexer \<Rightarrow> json_lexer" where
  "get_character s = (case ia s of
       [] \<Rightarrow> s\<lparr>jcurrent := -1\<rparr>
     | b # bs \<Rightarrow> s\<lparr>ia := bs, jcurrent := uint b\<rparr>)"

definition lexer_get :: "(json_lexer, int) prog" where
  "lexer_get =
     bindM (modifyM (\<lambda>s.
       let s = s\<lparr>chars_read_total := chars_read_total s + 1,
                 chars_read_current_line := chars_read_current_line s + 1\<rparr>;
           s = (if next_unget s then s\<lparr>next_unget := False\<rparr> else get_character s);
           s = (if jcurrent s \<noteq> -1
                then s\<lparr>token_string := token_string s @ [word_of_int (jcurrent s)]\<rparr> else s)
       in if jcurrent s = 10
          then s\<lparr>lines_read := lines_read s + 1, chars_read_current_line := 0\<rparr> else s))
       (\<lambda>_. getsM jcurrent)"

definition lexer_unget :: "(json_lexer, unit) prog" where
  "lexer_unget = modifyM (\<lambda>s.
     let s = s\<lparr>next_unget := True, chars_read_total := chars_read_total s - 1\<rparr>;
         s = (if chars_read_current_line s = 0 then
                (if lines_read s > 0 then s\<lparr>lines_read := lines_read s - 1\<rparr> else s)
              else s\<lparr>chars_read_current_line := chars_read_current_line s - 1\<rparr>)
     in if jcurrent s \<noteq> -1 then s\<lparr>token_string := butlast (token_string s)\<rparr> else s)"

definition lexer_add :: "int \<Rightarrow> (json_lexer, unit) prog" where
  "lexer_add c = modifyM (\<lambda>s. s\<lparr>token_buffer := token_buffer s @ [word_of_int c]\<rparr>)"

definition lexer_reset :: "(json_lexer, unit) prog" where
  "lexer_reset = modifyM (\<lambda>s. s\<lparr>token_buffer := [], token_string := [word_of_int (jcurrent s)]\<rparr>)"

text \<open>\<open>error_message = msg; return token_type::parse_error;\<close>\<close>

definition lexer_error :: "string \<Rightarrow> (json_lexer, token_type) prog" where
  "lexer_error msg =
     bindM (modifyM (\<lambda>s. s\<lparr>error_message := msg\<rparr>)) (\<lambda>_. returnM parse_error)"

section \<open>Literals\<close>

fun scan_literal_from :: "int list \<Rightarrow> token_type \<Rightarrow> (json_lexer, token_type) prog" where
  "scan_literal_from [] t = returnM t"
| "scan_literal_from (c # cs) t = bindM lexer_get (\<lambda>d.
     if d \<noteq> c then lexer_error ''invalid literal'' else scan_literal_from cs t)"

definition scan_literal :: "string \<Rightarrow> token_type \<Rightarrow> (json_lexer, token_type) prog" where
  "scan_literal text t = scan_literal_from (map uint (tl (bytes_of_string text))) t"

section \<open>Strings\<close>

text \<open>Four hexadecimal digits; -1 when there is another character.\<close>

fun get_codepoint_from :: "nat list \<Rightarrow> int \<Rightarrow> (json_lexer, int) prog" where
  "get_codepoint_from [] codepoint = returnM codepoint"
| "get_codepoint_from (factor # factors) codepoint = bindM lexer_get (\<lambda>c.
     if 0x30 \<le> c \<and> c \<le> 0x39 then get_codepoint_from factors (codepoint + (c - 0x30) * 2 ^ factor)
     else if 0x41 \<le> c \<and> c \<le> 0x46 then get_codepoint_from factors (codepoint + (c - 0x37) * 2 ^ factor)
     else if 0x61 \<le> c \<and> c \<le> 0x66 then get_codepoint_from factors (codepoint + (c - 0x57) * 2 ^ factor)
     else returnM (-1))"

definition get_codepoint :: "(json_lexer, int) prog" where
  "get_codepoint = get_codepoint_from [12, 8, 4, 0] 0"

fun bytes_in_range :: "(int \<times> int) list \<Rightarrow> (json_lexer, bool) prog" where
  "bytes_in_range [] = returnM True"
| "bytes_in_range ((lo, hi) # ranges) = bindM lexer_get (\<lambda>c.
     if lo \<le> c \<and> c \<le> hi then bindM (lexer_add c) (\<lambda>_. bytes_in_range ranges)
     else bindM (modifyM (\<lambda>s. s\<lparr>error_message := ''invalid string: ill-formed UTF-8 byte''\<rparr>))
            (\<lambda>_. returnM False))"

definition next_byte_in_range :: "(int \<times> int) list \<Rightarrow> (json_lexer, bool) prog" where
  "next_byte_in_range ranges =
     bindM (getsM jcurrent) (\<lambda>c. bindM (lexer_add c) (\<lambda>_. bytes_in_range ranges))"

text \<open>The bytes of a code point in UTF-8.\<close>

definition add_codepoint :: "int \<Rightarrow> (json_lexer, unit) prog" where
  "add_codepoint cp =
     (if cp < 0x80 then lexer_add cp
      else if cp \<le> 0x7FF then blockM [lexer_add (0xC0 OR cp div 2 ^ 6), lexer_add (0x80 OR (cp AND 0x3F))]
      else if cp \<le> 0xFFFF then blockM [lexer_add (0xE0 OR cp div 2 ^ 12),
        lexer_add (0x80 OR (cp div 2 ^ 6 AND 0x3F)), lexer_add (0x80 OR (cp AND 0x3F))]
      else blockM [lexer_add (0xF0 OR cp div 2 ^ 18), lexer_add (0x80 OR (cp div 2 ^ 12 AND 0x3F)),
        lexer_add (0x80 OR (cp div 2 ^ 6 AND 0x3F)), lexer_add (0x80 OR (cp AND 0x3F))])"

text \<open>What follows \<open>\u\<close>, or the reason why it is wrong.\<close>

definition surrogate_message :: string where
  "surrogate_message =
     ''invalid string: surrogate U+D800..U+DBFF must be followed by U+DC00..U+DFFF''"

definition hex_message :: string where
  "hex_message = ''invalid string: '' @ [apos, bs_char] @ ''u'' @ [apos] @ '' must be followed by 4 hex digits''"

text \<open>The second half of a pair of surrogates, which must follow the first.\<close>

definition scan_low_surrogate :: "int \<Rightarrow> (json_lexer, string + int) prog" where
  "scan_low_surrogate codepoint1 =
     bindM (bindM lexer_get (\<lambda>c. if c = 0x5C then bindM lexer_get (\<lambda>d. returnM (d = 0x75))
       else returnM False)) (\<lambda>escape.
     if escape then
       bindM get_codepoint (\<lambda>codepoint2.
       if codepoint2 = -1 then returnM (Inl hex_message)
       else if 0xDC00 \<le> codepoint2 \<and> codepoint2 \<le> 0xDFFF then
         returnM (Inr (codepoint1 * 2 ^ 10 + codepoint2 - 0x35FDC00))
       else returnM (Inl surrogate_message))
     else returnM (Inl surrogate_message))"

definition scan_unicode :: "(json_lexer, string + int) prog" where
  "scan_unicode = bindM get_codepoint (\<lambda>codepoint1.
     if codepoint1 = -1 then returnM (Inl hex_message)
     else if 0xD800 \<le> codepoint1 \<and> codepoint1 \<le> 0xDBFF then scan_low_surrogate codepoint1
     else if 0xDC00 \<le> codepoint1 \<and> codepoint1 \<le> 0xDFFF then
       returnM (Inl ''invalid string: surrogate U+DC00..U+DFFF must follow U+D800..U+DBFF'')
     else returnM (Inr codepoint1))"

definition string_error :: "string \<Rightarrow> (json_lexer, unit + token_type) prog" where
  "string_error msg = bindM (lexer_error msg) (\<lambda>t. returnM (Inr t))"

definition string_add :: "int \<Rightarrow> (json_lexer, unit + token_type) prog" where
  "string_add c = bindM (lexer_add c) (\<lambda>_. returnM (Inl ()))"

definition scan_escape :: "(json_lexer, unit + token_type) prog" where
  "scan_escape = bindM lexer_get (\<lambda>c.
     if c = 0x22 then string_add 0x22
     else if c = 0x5C then string_add 0x5C
     else if c = 0x2F then string_add 0x2F
     else if c = 0x62 then string_add 0x08
     else if c = 0x66 then string_add 0x0C
     else if c = 0x6E then string_add 0x0A
     else if c = 0x72 then string_add 0x0D
     else if c = 0x74 then string_add 0x09
     else if c = 0x75 then bindM scan_unicode (\<lambda>r. case r of
         Inl msg \<Rightarrow> string_error msg
       | Inr cp \<Rightarrow> bindM (add_codepoint cp) (\<lambda>_. returnM (Inl ())))
     else string_error ''invalid string: forbidden character after backslash'')"

definition hex_upper :: "nat \<Rightarrow> char" where
  "hex_upper n = (if n < 10 then char_of (48 + n) else char_of (55 + n))"

definition control_names :: "string list" where
  "control_names = [''NUL'', ''SOH'', ''STX'', ''ETX'', ''EOT'', ''ENQ'', ''ACK'', ''BEL'', ''BS'', ''HT'',
     ''LF'', ''VT'', ''FF'', ''CR'', ''SO'', ''SI'', ''DLE'', ''DC1'', ''DC2'', ''DC3'', ''DC4'', ''NAK'', ''SYN'',
     ''ETB'', ''CAN'', ''EM'', ''SUB'', ''ESC'', ''FS'', ''GS'', ''RS'', ''US'']"

definition control_message :: "int \<Rightarrow> string" where
  "control_message c =
     (let n = nat c; code = ''00'' @ [hex_upper (n div 16), hex_upper (n mod 16)];
          short = (if c = 0x08 then ''b'' else if c = 0x09 then ''t'' else if c = 0x0A then ''n''
                   else if c = 0x0C then ''f'' else if c = 0x0D then ''r'' else [])
      in ''invalid string: control character U+'' @ code @ '' ('' @ control_names ! n
         @ '') must be escaped to '' @ [bs_char] @ ''u'' @ code
         @ (if short = [] then [] else '' or '' @ [bs_char] @ short))"

text \<open>The bytes that may follow the first byte of a character of more than one.\<close>

definition utf8_ranges :: "int \<Rightarrow> (int \<times> int) list option" where
  "utf8_ranges c =
     (if 0xC2 \<le> c \<and> c \<le> 0xDF then Some [(0x80, 0xBF)]
      else if c = 0xE0 then Some [(0xA0, 0xBF), (0x80, 0xBF)]
      else if (0xE1 \<le> c \<and> c \<le> 0xEC) \<or> c = 0xEE \<or> c = 0xEF then Some [(0x80, 0xBF), (0x80, 0xBF)]
      else if c = 0xED then Some [(0x80, 0x9F), (0x80, 0xBF)]
      else if c = 0xF0 then Some [(0x90, 0xBF), (0x80, 0xBF), (0x80, 0xBF)]
      else if 0xF1 \<le> c \<and> c \<le> 0xF3 then Some [(0x80, 0xBF), (0x80, 0xBF), (0x80, 0xBF)]
      else if c = 0xF4 then Some [(0x80, 0x8F), (0x80, 0xBF), (0x80, 0xBF)]
      else None)"

text \<open>The characters that stand for themselves.\<close>

definition string_plain :: "int \<Rightarrow> bool" where
  "string_plain c \<longleftrightarrow> 0x20 \<le> c \<and> c \<le> 0x7F \<and> c \<noteq> 0x22 \<and> c \<noteq> 0x5C"

definition scan_string_round :: "unit \<Rightarrow> (json_lexer, unit + token_type) prog" where
  "scan_string_round = (\<lambda>_. bindM lexer_get (\<lambda>c.
     if c = -1 then string_error ''invalid string: missing closing quote''
     else if c = 0x22 then returnM (Inr value_string)
     else if c = 0x5C then scan_escape
     else if 0 \<le> c \<and> c \<le> 0x1F then string_error (control_message c)
     else if string_plain c then string_add c
     else (case utf8_ranges c of
         Some ranges \<Rightarrow> bindM (next_byte_in_range ranges) (\<lambda>ok.
           if ok then returnM (Inl ()) else returnM (Inr parse_error))
       | None \<Rightarrow> string_error ''invalid string: ill-formed UTF-8 byte'')))"

definition scan_string :: "(json_lexer, token_type) prog" where
  "scan_string = bindM lexer_reset (\<lambda>_. loopM scan_string_round ())"

section \<open>Numbers\<close>

text \<open>The labels of the scanner, and the type of the number so far.\<close>

datatype number_state = number_minus | number_zero | number_any1 | number_decimal1
  | number_decimal2 | number_exponent | number_sign | number_any2

definition digit :: "int \<Rightarrow> bool" where
  "digit c \<longleftrightarrow> 0x30 \<le> c \<and> c \<le> 0x39"

text \<open>
  One label: \<open>Inl\<close> goes on at another, \<open>Inr (Some t)\<close> is done with a number of type \<open>t\<close>, and
  \<open>Inr None\<close> has set the error message.
\<close>

type_synonym number_step = "(number_state \<times> token_type) + token_type option"

definition number_add :: "int \<Rightarrow> number_state \<times> token_type \<Rightarrow> (json_lexer, number_step) prog" where
  "number_add c st = bindM (lexer_add c) (\<lambda>_. returnM (Inl st))"

definition number_error :: "string \<Rightarrow> (json_lexer, number_step) prog" where
  "number_error msg = bindM (lexer_error msg) (\<lambda>_. returnM (Inr None))"

text \<open>The three labels after an exponent, and the other five.\<close>

definition scan_exponent_round :: "number_state \<times> token_type \<Rightarrow> (json_lexer, number_step) prog" where
  "scan_exponent_round = (\<lambda>(st, t). case st of
       number_exponent \<Rightarrow> bindM lexer_get (\<lambda>c.
         if c = 0x2B \<or> c = 0x2D then number_add c (number_sign, value_float)
         else if digit c then number_add c (number_any2, value_float)
         else number_error (''invalid number; expected '' @ [apos] @ ''+'' @ [apos] @ '', '' @ [apos] @ ''-'' @ [apos]
           @ '', or digit after exponent''))
     | number_sign \<Rightarrow> bindM lexer_get (\<lambda>c.
         if digit c then number_add c (number_any2, t)
         else number_error ''invalid number; expected digit after exponent sign'')
     | number_any2 \<Rightarrow> bindM lexer_get (\<lambda>c.
         if digit c then number_add c (number_any2, t)
         else returnM (Inr (Some t)))
     | _ \<Rightarrow> returnM (Inr None))"

definition scan_number_round :: "number_state \<times> token_type \<Rightarrow> (json_lexer, number_step) prog" where
  "scan_number_round = (\<lambda>(st, t). case st of
       number_minus \<Rightarrow> bindM lexer_get (\<lambda>c.
         if c = 0x30 then number_add c (number_zero, value_integer)
         else if digit c then number_add c (number_any1, value_integer)
         else number_error (''invalid number; expected digit after '' @ [apos] @ ''-'' @ [apos]))
     | number_zero \<Rightarrow> bindM lexer_get (\<lambda>c.
         if c = 0x2E then number_add 0x2E (number_decimal1, t)
         else if c = 0x65 \<or> c = 0x45 then number_add c (number_exponent, t)
         else returnM (Inr (Some t)))
     | number_any1 \<Rightarrow> bindM lexer_get (\<lambda>c.
         if digit c then number_add c (number_any1, t)
         else if c = 0x2E then number_add 0x2E (number_decimal1, t)
         else if c = 0x65 \<or> c = 0x45 then number_add c (number_exponent, t)
         else returnM (Inr (Some t)))
     | number_decimal1 \<Rightarrow> bindM lexer_get (\<lambda>c.
         if digit c then number_add c (number_decimal2, value_float)
         else number_error (''invalid number; expected digit after '' @ [apos] @ ''.'' @ [apos]))
     | number_decimal2 \<Rightarrow> bindM lexer_get (\<lambda>c.
         if digit c then number_add c (number_decimal2, t)
         else if c = 0x65 \<or> c = 0x45 then number_add c (number_exponent, t)
         else returnM (Inr (Some t)))
     | _ \<Rightarrow> scan_exponent_round (st, t))"

text \<open>
  \<open>strtoull\<close> and \<open>strtoll\<close> on the digits in the buffer, which have been checked; \<open>None\<close> when
  they set \<open>errno\<close>.
\<close>

definition strtoull :: "bytes \<Rightarrow> u64 option" where
  "strtoull b = (if digits_value b < 2 ^ 64 then Some (of_nat (digits_value b)) else None)"

definition strtoll :: "bytes \<Rightarrow> u64 option" where
  "strtoll b = (if digits_value (tl b) \<le> 2 ^ 63 then Some (- of_nat (digits_value (tl b))) else None)"

definition scan_number_done :: "json_env \<Rightarrow> token_type \<Rightarrow> (json_lexer, token_type) prog" where
  "scan_number_done F number_type =
     bindM lexer_unget (\<lambda>_.
     bindM (getsM token_buffer) (\<lambda>b.
     let as_float = bindM (modifyM (\<lambda>s. s\<lparr>lex_float := strtod F b\<rparr>)) (\<lambda>_. returnM value_float)
     in if number_type = value_unsigned then
          (case strtoull b of
             Some x \<Rightarrow> bindM (modifyM (\<lambda>s. s\<lparr>lex_unsigned := x\<rparr>)) (\<lambda>_. returnM value_unsigned)
           | None \<Rightarrow> as_float)
        else if number_type = value_integer then
          (case strtoll b of
             Some x \<Rightarrow> bindM (modifyM (\<lambda>s. s\<lparr>lex_integer := x\<rparr>)) (\<lambda>_. returnM value_integer)
           | None \<Rightarrow> as_float)
        else as_float))"

definition scan_number :: "json_env \<Rightarrow> (json_lexer, token_type) prog" where
  "scan_number F =
     bindM lexer_reset (\<lambda>_.
     bindM (getsM jcurrent) (\<lambda>c.
     bindM (lexer_add c) (\<lambda>_.
     bindM (loopM scan_number_round
       (if c = 0x2D then number_minus else if c = 0x30 then number_zero else number_any1,
        value_unsigned)) (\<lambda>r.
     case r of None \<Rightarrow> returnM parse_error | Some t \<Rightarrow> scan_number_done F t))))"

section \<open>The scanner\<close>

definition skip_bom :: "(json_lexer, bool) prog" where
  "skip_bom = bindM lexer_get (\<lambda>c.
     if c = 0xEF then
       bindM lexer_get (\<lambda>d. if d = 0xBB then bindM lexer_get (\<lambda>e. returnM (e = 0xBF)) else returnM False)
     else bindM lexer_unget (\<lambda>_. returnM True))"

definition json_space :: "int \<Rightarrow> bool" where
  "json_space c \<longleftrightarrow> c = 0x20 \<or> c = 0x09 \<or> c = 0x0A \<or> c = 0x0D"

definition skip_whitespace :: "(json_lexer, unit) prog" where
  "skip_whitespace = loopM (\<lambda>_. bindM lexer_get (\<lambda>c.
     returnM (if json_space c then Inl () else Inr ()))) ()"

definition scan_token :: "json_env \<Rightarrow> int \<Rightarrow> (json_lexer, token_type) prog" where
  "scan_token F c =
     (if c = 0x5B then returnM begin_array
      else if c = 0x5D then returnM end_array
      else if c = 0x7B then returnM begin_object
      else if c = 0x7D then returnM end_object
      else if c = 0x3A then returnM name_separator
      else if c = 0x2C then returnM value_separator
      else if c = 0x74 then scan_literal ''true'' literal_true
      else if c = 0x66 then scan_literal ''false'' literal_false
      else if c = 0x6E then scan_literal ''null'' literal_null
      else if c = 0x22 then scan_string
      else if c = 0x2D \<or> digit c then scan_number F
      else if c = 0 \<or> c = -1 then returnM end_of_input
      else lexer_error ''invalid literal'')"

definition scan :: "json_env \<Rightarrow> (json_lexer, token_type) prog" where
  "scan F =
     bindM (bindM (getsM chars_read_total) (\<lambda>n. if n = 0 then skip_bom else returnM True)) (\<lambda>ok.
     if \<not> ok then
       lexer_error ''invalid BOM; must be 0xEF 0xBB 0xBF if given''
     else bindM skip_whitespace (\<lambda>_. bindM (getsM jcurrent) (scan_token F)))"

section \<open>Diagnostics\<close>

text \<open>Control characters are printed as \<open><U+XXXX>\<close>.\<close>

definition token_char :: "u8 \<Rightarrow> string" where
  "token_char c = (if c \<le> 0x1F then
       ''<U+00'' @ [hex_upper (unat c div 16), hex_upper (unat c mod 16)] @ ''>''
     else [char_of_byte c])"

definition get_token_string :: "json_lexer \<Rightarrow> string" where
  "get_token_string s = concat (map token_char (token_string s))"

end
