(* ===== verification/Json_Dtoa.thy ===== *)
theory Json_Dtoa
  imports Libc "HOL-Library.Monad_Syntax" "HOL-Library.Signed_Division"
begin

text \<open>
  The namespace \<open>dtoa_impl\<close> of json.hpp and \<open>to_chars\<close>: doubles are printed with the algorithm
  Grisu2 of Loitsch. A double is its 64 bits. The functions return \<open>None\<close> when an assertion
  (\<open>JSON_ASSERT\<close>) fails or when a loop does not end. The character buffer with its length
  is the list of the characters that are in it; an \<open>int\<close> is an integer, its values are below 2000.
\<close>

definition json_assert :: "bool \<Rightarrow> unit option" where
  "json_assert b = (if b then Some () else None)"

section \<open>Floating point numbers with a significand of 64 bits\<close>

record diyfp =
  dy_f :: u64
  dy_e :: int

abbreviation diyfp_of :: "u64 \<Rightarrow> int \<Rightarrow> diyfp" where
  "diyfp_of f e \<equiv> \<lparr>dy_f = f, dy_e = e\<rparr>"

definition diyfp_sub :: "diyfp \<Rightarrow> diyfp \<Rightarrow> diyfp option" where
  "diyfp_sub x y = do {
     json_assert (dy_e x = dy_e y);
     json_assert (dy_f x \<ge> dy_f y);
     Some (diyfp_of (dy_f x - dy_f y) (dy_e x))
   }"

definition diyfp_mul :: "diyfp \<Rightarrow> diyfp \<Rightarrow> diyfp" where
  "diyfp_mul x y =
     (let u_lo = dy_f x AND 0xFFFFFFFF;
          u_hi = drop_bit 32 (dy_f x);
          v_lo = dy_f y AND 0xFFFFFFFF;
          v_hi = drop_bit 32 (dy_f y);
          p0 = u_lo * v_lo;
          p1 = u_lo * v_hi;
          p2 = u_hi * v_lo;
          p3 = u_hi * v_hi;
          p0_hi = drop_bit 32 p0;
          p1_lo = p1 AND 0xFFFFFFFF;
          p1_hi = drop_bit 32 p1;
          p2_lo = p2 AND 0xFFFFFFFF;
          p2_hi = drop_bit 32 p2;
          Q = p0_hi + p1_lo + p2_lo;
          Q = Q + push_bit (64 - 32 - 1) 1;
          h = p3 + p2_hi + p1_hi + drop_bit 32 Q
      in diyfp_of h (dy_e x + dy_e y + 64))"

partial_function (option) normalize_loop :: "diyfp \<Rightarrow> diyfp option" where
  "normalize_loop x =
     (if drop_bit 63 (dy_f x) = 0 then normalize_loop (diyfp_of (push_bit 1 (dy_f x)) (dy_e x - 1))
      else Some x)"

declare normalize_loop.simps [code]

definition diyfp_normalize :: "diyfp \<Rightarrow> diyfp option" where
  "diyfp_normalize x = do {
     json_assert (dy_f x \<noteq> 0);
     normalize_loop x
   }"

definition diyfp_normalize_to :: "diyfp \<Rightarrow> int \<Rightarrow> diyfp option" where
  "diyfp_normalize_to x target_exponent =
     (let delta = dy_e x - target_exponent
      in do {
        json_assert (delta \<ge> 0);
        json_assert (drop_bit (nat delta) (push_bit (nat delta) (dy_f x)) = dy_f x);
        Some (diyfp_of (push_bit (nat delta) (dy_f x)) target_exponent)
      })"

section \<open>The boundaries of a double\<close>

record boundaries =
  bd_w :: diyfp
  bd_minus :: diyfp
  bd_plus :: diyfp

definition kPrecision :: nat where "kPrecision = 53"
definition kBias :: int where "kBias = 1024 - 1 + (int kPrecision - 1)"
definition kMinExp :: int where "kMinExp = 1 - kBias"
definition kHiddenBit :: u64 where "kHiddenBit = push_bit (kPrecision - 1) 1"

definition signbit :: "u64 \<Rightarrow> bool" where
  "signbit x \<longleftrightarrow> bit x 63"

text \<open>The comparison \<open>value > 0\<close> of a finite double.\<close>

definition is_positive :: "u64 \<Rightarrow> bool" where
  "is_positive x \<longleftrightarrow> \<not> signbit x \<and> x \<noteq> 0"

definition compute_boundaries :: "u64 \<Rightarrow> boundaries option" where
  "compute_boundaries value = do {
     json_assert (double_is_finite value);
     json_assert (is_positive value);
     let E = drop_bit (kPrecision - 1) value;
     let F = value AND (kHiddenBit - 1);
     let is_denormal = (E = 0);
     let v = (if is_denormal then diyfp_of F kMinExp
              else diyfp_of (F + kHiddenBit) (uint E - kBias));
     let lower_boundary_is_closer = (F = 0 \<and> E > 1);
     let m_plus = diyfp_of (2 * dy_f v + 1) (dy_e v - 1);
     let m_minus = (if lower_boundary_is_closer then diyfp_of (4 * dy_f v - 1) (dy_e v - 2)
                    else diyfp_of (2 * dy_f v - 1) (dy_e v - 1));
     w_plus \<leftarrow> diyfp_normalize m_plus;
     w_minus \<leftarrow> diyfp_normalize_to m_minus (dy_e w_plus);
     w \<leftarrow> diyfp_normalize v;
     Some \<lparr>bd_w = w, bd_minus = w_minus, bd_plus = w_plus\<rparr>
   }"

section \<open>The powers of ten\<close>

definition kAlpha :: int where "kAlpha = -60"
definition kGamma :: int where "kGamma = -32"

record cached_power =
  cp_f :: u64
  cp_e :: int
  cp_k :: int

definition kCachedPowersMinDecExp :: int where "kCachedPowersMinDecExp = -300"
definition kCachedPowersDecStep :: int where "kCachedPowersDecStep = 8"

definition kCachedPowers :: "(u64 \<times> int \<times> int) list" where
  "kCachedPowers =
   [(0xAB70FE17C79AC6CA, -1060, -300), (0xFF77B1FCBEBCDC4F, -1034, -292),
    (0xBE5691EF416BD60C, -1007, -284), (0x8DD01FAD907FFC3C, -980, -276),
    (0xD3515C2831559A83, -954, -268), (0x9D71AC8FADA6C9B5, -927, -260),
    (0xEA9C227723EE8BCB, -901, -252), (0xAECC49914078536D, -874, -244),
    (0x823C12795DB6CE57, -847, -236), (0xC21094364DFB5637, -821, -228),
    (0x9096EA6F3848984F, -794, -220), (0xD77485CB25823AC7, -768, -212),
    (0xA086CFCD97BF97F4, -741, -204), (0xEF340A98172AACE5, -715, -196),
    (0xB23867FB2A35B28E, -688, -188), (0x84C8D4DFD2C63F3B, -661, -180),
    (0xC5DD44271AD3CDBA, -635, -172), (0x936B9FCEBB25C996, -608, -164),
    (0xDBAC6C247D62A584, -582, -156), (0xA3AB66580D5FDAF6, -555, -148),
    (0xF3E2F893DEC3F126, -529, -140), (0xB5B5ADA8AAFF80B8, -502, -132),
    (0x87625F056C7C4A8B, -475, -124), (0xC9BCFF6034C13053, -449, -116),
    (0x964E858C91BA2655, -422, -108), (0xDFF9772470297EBD, -396, -100),
    (0xA6DFBD9FB8E5B88F, -369, -92), (0xF8A95FCF88747D94, -343, -84),
    (0xB94470938FA89BCF, -316, -76), (0x8A08F0F8BF0F156B, -289, -68),
    (0xCDB02555653131B6, -263, -60), (0x993FE2C6D07B7FAC, -236, -52),
    (0xE45C10C42A2B3B06, -210, -44), (0xAA242499697392D3, -183, -36),
    (0xFD87B5F28300CA0E, -157, -28), (0xBCE5086492111AEB, -130, -20),
    (0x8CBCCC096F5088CC, -103, -12), (0xD1B71758E219652C, -77, -4),
    (0x9C40000000000000, -50, 4), (0xE8D4A51000000000, -24, 12),
    (0xAD78EBC5AC620000, 3, 20), (0x813F3978F8940984, 30, 28),
    (0xC097CE7BC90715B3, 56, 36), (0x8F7E32CE7BEA5C70, 83, 44),
    (0xD5D238A4ABE98068, 109, 52), (0x9F4F2726179A2245, 136, 60),
    (0xED63A231D4C4FB27, 162, 68), (0xB0DE65388CC8ADA8, 189, 76),
    (0x83C7088E1AAB65DB, 216, 84), (0xC45D1DF942711D9A, 242, 92),
    (0x924D692CA61BE758, 269, 100), (0xDA01EE641A708DEA, 295, 108),
    (0xA26DA3999AEF774A, 322, 116), (0xF209787BB47D6B85, 348, 124),
    (0xB454E4A179DD1877, 375, 132), (0x865B86925B9BC5C2, 402, 140),
    (0xC83553C5C8965D3D, 428, 148), (0x952AB45CFA97A0B3, 455, 156),
    (0xDE469FBD99A05FE3, 481, 164), (0xA59BC234DB398C25, 508, 172),
    (0xF6C69A72A3989F5C, 534, 180), (0xB7DCBF5354E9BECE, 561, 188),
    (0x88FCF317F22241E2, 588, 196), (0xCC20CE9BD35C78A5, 614, 204),
    (0x98165AF37B2153DF, 641, 212), (0xE2A0B5DC971F303A, 667, 220),
    (0xA8D9D1535CE3B396, 694, 228), (0xFB9B7CD9A4A7443C, 720, 236),
    (0xBB764C4CA7A44410, 747, 244), (0x8BAB8EEFB6409C1A, 774, 252),
    (0xD01FEF10A657842C, 800, 260), (0x9B10A4E5E9913129, 827, 268),
    (0xE7109BFBA19C0C9D, 853, 276), (0xAC2820D9623BF429, 880, 284),
    (0x80444B5E7AA7CF85, 907, 292), (0xBF21E44003ACDD2D, 933, 300),
    (0x8E679C2F5E44FF8F, 960, 308), (0xD433179D9C8CB841, 986, 316),
    (0x9E19DB92B4E31BA9, 1013, 324)]"

definition get_cached_power_for_binary_exponent :: "int \<Rightarrow> cached_power option" where
  "get_cached_power_for_binary_exponent e = do {
     json_assert (e \<ge> -1500);
     json_assert (e \<le> 1500);
     let f = kAlpha - e - 1;
     let k = (f * 78913) sdiv 262144 + (if f > 0 then 1 else 0);
     let index = (- kCachedPowersMinDecExp + k + (kCachedPowersDecStep - 1)) sdiv kCachedPowersDecStep;
     json_assert (index \<ge> 0);
     json_assert (nat index < length kCachedPowers);
     let cached = (case kCachedPowers ! nat index of (f, e, k) \<Rightarrow> \<lparr>cp_f = f, cp_e = e, cp_k = k\<rparr>);
     json_assert (kAlpha \<le> cp_e cached + e + 64);
     json_assert (kGamma \<ge> cp_e cached + e + 64);
     Some cached
   }"

section \<open>The digits\<close>

text \<open>The number of digits, and the power of ten of the first one.\<close>

definition find_largest_pow10 :: "u32 \<Rightarrow> nat \<times> u32" where
  "find_largest_pow10 n =
     (if n \<ge> 1000000000 then (10, 1000000000)
      else if n \<ge> 100000000 then (9, 100000000)
      else if n \<ge> 10000000 then (8, 10000000)
      else if n \<ge> 1000000 then (7, 1000000)
      else if n \<ge> 100000 then (6, 100000)
      else if n \<ge> 10000 then (5, 10000)
      else if n \<ge> 1000 then (4, 1000)
      else if n \<ge> 100 then (3, 100)
      else if n \<ge> 10 then (2, 10)
      else (1, 1))"

partial_function (option) round_loop :: "bytes \<Rightarrow> u64 \<Rightarrow> u64 \<Rightarrow> u64 \<Rightarrow> u64 \<Rightarrow> bytes option" where
  "round_loop buf dist_w delta rest ten_k =
     (if rest < dist_w \<and> delta - rest \<ge> ten_k \<and> (rest + ten_k < dist_w \<or> dist_w - rest > rest + ten_k - dist_w)
      then Option.bind (json_assert (last buf \<noteq> 48))
        (\<lambda>_. round_loop (butlast buf @ [last buf - 1]) dist_w delta (rest + ten_k) ten_k)
      else Some buf)"

declare round_loop.simps [code]

definition grisu2_round :: "bytes \<Rightarrow> u64 \<Rightarrow> u64 \<Rightarrow> u64 \<Rightarrow> u64 \<Rightarrow> bytes option" where
  "grisu2_round buf dist_w delta rest ten_k = do {
     json_assert (length buf \<ge> 1);
     json_assert (dist_w \<le> delta);
     json_assert (rest \<le> delta);
     json_assert (ten_k > 0);
     round_loop buf dist_w delta rest ten_k
   }"

text \<open>
  The loop over the digits of the integral part, with \<open>n\<close> digits to go: it ends with the result
  (\<open>Inl\<close>), the digits and the decimal exponent, or with all the digits of \<open>p1\<close> in the buffer (\<open>Inr\<close>).
\<close>

fun integral_digits :: "diyfp \<Rightarrow> u64 \<Rightarrow> u64 \<Rightarrow> u64 \<Rightarrow> int \<Rightarrow> nat \<Rightarrow> bytes \<Rightarrow> u32 \<Rightarrow> u32 \<Rightarrow> (bytes \<times> int + bytes) option" where
  "integral_digits one delta dist_w p2 decimal_exponent 0 buffer p1 pow10 = Some (Inr buffer)"
| "integral_digits one delta dist_w p2 decimal_exponent (Suc n) buffer p1 pow10 =
     (let d = p1 div pow10;
          r = p1 mod pow10;
          buffer' = buffer @ [48 + ucast d];
          p1 = r;
          rest = push_bit (nat (- dy_e one)) (ucast p1) + p2
      in do {
        json_assert (d \<le> 9);
        if rest \<le> delta then do {
          let ten_n = push_bit (nat (- dy_e one)) (ucast pow10);
          buf \<leftarrow> grisu2_round buffer' dist_w delta rest ten_n;
          Some (Inl (buf, decimal_exponent + int n))
        } else integral_digits one delta dist_w p2 decimal_exponent n buffer' p1 (pow10 div 10)
      })"

text \<open>The loop over the digits after the point: it ends with \<open>buffer\<close>, \<open>m\<close>, \<open>delta\<close>, \<open>dist_w\<close> and \<open>p2\<close>.\<close>

partial_function (option) fraction_digits ::
  "diyfp \<Rightarrow> u64 \<Rightarrow> u64 \<Rightarrow> u64 \<Rightarrow> bytes \<Rightarrow> nat \<Rightarrow> (bytes \<times> nat \<times> u64 \<times> u64 \<times> u64) option" where
  "fraction_digits one delta dist_w p2 buffer m =
     Option.bind (json_assert (p2 \<le> 0xFFFFFFFFFFFFFFFF div 10)) (\<lambda>_.
       let p2 = p2 * 10;
           d = drop_bit (nat (- dy_e one)) p2;
           r = p2 AND (dy_f one - 1)
       in Option.bind (json_assert (d \<le> 9)) (\<lambda>_.
         let buffer = buffer @ [48 + ucast d];
             p2 = r;
             m = m + 1;
             delta = delta * 10;
             dist_w = dist_w * 10
         in if p2 \<le> delta then Some (buffer, m, delta, dist_w, p2)
            else fraction_digits one delta dist_w p2 buffer m))"

declare fraction_digits.simps [code]

definition grisu2_digit_gen :: "bytes \<Rightarrow> int \<Rightarrow> diyfp \<Rightarrow> diyfp \<Rightarrow> diyfp \<Rightarrow> (bytes \<times> int) option" where
  "grisu2_digit_gen buffer decimal_exponent M_minus w M_plus = do {
     json_assert (dy_e M_plus \<ge> kAlpha);
     json_assert (dy_e M_plus \<le> kGamma);
     delta \<leftarrow> diyfp_sub M_plus M_minus;
     dist_w \<leftarrow> diyfp_sub M_plus w;
     let delta = dy_f delta;
     let dist_w = dy_f dist_w;
     let one = diyfp_of (push_bit (nat (- dy_e M_plus)) 1) (dy_e M_plus);
     let p1 = (ucast (drop_bit (nat (- dy_e one)) (dy_f M_plus)) :: u32);
     let p2 = dy_f M_plus AND (dy_f one - 1);
     json_assert (p1 > 0);
     let (k, pow10) = find_largest_pow10 p1;
     r \<leftarrow> integral_digits one delta dist_w p2 decimal_exponent k buffer p1 pow10;
     (case r of
        Inl result \<Rightarrow> Some result
      | Inr buffer \<Rightarrow> do {
          json_assert (p2 > delta);
          (buffer, m, delta, dist_w, p2) \<leftarrow> fraction_digits one delta dist_w p2 buffer 0;
          let ten_m = dy_f one;
          buf \<leftarrow> grisu2_round buffer dist_w delta p2 ten_m;
          Some (buf, decimal_exponent - int m)
        })
   }"

definition grisu2_scaled :: "diyfp \<Rightarrow> diyfp \<Rightarrow> diyfp \<Rightarrow> (bytes \<times> int) option" where
  "grisu2_scaled m_minus v m_plus = do {
     json_assert (dy_e m_plus = dy_e m_minus);
     json_assert (dy_e m_plus = dy_e v);
     cached \<leftarrow> get_cached_power_for_binary_exponent (dy_e m_plus);
     let c_minus_k = diyfp_of (cp_f cached) (cp_e cached);
     let w = diyfp_mul v c_minus_k;
     let w_minus = diyfp_mul m_minus c_minus_k;
     let w_plus = diyfp_mul m_plus c_minus_k;
     let M_minus = diyfp_of (dy_f w_minus + 1) (dy_e w_minus);
     let M_plus = diyfp_of (dy_f w_plus - 1) (dy_e w_plus);
     let decimal_exponent = - cp_k cached;
     grisu2_digit_gen [] decimal_exponent M_minus w M_plus
   }"

text \<open>The digits of a positive double and their decimal exponent.\<close>

definition grisu2 :: "u64 \<Rightarrow> (bytes \<times> int) option" where
  "grisu2 value = do {
     json_assert (double_is_finite value);
     json_assert (is_positive value);
     w \<leftarrow> compute_boundaries value;
     grisu2_scaled (bd_minus w) (bd_w w) (bd_plus w)
   }"

section \<open>The text\<close>

definition append_exponent :: "bytes \<Rightarrow> int \<Rightarrow> bytes option" where
  "append_exponent buf e = do {
     json_assert (e > -1000);
     json_assert (e < 1000);
     let buf = buf @ [if e < 0 then 45 else 43];
     let k = nat (if e < 0 then - e else e);
     Some (if k < 10 then buf @ [48, of_nat (48 + k)]
           else if k < 100 then buf @ [of_nat (48 + k div 10), of_nat (48 + k mod 10)]
           else buf @ [of_nat (48 + k div 100), of_nat (48 + k mod 100 div 10), of_nat (48 + k mod 100 mod 10)])
   }"

definition format_buffer :: "bytes \<Rightarrow> int \<Rightarrow> int \<Rightarrow> int \<Rightarrow> bytes option" where
  "format_buffer buf decimal_exponent min_exp max_exp = do {
     json_assert (min_exp < 0);
     json_assert (max_exp > 0);
     let k = int (length buf);
     let n = int (length buf) + decimal_exponent;
     if k \<le> n \<and> n \<le> max_exp then Some (buf @ replicate (nat n - nat k) 48 @ [46, 48])
     else if 0 < n \<and> n \<le> max_exp then do {
       json_assert (k > n);
       Some (take (nat n) buf @ [46] @ drop (nat n) buf)
     }
     else if min_exp < n \<and> n \<le> 0 then Some ([48, 46] @ replicate (nat (- n)) 48 @ buf)
     else do {
       let buf = (if k = 1 then buf else take 1 buf @ [46] @ drop 1 buf);
       append_exponent (buf @ [101]) (n - 1)
     }
   }"

definition max_digits10 :: nat where "max_digits10 = 17"
definition to_chars_kMinExp :: int where "to_chars_kMinExp = -4"
definition to_chars_kMaxExp :: int where "to_chars_kMaxExp = 15"

text \<open>The text of a finite double, in a buffer of \<open>room\<close> characters.\<close>

definition to_chars :: "nat \<Rightarrow> u64 \<Rightarrow> bytes option" where
  "to_chars room value = do {
     json_assert (double_is_finite value);
     let (first, value) = (if signbit value then ([45], value XOR push_bit 63 1) else ([], value));
     if value = 0 then Some (first @ [48, 46, 48])
     else do {
       let room = int room - int (length first);
       json_assert (room \<ge> int max_digits10);
       (buf, decimal_exponent) \<leftarrow> grisu2 value;
       json_assert (length buf \<le> max_digits10);
       json_assert (room \<ge> to_chars_kMaxExp + 2);
       json_assert (room \<ge> 2 + (- to_chars_kMinExp - 1) + int max_digits10);
       json_assert (room \<ge> int max_digits10 + 6);
       text \<leftarrow> format_buffer buf decimal_exponent to_chars_kMinExp to_chars_kMaxExp;
       Some (first @ text)
     }
   }"

end
