(* ===== verification/Json_Serializer.thy ===== *)
theory Json_Serializer
  imports Json_Lexer Json_Dtoa
begin

text \<open>
  The class \<open>serializer\<close> of json.hpp as \<open>basic_json::dump()\<close> uses it: no pretty printing, no
  escaping of non-ASCII characters, and an exception for strings that are not UTF-8. Strings
  go through a buffer of 512 bytes and the UTF-8 automaton of Hoehrmann, integers through a
  routine that writes two digits at a time from the end of a buffer.
\<close>

section \<open>The UTF-8 automaton\<close>

definition utf8d :: "nat list" where
  "utf8d =
    [0, 0, 0, 0, 0, 0, 0, 0, 0, 0, 0, 0, 0, 0, 0, 0, 0, 0, 0, 0, 0, 0, 0, 0, 0, 0, 0, 0, 0, 0, 0, 0,
     0, 0, 0, 0, 0, 0, 0, 0, 0, 0, 0, 0, 0, 0, 0, 0, 0, 0, 0, 0, 0, 0, 0, 0, 0, 0, 0, 0, 0, 0, 0, 0,
     0, 0, 0, 0, 0, 0, 0, 0, 0, 0, 0, 0, 0, 0, 0, 0, 0, 0, 0, 0, 0, 0, 0, 0, 0, 0, 0, 0, 0, 0, 0, 0,
     0, 0, 0, 0, 0, 0, 0, 0, 0, 0, 0, 0, 0, 0, 0, 0, 0, 0, 0, 0, 0, 0, 0, 0, 0, 0, 0, 0, 0, 0, 0, 0,
     1, 1, 1, 1, 1, 1, 1, 1, 1, 1, 1, 1, 1, 1, 1, 1, 9, 9, 9, 9, 9, 9, 9, 9, 9, 9, 9, 9, 9, 9, 9, 9,
     7, 7, 7, 7, 7, 7, 7, 7, 7, 7, 7, 7, 7, 7, 7, 7, 7, 7, 7, 7, 7, 7, 7, 7, 7, 7, 7, 7, 7, 7, 7, 7,
     8, 8, 2, 2, 2, 2, 2, 2, 2, 2, 2, 2, 2, 2, 2, 2, 2, 2, 2, 2, 2, 2, 2, 2, 2, 2, 2, 2, 2, 2, 2, 2,
     10, 3, 3, 3, 3, 3, 3, 3, 3, 3, 3, 3, 3, 4, 3, 3, 11, 6, 6, 6, 5, 8, 8, 8, 8, 8, 8, 8, 8, 8, 8, 8,
     0, 1, 2, 3, 5, 8, 7, 1, 1, 1, 4, 6, 1, 1, 1, 1, 1, 1, 1, 1, 1, 1, 1, 1, 1, 1, 1, 1, 1, 1, 1, 1,
     1, 0, 1, 1, 1, 1, 1, 0, 1, 0, 1, 1, 1, 1, 1, 1, 1, 2, 1, 1, 1, 1, 1, 2, 1, 2, 1, 1, 1, 1, 1, 1,
     1, 1, 1, 1, 1, 1, 1, 2, 1, 1, 1, 1, 1, 1, 1, 1, 1, 2, 1, 1, 1, 1, 1, 1, 1, 2, 1, 1, 1, 1, 1, 1,
     1, 1, 1, 1, 1, 1, 1, 3, 1, 3, 1, 1, 1, 1, 1, 1, 1, 3, 1, 1, 1, 1, 1, 3, 1, 3, 1, 1, 1, 1, 1, 1,
     1, 3, 1, 1, 1, 1, 1, 1, 1, 1, 1, 1, 1, 1, 1, 1]"

definition UTF8_ACCEPT :: nat where "UTF8_ACCEPT = 0"
definition UTF8_REJECT :: nat where "UTF8_REJECT = 1"

definition utf8_decode :: "nat \<Rightarrow> u32 \<Rightarrow> u8 \<Rightarrow> nat \<times> u32" where
  "utf8_decode st codep byte =
     (let ty = utf8d ! unat byte;
          codep = (if st \<noteq> UTF8_ACCEPT then (ucast byte AND 0x3f) OR push_bit 6 codep
                   else drop_bit ty 0xFF AND ucast byte);
          index = 256 + st * 16 + ty
      in (utf8d ! index, codep))"

section \<open>Strings\<close>

definition hex_lower :: "nat \<Rightarrow> u8" where
  "hex_lower n = (if n < 10 then of_nat (48 + n) else of_nat (87 + n))"

definition hex_4 :: "nat \<Rightarrow> bytes" where
  "hex_4 n = [hex_lower (n div 4096 mod 16), hex_lower (n div 256 mod 16), hex_lower (n div 16 mod 16),
     hex_lower (n mod 16)]"

definition hex_2_upper :: "u8 \<Rightarrow> string" where
  "hex_2_upper b = [hex_upper (unat b div 16), hex_upper (unat b mod 16)]"

text \<open>What is written for a code point that ends with the byte \<open>b\<close>.\<close>

definition escape_codepoint :: "u32 \<Rightarrow> u8 \<Rightarrow> bytes" where
  "escape_codepoint codepoint b =
     (if codepoint = 0x08 then [0x5C, 0x62]
      else if codepoint = 0x09 then [0x5C, 0x74]
      else if codepoint = 0x0A then [0x5C, 0x6E]
      else if codepoint = 0x0C then [0x5C, 0x66]
      else if codepoint = 0x0D then [0x5C, 0x72]
      else if codepoint = 0x22 then [0x5C, 0x22]
      else if codepoint = 0x5C then [0x5C, 0x5C]
      else if codepoint \<le> 0x1F then [0x5C, 0x75] @ hex_4 (unat codepoint)
      else [b])"

definition string_buffer_size :: nat where "string_buffer_size = 512"

text \<open>The loop over the string: its index, the automaton, the buffer and what has been written.\<close>

fun dump_escaped_from :: "bytes \<Rightarrow> nat \<Rightarrow> nat \<Rightarrow> u32 \<Rightarrow> bytes \<Rightarrow> bytes \<Rightarrow> exn + nat \<times> bytes \<times> bytes" where
  "dump_escaped_from [] i st codepoint string_buffer out = Inr (st, string_buffer, out)"
| "dump_escaped_from (b # bs) i st codepoint string_buffer out =
     (let (st, codepoint) = utf8_decode st codepoint b
      in if st = UTF8_ACCEPT then
           let string_buffer = string_buffer @ escape_codepoint codepoint b
           in if string_buffer_size - length string_buffer < 13
              then dump_escaped_from bs (i + 1) st codepoint [] (out @ string_buffer)
              else dump_escaped_from bs (i + 1) st codepoint string_buffer out
         else if st = UTF8_REJECT then
           Inl (json_type_error 316 (''invalid UTF-8 byte at index '' @ to_decimal i @ '': 0x'' @ hex_2_upper b))
         else dump_escaped_from bs (i + 1) st codepoint (string_buffer @ [b]) out)"

definition dump_escaped :: "string \<Rightarrow> exn + bytes" where
  "dump_escaped s =
     (let bs = bytes_of_string s
      in case dump_escaped_from bs 0 UTF8_ACCEPT 0 [] [] of
           Inl e \<Rightarrow> Inl e
         | Inr (st, string_buffer, out) \<Rightarrow>
             if st = UTF8_ACCEPT then Inr (out @ string_buffer)
             else Inl (json_type_error 316 (''incomplete UTF-8 string; last byte: 0x'' @ hex_2_upper (last bs))))"

section \<open>Integers\<close>

fun count_digits_from :: "nat \<Rightarrow> nat \<Rightarrow> nat" where
  "count_digits_from x n_digits =
     (if x < 10 then n_digits
      else if x < 100 then n_digits + 1
      else if x < 1000 then n_digits + 2
      else if x < 10000 then n_digits + 3
      else count_digits_from (x div 10000) (n_digits + 4))"

declare count_digits_from.simps [simp del]

definition count_digits :: "nat \<Rightarrow> nat" where
  "count_digits x = count_digits_from x 1"

text \<open>The table of the two digits of the numbers up to 99.\<close>

definition digits_to_99 :: "nat \<Rightarrow> nat \<Rightarrow> u8" where
  "digits_to_99 index i = (if i = 0 then of_nat (48 + index div 10) else of_nat (48 + index mod 10))"

text \<open>The digits are stored before the position \<open>ptr\<close> of the buffer.\<close>

fun fill_digits :: "nat \<Rightarrow> nat \<Rightarrow> bytes \<Rightarrow> bytes" where
  "fill_digits abs_value ptr buffer =
     (if abs_value \<ge> 100 then
        let digits_index = abs_value mod 100
        in fill_digits (abs_value div 100) (ptr - 2)
             (buffer[ptr - 1 := digits_to_99 digits_index 1, ptr - 2 := digits_to_99 digits_index 0])
      else if abs_value \<ge> 10 then
        buffer[ptr - 1 := digits_to_99 abs_value 1, ptr - 2 := digits_to_99 abs_value 0]
      else buffer[ptr - 1 := of_nat (48 + abs_value)])"

declare fill_digits.simps [simp del]

definition number_buffer :: bytes where
  "number_buffer = replicate 64 0"

text \<open>\<open>remove_sign\<close> of a negative number.\<close>

definition remove_sign :: "u64 \<Rightarrow> u64" where
  "remove_sign x = - (x + 1) + 1"

definition dump_unsigned :: "u64 \<Rightarrow> bytes" where
  "dump_unsigned x =
     (if x = 0 then [48]
      else let abs_value = unat x; n_chars = count_digits abs_value
           in take n_chars (fill_digits abs_value n_chars number_buffer))"

definition dump_signed :: "u64 \<Rightarrow> bytes" where
  "dump_signed x =
     (if x = 0 then [48]
      else if sint x < 0 then
        let abs_value = unat (remove_sign x); n_chars = 1 + count_digits abs_value
        in take n_chars (fill_digits abs_value n_chars (number_buffer[0 := 45]))
      else dump_unsigned x)"

section \<open>Values\<close>

text \<open>
  A finite double is printed by \<open>to_chars\<close> into the number buffer; it is a text for every one
  (\<open>printed_double\<close> in theory Decimal_Text).
\<close>

definition dump_float :: "u64 \<Rightarrow> bytes" where
  "dump_float x = (if \<not> double_is_finite x then bytes_of_string ''null''
     else the (to_chars (length number_buffer) x))"

text \<open>An exception on the way stops the serializer.\<close>

definition and_then :: "exn + 'a \<Rightarrow> ('a \<Rightarrow> exn + 'b) \<Rightarrow> exn + 'b" where
  "and_then r f = (case r of Inl e \<Rightarrow> Inl e | Inr x \<Rightarrow> f x)"

fun serialize :: "json \<Rightarrow> exn + bytes"
  and serialize_members :: "(string \<times> json) list \<Rightarrow> exn + bytes"
  and serialize_elements :: "json list \<Rightarrow> exn + bytes" where
  "serialize (JObject ps) =
     (if ps = [] then Inr [0x7B, 0x7D]
      else and_then (serialize_members ps) (\<lambda>b. Inr (0x7B # b @ [0x7D])))"
| "serialize (JArray vs) =
     (if vs = [] then Inr [0x5B, 0x5D]
      else and_then (serialize_elements vs) (\<lambda>b. Inr (0x5B # b @ [0x5D])))"
| "serialize (JString s) = and_then (dump_escaped s) (\<lambda>b. Inr (0x22 # b @ [0x22]))"
| "serialize (JBool b) = Inr (bytes_of_string (if b then ''true'' else ''false''))"
| "serialize (JInt x) = Inr (dump_signed x)"
| "serialize (JUInt x) = Inr (dump_unsigned x)"
| "serialize (JFloat x) = Inr (dump_float x)"
| "serialize JDiscarded = Inr (bytes_of_string ''<discarded>'')"
| "serialize JNull = Inr (bytes_of_string ''null'')"
| "serialize_members [] = Inr []"
| "serialize_members ((k, v) # ps) =
     and_then (dump_escaped k) (\<lambda>key.
     and_then (serialize v) (\<lambda>b.
     if ps = [] then Inr (0x22 # key @ [0x22, 0x3A] @ b)
     else and_then (serialize_members ps) (\<lambda>c. Inr (0x22 # key @ [0x22, 0x3A] @ b @ [0x2C] @ c))))"
| "serialize_elements [] = Inr []"
| "serialize_elements (v # vs) =
     and_then (serialize v) (\<lambda>b.
     if vs = [] then Inr b
     else and_then (serialize_elements vs) (\<lambda>c. Inr (b @ [0x2C] @ c)))"

definition json_dump :: "json \<Rightarrow> exn + string" where
  "json_dump j = and_then (serialize j) (\<lambda>b. Inr (string_of_bytes b))"

end
