(* ===== verification/Utf8_Spec.thy ===== *)
theory Utf8_Spec
  imports Json_Serializer
begin

text \<open>
  UTF-8 as the standard defines it, a code point at a time, and the two places where json.hpp
  checks it: the ranges of the lexer and the automaton of the serializer. Both are the same
  machine, whose states are the ranges of the bytes that still have to come.
\<close>

section \<open>The encoding\<close>

definition scalar_value :: "nat \<Rightarrow> bool" where
  "scalar_value cp \<longleftrightarrow> cp < 0xD800 \<or> 0xE000 \<le> cp \<and> cp \<le> 0x10FFFF"

definition utf8_encode :: "nat \<Rightarrow> bytes" where
  "utf8_encode cp =
     (if cp < 0x80 then [of_nat cp]
      else if cp < 0x800 then [of_nat (0xC0 + cp div 64), of_nat (0x80 + cp mod 64)]
      else if cp < 0x10000 then
        [of_nat (0xE0 + cp div 4096), of_nat (0x80 + cp div 64 mod 64), of_nat (0x80 + cp mod 64)]
      else
        [of_nat (0xF0 + cp div 262144), of_nat (0x80 + cp div 4096 mod 64),
         of_nat (0x80 + cp div 64 mod 64), of_nat (0x80 + cp mod 64)])"

text \<open>The machine: the ranges of the bytes that complete the character, none between characters.\<close>

fun in_ranges :: "(int \<times> int) list \<Rightarrow> bytes \<Rightarrow> bool" where
  "in_ranges [] [] \<longleftrightarrow> True"
| "in_ranges ((lo, hi) # rs) (b # bs) \<longleftrightarrow> lo \<le> uint b \<and> uint b \<le> hi \<and> in_ranges rs bs"
| "in_ranges _ _ \<longleftrightarrow> False"

fun utf8_ok :: "(int \<times> int) list \<Rightarrow> bytes \<Rightarrow> bool" where
  "utf8_ok [] [] \<longleftrightarrow> True"
| "utf8_ok (r # rs) [] \<longleftrightarrow> False"
| "utf8_ok [] (b # bs) \<longleftrightarrow>
     (if b < 0x80 then utf8_ok [] bs
      else case utf8_ranges (uint b) of None \<Rightarrow> False | Some rs \<Rightarrow> utf8_ok rs bs)"
| "utf8_ok ((lo, hi) # rs) (b # bs) \<longleftrightarrow> lo \<le> uint b \<and> uint b \<le> hi \<and> utf8_ok rs bs"

section \<open>The machine accepts the encodings\<close>

lemma uint_of_nat_u8: "n < 256 \<Longrightarrow> uint (of_nat n :: u8) = int n"
  by (simp add: uint_nat unat_of_nat)

lemma base_64:
  fixes r :: nat
  assumes "r < 64"
  shows "(64 * a + r) div 64 = a" and "(64 * a + r) mod 64 = r"
  using assms by simp_all

lemma div_64_64: "(n :: nat) div 4096 = n div 64 div 64" "(n :: nat) div 262144 = n div 64 div 64 div 64"
  by (simp_all add: div_mult2_eq [symmetric])

lemma utf8_encode_ascii: "cp < 0x80 \<Longrightarrow> utf8_encode cp = [of_nat cp]"
  by (simp add: utf8_encode_def)

lemma utf8_encode_ranges:
  assumes "scalar_value cp" and "0x80 \<le> cp"
  obtains b bs rs where "utf8_encode cp = b # bs" and "utf8_ranges (uint b) = Some rs"
    and "in_ranges rs bs"
proof -
  consider "cp < 0x800" | "0x800 \<le> cp" "cp < 0x10000" | "0x10000 \<le> cp" by linarith
  then show thesis
  proof cases
    case 1
    obtain q r where cp: "cp = 64 * q + r" and r: "r < 64" by (metis mod_less_divisor mult_div_mod_eq zero_less_numeral)
    have q: "2 \<le> q" "q < 32" using 1 assms cp r by linarith+
    have u: "uint (of_nat (0xC0 + q) :: u8) = 0xC0 + int q" using q by (subst uint_of_nat_u8) simp_all
    have v: "uint (of_nat (0x80 + r) :: u8) = 0x80 + int r" using r by (subst uint_of_nat_u8) simp_all
    show thesis
    proof (rule that)
      show "utf8_encode cp = of_nat (0xC0 + q) # [of_nat (0x80 + r)]"
        using 1 assms cp r by (simp add: utf8_encode_def)
      show "utf8_ranges (uint (of_nat (0xC0 + q) :: u8)) = Some [(0x80, 0xBF)]"
        unfolding u using q by (simp add: utf8_ranges_def)
      show "in_ranges [(0x80, 0xBF)] [of_nat (0x80 + r)]" using r v by simp
    qed
  next
    case 2
    obtain q s where cp: "cp = 4096 * q + s" and s: "s < 4096" by (metis mod_less_divisor mult_div_mod_eq zero_less_numeral)
    obtain m r where sm: "s = 64 * m + r" and r: "r < 64" by (metis mod_less_divisor mult_div_mod_eq zero_less_numeral)
    have m: "m < 64" using s sm by linarith
    have q: "q < 16" using 2 cp by linarith
    have u: "uint (of_nat (0xE0 + q) :: u8) = 0xE0 + int q" using q by (subst uint_of_nat_u8) simp_all
    have v: "uint (of_nat (0x80 + r) :: u8) = 0x80 + int r" using r by (subst uint_of_nat_u8) simp_all
    have w: "uint (of_nat (0x80 + m) :: u8) = 0x80 + int m" using m by (subst uint_of_nat_u8) simp_all
    have "cp = 64 * (64 * q + m) + r" using cp sm by simp
    then have d: "cp div 4096 = q" "cp div 64 mod 64 = m" "cp mod 64 = r"
      using m r by (simp_all only: div_64_64 base_64)
    have lo: "q = 0 \<longrightarrow> 32 \<le> m" using 2 cp sm r by auto
    have sur: "q = 13 \<longrightarrow> m < 32" using assms(1) cp sm r s by (auto simp: scalar_value_def)
    define rs :: "(int \<times> int) list" where "rs = (if q = 0 then [(0xA0, 0xBF), (0x80, 0xBF)]
      else if q = 13 then [(0x80, 0x9F), (0x80, 0xBF)] else [(0x80, 0xBF), (0x80, 0xBF)])"
    show thesis
    proof (rule that)
      show "utf8_encode cp = of_nat (0xE0 + q) # [of_nat (0x80 + m), of_nat (0x80 + r)]"
        using 2 d by (simp add: utf8_encode_def)
      show "utf8_ranges (uint (of_nat (0xE0 + q) :: u8)) = Some rs"
        unfolding u rs_def using q by (auto simp: utf8_ranges_def)
      show "in_ranges rs [of_nat (0x80 + m), of_nat (0x80 + r)]" using r v w m lo sur by (auto simp: rs_def)
    qed
  next
    case 3
    obtain q s where cp: "cp = 262144 * q + s" and s: "s < 262144" by (metis mod_less_divisor mult_div_mod_eq zero_less_numeral)
    obtain n t where sn: "s = 4096 * n + t" and t: "t < 4096" by (metis mod_less_divisor mult_div_mod_eq zero_less_numeral)
    obtain m r where tm: "t = 64 * m + r" and r: "r < 64" by (metis mod_less_divisor mult_div_mod_eq zero_less_numeral)
    have m: "m < 64" using t tm by linarith
    have n: "n < 64" using s sn by linarith
    have q: "q \<le> 4" using assms(1) cp by (auto simp: scalar_value_def)
    have u: "uint (of_nat (0xF0 + q) :: u8) = 0xF0 + int q" using q by (subst uint_of_nat_u8) simp_all
    have v: "uint (of_nat (0x80 + r) :: u8) = 0x80 + int r" using r by (subst uint_of_nat_u8) simp_all
    have w: "uint (of_nat (0x80 + m) :: u8) = 0x80 + int m" using m by (subst uint_of_nat_u8) simp_all
    have x: "uint (of_nat (0x80 + n) :: u8) = 0x80 + int n" using n by (subst uint_of_nat_u8) simp_all
    have "cp = 64 * (64 * (64 * q + n) + m) + r" using cp sn tm by simp
    then have d: "cp div 262144 = q" "cp div 4096 mod 64 = n" "cp div 64 mod 64 = m" "cp mod 64 = r"
      using n m r by (simp_all only: div_64_64 base_64)
    have lo: "q = 0 \<longrightarrow> 16 \<le> n" using 3 cp sn t by auto
    have hi: "q = 4 \<longrightarrow> n < 16" using assms(1) cp sn t by (auto simp: scalar_value_def)
    define rs :: "(int \<times> int) list" where "rs = (if q = 0 then [(0x90, 0xBF), (0x80, 0xBF), (0x80, 0xBF)]
      else if q = 4 then [(0x80, 0x8F), (0x80, 0xBF), (0x80, 0xBF)]
      else [(0x80, 0xBF), (0x80, 0xBF), (0x80, 0xBF)])"
    show thesis
    proof (rule that)
      show "utf8_encode cp = of_nat (0xF0 + q) # [of_nat (0x80 + n), of_nat (0x80 + m), of_nat (0x80 + r)]"
        using 3 d by (simp add: utf8_encode_def)
      show "utf8_ranges (uint (of_nat (0xF0 + q) :: u8)) = Some rs"
        unfolding u rs_def using q by (auto simp: utf8_ranges_def)
      show "in_ranges rs [of_nat (0x80 + n), of_nat (0x80 + m), of_nat (0x80 + r)]"
        using r v w x m n lo hi by (auto simp: rs_def)
    qed
  qed
qed

lemma utf8_ok_ranges: "in_ranges rs bs \<Longrightarrow> utf8_ok rs (bs @ cs) = utf8_ok [] cs"
  by (induction rs bs rule: in_ranges.induct) auto

lemma utf8_ok_split: "utf8_ok rs bs \<Longrightarrow> \<exists>xs ys. bs = xs @ ys \<and> in_ranges rs xs \<and> utf8_ok [] ys"
proof (induction rs arbitrary: bs)
  case Nil
  then show ?case by (intro exI [of _ "[]"] exI [of _ bs]) simp
next
  case (Cons r rs)
  obtain lo hi where r: "r = (lo, hi)" by (cases r)
  from Cons.prems obtain b bs' where b: "bs = b # bs'" "lo \<le> uint b" "uint b \<le> hi" "utf8_ok rs bs'"
    by (cases bs) (auto simp: r)
  from Cons.IH [OF b(4)] obtain xs ys where "bs' = xs @ ys" "in_ranges rs xs" "utf8_ok [] ys" by blast
  then show ?case using b r by (intro exI [of _ "b # xs"] exI [of _ ys]) simp
qed

lemma utf8_ok_encode: "scalar_value cp \<Longrightarrow> utf8_ok [] (utf8_encode cp @ bs) = utf8_ok [] bs"
proof (cases "cp < 0x80")
  case True
  then have "(of_nat cp :: u8) < 0x80" by (simp add: word_less_nat_alt unat_of_nat)
  with True show ?thesis by (simp add: utf8_encode_ascii)
next
  case False
  assume "scalar_value cp"
  with False obtain b cs rs where c: "utf8_encode cp = b # cs" "utf8_ranges (uint b) = Some rs" "in_ranges rs cs"
    using utf8_encode_ranges [of cp] by (metis not_less)
  have "\<not> b < 0x80" using c(2) by (auto simp: utf8_ranges_def word_less_def split: if_splits)
  with c show ?thesis by (simp add: utf8_ok_ranges)
qed

lemma u8_eq:
  assumes "uint b = int n"
  shows "b = (of_nat n :: u8)"
proof -
  have "(word_of_int (uint b) :: u8) = word_of_int (int n)" using assms by simp
  then show ?thesis by simp
qed

lemma continuation_byte:
  assumes "0x80 \<le> uint b" and "uint b \<le> 0xBF"
  obtains r where "r < 64" and "b = (of_nat (0x80 + r) :: u8)" and "uint b = 0x80 + int r"
  using assms by (intro that [of "nat (uint b - 0x80)"] u8_eq) auto

lemma lead_byte:
  assumes "lo \<le> uint b" and "0 \<le> lo"
  obtains q where "b = (of_nat (nat lo + q) :: u8)" and "uint b = lo + int q"
  using assms by (intro that [of "nat (uint b - lo)"] u8_eq) auto

lemma ranges_utf8_encode:
  assumes r: "utf8_ranges (uint b) = Some rs" and bs: "in_ranges rs bs"
  shows "\<exists>cp. scalar_value cp \<and> 0x80 \<le> cp \<and> utf8_encode cp = b # bs"
proof -
  have ge: "0 \<le> uint b" by simp
  consider (two) "0xC2 \<le> uint b" "uint b \<le> 0xDF" "rs = [(0x80, 0xBF)]"
    | (three) x y :: int where "0xE0 \<le> uint b" "uint b \<le> 0xEF" "rs = [(x, y), (0x80, 0xBF)]" "0x80 \<le> x" "y \<le> 0xBF"
        "uint b = 0xE0 \<longrightarrow> x = 0xA0" "uint b = 0xED \<longrightarrow> y = 0x9F"
    | (four) x y :: int where "0xF0 \<le> uint b" "uint b \<le> 0xF4" "rs = [(x, y), (0x80, 0xBF), (0x80, 0xBF)]"
        "0x80 \<le> x" "y \<le> 0xBF" "uint b = 0xF0 \<longrightarrow> x = 0x90" "uint b = 0xF4 \<longrightarrow> y = 0x8F"
    using r by (fastforce simp: utf8_ranges_def split: if_splits)
  then show ?thesis
  proof cases
    case two
    from bs two obtain c where c: "bs = [c]" "0x80 \<le> uint c" "uint c \<le> 0xBF"
      by (cases bs; cases "tl bs") auto
    obtain r where r: "r < 64" "c = of_nat (0x80 + r)" using continuation_byte c by metis
    obtain q where q: "b = of_nat (nat 0xC0 + q)" "uint b = 0xC0 + int q" using lead_byte [where lo = "0xC0" and b = b] two by auto
    have "2 \<le> q" "q < 32" using q two by simp_all
    then show ?thesis using q r c
      by (intro exI [of _ "64 * q + r"]) (simp add: scalar_value_def utf8_encode_def base_64)
  next
    case three
    from bs three obtain c d where c: "bs = [c, d]" "x \<le> uint c" "uint c \<le> y" "0x80 \<le> uint d" "uint d \<le> 0xBF"
      by (cases bs; cases "tl bs"; cases "tl (tl bs)") auto
    obtain r where r: "r < 64" "d = of_nat (0x80 + r)" using continuation_byte c by metis
    have "0x80 \<le> uint c" "uint c \<le> 0xBF" using c three by simp_all
    then obtain m where m: "m < 64" "c = of_nat (0x80 + m)" "uint c = 0x80 + int m" using continuation_byte by metis
    obtain q where q: "b = of_nat (nat 0xE0 + q)" "uint b = 0xE0 + int q" using lead_byte [where lo = "0xE0" and b = b] three by auto
    have f: "q < 16" "q = 0 \<longrightarrow> 32 \<le> m" "q = 13 \<longrightarrow> m < 32" using q three m c by auto
    let ?cp = "64 * (64 * q + m) + r"
    have "scalar_value ?cp"
    proof (cases "q \<le> 12")
      case True
      then show ?thesis using r(1) m(1) by (simp add: scalar_value_def)
    next
      case False
      then show ?thesis using f r(1) m(1) by (cases "q = 13") (simp_all add: scalar_value_def)
    qed
    moreover have "0x800 \<le> ?cp" "?cp < 0x10000" using f r(1) m(1) by (cases "q = 0"; simp)+
    ultimately show ?thesis using q r m c
      by (intro exI [of _ ?cp]) (simp add: utf8_encode_def div_64_64 base_64 del: distrib_left_numeral)
  next
    case four
    from bs four obtain c d e where c: "bs = [c, d, e]" "x \<le> uint c" "uint c \<le> y" "0x80 \<le> uint d"
      "uint d \<le> 0xBF" "0x80 \<le> uint e" "uint e \<le> 0xBF"
      by (cases bs; cases "tl bs"; cases "tl (tl bs)"; cases "tl (tl (tl bs))") auto
    obtain r where r: "r < 64" "e = of_nat (0x80 + r)" using continuation_byte c by metis
    obtain m where m: "m < 64" "d = of_nat (0x80 + m)" using continuation_byte c by metis
    have "0x80 \<le> uint c" "uint c \<le> 0xBF" using c four by simp_all
    then obtain n where n: "n < 64" "c = of_nat (0x80 + n)" "uint c = 0x80 + int n" using continuation_byte by metis
    obtain q where q: "b = of_nat (nat 0xF0 + q)" "uint b = 0xF0 + int q" using lead_byte [where lo = "0xF0" and b = b] four by auto
    have f: "q \<le> 4" "q = 0 \<longrightarrow> 16 \<le> n" "q = 4 \<longrightarrow> n < 16" using q four n c by auto
    let ?cp = "64 * (64 * (64 * q + n) + m) + r"
    have "0x10000 \<le> ?cp" using f n(1) by (cases "q = 0") simp_all
    moreover have "scalar_value ?cp" using calculation f r(1) m(1) n(1)
      by (cases "q = 4") (simp_all add: scalar_value_def)
    ultimately show ?thesis using q r m n c
      by (intro exI [of _ ?cp]) (simp add: utf8_encode_def div_64_64 base_64 del: distrib_left_numeral)
  qed
qed

text \<open>So the machine accepts the texts of UTF-8 and nothing else.\<close>

lemma utf8_ok_iff:
  "utf8_ok [] bs \<longleftrightarrow> (\<exists>cps. list_all scalar_value cps \<and> bs = concat (map utf8_encode cps))"
proof
  show "utf8_ok [] bs \<Longrightarrow> \<exists>cps. list_all scalar_value cps \<and> bs = concat (map utf8_encode cps)"
  proof (induction bs rule: length_induct)
    case (1 bs)
    show ?case
    proof (cases bs)
      case Nil
      then show ?thesis by (intro exI [of _ "[]"]) simp
    next
      case (Cons b bs')
      obtain cp xs ys where c: "scalar_value cp" "utf8_encode cp = b # xs" "bs' = xs @ ys" "utf8_ok [] ys"
      proof (cases "b < 0x80")
        case True
        then have u: "unat b < 128" by (simp add: word_less_nat_alt)
        show thesis
        proof (rule that)
          show "scalar_value (unat b)" using u by (simp add: scalar_value_def)
          show "utf8_encode (unat b) = b # []" using u by (simp add: utf8_encode_ascii)
        qed (use 1 Cons True in simp_all)
      next
        case False
        with 1 Cons obtain rs where rs: "utf8_ranges (uint b) = Some rs" "utf8_ok rs bs'"
          by (auto split: option.splits)
        from utf8_ok_split [OF rs(2)] obtain xs ys where x: "bs' = xs @ ys" "in_ranges rs xs" "utf8_ok [] ys" by blast
        from ranges_utf8_encode [OF rs(1) x(2)] show thesis using that x by blast
      qed
      with 1 Cons obtain cps where "list_all scalar_value cps" "ys = concat (map utf8_encode cps)"
        by (metis append_Cons length_Cons length_append less_add_Suc2 plus_1_eq_Suc add.commute add_Suc_right le_imp_less_Suc le_add2)
      with c Cons show ?thesis by (intro exI [of _ "cp # cps"]) simp
    qed
  qed
next
  assume "\<exists>cps. list_all scalar_value cps \<and> bs = concat (map utf8_encode cps)"
  then obtain cps where "list_all scalar_value cps" "bs = concat (map utf8_encode cps)" by blast
  then show "utf8_ok [] bs" by (induction cps arbitrary: bs) (auto simp: utf8_ok_encode)
qed

section \<open>The automaton is the machine\<close>

definition utf8_next :: "(int \<times> int) list \<Rightarrow> u8 \<Rightarrow> (int \<times> int) list option" where
  "utf8_next rs b = (case rs of
       [] \<Rightarrow> if b < 0x80 then Some [] else utf8_ranges (uint b)
     | (lo, hi) # rs' \<Rightarrow> if lo \<le> uint b \<and> uint b \<le> hi then Some rs' else None)"

lemma utf8_ok_Cons: "utf8_ok rs (b # bs) \<longleftrightarrow> (case utf8_next rs b of None \<Rightarrow> False | Some rs' \<Rightarrow> utf8_ok rs' bs)"
  by (cases rs) (auto simp: utf8_next_def split: option.splits if_splits)

lemma utf8_ok_Nil: "utf8_ok rs [] \<longleftrightarrow> rs = []"
  by (cases rs) simp_all

text \<open>The ranges that can occur, and the states of the automaton that stand for them.\<close>

definition utf8_states :: "((int \<times> int) list \<times> nat) list" where
  "utf8_states = [([], 0), ([(0x80, 0xBF)], 2), ([(0x80, 0xBF), (0x80, 0xBF)], 3),
     ([(0xA0, 0xBF), (0x80, 0xBF)], 4), ([(0x80, 0x9F), (0x80, 0xBF)], 5),
     ([(0x90, 0xBF), (0x80, 0xBF), (0x80, 0xBF)], 6), ([(0x80, 0xBF), (0x80, 0xBF), (0x80, 0xBF)], 7),
     ([(0x80, 0x8F), (0x80, 0xBF), (0x80, 0xBF)], 8)]"

definition utf8_state :: "(int \<times> int) list \<Rightarrow> nat" where
  "utf8_state rs = the (map_of utf8_states rs)"

text \<open>The columns of the table: bytes that the automaton does not tell apart.\<close>

definition byte_class :: "nat \<Rightarrow> nat" where
  "byte_class n =
     (if n < 0x80 then 0 else if n < 0x90 then 1 else if n < 0xA0 then 9 else if n < 0xC0 then 7
      else if n < 0xC2 then 8 else if n < 0xE0 then 2 else if n = 0xE0 then 10 else if n = 0xED then 4
      else if n < 0xF0 then 3 else if n = 0xF0 then 11 else if n < 0xF4 then 6 else if n = 0xF4 then 5 else 8)"

lemma utf8d_class: "n < 256 \<Longrightarrow> utf8d ! n = byte_class n"
proof -
  have "take 256 utf8d = map byte_class [0..<256]" by code_simp
  then show "n < 256 \<Longrightarrow> utf8d ! n = byte_class n"
    by (metis add_0 diff_zero length_upt nth_map nth_take nth_upt)
qed

lemma utf8d_rows:
  "utf8d ! 256 = 0" "utf8d ! 257 = 1" "utf8d ! 258 = 2" "utf8d ! 259 = 3" "utf8d ! 260 = 5"
  "utf8d ! 261 = 8" "utf8d ! 262 = 7" "utf8d ! 263 = 1" "utf8d ! 264 = 1" "utf8d ! 265 = 1"
  "utf8d ! 266 = 4" "utf8d ! 267 = 6" "utf8d ! 288 = 1" "utf8d ! 289 = 0" "utf8d ! 290 = 1"
  "utf8d ! 291 = 1" "utf8d ! 292 = 1" "utf8d ! 293 = 1" "utf8d ! 294 = 1" "utf8d ! 295 = 0"
  "utf8d ! 296 = 1" "utf8d ! 297 = 0" "utf8d ! 298 = 1" "utf8d ! 299 = 1" "utf8d ! 304 = 1"
  "utf8d ! 305 = 2" "utf8d ! 306 = 1" "utf8d ! 307 = 1" "utf8d ! 308 = 1" "utf8d ! 309 = 1"
  "utf8d ! 310 = 1" "utf8d ! 311 = 2" "utf8d ! 312 = 1" "utf8d ! 313 = 2" "utf8d ! 314 = 1"
  "utf8d ! 315 = 1" "utf8d ! 320 = 1" "utf8d ! 321 = 1" "utf8d ! 322 = 1" "utf8d ! 323 = 1"
  "utf8d ! 324 = 1" "utf8d ! 325 = 1" "utf8d ! 326 = 1" "utf8d ! 327 = 2" "utf8d ! 328 = 1"
  "utf8d ! 329 = 1" "utf8d ! 330 = 1" "utf8d ! 331 = 1" "utf8d ! 336 = 1" "utf8d ! 337 = 2"
  "utf8d ! 338 = 1" "utf8d ! 339 = 1" "utf8d ! 340 = 1" "utf8d ! 341 = 1" "utf8d ! 342 = 1"
  "utf8d ! 343 = 1" "utf8d ! 344 = 1" "utf8d ! 345 = 2" "utf8d ! 346 = 1" "utf8d ! 347 = 1"
  "utf8d ! 352 = 1" "utf8d ! 353 = 1" "utf8d ! 354 = 1" "utf8d ! 355 = 1" "utf8d ! 356 = 1"
  "utf8d ! 357 = 1" "utf8d ! 358 = 1" "utf8d ! 359 = 3" "utf8d ! 360 = 1" "utf8d ! 361 = 3"
  "utf8d ! 362 = 1" "utf8d ! 363 = 1" "utf8d ! 368 = 1" "utf8d ! 369 = 3" "utf8d ! 370 = 1"
  "utf8d ! 371 = 1" "utf8d ! 372 = 1" "utf8d ! 373 = 1" "utf8d ! 374 = 1" "utf8d ! 375 = 3"
  "utf8d ! 376 = 1" "utf8d ! 377 = 3" "utf8d ! 378 = 1" "utf8d ! 379 = 1" "utf8d ! 384 = 1"
  "utf8d ! 385 = 3" "utf8d ! 386 = 1" "utf8d ! 387 = 1" "utf8d ! 388 = 1" "utf8d ! 389 = 1"
  "utf8d ! 390 = 1" "utf8d ! 391 = 1" "utf8d ! 392 = 1" "utf8d ! 393 = 1" "utf8d ! 394 = 1"
  "utf8d ! 395 = 1"
  by (simp_all add: utf8d_def)

lemma utf8_next_states:
  assumes "rs \<in> fst ` set utf8_states" and "utf8_next rs b = Some rs'"
  shows "rs' \<in> fst ` set utf8_states"
  using assms
  by (auto simp: utf8_states_def utf8_next_def utf8_ranges_def split: if_splits)

lemma utf8_decode_state:
  assumes "rs \<in> fst ` set utf8_states"
  shows "fst (utf8_decode (utf8_state rs) c b) =
     (case utf8_next rs b of None \<Rightarrow> UTF8_REJECT | Some rs' \<Rightarrow> utf8_state rs')"
proof -
  define n where "n = unat b"
  have n: "n < 256" using unsigned_less [of b] by (simp add: n_def)
  have u: "uint b = int n" by (simp add: n_def)
  have l: "b < 0x80 \<longleftrightarrow> n < 128" by (simp add: n_def word_less_nat_alt)
  have d: "utf8d ! unat b = byte_class n" using n by (simp add: n_def utf8d_class)
  note defs = utf8_decode_def utf8_next_def utf8_state_def utf8_states_def UTF8_REJECT_def UTF8_ACCEPT_def
    Let_def d u l
  show ?thesis
    using assms n unfolding utf8_states_def
    by (auto simp: defs byte_class_def utf8_ranges_def utf8d_rows)
qed

end
