(* ===== verification/Json_Strings.thy ===== *)
theory Json_Strings
  imports Utf8_Spec
begin

text \<open>
  What \<open>dump_escaped\<close> writes: it fails exactly on the strings that are not UTF-8, and otherwise
  writes every byte as itself or as its escape; its buffer never overflows.
\<close>

section \<open>Code points\<close>

lemma or_push_bit_6:
  fixes c :: u32
  assumes "unat c < 2 ^ 15"
  shows "unat ((ucast b AND 0x3F) OR push_bit 6 c) = 64 * unat c + unat (b :: u8) mod 64"
proof -
  have m: "ucast b AND 0x3F = (take_bit 6 (ucast b) :: u32)"
    by (simp add: take_bit_eq_mask mask_eq_exp_minus_1)
  have "(take_bit 6 (ucast b) :: u32) OR push_bit 6 c = take_bit 6 (ucast b) + push_bit 6 c"
    by (rule disjunctive_add [symmetric]) (simp add: bit_take_bit_iff bit_push_bit_iff)
  moreover have p: "unat (push_bit 6 c) = 64 * unat c"
    using assms by (simp add: push_bit_eq_mult unat_word_ariths unat_mult_lem)
  moreover have t: "unat (take_bit 6 (ucast b) :: u32) = unat b mod 64"
  proof -
    have "unat (ucast b :: u32) = unat b"
      using unsigned_less [where ?'a = nat and w = b] by (simp add: unsigned_ucast_eq take_bit_nat_eq_self)
    then show ?thesis by (simp only: unsigned_take_bit_eq) (simp add: take_bit_eq_mod)
  qed
  ultimately show ?thesis using assms unfolding m
    by (simp add: unat_word_ariths)
qed

text \<open>
  The bits read so far: they fit into the word, and with the bytes to come the code point will
  not be an ASCII character.
\<close>

definition bits_ok :: "(int \<times> int) list \<Rightarrow> nat \<Rightarrow> bool" where
  "bits_ok rs k \<longleftrightarrow> (case rs of [] \<Rightarrow> True
     | (lo, hi) # rs' \<Rightarrow> k < 2 ^ (21 - 6 * length rs)
         \<and> 0x80 \<le> (k * 64 + nat (lo - 0x80)) * 64 ^ length rs')"

definition codepoint_ok :: "(int \<times> int) list \<Rightarrow> u32 \<Rightarrow> bool" where
  "codepoint_ok rs c \<longleftrightarrow> bits_ok rs (unat c)"

lemma decode_continuation:
  assumes "unat c < 2 ^ 15" and "0x80 \<le> uint b" and "uint b \<le> 0xBF" and "st \<noteq> UTF8_ACCEPT"
  shows "unat (snd (utf8_decode st c b)) = 64 * unat c + nat (uint b - 0x80)"
proof -
  have "unat b mod 64 = nat (uint b - 0x80)"
  proof -
    from assms(2,3) obtain r where "r < 64" "uint b = 0x80 + int r" using continuation_byte by metis
    then have "unat b = 128 + r" unfolding uint_nat by linarith
    moreover have "128 + r = r + 2 * 64" by simp
    then have "(128 + r) mod 64 = r" using \<open>r < 64\<close> by (simp only: mod_mult_self1 mod_less)
    ultimately show ?thesis using \<open>uint b = 0x80 + int r\<close> by simp
  qed
  with assms(1,4) show ?thesis by (simp add: utf8_decode_def Let_def or_push_bit_6)
qed

lemma drop_bit_mask_8: "drop_bit m (mask 8 :: u32) = mask (8 - m)"
  by (rule bit_word_eqI) (auto simp: bit_drop_bit_eq bit_mask_iff)

text \<open>The first byte gives its low bits.\<close>

lemma decode_lead:
  assumes "utf8_ranges (uint b) = Some rs"
  shows "codepoint_ok rs (snd (utf8_decode UTF8_ACCEPT c b))"
proof -
  define n where "n = unat b"
  have n: "n < 256" using unsigned_less [where ?'a = nat and w = b] by (simp add: n_def)
  have u: "uint b = int n" by (simp add: n_def)
  have d: "utf8d ! unat b = byte_class n" using n by (simp add: n_def utf8d_class)
  have ff: "(0xFF :: u32) = mask 8" by (simp add: mask_eq_exp_minus_1)
  have "unat (ucast b :: u32) = n" using n by (simp add: unsigned_ucast_eq take_bit_nat_eq_self n_def)
  moreover have "snd (utf8_decode UTF8_ACCEPT c b) = take_bit (8 - byte_class n) (ucast b)"
    unfolding utf8_decode_def Let_def d ff drop_bit_mask_8 take_bit_eq_mask
    by (simp add: and.commute)
  ultimately have v: "unat (snd (utf8_decode UTF8_ACCEPT c b)) = n mod 2 ^ (8 - byte_class n)"
    by (simp only: unsigned_take_bit_eq) (simp only: take_bit_eq_mod)
  have "0xC2 \<le> n \<and> n < 0xF5" using assms unfolding u by (auto simp: utf8_ranges_def split: if_splits)
  then have "n \<in> set [0xC2..<0xF5]" unfolding set_upt atLeastLessThan_iff .
  then have "\<forall>rs. utf8_ranges (int n) = Some rs \<longrightarrow> bits_ok rs (n mod 2 ^ (8 - byte_class n))"
    unfolding upt_rec_numeral by (simp, elim disjE; simp add: utf8_ranges_def bits_ok_def byte_class_def)
  then show ?thesis using assms unfolding u codepoint_ok_def v by blast
qed

text \<open>Every byte that the machine accepts keeps the bits in bounds.\<close>

lemma decode_codepoint:
  assumes rs: "rs \<in> fst ` set utf8_states" and c: "codepoint_ok rs c" and n: "utf8_next rs b = Some rs'"
    and multi: "rs \<noteq> [] \<or> \<not> b < 0x80"
  shows "codepoint_ok rs' (snd (utf8_decode (utf8_state rs) c b))"
    and "rs' = [] \<Longrightarrow> 0x80 \<le> unat (snd (utf8_decode (utf8_state rs) c b))"
proof -
  define k where "k = unat (snd (utf8_decode (utf8_state rs) c b))"
  have "bits_ok rs' k \<and> (rs' = [] \<longrightarrow> 0x80 \<le> k)"
  proof (cases rs)
    case Nil
    with n multi have r: "utf8_ranges (uint b) = Some rs'" by (simp add: utf8_next_def)
    then have "rs' \<noteq> []" by (auto simp: utf8_ranges_def split: if_splits)
    moreover have "utf8_state rs = UTF8_ACCEPT" by (simp add: Nil utf8_state_def utf8_states_def UTF8_ACCEPT_def)
    ultimately show ?thesis using decode_lead [OF r, of c] by (simp add: k_def codepoint_ok_def)
  next
    case (Cons r rest)
    obtain lo hi where r: "r = (lo, hi)" by (cases r)
    from n Cons r have b: "lo \<le> uint b" "uint b \<le> hi" "rs' = rest"
      by (auto simp: utf8_next_def split: if_splits)
    have shape: "0x80 \<le> lo" "hi \<le> 0xBF" "length rest \<le> 2" "\<forall>p \<in> set rest. fst p = 0x80"
      "utf8_state rs \<noteq> UTF8_ACCEPT"
      using rs Cons r by (auto simp: utf8_states_def utf8_state_def UTF8_ACCEPT_def)
    from c Cons r have small: "unat c < 2 ^ (15 - 6 * length rest)"
      and big: "0x80 \<le> (unat c * 64 + nat (lo - 0x80)) * 64 ^ length rest"
      by (simp_all add: codepoint_ok_def bits_ok_def)
    have "unat c < 2 ^ 15" using small
      by (rule less_le_trans) (use power_increasing [of "15 - 6 * length rest" 15 "2 :: nat"] in simp)
    then have k: "k = 64 * unat c + nat (uint b - 0x80)"
      unfolding k_def using b shape by (intro decode_continuation) auto
    define m where "m = nat (uint b - 0x80)"
    have m: "nat (lo - 0x80) \<le> m" "m < 64" using b shape by (auto simp: m_def)
    have "0x80 \<le> k * 64 ^ length rest"
      using big by (rule order_trans) (use m in \<open>simp add: k m_def [symmetric] mult_le_mono1\<close>)
    moreover have "k < 64 * 2 ^ (15 - 6 * length rest)" using small m by (simp add: k m_def [symmetric])
    moreover have "bits_ok rest k" if "0x80 \<le> k * 64 ^ length rest" "k < 64 * 2 ^ (15 - 6 * length rest)"
    proof (cases rest)
      case Nil
      then show ?thesis by (simp add: bits_ok_def)
    next
      case (Cons p rest')
      then have l: "length rest' \<le> 1" using shape by simp
      then have "64 * 2 ^ (15 - 6 * length rest) = (2 :: nat) ^ (21 - 6 * length rest)"
        using Cons by (cases rest') auto
      with that Cons shape show ?thesis by (cases p) (simp add: bits_ok_def mult_ac)
    qed
    ultimately show ?thesis using b by auto
  qed
  then show "codepoint_ok rs' (snd (utf8_decode (utf8_state rs) c b))"
    "rs' = [] \<Longrightarrow> 0x80 \<le> unat (snd (utf8_decode (utf8_state rs) c b))"
    by (auto simp: k_def codepoint_ok_def)
qed

section \<open>Escapes\<close>

definition escape_byte :: "u8 \<Rightarrow> bytes" where
  "escape_byte b = escape_codepoint (ucast b) b"

definition escape_bytes :: "bytes \<Rightarrow> bytes" where
  "escape_bytes bs = concat (map escape_byte bs)"

lemma escape_bytes_simps [simp]:
  "escape_bytes [] = []"
  "escape_bytes (b # bs) = escape_byte b @ escape_bytes bs"
  "escape_bytes (xs @ ys) = escape_bytes xs @ escape_bytes ys"
  by (simp_all add: escape_bytes_def)

lemma escape_codepoint_high: "0x80 \<le> unat c \<Longrightarrow> escape_codepoint c b = [b]"
  by (auto simp: escape_codepoint_def word_le_nat_alt)

lemma escape_byte_high:
  assumes "\<not> b < 0x80"
  shows "escape_byte b = [b]"
proof -
  have "unat (ucast b :: u32) = unat b"
    using unsigned_less [where ?'a = nat and w = b] by (simp add: unsigned_ucast_eq take_bit_nat_eq_self)
  with assms show ?thesis
    unfolding escape_byte_def by (intro escape_codepoint_high) (simp add: word_less_nat_alt)
qed

text \<open>Letters, digits and most of the other printable characters stand for themselves.\<close>

definition plain_byte :: "u8 \<Rightarrow> bool" where
  "plain_byte b \<longleftrightarrow> 0x20 \<le> b \<and> b \<noteq> 0x22 \<and> b \<noteq> 0x5C"

lemma escape_byte_plain: "plain_byte b \<Longrightarrow> escape_byte b = [b]"
proof -
  assume p: "plain_byte b"
  have u: "unat (ucast b :: u32) = unat b"
    using unsigned_less [where ?'a = nat and w = b] by (simp add: unsigned_ucast_eq take_bit_nat_eq_self)
  have "unat b \<ge> 0x20" "unat b \<noteq> 0x22" "unat b \<noteq> 0x5C"
    using p by (auto simp: plain_byte_def word_le_nat_alt word_unat_eq_iff)
  then show ?thesis
    unfolding escape_byte_def escape_codepoint_def by (auto simp: word_unat_eq_iff word_le_nat_alt u)
qed

lemma escape_bytes_plain: "list_all plain_byte bs \<Longrightarrow> escape_bytes bs = bs"
  by (induction bs) (auto simp: escape_byte_plain)

section \<open>The serializer of strings\<close>

lemma utf8_state_Nil [simp]: "utf8_state [] = UTF8_ACCEPT"
  by (simp add: utf8_states_def utf8_state_def UTF8_ACCEPT_def)

lemma utf8_state_accept: "rs \<in> fst ` set utf8_states \<Longrightarrow> utf8_state rs = UTF8_ACCEPT \<longleftrightarrow> rs = []"
  and utf8_state_reject: "rs \<in> fst ` set utf8_states \<Longrightarrow> utf8_state rs \<noteq> UTF8_REJECT"
  by (auto simp: utf8_states_def utf8_state_def UTF8_ACCEPT_def UTF8_REJECT_def)

lemma decode_ascii:
  assumes "b < 0x80"
  shows "utf8_decode UTF8_ACCEPT c b = (UTF8_ACCEPT, ucast b)"
proof -
  have "unat b < 128" using assms by (simp add: word_less_nat_alt)
  then have t: "utf8d ! unat b = 0" by (simp add: utf8d_class byte_class_def)
  have ff: "(0xFF :: u32) = mask 8" by (simp add: mask_eq_exp_minus_1)
  have u: "unat (ucast b :: u32) = unat b"
    using unsigned_less [where ?'a = nat and w = b] by (simp add: unsigned_ucast_eq take_bit_nat_eq_self)
  have "unat (take_bit 8 (ucast b) :: u32) = unat (ucast b :: u32)"
    using \<open>unat b < 128\<close> by (simp only: unsigned_take_bit_eq u) (simp add: take_bit_nat_eq_self)
  then have "(0xFF AND ucast b :: u32) = ucast b"
    unfolding ff and.commute [of "mask 8"] take_bit_eq_mask [symmetric] by (simp only: word_unat_eq_iff)
  with t show ?thesis by (simp add: utf8_decode_def Let_def UTF8_ACCEPT_def utf8d_rows)
qed

lemma next_continuation:
  assumes "rs \<in> fst ` set utf8_states" and "utf8_next rs b = Some rs'" and "rs \<noteq> []"
  shows "\<not> b < 0x80"
  using assms by (auto simp: utf8_states_def utf8_next_def word_less_def split: if_splits)

lemma dump_escaped_from_spec:
  assumes "rs \<in> fst ` set utf8_states" and "codepoint_ok rs c"
  shows "if utf8_ok rs bs
     then \<exists>buf' out'. dump_escaped_from bs i (utf8_state rs) c buf out = Inr (UTF8_ACCEPT, buf', out')
       \<and> out' @ buf' = out @ buf @ escape_bytes bs
     else \<forall>st buf' out'. dump_escaped_from bs i (utf8_state rs) c buf out = Inr (st, buf', out')
       \<longrightarrow> st \<noteq> UTF8_ACCEPT"
  using assms
proof (induction bs arbitrary: rs i c buf out)
  case Nil
  then show ?case by (auto simp: utf8_ok_Nil utf8_state_accept)
next
  case (Cons b bs)
  show ?case
  proof (cases "utf8_next rs b")
    case None
    with Cons.prems utf8_decode_state [of rs c b] show ?thesis
      by (auto simp: utf8_ok_Cons UTF8_REJECT_def UTF8_ACCEPT_def split: prod.split)
  next
    case (Some rs')
    obtain c' where d: "utf8_decode (utf8_state rs) c b = (utf8_state rs', c')"
      using utf8_decode_state [OF Cons.prems(1), of c b] Some by (cases "utf8_decode (utf8_state rs) c b") auto
    have s: "rs' \<in> fst ` set utf8_states" using utf8_next_states Cons.prems(1) Some .
    have esc: "escape_byte b = (if rs' = [] then escape_codepoint c' b else [b])"
      and ok: "codepoint_ok rs' c'"
    proof -
      have "escape_byte b = (if rs' = [] then escape_codepoint c' b else [b]) \<and> codepoint_ok rs' c'"
      proof (cases "rs = [] \<and> b < 0x80")
        case True
        then have "rs' = []" "c' = ucast b"
          using Some d decode_ascii [of b c] by (auto simp: utf8_next_def)
        then show ?thesis by (simp add: escape_byte_def codepoint_ok_def bits_ok_def)
      next
        case False
        then have high: "\<not> b < 0x80" using next_continuation [OF Cons.prems(1) Some] by blast
        from False have m: "rs \<noteq> [] \<or> \<not> b < 0x80" by blast
        note dc = decode_codepoint [OF Cons.prems(1,2) Some m, unfolded d snd_conv]
        show ?thesis using dc escape_byte_high [OF high] by (auto simp: escape_codepoint_high)
      qed
      then show "escape_byte b = (if rs' = [] then escape_codepoint c' b else [b])" "codepoint_ok rs' c'" by auto
    qed
    note IH = Cons.IH [OF s ok]
    show ?thesis
      using IH [of "i + 1" "[]" "out @ buf @ escape_byte b"] IH [of "i + 1" "buf @ escape_byte b" out]
      by (simp add: d utf8_ok_Cons Some Let_def utf8_state_accept [OF s] utf8_state_reject [OF s] esc
          split: if_splits)
  qed
qed

text \<open>It fails on the strings that are not UTF-8, and only on them.\<close>

lemma dump_escaped_eq:
  "utf8_ok [] (bytes_of_string s) \<Longrightarrow> dump_escaped s = Inr (escape_bytes (bytes_of_string s))"
  and dump_escaped_fails:
  "\<not> utf8_ok [] (bytes_of_string s) \<Longrightarrow> \<exists>m. dump_escaped s = Inl (JsonError m)"
proof -
  have u: "[] \<in> fst ` set utf8_states" "utf8_state [] = UTF8_ACCEPT" "codepoint_ok [] 0"
    by (simp_all add: utf8_states_def utf8_state_def UTF8_ACCEPT_def codepoint_ok_def bits_ok_def)
  note spec = dump_escaped_from_spec [OF u(1,3), of "bytes_of_string s" 0 "[]" "[]", unfolded u(2)]
  show "utf8_ok [] (bytes_of_string s) \<Longrightarrow> dump_escaped s = Inr (escape_bytes (bytes_of_string s))"
    using spec by (auto simp: dump_escaped_def Let_def)
  have inl: "dump_escaped_from bs i st c buf out = Inl e \<Longrightarrow> \<exists>m. e = JsonError m" for bs i st c buf out e
    by (induction bs i st c buf out rule: dump_escaped_from.induct)
      (auto simp: Let_def json_type_error_def split: prod.splits if_splits)
  show "\<not> utf8_ok [] (bytes_of_string s) \<Longrightarrow> \<exists>m. dump_escaped s = Inl (JsonError m)"
    using spec inl
    by (auto simp: dump_escaped_def Let_def json_type_error_def split: sum.split prod.split)
qed

end
