(* ===== verification/Json_Numbers.thy ===== *)
theory Json_Numbers
  imports Json_Serializer
begin

text \<open>
  \<open>dump_integer\<close> counts the digits four at a time and fills its buffer two at a time from the
  end; what it writes are the decimal digits of the number, and they fit into the buffer.
\<close>

definition dec :: "nat \<Rightarrow> bytes" where
  "dec n = bytes_of_string (to_decimal n)"

lemma dec_less: "n < 10 \<Longrightarrow> dec n = [of_nat (48 + n)]"
  by (simp add: dec_def to_decimal.simps [of n] byte_of_char_of)

lemma dec_more:
  assumes "10 \<le> n"
  shows "dec n = dec (n div 10) @ [of_nat (48 + n mod 10)]"
proof -
  have "48 + n mod 10 < 256" using mod_less_divisor [of 10 n] by linarith
  with assms show ?thesis by (simp add: dec_def to_decimal.simps [of n] byte_of_char_of)
qed

lemma dec_neq_Nil [simp]: "dec n \<noteq> []"
  by (simp add: dec_def)

lemma dec_100:
  assumes "100 \<le> n"
  shows "dec n = dec (n div 100) @ [digits_to_99 (n mod 100) 0, digits_to_99 (n mod 100) 1]"
proof -
  have d: "n div 10 div 10 = n div 100" by (simp add: div_mult2_eq [symmetric])
  have "n mod 100 = 10 * (n div 10 mod 10) + n mod 10" using mod_mult2_eq [of n 10 10] by simp
  then have m: "n mod 100 div 10 = n div 10 mod 10" "n mod 100 mod 10 = n mod 10"
    by (simp_all add: div_mult_self3 mod_mult_self4)
  show ?thesis
    using assms dec_more [of n] dec_more [of "n div 10"] by (simp add: d digits_to_99_def m)
qed

lemma length_dec_100: "100 \<le> n \<Longrightarrow> length (dec n) = length (dec (n div 100)) + 2"
  by (simp add: dec_100)

lemma length_dec_small:
  "n < 10 \<Longrightarrow> length (dec n) = 1" "10 \<le> n \<Longrightarrow> n < 100 \<Longrightarrow> length (dec n) = 2"
  "100 \<le> n \<Longrightarrow> n < 1000 \<Longrightarrow> length (dec n) = 3" "1000 \<le> n \<Longrightarrow> n < 10000 \<Longrightarrow> length (dec n) = 4"
  by (simp_all add: dec_less dec_more length_dec_100)

lemma length_dec_10000:
  assumes "10000 \<le> n"
  shows "length (dec n) = length (dec (n div 10000)) + 4"
proof -
  have "n div 10000 = n div 100 div 100" by (simp add: div_mult2_eq [symmetric])
  then show ?thesis using assms length_dec_100 [of n] length_dec_100 [of "n div 100"] by simp
qed

lemma count_digits_from_eq: "count_digits_from x k = length (dec x) + k - 1"
proof (induction x k rule: count_digits_from.induct)
  case (1 x k)
  have "length (dec (x div 10000)) \<ge> 1" by (cases "dec (x div 10000)") (use dec_neq_Nil in auto)
  with 1 show ?case
    by (subst count_digits_from.simps) (auto simp: length_dec_small length_dec_10000)
qed

lemma count_digits_eq: "count_digits x = length (dec x)"
  by (simp add: count_digits_def count_digits_from_eq)

text \<open>A number below 2 to the 64 has at most 20 digits.\<close>

lemma length_dec_le: "n < 10 ^ k \<Longrightarrow> 0 < k \<Longrightarrow> length (dec n) \<le> k"
proof (induction k arbitrary: n)
  case (Suc k)
  show ?case
  proof (cases "n < 10")
    case True
    then show ?thesis by (simp add: dec_less)
  next
    case False
    with Suc.prems have "n div 10 < 10 ^ k" "0 < k" by (auto intro: ccontr)
    with Suc.IH False show ?thesis by (simp add: dec_more)
  qed
qed simp

lemma length_dec_u64: "length (dec (unat (x :: u64))) \<le> 20"
  using unsigned_less [where ?'a = nat and w = x] by (intro length_dec_le) (auto intro: less_le_trans)

section \<open>Filling the buffer\<close>

text \<open>The digits take the place of \<open>mid\<close>, which ends at the position; the rest of the buffer stays.\<close>

lemma last_two:
  assumes "length mid = Suc (Suc n)"
  obtains m y z where "mid = m @ [y, z]" and "length m = n"
  using assms by (cases mid rule: rev_cases; cases "butlast mid" rule: rev_cases) auto

lemma fill_digits_eq:
  "length mid = length (dec v) \<Longrightarrow>
     fill_digits v (length pre + length mid) (pre @ mid @ post) = pre @ dec v @ post"
proof (induction v arbitrary: mid post rule: less_induct)
  case (less v)
  consider "v < 10" | "10 \<le> v" "v < 100" | "100 \<le> v" by linarith
  then show ?case
  proof cases
    case 1
    with less.prems obtain y where "mid = [y]" by (auto simp: dec_less length_Suc_conv)
    with 1 show ?thesis by (subst fill_digits.simps) (simp add: dec_less list_update_append)
  next
    case 2
    with less.prems obtain y z where "mid = [y, z]" by (auto simp: length_dec_small length_Suc_conv numeral_2_eq_2)
    with 2 show ?thesis
      by (subst fill_digits.simps) (simp add: dec_more dec_less list_update_append digits_to_99_def)
  next
    case 3
    then have "length mid = Suc (Suc (length (dec (v div 100))))" using less.prems by (simp add: length_dec_100)
    then obtain m y z where m: "mid = m @ [y, z]" "length m = length (dec (v div 100))"
      by (rule last_two)
    have "v div 100 < v" using 3 by simp
    note IH = less.IH [OF this m(2), of "digits_to_99 (v mod 100) 0 # digits_to_99 (v mod 100) 1 # post"]
    from 3 m IH show ?thesis
      by (subst fill_digits.simps) (simp add: dec_100 list_update_append Let_def)
  qed
qed

lemma number_buffer_split:
  "n \<le> 64 \<Longrightarrow> number_buffer = replicate n 0 @ replicate (64 - n) 0"
  by (simp add: number_buffer_def replicate_add [symmetric])

lemma dump_unsigned_eq: "dump_unsigned x = dec (unat x)"
proof (cases "x = 0")
  case True
  then show ?thesis by (simp add: dump_unsigned_def dec_less)
next
  case False
  let ?n = "length (dec (unat x))"
  have "fill_digits (unat x) ?n number_buffer = dec (unat x) @ replicate (64 - ?n) 0"
    using fill_digits_eq [of "replicate ?n 0" "unat x" "[]" "replicate (64 - ?n) 0"] length_dec_u64 [of x]
    by (simp add: number_buffer_split [of ?n])
  with False show ?thesis by (simp add: dump_unsigned_def Let_def count_digits_eq)
qed

lemma sint_cases:
  "sint x < 0 \<Longrightarrow> sint x = int (unat x) - 2 ^ 64" "0 \<le> sint x \<Longrightarrow> sint x = int (unat x)" for x :: u64
proof -
  have u: "uint x = sint x mod 2 ^ 64" by (simp add: uint_sint take_bit_eq_mod)
  have r: "- (2 ^ 63) \<le> sint x" "sint x < 2 ^ 63" using sint_ge [of x] sint_lt [of x] by simp_all
  have "sint x mod 2 ^ 64 = sint x + 2 ^ 64" if "sint x < 0"
    using r that mod_pos_pos_trivial [of "sint x + 2 ^ 64" "2 ^ 64"] by simp
  then show "sint x < 0 \<Longrightarrow> sint x = int (unat x) - 2 ^ 64" using u by simp
  show "0 \<le> sint x \<Longrightarrow> sint x = int (unat x)" using u r by (simp add: mod_pos_pos_trivial)
qed

lemma remove_sign_eq:
  assumes "sint x < 0"
  shows "unat (remove_sign x) = nat (- sint x)"
proof -
  have x: "0 < uint x" using assms by (metis less_irrefl sint_0 uint_0_iff uint_ge_0 order_le_less)
  have "uint (- x) = - uint x mod 2 ^ 64" using uint_word_ariths(4) [of x] by simp
  also have "\<dots> = 2 ^ 64 - uint x"
    using x uint_lt2p [of x] mod_pos_pos_trivial [of "2 ^ 64 - uint x" "2 ^ 64"] by simp
  finally have "uint (- x) = 2 ^ 64 - uint x" .
  then have "int (unat (remove_sign x)) = - sint x" using sint_cases(1) [OF assms] by (simp add: remove_sign_def)
  then show ?thesis by linarith
qed

lemma dump_signed_eq:
  "dump_signed x = (if sint x < 0 then 45 # dec (nat (- sint x)) else dec (nat (sint x)))"
proof (cases "sint x < 0")
  case True
  let ?v = "unat (remove_sign x)" let ?n = "length (dec ?v)"
  have v: "?v = nat (- sint x)" using True by (rule remove_sign_eq)
  have n: "?n \<le> 20" by (rule length_dec_u64)
  have "number_buffer[0 := 45] = [45] @ replicate ?n 0 @ replicate (63 - ?n) 0"
    using n by (simp add: number_buffer_def replicate_add [symmetric] numeral_eq_Suc)
  then have "fill_digits ?v (Suc ?n) (number_buffer[0 := 45]) = [45] @ dec ?v @ replicate (63 - ?n) 0"
    using fill_digits_eq [of "replicate ?n 0" ?v "[45]" "replicate (63 - ?n) 0"] by simp
  with True show ?thesis by (auto simp: dump_signed_def Let_def count_digits_eq v)
next
  case False
  then have "unat x = nat (sint x)" using sint_cases(2) [of x] by simp
  with False show ?thesis by (auto simp: dump_signed_def dump_unsigned_eq dec_less)
qed

end
