(* ===== verification/Json_Parser.thy ===== *)
theory Json_Parser
  imports Json_Lexer
begin

text \<open>
  The classes \<open>parser\<close> and \<open>json_sax_dom_parser\<close> of json.hpp: an iterative parser with a stack
  of the arrays and objects it is inside, and the builder of the value, which keeps pointers
  into the value it builds. A pointer is a path from the root. Parsing is strict and with
  exceptions, as \<open>basic_json::parse\<close> calls it.
\<close>

section \<open>Pointers into a value\<close>

datatype json_step = Key string | Elem nat

type_synonym json_path = "json_step list"

text \<open>The value that a pointer points to, and an assignment through it.\<close>

fun json_at :: "json_path \<Rightarrow> json \<Rightarrow> json" where
  "json_at [] j = j"
| "json_at (Key k # p) j = (case j of
       JObject ps \<Rightarrow> (case obj_find k ps of Some v \<Rightarrow> json_at p v | None \<Rightarrow> JDiscarded)
     | _ \<Rightarrow> JDiscarded)"
| "json_at (Elem i # p) j = (case j of
       JArray vs \<Rightarrow> if i < length vs then json_at p (vs ! i) else JDiscarded
     | _ \<Rightarrow> JDiscarded)"

fun json_assign :: "json_path \<Rightarrow> json \<Rightarrow> json \<Rightarrow> json" where
  "json_assign [] w j = w"
| "json_assign (Key k # p) w j = (case j of
       JObject ps \<Rightarrow> (case obj_find k ps of
           Some v \<Rightarrow> JObject (obj_put k (json_assign p w v) ps)
         | None \<Rightarrow> j)
     | _ \<Rightarrow> j)"
| "json_assign (Elem i # p) w j = (case j of
       JArray vs \<Rightarrow> if i < length vs then JArray (vs[i := json_assign p w (vs ! i)]) else j
     | _ \<Rightarrow> j)"

section \<open>The parser and the builder\<close>

record json_parser =
  lexer :: json_lexer
  last_token :: token_type
  dom_root :: json
  ref_stack :: "json_path list"
  object_element :: json_path
  errored :: bool

definition new_parser :: "bytes \<Rightarrow> json_parser" where
  "new_parser input = \<lparr>lexer = new_lexer input, last_token = uninitialized, dom_root = JNull,
     ref_stack = [], object_element = [], errored = False\<rparr>"

definition on_lexer :: "(json_lexer, 'a) prog \<Rightarrow> (json_parser, 'a) prog" where
  "on_lexer m = zoomM lexer (\<lambda>l p. p\<lparr>lexer := l\<rparr>) m"

definition get_token :: "json_env \<Rightarrow> (json_parser, token_type) prog" where
  "get_token F = bindM (on_lexer (scan F)) (\<lambda>t.
     bindM (modifyM (\<lambda>p. p\<lparr>last_token := t\<rparr>)) (\<lambda>_. returnM t))"

section \<open>The builder\<close>

text \<open>\<open>handle_value\<close>: the pointer to the value where it has been put.\<close>

definition handle_value :: "json \<Rightarrow> (json_parser, json_path) prog" where
  "handle_value v = bindM (getsM (\<lambda>p. p)) (\<lambda>p.
     if ref_stack p = [] then
       bindM (modifyM (\<lambda>p. p\<lparr>dom_root := v\<rparr>)) (\<lambda>_. returnM [])
     else
       let back = last (ref_stack p)
       in case json_at back (dom_root p) of
            JArray vs \<Rightarrow>
              bindM (modifyM (\<lambda>p. p\<lparr>dom_root := json_assign back (JArray (vs @ [v])) (dom_root p)\<rparr>))
                (\<lambda>_. returnM (back @ [Elem (length vs)]))
          | _ \<Rightarrow>
              bindM (modifyM (\<lambda>p. p\<lparr>dom_root := json_assign (object_element p) v (dom_root p)\<rparr>))
                (\<lambda>_. returnM (object_element p)))"

definition sax_value :: "json \<Rightarrow> (json_parser, unit) prog" where
  "sax_value v = bindM (handle_value v) (\<lambda>_. returnM ())"

definition start_container :: "json \<Rightarrow> (json_parser, unit) prog" where
  "start_container v = bindM (handle_value v) (\<lambda>r.
     modifyM (\<lambda>p. p\<lparr>ref_stack := ref_stack p @ [r]\<rparr>))"

definition start_object :: "(json_parser, unit) prog" where
  "start_object = start_container (JObject [])"

definition start_array :: "(json_parser, unit) prog" where
  "start_array = start_container (JArray [])"

text \<open>\<open>operator[]\<close> of the map puts a null where the key is new.\<close>

definition sax_key :: "string \<Rightarrow> (json_parser, unit) prog" where
  "sax_key k = modifyM (\<lambda>p.
     let back = last (ref_stack p);
         v = (case json_at back (dom_root p) of
                JObject ps \<Rightarrow> JObject (case obj_find k ps of Some _ \<Rightarrow> ps | None \<Rightarrow> obj_put k JNull ps)
              | j \<Rightarrow> j)
     in p\<lparr>dom_root := json_assign back v (dom_root p), object_element := back @ [Key k]\<rparr>)"

definition end_container :: "(json_parser, unit) prog" where
  "end_container = modifyM (\<lambda>p. p\<lparr>ref_stack := butlast (ref_stack p)\<rparr>)"

section \<open>Errors\<close>

definition position_string :: "json_lexer \<Rightarrow> string" where
  "position_string l = '' at line '' @ to_decimal (lines_read l + 1)
     @ '', column '' @ to_decimal (chars_read_current_line l)"

definition exception_message :: "token_type \<Rightarrow> string \<Rightarrow> json_parser \<Rightarrow> string" where
  "exception_message expected ctxt p =
     ''syntax error ''
     @ (if ctxt \<noteq> [] then ''while parsing '' @ ctxt @ '' '' else [])
     @ ''- ''
     @ (if last_token p = parse_error then
          error_message (lexer p) @ ''; last read: '' @ [apos] @ get_token_string (lexer p) @ [apos]
        else ''unexpected '' @ token_type_name (last_token p))
     @ (if expected \<noteq> uninitialized then ''; expected '' @ token_type_name expected else [])"

definition sax_error :: "exn \<Rightarrow> (json_parser, 'a) prog" where
  "sax_error e = bindM (modifyM (\<lambda>p. p\<lparr>errored := True\<rparr>)) (\<lambda>_. throwM e)"

definition unexpected :: "token_type \<Rightarrow> string \<Rightarrow> (json_parser, 'a) prog" where
  "unexpected expected ctxt = bindM (getsM (\<lambda>p. JsonError (json_exception_name ''parse_error'' 101
       @ ''parse error'' @ position_string (lexer p) @ '': '' @ exception_message expected ctxt p)))
     sax_error"

section \<open>The parser\<close>

text \<open>A key and the colon after it, from the token that should be the key.\<close>

definition parse_key :: "json_env \<Rightarrow> token_type \<Rightarrow> (json_parser, unit) prog" where
  "parse_key F t =
     (if t \<noteq> value_string then unexpected value_string ''object key''
      else bindM (getsM (\<lambda>p. string_of_bytes (token_buffer (lexer p)))) (\<lambda>k.
        bindM (sax_key k) (\<lambda>_.
        bindM (get_token F) (\<lambda>t.
        if t \<noteq> name_separator then unexpected name_separator ''object separator''
        else returnM ()))))"

text \<open>
  The switch on the last token. \<open>Inl states\<close> is \<open>continue\<close> with these states, \<open>Inr ()\<close> is
  \<open>break\<close>: a value is complete.
\<close>

definition parse_value :: "json_env \<Rightarrow> bool list \<Rightarrow> (json_parser, bool list + unit) prog" where
  "parse_value F states = bindM (getsM (\<lambda>p. (last_token p, lexer p))) (\<lambda>(t, l).
     let finished = (\<lambda>v. bindM (sax_value v) (\<lambda>_. returnM (Inr ())))
     in case t of
       begin_object \<Rightarrow>
         bindM start_object (\<lambda>_.
         bindM (get_token F) (\<lambda>t.
         if t = end_object then bindM end_container (\<lambda>_. returnM (Inr ()))
         else bindM (parse_key F t) (\<lambda>_.
           bindM (get_token F) (\<lambda>_. returnM (Inl (states @ [False]))))))
     | begin_array \<Rightarrow>
         bindM start_array (\<lambda>_.
         bindM (get_token F) (\<lambda>t.
         if t = end_array then bindM end_container (\<lambda>_. returnM (Inr ()))
         else returnM (Inl (states @ [True]))))
     | value_float \<Rightarrow>
         if \<not> double_is_finite (lex_float l) then
           sax_error (JsonError (json_exception_name ''out_of_range'' 406
             @ ''number overflow parsing '' @ [apos] @ get_token_string l @ [apos]))
         else finished (JFloat (lex_float l))
     | literal_false \<Rightarrow> finished (JBool False)
     | literal_null \<Rightarrow> finished JNull
     | literal_true \<Rightarrow> finished (JBool True)
     | value_integer \<Rightarrow> finished (JInt (lex_integer l))
     | value_string \<Rightarrow> finished (JString (string_of_bytes (token_buffer l)))
     | value_unsigned \<Rightarrow> finished (JUInt (lex_unsigned l))
     | parse_error \<Rightarrow> unexpected uninitialized ''value''
     | _ \<Rightarrow> unexpected literal_or_value ''value'')"

text \<open>
  What follows a value inside the innermost array or object. \<open>Inl (states, skip)\<close> goes on:
  with the next value, or, when \<open>skip\<close>, with what follows the array or object that has ended.
\<close>

definition after_value ::
  "json_env \<Rightarrow> bool list \<Rightarrow> (json_parser, (bool list \<times> bool) + bool) prog" where
  "after_value F states =
     (if states = [] then returnM (Inr True)
      else if last states then
        bindM (get_token F) (\<lambda>t.
        if t = value_separator then bindM (get_token F) (\<lambda>_. returnM (Inl (states, False)))
        else if t = end_array then
          bindM end_container (\<lambda>_. returnM (Inl (butlast states, True)))
        else unexpected end_array ''array'')
      else
        bindM (get_token F) (\<lambda>t.
        if t = value_separator then
          bindM (get_token F) (\<lambda>t. bindM (parse_key F t) (\<lambda>_.
          bindM (get_token F) (\<lambda>_. returnM (Inl (states, False)))))
        else if t = end_object then
          bindM end_container (\<lambda>_. returnM (Inl (butlast states, True)))
        else unexpected end_object ''object''))"

definition sax_parse_round ::
  "json_env \<Rightarrow> bool list \<times> bool \<Rightarrow> (json_parser, (bool list \<times> bool) + bool) prog" where
  "sax_parse_round F = (\<lambda>(states, skip_to_state_evaluation).
     if \<not> skip_to_state_evaluation then
       bindM (parse_value F states) (\<lambda>r. case r of
           Inl states \<Rightarrow> returnM (Inl (states, False))
         | Inr _ \<Rightarrow> after_value F states)
     else after_value F states)"

definition sax_parse_internal :: "json_env \<Rightarrow> (json_parser, bool) prog" where
  "sax_parse_internal F = loopM (sax_parse_round F) ([], False)"

text \<open>The constructor reads the first token.\<close>

definition parser_parse :: "json_env \<Rightarrow> (json_parser, json) prog" where
  "parser_parse F =
     bindM (get_token F) (\<lambda>_.
     bindM (sax_parse_internal F) (\<lambda>_.
     bindM (get_token F) (\<lambda>t.
     if t \<noteq> end_of_input then unexpected end_of_input ''value''
     else bindM (getsM errored) (\<lambda>e. if e then returnM JDiscarded else getsM dom_root))))"

text \<open>\<open>basic_json::parse\<close> of the bytes of a string, as a statement of a function with state \<open>'s\<close>.\<close>

definition json_parse :: "json_env \<Rightarrow> bytes \<Rightarrow> ('s, json) prog" where
  "json_parse F input = (\<lambda>s. case parser_parse F (new_parser input) of
       None \<Rightarrow> None
     | Some (r, _) \<Rightarrow> Some (r, s))"

end
