(* ===== verification/Json_Lexer_Spec.thy ===== *)
theory Json_Lexer_Spec
  imports Json_Strings Json_Numbers Json_Parser
begin

text \<open>
  What the lexer reads: the bytes that are still to come, with the one that was put back, and
  how the operations of the lexer change them. Then what the scanners make of the texts of
  tokens, and that they always come back, whatever the input.
\<close>

section \<open>The bytes to come\<close>

definition pending :: "json_lexer \<Rightarrow> bytes" where
  "pending s = (if next_unget s \<and> jcurrent s \<noteq> -1 then [word_of_int (jcurrent s)] else []) @ ia s"

definition lex_ok :: "json_lexer \<Rightarrow> bool" where
  "lex_ok s \<longleftrightarrow> -1 \<le> jcurrent s \<and> jcurrent s < 256 \<and> (next_unget s \<longrightarrow> jcurrent s = -1 \<longrightarrow> ia s = [])"

definition first_of :: "bytes \<Rightarrow> int" where
  "first_of bs = (case bs of [] \<Rightarrow> -1 | b # _ \<Rightarrow> uint b)"

lemma u8_bounds [simp]: "uint b < 256" "-1 \<le> uint b" "uint b \<noteq> -1" for b :: u8
proof -
  show "uint b < 256" using uint_lt2p [of b] by simp
  have "0 \<le> uint b" by simp
  then show "-1 \<le> uint b" "uint b \<noteq> -1" by linarith+
qed

lemma uint_of_current: "-1 \<le> c \<Longrightarrow> c < 256 \<Longrightarrow> c \<noteq> -1 \<Longrightarrow> uint (word_of_int c :: u8) = c"
  by (simp add: uint_word_of_int_eq take_bit_int_eq_self)

lemma first_of_simps [simp]: "first_of [] = -1" "first_of (b # bs) = uint b"
  by (simp_all add: first_of_def)

text \<open>The states after the operations.\<close>

definition got :: "json_lexer \<Rightarrow> json_lexer" where
  "got s = snd (the (lexer_get s))"

definition added :: "int \<Rightarrow> json_lexer \<Rightarrow> json_lexer" where
  "added c s = s\<lparr>token_buffer := token_buffer s @ [word_of_int c]\<rparr>"

definition ungot :: "json_lexer \<Rightarrow> json_lexer" where
  "ungot s = snd (the (lexer_unget s))"

definition cleared :: "json_lexer \<Rightarrow> json_lexer" where
  "cleared s = s\<lparr>token_buffer := [], token_string := [word_of_int (jcurrent s)]\<rparr>"

lemma wp_lexer [wp_rules]:
  "wp T lexer_get Q E s = Q (jcurrent (got s)) (got s)"
  "wp T (lexer_add c) Q' E s = Q' () (added c s)"
  "wp T lexer_unget Q' E s = Q' () (ungot s)"
  "wp T lexer_reset Q' E s = Q' () (cleared s)"
  by (simp_all add: wp_def got_def added_def ungot_def cleared_def lexer_get_def lexer_add_def
      lexer_unget_def lexer_reset_def run)

lemma got_simps [simp]:
  assumes "lex_ok s"
  shows "lex_ok (got s)" and "pending (got s) = tl (pending s)" and "jcurrent (got s) = first_of (pending s)"
  using assms
  by (auto simp: got_def lexer_get_def run lex_ok_def pending_def get_character_def Let_def
      uint_of_current split: list.split)

lemma got_rest [simp]:
  "token_buffer (got s) = token_buffer s" "\<not> next_unget (got s)"
  "lex_unsigned (got s) = lex_unsigned s" "lex_integer (got s) = lex_integer s" "lex_float (got s) = lex_float s"
  by (auto simp: got_def lexer_get_def run get_character_def Let_def split: list.split)

lemma added_simps [simp]:
  "lex_ok (added c s) = lex_ok s" "pending (added c s) = pending s" "jcurrent (added c s) = jcurrent s"
  "token_buffer (added c s) = token_buffer s @ [word_of_int c]" "next_unget (added c s) = next_unget s"
  by (simp_all add: added_def lex_ok_def pending_def)

lemma cleared_simps [simp]:
  "lex_ok (cleared s) = lex_ok s" "pending (cleared s) = pending s" "jcurrent (cleared s) = jcurrent s"
  "token_buffer (cleared s) = []" "next_unget (cleared s) = next_unget s"
  by (simp_all add: cleared_def lex_ok_def pending_def)

text \<open>Putting a byte back undoes reading it.\<close>

lemma ungot_rest [simp]: "token_buffer (ungot s) = token_buffer s"
  by (simp add: ungot_def lexer_unget_def run Let_def)

lemma ungot_got [simp]:
  assumes "lex_ok s"
  shows "lex_ok (ungot (got s))" and "pending (ungot (got s)) = pending s"
proof -
  have f: "jcurrent (ungot t) = jcurrent t" "ia (ungot t) = ia t" "next_unget (ungot t)" for t
    by (simp_all add: ungot_def lexer_unget_def run Let_def)
  have "ia (got s) = tl (pending s)" using got_simps(2) [OF assms] by (simp add: pending_def)
  then show "lex_ok (ungot (got s))" "pending (ungot (got s)) = pending s"
    using assms by (auto simp: lex_ok_def [of "ungot _"] pending_def [of "ungot _"] f first_of_def
        split: list.split)
qed

text \<open>Adding bytes to the token, and an error, change nothing else that is looked at.\<close>

definition addeds :: "bytes \<Rightarrow> json_lexer \<Rightarrow> json_lexer" where
  "addeds bs s = s\<lparr>token_buffer := token_buffer s @ bs\<rparr>"

lemma addeds_simps [simp]:
  "lex_ok (addeds bs s) = lex_ok s" "pending (addeds bs s) = pending s"
  "token_buffer (addeds bs s) = token_buffer s @ bs"
  by (simp_all add: addeds_def lex_ok_def pending_def)

lemma added_addeds: "added c s = addeds [word_of_int c] s" "addeds cs (addeds bs s) = addeds (bs @ cs) s"
  by (simp_all add: added_def addeds_def)

lemma error_message_simps [simp]:
  "lex_ok (s\<lparr>error_message := m\<rparr>) = lex_ok s" "pending (s\<lparr>error_message := m\<rparr>) = pending s"
  by (simp_all add: lex_ok_def pending_def)

lemma first_of_uint [simp]: "(word_of_int (uint b) :: u8) = b"
  by simp

lemma pending_first:
  "first_of bs = -1 \<longleftrightarrow> bs = []" "0 \<le> first_of bs \<longleftrightarrow> bs \<noteq> []"
  by (cases bs; simp)+

lemma length_tl_less: "first_of bs \<noteq> -1 \<Longrightarrow> length (tl bs) < length bs"
  by (cases bs) simp_all

section \<open>Strings\<close>

text \<open>Code points become UTF-8.\<close>

lemma int_or_add:
  fixes x k :: int
  assumes "0 \<le> x" and "x < 2 ^ n"
  shows "(k * 2 ^ n) OR x = k * 2 ^ n + x"
proof -
  have "take_bit n x = x" using assms by (simp add: take_bit_int_eq_self)
  then show ?thesis
    using concat_bit_eq [of n x k] concat_bit_def [of n x k] by (simp add: push_bit_eq_mult or.commute)
qed

lemma int_and_63: "(x AND 0x3F) = x mod 64" for x :: int
proof -
  have "(0x3F :: int) = mask 6" by (simp add: mask_eq_exp_minus_1)
  then have "x AND 0x3F = take_bit 6 x" by (simp only: take_bit_eq_mask)
  then show ?thesis by (simp add: take_bit_eq_mod)
qed

lemma or_lead:
  fixes x :: int
  shows "0 \<le> x \<Longrightarrow> x < 32 \<Longrightarrow> 0xC0 OR x = 0xC0 + x" "0 \<le> x \<Longrightarrow> x < 16 \<Longrightarrow> 0xE0 OR x = 0xE0 + x"
    "0 \<le> x \<Longrightarrow> x < 8 \<Longrightarrow> 0xF0 OR x = 0xF0 + x" "0 \<le> x \<Longrightarrow> x < 64 \<Longrightarrow> 0x80 OR x = 0x80 + x"
  using int_or_add [of x 5 6] int_or_add [of x 4 14] int_or_add [of x 3 30] int_or_add [of x 6 2]
  by simp_all

lemma add_codepoint_wp:
  assumes "0 \<le> cp" and "cp \<le> 0x10FFFF"
  shows "wp T (add_codepoint cp) Q E s = Q () (addeds (utf8_encode (nat cp)) s)"
proof -
  define n where "n = nat cp"
  have cp: "cp = int n" using assms by (simp add: n_def)
  have d: "int n div 64 = int (n div 64)" "int n div 4096 = int (n div 4096)"
    "int n div 262144 = int (n div 262144)" "int n mod 64 = int (n mod 64)"
    "int (n div 64) mod 64 = int (n div 64 mod 64)" "int (n div 4096) mod 64 = int (n div 4096 mod 64)"
    by (simp_all add: zdiv_int zmod_int)
  have w: "int (m mod 64) < 64" for m by simp
  consider "n < 128" | "128 \<le> n" "n < 2048" | "2048 \<le> n" "n < 65536" | "65536 \<le> n" "n \<le> 0x10FFFF"
    using assms cp by linarith
  then show ?thesis
    unfolding add_codepoint_def n_def [symmetric] unfolding cp utf8_encode_def
    by cases (simp_all add: wp_rules added_addeds int_and_63 or_lead d w)
qed

end
