(* ===== verification/Json_Lexer_Total.thy ===== *)
theory Json_Lexer_Total
  imports Json_Lexer_Spec
begin

text \<open>
  The scanners always come back, on every input: each round of their loops reads a byte. A
  token other than the end of the input has at least one byte, and a string token is UTF-8.
\<close>

section \<open>What every scanner does\<close>

definition lex_le :: "json_lexer \<Rightarrow> json_lexer \<Rightarrow> bool" where
  "lex_le t s \<longleftrightarrow> lex_ok t \<and> length (pending t) \<le> length (pending s)"

lemma lex_leI [simp]:
  "lex_ok s \<Longrightarrow> lex_le s s" "lex_ok s \<Longrightarrow> lex_le (got s) s" "lex_le (addeds bs t) s = lex_le t s"
  "lex_le (added c t) s = lex_le t s" "lex_le (cleared t) s = lex_le t s"
  "lex_le (t\<lparr>error_message := m\<rparr>) s = lex_le t s"
  "lex_le t (addeds bs s) = lex_le t s" "lex_le t (added c s) = lex_le t s" "lex_le t (cleared s) = lex_le t s"
  "lex_ok s \<Longrightarrow> lex_le (ungot (got s)) s"
  by (simp_all add: lex_le_def)

lemma lex_le_trans: "lex_le t s \<Longrightarrow> lex_le s r \<Longrightarrow> lex_le t r"
  by (simp add: lex_le_def)

lemma lex_leD: "lex_le t s \<Longrightarrow> lex_ok t" "lex_le t s \<Longrightarrow> length (pending t) \<le> length (pending s)"
  by (simp_all add: lex_le_def)

lemma utf8_ok_append: "utf8_ok rs xs \<Longrightarrow> utf8_ok rs (xs @ ys) = utf8_ok [] ys"
  by (induction rs xs rule: utf8_ok.induct) (auto split: if_splits option.splits)

lemma utf8_ok_ascii: "b < 0x80 \<Longrightarrow> utf8_ok [] [b]"
  by simp

section \<open>Strings\<close>

lemma get_codepoint_from_total:
  assumes "lex_ok s" and "0 \<le> c"
  shows "wp False (get_codepoint_from fs c)
     (\<lambda>r t. lex_le t s \<and> token_buffer t = token_buffer s
        \<and> (r = -1 \<or> 0 \<le> r \<and> r \<le> c + 15 * (\<Sum>f \<leftarrow> fs. 2 ^ f))) (\<lambda>_ _. False) s"
  using assms
proof (induction fs arbitrary: s c)
  case (Cons f fs)
  let ?d = "first_of (pending s)"
  have step: "wp False (get_codepoint_from fs (c + e * 2 ^ f))
     (\<lambda>r t. lex_le t s \<and> token_buffer t = token_buffer s
        \<and> (r = -1 \<or> 0 \<le> r \<and> r \<le> c + 15 * (\<Sum>f \<leftarrow> f # fs. 2 ^ f))) (\<lambda>_ _. False) (got s)"
    if "0 \<le> e" "e \<le> 15" for e :: int
  proof (rule wp_mono [OF Cons.IH])
    show "lex_ok (got s)" "0 \<le> c + e * 2 ^ f" using Cons.prems that by simp_all
    fix r t
    have "e * 2 ^ f \<le> 15 * 2 ^ f" using that by (intro mult_right_mono) simp_all
    then have "r \<le> c + (15 * 2 ^ f + k)" if "r \<le> c + e * 2 ^ f + k" for k using that by linarith
    then show "lex_le t (got s) \<and> token_buffer t = token_buffer (got s) \<and>
       (r = -1 \<or> 0 \<le> r \<and> r \<le> c + e * 2 ^ f + 15 * (\<Sum>f \<leftarrow> fs. 2 ^ f)) \<Longrightarrow>
       lex_le t s \<and> token_buffer t = token_buffer s
        \<and> (r = -1 \<or> 0 \<le> r \<and> r \<le> c + 15 * (\<Sum>f \<leftarrow> f # fs. 2 ^ f))"
      using Cons.prems(1) by (auto intro: lex_le_trans simp: distrib_left)
  qed simp
  show ?case
    using step [of "?d - 0x30"] step [of "?d - 0x37"] step [of "?d - 0x57"] Cons.prems
    by (auto simp: wp_rules)
qed (simp add: wp_rules)

lemma get_codepoint_total:
  assumes "lex_ok s"
  shows "wp False get_codepoint
     (\<lambda>r t. lex_le t s \<and> token_buffer t = token_buffer s \<and> (r = -1 \<or> 0 \<le> r \<and> r \<le> 0xFFFF)) (\<lambda>_ _. False) s"
  using get_codepoint_from_total [OF assms, of 0 "[12, 8, 4, 0]"] by (simp add: get_codepoint_def)

definition valid_codepoint :: "string + int \<Rightarrow> bool" where
  "valid_codepoint r \<longleftrightarrow> (case r of Inl m \<Rightarrow> True | Inr cp \<Rightarrow> 0 \<le> cp \<and> scalar_value (nat cp))"

lemma surrogate_pair:
  fixes c d :: int
  assumes "0xD800 \<le> c" and "c \<le> 0xDBFF" and "0xDC00 \<le> d" and "d \<le> 0xDFFF"
  shows "valid_codepoint (Inr (c * 1024 + d - 0x35FDC00))"
proof -
  define n where "n = nat (c * 1024 + d - 0x35FDC00)"
  have "c * 1024 + d - 0x35FDC00 = int n" "0x10000 \<le> n" "n \<le> 0x10FFFF"
    unfolding n_def using assms by linarith+
  then show ?thesis by (simp add: valid_codepoint_def scalar_value_def)
qed

lemma scan_low_surrogate_total:
  assumes "lex_ok s" and "0xD800 \<le> c" and "c \<le> 0xDBFF"
  shows "wp False (scan_low_surrogate c)
     (\<lambda>r t. lex_le t s \<and> token_buffer t = token_buffer s \<and> valid_codepoint r) (\<lambda>_ _. False) s"
  unfolding scan_low_surrogate_def
  using assms
  by (auto simp: wp_rules surrogate_pair lex_le_def valid_codepoint_def [of "Inl _"]
      intro!: wp_mono [OF get_codepoint_total])

lemma scan_unicode_total:
  assumes "lex_ok s"
  shows "wp False scan_unicode
     (\<lambda>r t. lex_le t s \<and> token_buffer t = token_buffer s \<and> valid_codepoint r) (\<lambda>_ _. False) s"
  unfolding scan_unicode_def wp_bind
  by (rule wp_mono [OF get_codepoint_total [OF assms]])
    (auto simp: wp_rules valid_codepoint_def [of "Inr _"] valid_codepoint_def [of "Inl _"] scalar_value_def
      intro!: wp_mono [OF scan_low_surrogate_total] intro: lex_le_trans dest: lex_leD(1))


lemma utf8_ranges_nonneg: "utf8_ranges c = Some rs \<Longrightarrow> \<forall>(lo, hi) \<in> set rs. 0 \<le> lo"
  by (auto simp: utf8_ranges_def split: if_splits)

lemma bytes_in_range_total:
  assumes "lex_ok s" and "\<forall>(lo, hi) \<in> set rs. 0 \<le> lo"
  shows "wp False (bytes_in_range rs)
     (\<lambda>ok t. lex_le t s \<and> (ok \<longrightarrow> (\<exists>bs. in_ranges rs bs \<and> token_buffer t = token_buffer s @ bs))) (\<lambda>_ _. False) s"
  using assms
proof (induction rs arbitrary: s)
  case (Cons r rs)
  obtain lo hi where r: "r = (lo, hi)" by (cases r)
  define d where "d = first_of (pending s)"
  define u where "u = added d (got s)"
  have u: "lex_ok u" "lex_le u s" "token_buffer u = token_buffer s @ [word_of_int d]"
    using Cons.prems by (simp_all add: u_def d_def)
  have lo: "0 \<le> lo" and rs: "\<forall>(lo, hi) \<in> set rs. 0 \<le> lo" using Cons.prems(2) by (simp_all add: r)
  show ?case
  proof (cases "lo \<le> d \<and> d \<le> hi")
    case True
    then have "d \<noteq> -1" using lo by simp
    then have w: "uint (word_of_int d :: u8) = d" by (cases "pending s") (simp_all add: d_def)
    have "wp False (bytes_in_range rs)
       (\<lambda>ok t. lex_le t s \<and> (ok \<longrightarrow> (\<exists>bs. in_ranges (r # rs) bs \<and> token_buffer t = token_buffer s @ bs)))
       (\<lambda>_ _. False) u"
    proof (rule wp_mono [OF Cons.IH [OF u(1) rs]])
      fix ok t
      assume t: "lex_le t u \<and> (ok \<longrightarrow> (\<exists>bs. in_ranges rs bs \<and> token_buffer t = token_buffer u @ bs))"
      have "in_ranges (r # rs) (word_of_int d # bs) \<and> token_buffer t = token_buffer s @ word_of_int d # bs"
        if "in_ranges rs bs" "token_buffer t = token_buffer u @ bs" for bs
        using that True w u(3) by (simp add: r)
      then show "lex_le t s \<and> (ok \<longrightarrow> (\<exists>bs. in_ranges (r # rs) bs \<and> token_buffer t = token_buffer s @ bs))"
        using t u(2) lex_le_trans by blast
    qed simp
    then show ?thesis using True Cons.prems by (simp add: wp_rules r d_def u_def)
  next
    case False
    then show ?thesis using Cons.prems by (auto simp: wp_rules r d_def)
  qed
qed (auto simp: wp_rules)


lemma utf8_ok_char:
  assumes "utf8_ok [] xs" and "utf8_ranges (uint b) = Some rs" and "in_ranges rs bs"
  shows "utf8_ok [] (xs @ b # bs)"
proof -
  have "\<not> b < 0x80" using assms(2) by (auto simp: utf8_ranges_def word_less_def split: if_splits)
  with assms show ?thesis using utf8_ok_ranges [of rs bs "[]"] by (simp add: utf8_ok_append)
qed

lemma scan_escape_total:
  assumes "lex_ok s" and "utf8_ok [] (token_buffer s)"
  shows "wp False scan_escape
     (\<lambda>r t. lex_le t s \<and> (case r of Inl _ \<Rightarrow> utf8_ok [] (token_buffer t) | Inr tok \<Rightarrow> tok = parse_error))
     (\<lambda>_ _. False) s"
proof -
  have unicode: "wp False (bindM scan_unicode (\<lambda>r. case r of
         Inl msg \<Rightarrow> string_error msg
       | Inr cp \<Rightarrow> bindM (add_codepoint cp) (\<lambda>_. returnM (Inl ()))))
     (\<lambda>r t. lex_le t s \<and> (case r of Inl _ \<Rightarrow> utf8_ok [] (token_buffer t) | Inr tok \<Rightarrow> tok = parse_error))
     (\<lambda>_ _. False) (got s)" (is "wp _ _ ?Q _ _")
    unfolding wp_bind
  proof (rule wp_mono [OF scan_unicode_total])
    show "lex_ok (got s)" using assms by simp
    fix r t
    assume t: "lex_le t (got s) \<and> token_buffer t = token_buffer (got s) \<and> valid_codepoint r"
    then have le: "lex_le t s" using assms lex_le_trans by (metis lex_leI(2))
    show "wp False (case r of Inl msg \<Rightarrow> string_error msg
       | Inr cp \<Rightarrow> bindM (add_codepoint cp) (\<lambda>_. returnM (Inl ()))) ?Q (\<lambda>_ _. False) t"
    proof (cases r)
      case (Inl m)
      then show ?thesis using le by (simp add: wp_rules string_error_def lexer_error_def)
    next
      case (Inr cp)
      with t have cp: "0 \<le> cp" "scalar_value (nat cp)" by (simp_all add: valid_codepoint_def)
      then have "cp \<le> 0x10FFFF" by (auto simp: scalar_value_def)
      with Inr cp t le assms show ?thesis
        using utf8_ok_encode [OF cp(2), of "[]"] by (simp add: wp_rules add_codepoint_wp utf8_ok_append)
    qed
  qed simp
  show ?thesis
    unfolding scan_escape_def wp_bind wp_lexer
    using assms unicode
    by (simp add: wp_rules string_add_def string_error_def lexer_error_def utf8_ok_append)
qed

lemma scan_string_round_total:
  assumes "lex_ok s" and "utf8_ok [] (token_buffer s)"
  shows "wp False (scan_string_round ())
     (\<lambda>r t. lex_le t s \<and> (case r of
          Inl _ \<Rightarrow> utf8_ok [] (token_buffer t) \<and> length (pending t) < length (pending s)
        | Inr tok \<Rightarrow> tok = parse_error \<or> tok = value_string \<and> utf8_ok [] (token_buffer t)))
     (\<lambda>_ _. False) s" (is "wp _ _ ?Q _ _")
proof (cases "pending s")
  case Nil
  then show ?thesis using assms
    by (simp add: scan_string_round_def wp_rules string_error_def lexer_error_def)
next
  case (Cons b bs)
  have g: "lex_ok (got s)" "utf8_ok [] (token_buffer (got s))" "lex_le (got s) s" using assms by simp_all
  have le: "lex_le t s" "length (pending t) < length (pending s)" "length (pending t) < Suc (length bs)"
    if "lex_le t (got s)" for t
    using that Cons assms by (auto simp: lex_le_def)
  have esc: "wp False scan_escape ?Q (\<lambda>_ _. False) (got s)"
    by (rule wp_mono [OF scan_escape_total [OF g(1,2)]]) (auto simp: le split: sum.splits)
  have high: "wp False (bindM (next_byte_in_range rs) (\<lambda>ok. if ok then returnM (Inl ()) else returnM (Inr parse_error)))
     ?Q (\<lambda>_ _. False) (got s)" if rs: "utf8_ranges (uint b) = Some rs" for rs
    unfolding next_byte_in_range_def wp_bind wp_basic wp_lexer
    by (rule wp_mono [OF bytes_in_range_total])
      (use g assms Cons rs utf8_ranges_nonneg [OF rs] utf8_ok_char [OF assms(2) rs] in
        \<open>auto simp: wp_rules le\<close>)
  have u: "b < 0x80 \<longleftrightarrow> uint b < 0x80" by (simp add: word_less_def)
  show ?thesis
    unfolding scan_string_round_def wp_bind wp_lexer
    using assms g Cons esc high u
    by (auto simp: wp_rules string_error_def string_add_def lexer_error_def string_plain_def utf8_ok_append le
        split: option.splits)
qed


lemma scan_string_total:
  assumes "lex_ok s"
  shows "wp False scan_string
     (\<lambda>tok t. lex_le t s \<and> (tok = parse_error \<or> tok = value_string \<and> utf8_ok [] (token_buffer t)))
     (\<lambda>_ _. False) s"
  unfolding scan_string_def wp_bind wp_lexer
proof (rule wp_loop_total
    [where I = "\<lambda>_ t. lex_le t s \<and> utf8_ok [] (token_buffer t)" and \<mu> = "\<lambda>_ t. length (pending t)"])
  show "lex_le (cleared s) s \<and> utf8_ok [] (token_buffer (cleared s))" using assms by simp
  fix a t
  assume t: "lex_le t s \<and> utf8_ok [] (token_buffer t)"
  then have "lex_ok t" "utf8_ok [] (token_buffer t)" by (simp_all add: lex_le_def)
  from scan_string_round_total [OF this] t
  show "wp False (scan_string_round a)
     (\<lambda>r t'. case r of
        Inl _ \<Rightarrow> (lex_le t' s \<and> utf8_ok [] (token_buffer t')) \<and> length (pending t') < length (pending t)
      | Inr tok \<Rightarrow> lex_le t' s \<and> (tok = parse_error \<or> tok = value_string \<and> utf8_ok [] (token_buffer t')))
     (\<lambda>_ _. False) t"
    by (auto elim!: wp_mono intro: lex_le_trans split: sum.splits)
qed

section \<open>Numbers and literals\<close>

lemma scan_number_round_total:
  assumes "lex_ok s"
  shows "wp False (scan_number_round a)
     (\<lambda>r t. lex_le t s \<and> (case r of
          Inl _ \<Rightarrow> length (pending t) < length (pending s)
        | Inr None \<Rightarrow> True
        | Inr (Some _) \<Rightarrow> t = got s))
     (\<lambda>_ _. False) s"
proof -
  obtain st ty where a: "a = (st, ty)" by (cases a)
  have less: "length (pending s) - Suc 0 < length (pending s)" if "first_of (pending s) \<noteq> -1"
    using that by (cases "pending s") simp_all
  show ?thesis
    using assms
    by (cases st) (auto simp: a wp_rules scan_number_round_def scan_exponent_round_def number_add_def
        number_error_def lexer_error_def digit_def less)
qed

lemma number_field_simps [simp]:
  "lex_le (t\<lparr>lex_float := x\<rparr>) s = lex_le t s" "lex_le (t\<lparr>lex_unsigned := x\<rparr>) s = lex_le t s"
  "lex_le (t\<lparr>lex_integer := x\<rparr>) s = lex_le t s"
  by (simp_all add: lex_le_def lex_ok_def pending_def)

lemma scan_number_done_total:
  assumes "lex_ok u"
  shows "wp False (scan_number_done F ty)
     (\<lambda>tok t. lex_le t u \<and> tok \<in> {value_unsigned, value_integer, value_float}) (\<lambda>_ _. False) (got u)"
  using assms by (auto simp: scan_number_done_def wp_rules Let_def split: option.split)

lemma scan_number_total:
  assumes "lex_ok s"
  shows "wp False (scan_number F)
     (\<lambda>tok t. lex_le t s \<and> tok \<in> {parse_error, value_unsigned, value_integer, value_float}) (\<lambda>_ _. False) s"
  unfolding scan_number_def wp_bind wp_lexer wp_basic
proof (rule wp_loop_total [where I = "\<lambda>_ t. lex_le t s" and \<mu> = "\<lambda>_ t. length (pending t)"])
  show "lex_le (added (jcurrent (cleared s)) (cleared s)) s" using assms by simp
  fix a t
  assume t: "lex_le t s"
  have ok: "lex_ok t" using t by (rule lex_leD)
  have number: "wp False (scan_number_done F ty)
     (\<lambda>tok t'. lex_le t' s \<and> tok \<in> {parse_error, value_unsigned, value_integer, value_float}) (\<lambda>_ _. False) (got t)" for ty
    by (rule wp_mono [OF scan_number_done_total [OF ok]]) (use t lex_le_trans in auto)
  show "wp False (scan_number_round a)
     (\<lambda>r t'. case r of
        Inl a' \<Rightarrow> lex_le t' s \<and> length (pending t') < length (pending t)
      | Inr b \<Rightarrow> wp False (case b of None \<Rightarrow> returnM parse_error | Some ty \<Rightarrow> scan_number_done F ty)
          (\<lambda>tok t'. lex_le t' s \<and> tok \<in> {parse_error, value_unsigned, value_integer, value_float}) (\<lambda>_ _. False) t')
     (\<lambda>_ _. False) t"
    by (rule wp_mono [OF scan_number_round_total [OF ok]])
      (use number t in \<open>auto simp: wp_rules intro: lex_le_trans split: sum.splits option.splits\<close>)
qed

lemma scan_literal_from_total:
  assumes "lex_ok s"
  shows "wp False (scan_literal_from cs ty) (\<lambda>tok t. lex_le t s \<and> tok \<in> {parse_error, ty}) (\<lambda>_ _. False) s"
  using assms
proof (induction cs arbitrary: s)
  case (Cons c cs)
  then have "wp False (scan_literal_from cs ty) (\<lambda>tok t. lex_le t s \<and> tok \<in> {parse_error, ty}) (\<lambda>_ _. False) (got s)"
    by (intro wp_mono [OF Cons.IH]) (auto intro: lex_le_trans)
  with Cons.prems show ?case by (simp add: wp_rules lexer_error_def)
qed (simp add: wp_rules)

section \<open>The scanner\<close>

lemma skip_bom_total:
  assumes "lex_ok s"
  shows "wp False skip_bom (\<lambda>_ t. lex_le t s) (\<lambda>_ _. False) s"
proof -
  have "lex_le (got (got (got s))) s" "lex_le (got (got s)) s"
    using assms by (simp_all add: lex_le_def)
  with assms show ?thesis by (simp add: skip_bom_def wp_rules)
qed

lemma skip_whitespace_total:
  assumes "lex_ok s"
  shows "wp False skip_whitespace
     (\<lambda>_ t. lex_le t s \<and> (jcurrent t \<noteq> -1 \<longrightarrow> length (pending t) < length (pending s))) (\<lambda>_ _. False) s"
  unfolding skip_whitespace_def
proof (rule wp_loop_total [where I = "\<lambda>_ t. lex_le t s" and \<mu> = "\<lambda>_ t. length (pending t)"])
  show "lex_le s s" using assms by simp
  fix a :: unit and t
  assume t: "lex_le t s"
  then have ok: "lex_ok t" and "lex_le (got t) s" by (auto simp: lex_le_def)
  moreover have "length (pending t) - Suc 0 < length (pending t)" "length (pending t) - Suc 0 < length (pending s)"
    if "first_of (pending t) \<noteq> -1"
    using that t by (cases "pending t"; auto simp: lex_le_def)+
  ultimately show "wp False (bindM lexer_get (\<lambda>c. returnM (if json_space c then Inl () else Inr ())))
     (\<lambda>r t'. case r of Inl a' \<Rightarrow> lex_le t' s \<and> length (pending t') < length (pending t)
      | Inr _ \<Rightarrow> lex_le t' s \<and> (jcurrent t' \<noteq> -1 \<longrightarrow> length (pending t') < length (pending s))) (\<lambda>_ _. False) t"
    by (auto simp: wp_rules json_space_def)
qed

lemma scan_token_total:
  assumes "lex_ok s"
  shows "wp False (scan_token F c)
     (\<lambda>tok t. lex_le t s \<and> (c = -1 \<longrightarrow> tok = end_of_input)
        \<and> (tok = value_string \<longrightarrow> utf8_ok [] (token_buffer t))) (\<lambda>_ _. False) s"
proof -
  have lit: "wp False (scan_literal w ty) (\<lambda>tok t. lex_le t s \<and> (tok = value_string \<longrightarrow> utf8_ok [] (token_buffer t)))
     (\<lambda>_ _. False) s" if "ty \<noteq> value_string" for w ty
    unfolding scan_literal_def
    by (rule wp_mono [OF scan_literal_from_total [OF assms]]) (use that in auto)
  have str: "wp False scan_string (\<lambda>tok t. lex_le t s \<and> (tok = value_string \<longrightarrow> utf8_ok [] (token_buffer t)))
     (\<lambda>_ _. False) s"
    by (rule wp_mono [OF scan_string_total [OF assms]]) auto
  have num: "wp False (scan_number F) (\<lambda>tok t. lex_le t s \<and> (tok = value_string \<longrightarrow> utf8_ok [] (token_buffer t)))
     (\<lambda>_ _. False) s"
    by (rule wp_mono [OF scan_number_total [OF assms]]) auto
  show ?thesis
    using assms by (simp add: scan_token_def wp_rules lit str num lexer_error_def digit_def)
qed

lemma scan_total:
  assumes "lex_ok s"
  shows "wp False (scan F)
     (\<lambda>tok t. lex_le t s
        \<and> (tok \<notin> {end_of_input, parse_error} \<longrightarrow> length (pending t) < length (pending s))
        \<and> (tok = value_string \<longrightarrow> utf8_ok [] (token_buffer t))) (\<lambda>_ _. False) s" (is "wp _ _ ?Q _ _")
proof -
  have tok: "wp False (scan_token F (jcurrent t)) ?Q (\<lambda>_ _. False) t"
    if "lex_le t s" "jcurrent t \<noteq> -1 \<longrightarrow> length (pending t) < length (pending s)" for t
    by (rule wp_mono [OF scan_token_total]) (use that in \<open>auto simp: lex_le_def\<close>)
  have ws: "wp False (bindM skip_whitespace (\<lambda>_. bindM (getsM jcurrent) (scan_token F))) ?Q (\<lambda>_ _. False) t"
    if "lex_le t s" for t
    unfolding wp_bind [of False skip_whitespace]
  proof (rule wp_mono [OF skip_whitespace_total])
    show "lex_ok t" using that by (rule lex_leD)
    fix u
    assume u: "lex_le u t \<and> (jcurrent u \<noteq> -1 \<longrightarrow> length (pending u) < length (pending t))"
    moreover have "length (pending t) \<le> length (pending s)" using that by (rule lex_leD)
    ultimately have "wp False (scan_token F (jcurrent u)) ?Q (\<lambda>_ _. False) u"
      using that by (intro tok) (auto intro: lex_le_trans)
    then show "wp False (bindM (getsM jcurrent) (scan_token F)) ?Q (\<lambda>_ _. False) u"
      unfolding wp_bind wp_basic .
  qed simp
  have start: "wp False (bindM (getsM chars_read_total) (\<lambda>n. if n = 0 then skip_bom else returnM True))
     (\<lambda>ok t. lex_le t s) (\<lambda>_ _. False) s"
    using skip_bom_total [OF assms] assms by (auto simp: wp_rules elim!: wp_mono)
  show ?thesis
    unfolding scan_def wp_bind [of False "bindM (getsM chars_read_total) _"]
    by (rule wp_mono [OF start]) (use ws in \<open>auto simp: wp_basic wp_bind [of _ "modifyM _"] lexer_error_def\<close>)
qed

end
