(* ===== verification/Json_Parser_Total.thy ===== *)
theory Json_Parser_Total
  imports Json_Lexer_Total
begin

text \<open>
  The parser always comes back, on every input, and what it returns is a value that can be
  printed again: strings and keys are UTF-8, keys are sorted, doubles are finite.
\<close>

section \<open>Values that can be printed\<close>

definition utf8_string :: "string \<Rightarrow> bool" where
  "utf8_string s \<longleftrightarrow> utf8_ok [] (bytes_of_string s)"

fun json_ok :: "json \<Rightarrow> bool" where
  "json_ok (JFloat x) \<longleftrightarrow> double_is_finite x"
| "json_ok (JString s) \<longleftrightarrow> utf8_string s"
| "json_ok (JArray vs) \<longleftrightarrow> (\<forall>v \<in> set vs. json_ok v)"
| "json_ok (JObject ps) \<longleftrightarrow> sorted_keys ps \<and> (\<forall>p \<in> set ps. utf8_string (fst p) \<and> json_ok (snd p))"
| "json_ok JDiscarded \<longleftrightarrow> False"
| "json_ok _ \<longleftrightarrow> True"

lemma set_obj_put: "set (obj_put k v ps) \<subseteq> insert (k, v) (set ps)"
  by (induction k v ps rule: obj_put.induct) auto

lemma json_ok_put:
  "json_ok (JObject ps) \<Longrightarrow> utf8_string k \<Longrightarrow> json_ok v \<Longrightarrow> json_ok (JObject (obj_put k v ps))"
  using set_obj_put [of k v ps] by (auto simp: sorted_obj_put)

lemma json_ok_find: "json_ok (JObject ps) \<Longrightarrow> obj_find k ps = Some v \<Longrightarrow> utf8_string k \<and> json_ok v"
  using map_of_SomeD [of ps k v] by (force simp: obj_find_def)

lemma json_ok_at: "json_ok j \<Longrightarrow> json_at p j = JDiscarded \<or> json_ok (json_at p j)"
  by (induction p j rule: json_at.induct) (auto split: json.split option.split dest: json_ok_find)

lemma json_ok_assign: "json_ok j \<Longrightarrow> json_ok w \<Longrightarrow> json_ok (json_assign p w j)"
proof (induction p w j rule: json_assign.induct)
  case (2 k p w j)
  show ?case
  proof (cases j)
    case (JObject ps)
    with 2 show ?thesis using json_ok_find [of ps k] json_ok_put [of ps k]
      by (auto split: option.split simp del: json_ok.simps)
  qed (use 2 in simp_all)
next
  case (3 i p w j)
  show ?case
  proof (cases j)
    case (JArray vs)
    with 3 show ?thesis by (auto dest!: set_update_subset_insert [THEN subsetD])
  qed (use 3 in \<open>simp_all del: json_ok.simps\<close>)
qed simp

text \<open>An assignment through a pointer that points nowhere does nothing.\<close>

lemma obj_put_same: "sorted_keys ps \<Longrightarrow> obj_find k ps = Some v \<Longrightarrow> obj_put k v ps = ps"
  unfolding obj_find_def
  by (induction k v ps rule: obj_put.induct) (auto dest!: map_of_SomeD split: if_splits)

lemma json_assign_nowhere: "json_ok j \<Longrightarrow> json_at p j = JDiscarded \<Longrightarrow> json_assign p w j = j"
proof (induction p w j rule: json_assign.induct)
  case (2 k p w j)
  show ?case
  proof (cases j)
    case (JObject ps)
    with 2 show ?thesis using json_ok_find [of ps k] obj_put_same [of ps k]
      by (auto split: option.splits)
  qed (use 2 in simp_all)
qed (auto split: json.splits if_splits)


section \<open>The builder\<close>

definition parser_ok :: "json_parser \<Rightarrow> bool" where
  "parser_ok p \<longleftrightarrow> lex_ok (lexer p) \<and> json_ok (dom_root p) \<and> \<not> errored p
     \<and> (last_token p = value_string \<longrightarrow> utf8_ok [] (token_buffer (lexer p)))"

definition todo :: "json_parser \<Rightarrow> nat" where
  "todo p = length (pending (lexer p))"

definition at_end :: "json_parser \<Rightarrow> bool" where
  "at_end p \<longleftrightarrow> last_token p \<in> {end_of_input, parse_error}"

text \<open>What an operation that does not read does: the value stays printable.\<close>

definition builds :: "json_parser \<Rightarrow> json_parser \<Rightarrow> bool" where
  "builds p q \<longleftrightarrow> parser_ok q \<and> lexer q = lexer p \<and> last_token q = last_token p"

lemma handle_value_total:
  assumes "parser_ok p" and "json_ok v"
  shows "wp False (handle_value v) (\<lambda>_ q. builds p q) (\<lambda>_ _. False) p"
proof -
  have root: "json_ok (dom_root p)" using assms by (simp add: parser_ok_def)
  have vs: "json_ok (JArray vs)" if "json_at (last (ref_stack p)) (dom_root p) = JArray vs" for vs
    using json_ok_at [OF root, of "last (ref_stack p)"] that by simp
  have ok: "builds p (p\<lparr>dom_root := j\<rparr>)" if "json_ok j" for j
    using assms that by (simp add: builds_def parser_ok_def)
  have arr: "json_ok (json_assign q (JArray (vs @ [v])) (dom_root p))"
    if "json_at (last (ref_stack p)) (dom_root p) = JArray vs" for q vs
    using vs [OF that] assms(2) by (intro json_ok_assign [OF root]) auto
  have other: "json_ok (json_assign q v (dom_root p))" for q
    using assms(2) by (rule json_ok_assign [OF root])
  show ?thesis
    unfolding handle_value_def
    by (auto simp: wp_rules Let_def ok arr other assms(2) split: json.split)
qed

lemma sax_value_total:
  assumes "parser_ok p" and "json_ok v"
  shows "wp False (sax_value v) (\<lambda>_ q. builds p q) (\<lambda>_ _. False) p"
  using handle_value_total [OF assms] by (simp add: sax_value_def wp_bind wp_ext)

lemma start_container_total:
  assumes "parser_ok p" and "json_ok v"
  shows "wp False (start_container v) (\<lambda>_ q. builds p q) (\<lambda>_ _. False) p"
  unfolding start_container_def wp_bind
  by (rule wp_mono [OF handle_value_total [OF assms]]) (auto simp: wp_rules builds_def parser_ok_def)

lemma end_container_total:
  "parser_ok p \<Longrightarrow> wp False end_container (\<lambda>_ q. builds p q) (\<lambda>_ _. False) p"
  by (simp add: end_container_def wp_rules builds_def parser_ok_def)

lemma sax_key_total:
  assumes "parser_ok p" and "utf8_string k"
  shows "wp False (sax_key k) (\<lambda>_ q. builds p q) (\<lambda>_ _. False) p"
proof -
  let ?at = "json_at (last (ref_stack p)) (dom_root p)"
  define v where "v = (case ?at of
       JObject ps \<Rightarrow> JObject (case obj_find k ps of Some _ \<Rightarrow> ps | None \<Rightarrow> obj_put k JNull ps)
     | j \<Rightarrow> j)"
  have root: "json_ok (dom_root p)" using assms by (simp add: parser_ok_def)
  have obj: "json_ok v" if "?at = JObject ps" for ps
    using json_ok_at [OF root, of "last (ref_stack p)"] that json_ok_put [of ps k JNull] assms(2)
    by (auto simp: v_def split: option.split)
  have "json_ok (json_assign (last (ref_stack p)) v (dom_root p))"
  proof (cases "?at = JDiscarded")
    case True
    then show ?thesis using json_assign_nowhere [OF root True] root by simp
  next
    case False
    then have at: "json_ok ?at" using json_ok_at [OF root, of "last (ref_stack p)"] by simp
    have "json_ok v"
    proof (cases "\<exists>ps. ?at = JObject ps")
      case True
      then show ?thesis using obj by blast
    next
      case False
      then have "v = ?at" by (simp add: v_def split: json.split)
      with at show ?thesis by simp
    qed
    then show ?thesis by (rule json_ok_assign [OF root])
  qed
  with assms show ?thesis
    unfolding sax_key_def v_def by (simp add: wp_rules Let_def builds_def parser_ok_def)
qed


section \<open>The parser\<close>

abbreviation json_throws :: "exn \<Rightarrow> 's \<Rightarrow> bool" where
  "json_throws e s \<equiv> \<exists>m. e = JsonError m"

lemma get_token_total:
  assumes "parser_ok p"
  shows "wp False (get_token F)
     (\<lambda>t q. parser_ok q \<and> last_token q = t \<and> todo q \<le> todo p \<and> (at_end q \<or> todo q < todo p)) json_throws p"
proof -
  have "lex_ok (lexer p)" using assms by (simp add: parser_ok_def)
  then show ?thesis
    unfolding get_token_def on_lexer_def wp_bind wp_zoom
    by (rule wp_mono [OF scan_total])
      (use assms in \<open>auto simp: wp_rules parser_ok_def todo_def at_end_def lex_le_def\<close>)
qed

lemma unexpected_total: "wp False (unexpected expected ctxt) Q json_throws p"
  by (simp add: unexpected_def sax_error_def wp_rules)

lemma get_token_then:
  assumes "parser_ok p"
    and "\<And>q. parser_ok q \<Longrightarrow> todo q \<le> todo p \<Longrightarrow> at_end q \<or> todo q < todo p \<Longrightarrow>
      wp False (f (last_token q)) Q json_throws q"
  shows "wp False (bindM (get_token F) f) Q json_throws p"
  unfolding wp_bind by (rule wp_mono [OF get_token_total [OF assms(1)]]) (use assms(2) in auto)

lemma builds_then:
  assumes "wp False m (\<lambda>_ q. builds p q) (\<lambda>_ _. False) p"
    and "\<And>x q. parser_ok q \<Longrightarrow> todo q = todo p \<Longrightarrow> last_token q = last_token p \<Longrightarrow> wp False (f x) Q json_throws q"
  shows "wp False (bindM m f) Q json_throws p"
  unfolding wp_bind by (rule wp_mono [OF assms(1)]) (use assms(2) in \<open>auto simp: builds_def todo_def\<close>)

lemma parse_key_total:
  assumes "parser_ok p"
  shows "wp False (parse_key F (last_token p)) (\<lambda>_ q. parser_ok q \<and> todo q \<le> todo p) json_throws p"
proof (cases "last_token p = value_string")
  case True
  then have k: "utf8_string (string_of_bytes (token_buffer (lexer p)))"
    using assms by (simp add: parser_ok_def utf8_string_def)
  let ?k = "string_of_bytes (token_buffer (lexer p))"
  have "wp False (bindM (sax_key ?k) (\<lambda>_. bindM (get_token F) (\<lambda>t.
       if t \<noteq> name_separator then unexpected name_separator ''object separator'' else returnM ())))
     (\<lambda>_ q. parser_ok q \<and> todo q \<le> todo p) json_throws p"
    by (rule builds_then [OF sax_key_total [OF assms k]], rule get_token_then)
      (auto simp: wp_rules unexpected_total)
  with True show ?thesis by (simp add: parse_key_def wp_bind [of _ "getsM _"] wp_basic)
qed (simp add: parse_key_def unexpected_total)

text \<open>What is left to do, with one more for a round that has its token.\<close>

definition budget :: "bool \<Rightarrow> json_parser \<Rightarrow> nat" where
  "budget skip p = todo p + (if \<not> skip \<and> at_end p then 0 else 1)"

lemma parse_key_then:
  assumes "parser_ok p"
    and "\<And>q. parser_ok q \<Longrightarrow> todo q \<le> todo p \<Longrightarrow> wp False (f ()) Q json_throws q"
  shows "wp False (bindM (parse_key F (last_token p)) f) Q json_throws p"
  unfolding wp_bind by (rule wp_mono [OF parse_key_total [OF assms(1)]]) (use assms(2) in auto)

lemma parse_value_total:
  assumes "parser_ok p"
  shows "wp False (parse_value F states)
     (\<lambda>r q. parser_ok q \<and> \<not> at_end p \<and> (case r of
          Inl _ \<Rightarrow> budget False q < budget False p
        | Inr _ \<Rightarrow> todo q \<le> todo p)) json_throws p" (is "wp _ _ ?Q _ _")
proof -
  have lit: "wp False (bindM (sax_value v) (\<lambda>_. returnM (Inr ()))) ?Q json_throws p"
    if "json_ok v" "\<not> at_end p" for v
    by (rule builds_then [OF sax_value_total [OF assms that(1)]]) (simp add: wp_rules that)
  have fin: "wp False (bindM end_container (\<lambda>_. returnM (Inr ()))) ?Q json_throws q"
    if "parser_ok q" "todo q \<le> todo p" "\<not> at_end p" for q
    by (rule builds_then [OF end_container_total [OF that(1)]]) (simp add: wp_rules that)
  have arr: "wp False (bindM start_array (\<lambda>_. bindM (get_token F) (\<lambda>t.
         if t = end_array then bindM end_container (\<lambda>_. returnM (Inr ()))
         else returnM (Inl (states @ [True]))))) ?Q json_throws p" if e: "\<not> at_end p"
    unfolding start_array_def
  proof (rule builds_then [OF start_container_total [OF assms]], simp, rule get_token_then)
    fix q r
    assume "parser_ok r" "todo q = todo p" "todo r \<le> todo q" "at_end r \<or> todo r < todo q"
    then show "wp False (if last_token r = end_array then bindM end_container (\<lambda>_. returnM (Inr ()))
         else returnM (Inl (states @ [True]))) ?Q json_throws r"
      using e fin [of r] by (auto simp: wp_basic budget_def)
  qed
  have obj: "wp False (bindM start_object (\<lambda>_. bindM (get_token F) (\<lambda>t.
         if t = end_object then bindM end_container (\<lambda>_. returnM (Inr ()))
         else bindM (parse_key F t) (\<lambda>_.
           bindM (get_token F) (\<lambda>_. returnM (Inl (states @ [False]))))))) ?Q json_throws p" if e: "\<not> at_end p"
    unfolding start_object_def
  proof (rule builds_then [OF start_container_total [OF assms]], simp, rule get_token_then)
    fix q r
    assume r: "parser_ok r" "todo q = todo p" "todo r \<le> todo q" "at_end r \<or> todo r < todo q"
    have key: "wp False (bindM (parse_key F (last_token r)) (\<lambda>_.
           bindM (get_token F) (\<lambda>_. returnM (Inl (states @ [False]))))) ?Q json_throws r"
      by (rule parse_key_then [OF r(1)], rule get_token_then) (use r e in \<open>auto simp: wp_basic budget_def\<close>)
    with r show "wp False (if last_token r = end_object then bindM end_container (\<lambda>_. returnM (Inr ()))
         else bindM (parse_key F (last_token r)) (\<lambda>_.
           bindM (get_token F) (\<lambda>_. returnM (Inl (states @ [False]))))) ?Q json_throws r"
      using e fin [of r] by auto
  qed
  have str: "utf8_string (string_of_bytes (token_buffer (lexer p)))" if "last_token p = value_string"
    using that assms by (simp add: parser_ok_def utf8_string_def)
  show ?thesis
    unfolding parse_value_def wp_bind [of _ "getsM _"] wp_basic
    using arr obj lit str
    by (cases "last_token p")
      (auto simp: Let_def at_end_def unexpected_total sax_error_def wp_bind [of _ "modifyM _"] wp_basic)
qed

lemma after_value_total:
  assumes "parser_ok p"
  shows "wp False (after_value F states)
     (\<lambda>r q. parser_ok q \<and> (case r of Inl (_, skip) \<Rightarrow> budget skip q \<le> todo p | Inr _ \<Rightarrow> True)) json_throws p"
    (is "wp _ _ ?Q _ _")
proof -
  have fin: "wp False (bindM end_container (\<lambda>_. returnM (Inl (butlast states, True)))) ?Q json_throws q"
    if "parser_ok q" "todo q < todo p" for q
    by (rule builds_then [OF end_container_total [OF that(1)]]) (use that in \<open>simp add: wp_rules budget_def\<close>)
  have next_value: "wp False (bindM (get_token F) (\<lambda>_. returnM (Inl (states, False)))) ?Q json_throws q"
    if "parser_ok q" "todo q < todo p" for q
    by (rule get_token_then [OF that(1)]) (use that in \<open>auto simp: wp_basic budget_def\<close>)
  have key: "wp False (bindM (get_token F) (\<lambda>t. bindM (parse_key F t) (\<lambda>_.
          bindM (get_token F) (\<lambda>_. returnM (Inl (states, False)))))) ?Q json_throws q"
    if "parser_ok q" "todo q < todo p" for q
    by (rule get_token_then [OF that(1)], rule parse_key_then) (use that next_value in auto)
  have less: "todo q < todo p" if "at_end q \<or> todo q < todo p" "last_token q \<in> {value_separator, end_array, end_object}" for q
    using that by (auto simp: at_end_def)
  show ?thesis
    unfolding after_value_def
    by (auto simp: wp_basic unexpected_total less assms intro!: get_token_then [OF assms] fin next_value key)
qed

lemma sax_parse_total:
  assumes "parser_ok p"
  shows "wp False (sax_parse_internal F) (\<lambda>_ q. parser_ok q) json_throws p"
  unfolding sax_parse_internal_def
proof (rule wp_loop_total [where I = "\<lambda>_ q. parser_ok q" and \<mu> = "\<lambda>a q. budget (snd a) q"])
  show "parser_ok p" by (rule assms)
  fix a :: "bool list \<times> bool" and q
  assume q: "parser_ok q"
  obtain states skip where a: "a = (states, skip)" by (cases a)
  let ?Q = "\<lambda>r t. case r of Inl a' \<Rightarrow> parser_ok t \<and> budget (snd a') t < budget (snd a) q
    | Inr _ \<Rightarrow> parser_ok t"
  have after: "wp False (after_value F states) ?Q json_throws r"
    if "parser_ok r" "todo r < budget skip q" for r
    by (rule wp_mono [OF after_value_total [OF that(1)]]) (use that in \<open>auto simp: a split: sum.splits\<close>)
  show "wp False (sax_parse_round F a) ?Q json_throws q"
  proof (cases skip)
    case True
    then show ?thesis using after [OF q] by (simp add: sax_parse_round_def a budget_def)
  next
    case False
    have "wp False (bindM (parse_value F states) (\<lambda>r. case r of
           Inl states \<Rightarrow> returnM (Inl (states, False))
         | Inr _ \<Rightarrow> after_value F states)) ?Q json_throws q"
      unfolding wp_bind
    proof (rule wp_mono [OF parse_value_total [OF q]], goal_cases)
      case (1 r t)
      show ?case
      proof (cases r)
        case (Inl x)
        with 1 False show ?thesis by (simp add: wp_basic a)
      next
        case (Inr x)
        with 1 have "todo t < budget skip q" by (simp add: budget_def)
        with 1 Inr show ?thesis using after [of t] by simp
      qed
    qed simp
    with False show ?thesis by (simp add: sax_parse_round_def a)
  qed
qed

lemma parser_parse_total:
  "wp False (parser_parse F) (\<lambda>j _. json_ok j) json_throws (new_parser input)"
proof -
  have new: "parser_ok (new_parser input)"
    by (simp add: parser_ok_def new_parser_def lex_ok_def new_lexer_def)
  have fin: "wp False (bindM (sax_parse_internal F) (\<lambda>_. bindM (get_token F) (\<lambda>t.
     if t \<noteq> end_of_input then unexpected end_of_input ''value''
     else bindM (getsM errored) (\<lambda>e. if e then returnM JDiscarded else getsM dom_root))))
     (\<lambda>j _. json_ok j) json_throws p" if p: "parser_ok p" for p
    unfolding wp_bind [of _ "sax_parse_internal F"]
    by (rule wp_mono [OF sax_parse_total [OF p]])
      (auto intro!: get_token_then simp: unexpected_total wp_bind [of _ "getsM _"] wp_basic parser_ok_def)
  show ?thesis
    unfolding parser_parse_def by (rule get_token_then [OF new]) (rule fin)
qed

text \<open>So parsing returns a value that can be printed, or throws.\<close>

lemma json_parse_total:
  obtains (parsed) j where "json_parse F input s = Some (Inr j, s)" and "json_ok j"
    | (error) m where "json_parse F input s = Some (Inl (JsonError m), s)"
  using parser_parse_total [of F input] by (elim wp_totalE) (auto simp: json_parse_def)

end
