(* ===== verification/Json_Grammar.thy ===== *)
theory Json_Grammar
  imports Json_Parser_Total
begin

text \<open>
  The texts of RFC 8259 that have a value here, and the values they stand for: white space,
  strings with their escapes, numbers, arrays and objects. An object takes the last of the
  members with the same key; a number that is an integer of 64 bits is one, every other is a
  double. Two kinds of texts of RFC 8259 are left out, and the parser throws on them: a number
  that \<open>strtod\<close> takes beyond the finite doubles (\<open>text_number\<close> asks for \<open>json_ok\<close>), and a
  \<open>\u\<close> escape that is half a surrogate pair (\<open>string_unicode\<close> asks for a \<open>scalar_value\<close>). Strings
  are UTF-8, which RFC 8259 asks for.
\<close>

section \<open>White space and strings\<close>

definition json_ws :: "bytes \<Rightarrow> bool" where
  "json_ws bs \<longleftrightarrow> (\<forall>b \<in> set bs. json_space (uint b))"

definition hex_digit :: "u8 \<Rightarrow> nat option" where
  "hex_digit b =
     (let n = unat b
      in if 48 \<le> n \<and> n \<le> 57 then Some (n - 48)
         else if 65 \<le> n \<and> n \<le> 70 then Some (n - 55)
         else if 97 \<le> n \<and> n \<le> 102 then Some (n - 87)
         else None)"

text \<open>Four hexadecimal digits and their value.\<close>

definition hex_text :: "bytes \<Rightarrow> nat \<Rightarrow> bool" where
  "hex_text ds n \<longleftrightarrow> length ds = 4 \<and> (\<forall>d \<in> set ds. hex_digit d \<noteq> None)
     \<and> n = foldl (\<lambda>n d. 16 * n + the (hex_digit d)) 0 ds"

definition simple_escapes :: "(u8 \<times> u8) list" where
  "simple_escapes = [(0x22, 0x22), (0x5C, 0x5C), (0x2F, 0x2F), (0x62, 0x08), (0x66, 0x0C), (0x6E, 0x0A),
     (0x72, 0x0D), (0x74, 0x09)]"

text \<open>What stands between the quotes, and the bytes of the string.\<close>

inductive string_body :: "bytes \<Rightarrow> bytes \<Rightarrow> bool" where
  string_end: "string_body [] []"
| string_char: "scalar_value cp \<Longrightarrow> 0x20 \<le> cp \<Longrightarrow> cp \<noteq> 0x22 \<Longrightarrow> cp \<noteq> 0x5C \<Longrightarrow> string_body t s
    \<Longrightarrow> string_body (utf8_encode cp @ t) (utf8_encode cp @ s)"
| string_escape: "(e, c) \<in> set simple_escapes \<Longrightarrow> string_body t s \<Longrightarrow> string_body (0x5C # e # t) (c # s)"
| string_unicode: "hex_text ds cp \<Longrightarrow> scalar_value cp \<Longrightarrow> string_body t s
    \<Longrightarrow> string_body (0x5C # 0x75 # ds @ t) (utf8_encode cp @ s)"
| string_pair: "hex_text hs (0xD800 + h) \<Longrightarrow> hex_text ls (0xDC00 + l) \<Longrightarrow> h < 0x400 \<Longrightarrow> l < 0x400
    \<Longrightarrow> string_body t s
    \<Longrightarrow> string_body (0x5C # 0x75 # hs @ 0x5C # 0x75 # ls @ t) (utf8_encode (0x10000 + 0x400 * h + l) @ s)"

section \<open>Numbers\<close>

text \<open>The automaton of the numbers: its states are the labels of the scanner.\<close>

definition number_next :: "number_state \<times> token_type \<Rightarrow> int \<Rightarrow> (number_state \<times> token_type) option" where
  "number_next a c = (case a of (st, t) \<Rightarrow> (case st of
       number_minus \<Rightarrow> if c = 0x30 then Some (number_zero, value_integer)
         else if digit c then Some (number_any1, value_integer) else None
     | number_zero \<Rightarrow> if c = 0x2E then Some (number_decimal1, t)
         else if c = 0x65 \<or> c = 0x45 then Some (number_exponent, t) else None
     | number_any1 \<Rightarrow> if digit c then Some (number_any1, t)
         else if c = 0x2E then Some (number_decimal1, t)
         else if c = 0x65 \<or> c = 0x45 then Some (number_exponent, t) else None
     | number_decimal1 \<Rightarrow> if digit c then Some (number_decimal2, value_float) else None
     | number_decimal2 \<Rightarrow> if digit c then Some (number_decimal2, t)
         else if c = 0x65 \<or> c = 0x45 then Some (number_exponent, t) else None
     | number_exponent \<Rightarrow> if c = 0x2B \<or> c = 0x2D then Some (number_sign, value_float)
         else if digit c then Some (number_any2, value_float) else None
     | number_sign \<Rightarrow> if digit c then Some (number_any2, t) else None
     | number_any2 \<Rightarrow> if digit c then Some (number_any2, t) else None))"

definition number_final :: "number_state \<Rightarrow> bool" where
  "number_final st \<longleftrightarrow> st \<in> {number_zero, number_any1, number_decimal2, number_any2}"

fun number_run :: "number_state \<times> token_type \<Rightarrow> bytes \<Rightarrow> (number_state \<times> token_type) option" where
  "number_run a [] = Some a"
| "number_run a (b # bs) = (case number_next a (uint b) of None \<Rightarrow> None | Some a' \<Rightarrow> number_run a' bs)"

definition number_start :: "int \<Rightarrow> number_state \<times> token_type" where
  "number_start c = (if c = 0x2D then number_minus else if c = 0x30 then number_zero else number_any1, value_unsigned)"

definition number_type :: "bytes \<Rightarrow> token_type option" where
  "number_type bs = (case bs of
       [] \<Rightarrow> None
     | b # ds \<Rightarrow>
         if uint b = 0x2D \<or> digit (uint b) then
           (case number_run (number_start (uint b)) ds of
              None \<Rightarrow> None
            | Some (st, t) \<Rightarrow> if number_final st then Some t else None)
         else None)"

text \<open>The number that a text stands for.\<close>

definition number_of_type :: "json_env \<Rightarrow> token_type \<Rightarrow> bytes \<Rightarrow> json" where
  "number_of_type F t bs =
     (if t = value_unsigned then case strtoull bs of Some x \<Rightarrow> JUInt x | None \<Rightarrow> JFloat (strtod F bs)
      else if t = value_integer then case strtoll bs of Some x \<Rightarrow> JInt x | None \<Rightarrow> JFloat (strtod F bs)
      else JFloat (strtod F bs))"

section \<open>Values\<close>

definition members_value :: "(string \<times> json) list \<Rightarrow> json" where
  "members_value ms = JObject (foldl (\<lambda>ps (k, v). obj_put k v ps) [] ms)"

inductive json_text :: "json_env \<Rightarrow> json \<Rightarrow> bytes \<Rightarrow> bool"
  and elements_text :: "json_env \<Rightarrow> json list \<Rightarrow> bytes \<Rightarrow> bool"
  and members_text :: "json_env \<Rightarrow> (string \<times> json) list \<Rightarrow> bytes \<Rightarrow> bool" for F where
  text_null: "json_text F JNull (bytes_of_string ''null'')"
| text_true: "json_text F (JBool True) (bytes_of_string ''true'')"
| text_false: "json_text F (JBool False) (bytes_of_string ''false'')"
| text_string: "string_body t s \<Longrightarrow> json_text F (JString (string_of_bytes s)) (0x22 # t @ [0x22])"
| text_number: "number_type bs = Some t \<Longrightarrow> json_ok (number_of_type F t bs) \<Longrightarrow> json_text F (number_of_type F t bs) bs"
| text_empty_array: "json_ws w \<Longrightarrow> json_text F (JArray []) (0x5B # w @ [0x5D])"
| text_array: "elements_text F vs t \<Longrightarrow> json_text F (JArray vs) (0x5B # t @ [0x5D])"
| text_empty_object: "json_ws w \<Longrightarrow> json_text F (JObject []) (0x7B # w @ [0x7D])"
| text_object: "members_text F ms t \<Longrightarrow> json_text F (members_value ms) (0x7B # t @ [0x7D])"
| elements_one: "json_ws w \<Longrightarrow> json_text F v t \<Longrightarrow> json_ws w' \<Longrightarrow> elements_text F [v] (w @ t @ w')"
| elements_more: "json_ws w \<Longrightarrow> json_text F v t \<Longrightarrow> json_ws w' \<Longrightarrow> elements_text F vs ts
    \<Longrightarrow> elements_text F (v # vs) (w @ t @ w' @ 0x2C # ts)"
| members_one: "json_ws w \<Longrightarrow> string_body kt k \<Longrightarrow> json_ws w1 \<Longrightarrow> json_ws w2 \<Longrightarrow> json_text F v t \<Longrightarrow> json_ws w'
    \<Longrightarrow> members_text F [(string_of_bytes k, v)] (w @ 0x22 # kt @ 0x22 # w1 @ 0x3A # w2 @ t @ w')"
| members_more: "json_ws w \<Longrightarrow> string_body kt k \<Longrightarrow> json_ws w1 \<Longrightarrow> json_ws w2 \<Longrightarrow> json_text F v t \<Longrightarrow> json_ws w'
    \<Longrightarrow> members_text F ms ts
    \<Longrightarrow> members_text F ((string_of_bytes k, v) # ms)
          (w @ 0x22 # kt @ 0x22 # w1 @ 0x3A # w2 @ t @ w' @ 0x2C # ts)"

text \<open>A whole text: a value between white space.\<close>

definition json_document :: "json_env \<Rightarrow> json \<Rightarrow> bytes \<Rightarrow> bool" where
  "json_document F v bs \<longleftrightarrow> (\<exists>w t w'. bs = w @ t @ w' \<and> json_ws w \<and> json_text F v t \<and> json_ws w')"

end
