(* ===== verification/Json_Scan.thy ===== *)
theory Json_Scan
  imports Json_Grammar
begin

text \<open>
  The lexer takes the text of a token, and no more, and leaves its bytes in the buffer.
\<close>

section \<open>Where the lexer is\<close>

definition lex_at :: "json_lexer \<Rightarrow> bytes \<Rightarrow> bytes \<Rightarrow> bool" where
  "lex_at s bs buf \<longleftrightarrow> lex_ok s \<and> pending s = bs \<and> token_buffer s = buf"

lemma lex_at_got [simp]: "lex_at s (b # bs) buf \<Longrightarrow> lex_at (got s) bs buf"
  "lex_at s (b # bs) buf \<Longrightarrow> jcurrent (got s) = uint b"
  "lex_at s [] buf \<Longrightarrow> jcurrent (got s) = -1"
  by (auto simp: lex_at_def)

lemma lex_at_added [simp]: "lex_at s bs buf \<Longrightarrow> lex_at (added c s) bs (buf @ [word_of_int c])"
  "lex_at s bs buf \<Longrightarrow> lex_at (addeds cs s) bs (buf @ cs)" "lex_at s bs buf \<Longrightarrow> lex_at (cleared s) bs []"
  by (auto simp: lex_at_def)

lemma lex_at_ok: "lex_at s bs buf \<Longrightarrow> lex_ok s"
  by (simp add: lex_at_def)

lemma wp_loop_step:
  "wp T (body a) (\<lambda>r t. case r of Inl a' \<Rightarrow> wp T (loopM body a') Q E t | Inr b \<Rightarrow> Q b t) E s
     \<Longrightarrow> wp T (loopM body a) Q E s"
  by (subst wp_loop_unfold)

section \<open>Strings\<close>

lemma get_codepoint_digit:
  assumes "hex_digit b = Some h" and "lex_at s (b # bs) buf"
  shows "wp T (get_codepoint_from (f # fs) c) Q E s = wp T (get_codepoint_from fs (c + int h * 2 ^ f)) Q E (got s)"
proof -
  define n where "n = unat b"
  have u: "uint b = int n" by (simp add: n_def)
  have "48 \<le> n \<and> n \<le> 57 \<and> h = n - 48 \<or> 65 \<le> n \<and> n \<le> 70 \<and> h = n - 55 \<or> 97 \<le> n \<and> n \<le> 102 \<and> h = n - 87"
    using assms(1) by (auto simp: hex_digit_def Let_def n_def split: if_splits)
  then show ?thesis using assms(2) by (auto simp: wp_rules u of_nat_diff)
qed

lemma hex_text_cases:
  assumes "hex_text ds n"
  obtains a b c d where "ds = [a, b, c, d]" and "hex_digit a \<noteq> None" and "hex_digit b \<noteq> None"
    and "hex_digit c \<noteq> None" and "hex_digit d \<noteq> None"
    and "n = 4096 * the (hex_digit a) + 256 * the (hex_digit b) + 16 * the (hex_digit c) + the (hex_digit d)"
proof -
  obtain a b c d where ds: "ds = [a, b, c, d]"
    using assms by (auto simp: hex_text_def numeral_eq_Suc length_Suc_conv)
  show thesis using assms by (intro that [OF ds]) (auto simp: hex_text_def ds)
qed

lemma get_codepoint_text:
  assumes "hex_text ds n" and "lex_at s (ds @ bs) buf"
  shows "wp False get_codepoint (\<lambda>r t. r = int n \<and> lex_at t bs buf) (\<lambda>_ _. False) s"
proof -
  from assms(1) obtain a b c d where ds: "ds = [a, b, c, d]" and h: "hex_digit a \<noteq> None" "hex_digit b \<noteq> None"
    "hex_digit c \<noteq> None" "hex_digit d \<noteq> None"
    and n: "n = 4096 * the (hex_digit a) + 256 * the (hex_digit b) + 16 * the (hex_digit c) + the (hex_digit d)"
    by (rule hex_text_cases)
  have s: "lex_at s (a # b # c # d # bs) buf" using assms(2) by (simp add: ds)
  then have t: "lex_at (got s) (b # c # d # bs) buf" "lex_at (got (got s)) (c # d # bs) buf"
    "lex_at (got (got (got s))) (d # bs) buf" "lex_at (got (got (got (got s)))) bs buf"
    by (auto intro!: lex_at_got)
  from h obtain a' b' c' d' where h': "hex_digit a = Some a'" "hex_digit b = Some b'"
    "hex_digit c = Some c'" "hex_digit d = Some d'" by auto
  show ?thesis
    unfolding get_codepoint_def
    by (simp only: get_codepoint_digit [OF h'(1) s] get_codepoint_digit [OF h'(2) t(1)]
        get_codepoint_digit [OF h'(3) t(2)] get_codepoint_digit [OF h'(4) t(3)])
      (simp add: wp_rules t n h')
qed

lemma hex_text_bound: "hex_text ds n \<Longrightarrow> n \<le> 0xFFFF"
proof -
  assume "hex_text ds n"
  then obtain a b c d where h: "hex_digit a \<noteq> None" "hex_digit b \<noteq> None" "hex_digit c \<noteq> None" "hex_digit d \<noteq> None"
    and n: "n = 4096 * the (hex_digit a) + 256 * the (hex_digit b) + 16 * the (hex_digit c) + the (hex_digit d)"
    by (rule hex_text_cases)
  have "the (hex_digit x) \<le> 15" if "hex_digit x \<noteq> None" for x
    using that by (auto simp: hex_digit_def Let_def split: if_splits)
  from this [OF h(1)] this [OF h(2)] this [OF h(3)] this [OF h(4)] n show ?thesis by linarith
qed

lemma scan_unicode_text:
  assumes "hex_text ds cp" and "scalar_value cp" and "lex_at s (ds @ bs) buf"
  shows "wp False scan_unicode (\<lambda>r t. r = Inr (int cp) \<and> lex_at t bs buf) (\<lambda>_ _. False) s"
  unfolding scan_unicode_def wp_bind
  by (rule wp_mono [OF get_codepoint_text [OF assms(1,3)]])
    (use assms(2) in \<open>auto simp: wp_rules scalar_value_def\<close>)

lemma scan_pair_text:
  assumes h: "hex_text hs (0xD800 + h)" "h < 0x400" and l: "hex_text ls (0xDC00 + l)" "l < 0x400"
    and s: "lex_at s (hs @ 0x5C # 0x75 # ls @ bs) buf"
  shows "wp False scan_unicode (\<lambda>r t. r = Inr (int (0x10000 + 0x400 * h + l)) \<and> lex_at t bs buf) (\<lambda>_ _. False) s"
  unfolding scan_unicode_def wp_bind
proof (rule wp_mono [OF get_codepoint_text [OF h(1) s]], goal_cases)
  case (1 r t)
  then have t: "lex_at t (0x5C # 0x75 # ls @ bs) buf" by simp
  then have u: "lex_at (got (got t)) (ls @ bs) buf" by (auto intro!: lex_at_got)
  have cur: "jcurrent (got t) = 0x5C" "jcurrent (got (got t)) = 0x75"
    using lex_at_got(2) [OF t] lex_at_got(2) [OF lex_at_got(1) [OF t]] by simp_all
  have "wp False (scan_low_surrogate r)
     (\<lambda>r t. r = Inr (int (0x10000 + 0x400 * h + l)) \<and> lex_at t bs buf) (\<lambda>_ _. False) t"
    unfolding scan_low_surrogate_def
    by (simp add: wp_rules cur)
      (rule wp_mono [OF get_codepoint_text [OF l(1) u]], use 1 l h in \<open>auto simp: wp_rules\<close>)
  then show ?case using 1 h by (simp add: wp_rules)
qed simp

lemma bytes_in_range_text:
  assumes "in_ranges rs xs" and "lex_at s (xs @ bs) buf"
  shows "wp False (bytes_in_range rs) (\<lambda>ok t. ok \<and> lex_at t bs (buf @ xs)) (\<lambda>_ _. False) s"
  using assms
proof (induction rs xs arbitrary: s buf rule: in_ranges.induct)
  case (2 lo hi rs x xs)
  then have "lex_at (added (uint x) (got s)) (xs @ bs) (buf @ [x])"
    using lex_at_added(1) [of "got s" "xs @ bs" buf "uint x"] by simp
  from "2.IH" [OF _ this] "2.prems" show ?case by (simp add: wp_rules)
qed (auto simp: wp_rules)

text \<open>One round takes one character of the body.\<close>

definition string_round :: "json_lexer \<Rightarrow> bytes \<Rightarrow> bytes \<Rightarrow> bool" where
  "string_round s bs buf \<longleftrightarrow>
     wp False (scan_string_round ()) (\<lambda>r t. r = Inl () \<and> lex_at t bs buf) (\<lambda>_ _. False) s"

lemma round_char:
  assumes cp: "scalar_value cp" "0x20 \<le> cp" "cp \<noteq> 0x22" "cp \<noteq> 0x5C"
    and s: "lex_at s (utf8_encode cp @ bs) buf"
  shows "string_round s bs (buf @ utf8_encode cp)"
proof (cases "cp < 0x80")
  case True
  have u: "uint (of_nat cp :: u8) = int cp" using True by (simp add: uint_of_nat_u8)
  have s': "lex_at s (of_nat cp # bs) buf" using s True by (simp add: utf8_encode_ascii)
  from cp True lex_at_added(1) [OF lex_at_got(1) [OF s'], of "int cp"] show ?thesis
    by (simp add: string_round_def scan_string_round_def wp_rules lex_at_got(2) [OF s'] u string_plain_def
        string_add_def utf8_encode_ascii)
next
  case False
  then obtain b xs rs where b: "utf8_encode cp = b # xs" "utf8_ranges (uint b) = Some rs" "in_ranges rs xs"
    using utf8_encode_ranges [OF cp(1)] by (metis not_less)
  have s': "lex_at s (b # xs @ bs) buf" using s b by simp
  have high: "0x80 \<le> uint b" using b(2) by (auto simp: utf8_ranges_def split: if_splits)
  have t: "lex_at (added (uint b) (got s)) (xs @ bs) (buf @ [b])"
    using lex_at_added(1) [OF lex_at_got(1) [OF s'], of "uint b"] by simp
  show ?thesis
    unfolding string_round_def scan_string_round_def wp_bind wp_lexer lex_at_got(2) [OF s']
    using high b
    by (auto simp: string_plain_def next_byte_in_range_def wp_bind wp_basic wp_lexer lex_at_got(2) [OF s']
        intro!: wp_mono [OF bytes_in_range_text [OF b(3) t]])
qed

lemma round_escape:
  assumes "(e, c) \<in> set simple_escapes" and s: "lex_at s (0x5C # e # bs) buf"
  shows "string_round s bs (buf @ [c])"
proof -
  note cur = lex_at_got(2) [OF s] lex_at_got(2) [OF lex_at_got(1) [OF s]]
  have t: "lex_at (added x (got (got s))) bs (buf @ [word_of_int x])" for x
    by (rule lex_at_added(1) [OF lex_at_got(1) [OF lex_at_got(1) [OF s]]])
  show ?thesis
    using assms(1) t [of "0x22"] t [of "0x5C"] t [of "0x2F"] t [of 8] t [of "0x0C"] t [of "0x0A"] t [of "0x0D"] t [of 9] cur
    by (auto simp: string_round_def scan_string_round_def scan_escape_def wp_rules string_add_def simple_escapes_def)
qed

lemma round_unicode:
  assumes r: "\<And>u. lex_at u (ds @ bs) buf \<Longrightarrow>
      wp False scan_unicode (\<lambda>r t. r = Inr (int cp) \<and> lex_at t bs buf) (\<lambda>_ _. False) u"
    and cp: "cp \<le> 0x10FFFF" and s: "lex_at s (0x5C # 0x75 # ds @ bs) buf"
  shows "string_round s bs (buf @ utf8_encode cp)"
proof -
  note cur = lex_at_got(2) [OF s] lex_at_got(2) [OF lex_at_got(1) [OF s]]
  have t: "lex_at (got (got s)) (ds @ bs) buf" using s by (auto intro!: lex_at_got)
  have u: "wp False (bindM scan_unicode (\<lambda>r. case r of Inl msg \<Rightarrow> string_error msg
       | Inr cp \<Rightarrow> bindM (add_codepoint cp) (\<lambda>_. returnM (Inl ()))))
     (\<lambda>r t. r = Inl () \<and> lex_at t bs (buf @ utf8_encode cp)) (\<lambda>_ _. False) (got (got s))"
    unfolding wp_bind
    by (rule wp_mono [OF r [OF t]]) (use cp in \<open>auto simp: wp_rules add_codepoint_wp\<close>)
  show ?thesis
    unfolding string_round_def scan_string_round_def wp_bind wp_lexer
    using u by (simp add: cur scan_escape_def wp_bind [of _ lexer_get] wp_lexer)
qed

text \<open>The rounds of a body, and then whatever comes behind it.\<close>

lemma scan_string_body:
  assumes "string_body t str" and "lex_at s (t @ bs) buf"
    and "\<And>u. lex_at u bs (buf @ str) \<Longrightarrow> wp False (loopM scan_string_round ()) Q E u"
  shows "wp False (loopM scan_string_round ()) Q E s"
  using assms
proof (induction t str arbitrary: s buf rule: string_body.induct)
  case string_end
  then show ?case by simp
next
  case (string_char cp t str)
  then have s: "lex_at s (utf8_encode cp @ t @ bs) buf" by simp
  show ?case
    by (rule wp_loop_step, rule wp_mono [OF round_char [OF string_char.hyps(1-4) s, unfolded string_round_def]])
      (use string_char.IH [of _ "buf @ utf8_encode cp"] string_char.prems(2) in auto)
next
  case (string_escape e c t str)
  then have s: "lex_at s (0x5C # e # t @ bs) buf" by simp
  show ?case
    by (rule wp_loop_step, rule wp_mono [OF round_escape [OF string_escape.hyps(1) s, unfolded string_round_def]])
      (use string_escape.IH [of _ "buf @ [c]"] string_escape.prems(2) in auto)
next
  case (string_unicode ds cp t str)
  then have s: "lex_at s (0x5C # 0x75 # ds @ t @ bs) buf" by simp
  have cp: "cp \<le> 0x10FFFF" using string_unicode.hyps(2) by (auto simp: scalar_value_def)
  show ?case
    by (rule wp_loop_step, rule wp_mono [OF round_unicode [OF scan_unicode_text [OF string_unicode.hyps(1,2)] cp s, unfolded string_round_def]])
      (use string_unicode.IH [of _ "buf @ utf8_encode cp"] string_unicode.prems(2) in auto)
next
  case (string_pair hs h ls l t str)
  let ?cp = "0x10000 + 0x400 * h + l"
  from string_pair have s: "lex_at s (0x5C # 0x75 # (hs @ 0x5C # 0x75 # ls) @ t @ bs) buf" by simp
  have cp: "?cp \<le> 0x10FFFF" using string_pair.hyps(3,4) by simp
  have r: "wp False scan_unicode (\<lambda>r u. r = Inr (int ?cp) \<and> lex_at u (t @ bs) buf) (\<lambda>_ _. False) v"
    if "lex_at v ((hs @ 0x5C # 0x75 # ls) @ t @ bs) buf" for v
    using scan_pair_text [OF string_pair.hyps(1,3,2,4)] that by simp
  show ?case
    by (rule wp_loop_step, rule wp_mono [OF round_unicode [OF r cp s, unfolded string_round_def]])
      (use string_pair.IH [of _ "buf @ utf8_encode ?cp"] string_pair.prems(2) in auto)
qed

lemma scan_string_loop:
  assumes "string_body t str" and "lex_at s (t @ 0x22 # bs) buf"
  shows "wp False (loopM scan_string_round ()) (\<lambda>tok u. tok = value_string \<and> lex_at u bs (buf @ str)) (\<lambda>_ _. False) s"
proof (rule scan_string_body [OF assms])
  fix u
  assume u: "lex_at u (0x22 # bs) (buf @ str)"
  show "wp False (loopM scan_string_round ()) (\<lambda>tok u. tok = value_string \<and> lex_at u bs (buf @ str)) (\<lambda>_ _. False) u"
    by (intro wp_loop_step) (simp add: scan_string_round_def wp_rules lex_at_got(2) [OF u] lex_at_got(1) [OF u])
qed

lemma scan_string_text:
  assumes "string_body t str" and "lex_at s (t @ 0x22 # bs) buf"
  shows "wp False scan_string (\<lambda>tok u. tok = value_string \<and> lex_at u bs str) (\<lambda>_ _. False) s"
  unfolding scan_string_def wp_bind wp_lexer
  using scan_string_loop [OF assms(1) lex_at_added(3) [OF assms(2)]] by simp


section \<open>Numbers\<close>

text \<open>A round of the scanner is a step of the automaton.\<close>

lemma number_round:
  assumes "lex_ok s" and "c = first_of (pending s)"
  shows "number_next a c = Some a' \<Longrightarrow> wp T (scan_number_round a) Q E s = Q (Inl a') (added c (got s))"
    and "number_next (st, t) c = None \<Longrightarrow> number_final st \<Longrightarrow>
      wp T (scan_number_round (st, t)) Q E s = Q (Inr (Some t)) (got s)"
proof -
  show "number_next a c = Some a' \<Longrightarrow> wp T (scan_number_round a) Q E s = Q (Inl a') (added c (got s))"
    using assms
    by (cases a; cases "fst a")
      (auto simp: number_next_def scan_number_round_def scan_exponent_round_def wp_rules number_add_def
        split: if_splits)
  show "number_next (st, t) c = None \<Longrightarrow> number_final st \<Longrightarrow>
      wp T (scan_number_round (st, t)) Q E s = Q (Inr (Some t)) (got s)"
    using assms
    by (cases st)
      (auto simp: number_next_def number_final_def scan_number_round_def scan_exponent_round_def wp_rules
        split: if_splits)
qed

text \<open>No number goes on with such a byte.\<close>

definition number_stops :: "bytes \<Rightarrow> bool" where
  "number_stops bs \<longleftrightarrow> (let c = first_of bs in \<not> digit c \<and> c \<noteq> 0x2E \<and> c \<noteq> 0x65 \<and> c \<noteq> 0x45
     \<and> c \<noteq> 0x2B \<and> c \<noteq> 0x2D)"

lemma number_next_stops: "number_stops bs \<Longrightarrow> number_next (st, t) (first_of bs) = None"
  by (cases st) (auto simp: number_next_def number_stops_def Let_def digit_def)

lemma number_loop:
  assumes "number_run a ds = Some (st, t)" and "number_final st" and "number_stops bs"
    and "lex_at s (ds @ bs) buf"
  shows "wp False (loopM scan_number_round a)
     (\<lambda>r u. r = Some t \<and> (\<exists>v. u = got v \<and> lex_at v bs (buf @ ds))) (\<lambda>_ _. False) s"
  using assms
proof (induction a ds arbitrary: s buf rule: number_run.induct)
  case (1 a)
  then have "lex_ok s" "pending s = bs" by (simp_all add: lex_at_def)
  with 1 number_next_stops [OF 1(3)] show ?case
    by (intro wp_loop_step) (auto simp: number_round(2))
next
  case (2 a b ds)
  then obtain a' where a': "number_next a (uint b) = Some a'" "number_run a' ds = Some (st, t)"
    by (auto split: option.splits)
  have s: "lex_ok s" "uint b = first_of (pending s)" using 2 by (simp_all add: lex_at_def)
  have "lex_at (added (uint b) (got s)) (ds @ bs) (buf @ [b])"
    using lex_at_added(1) [OF lex_at_got(1), of s b "ds @ bs" buf "uint b"] 2(5) by simp
  from "2.IH" [OF a' "2.prems"(2,3) this] show ?case
    by (intro wp_loop_step) (simp add: number_round(1) [OF s a'(1)])
qed

text \<open>The value that the token stands for, as the parser takes it from the lexer.\<close>

definition token_value :: "token_type \<Rightarrow> json_lexer \<Rightarrow> json option" where
  "token_value t s = (case t of
       literal_null \<Rightarrow> Some JNull
     | literal_true \<Rightarrow> Some (JBool True)
     | literal_false \<Rightarrow> Some (JBool False)
     | value_string \<Rightarrow> Some (JString (string_of_bytes (token_buffer s)))
     | value_unsigned \<Rightarrow> Some (JUInt (lex_unsigned s))
     | value_integer \<Rightarrow> Some (JInt (lex_integer s))
     | value_float \<Rightarrow> Some (JFloat (lex_float s))
     | _ \<Rightarrow> None)"

lemma scan_number_done_value:
  assumes "lex_at v bs num"
  shows "wp False (scan_number_done F t)
     (\<lambda>tok u. token_value tok u = Some (number_of_type F t num) \<and> lex_ok u \<and> pending u = bs) (\<lambda>_ _. False) (got v)"
proof -
  have v: "lex_ok v" "pending v = bs" "token_buffer v = num" using assms by (simp_all add: lex_at_def)
  have f: "lex_ok (u\<lparr>lex_float := x\<rparr>) = lex_ok u" "lex_ok (u\<lparr>lex_unsigned := y\<rparr>) = lex_ok u"
    "lex_ok (u\<lparr>lex_integer := z\<rparr>) = lex_ok u" "pending (u\<lparr>lex_float := x\<rparr>) = pending u"
    "pending (u\<lparr>lex_unsigned := y\<rparr>) = pending u" "pending (u\<lparr>lex_integer := z\<rparr>) = pending u" for u x y z
    by (simp_all add: lex_ok_def pending_def)
  show ?thesis
    using v by (auto simp: scan_number_done_def wp_rules Let_def number_of_type_def token_value_def f split: option.split)
qed

lemma scan_number_text:
  assumes num: "number_type num = Some t" "num = b # ds" and stop: "number_stops bs"
    and s: "lex_at s (ds @ bs) buf" "jcurrent s = uint b"
  shows "wp False (scan_number F)
     (\<lambda>tok u. token_value tok u = Some (number_of_type F t num) \<and> lex_ok u \<and> pending u = bs) (\<lambda>_ _. False) s"
proof -
  obtain st where run: "number_run (number_start (uint b)) ds = Some (st, t)" "number_final st"
    using num by (auto simp: number_type_def split: if_splits option.splits)
  have u: "lex_at (added (uint b) (cleared s)) (ds @ bs) [b]"
    using lex_at_added(1) [OF lex_at_added(3) [OF s(1)], of "uint b"] by simp
  have c: "jcurrent (cleared s) = uint b" using s(2) by simp
  show ?thesis
    unfolding scan_number_def wp_bind wp_lexer wp_basic c number_start_def [symmetric]
    by (rule wp_mono [OF number_loop [OF run stop u]]) (use num in \<open>auto intro: scan_number_done_value\<close>)
qed

section \<open>Literals\<close>

lemma scan_literal_from_text:
  assumes "lex_at s (ds @ bs) buf"
  shows "wp False (scan_literal_from (map uint ds) t) (\<lambda>tok u. tok = t \<and> lex_at u bs buf) (\<lambda>_ _. False) s"
  using assms
proof (induction ds arbitrary: s)
  case (Cons d ds)
  then have "lex_at (got s) (ds @ bs) buf" "jcurrent (got s) = uint d" by (auto intro: lex_at_got)
  with Cons.IH show ?case by (simp add: wp_rules)
qed (simp add: wp_rules)

section \<open>White space and the scanner\<close>

lemma json_ws_Cons [simp]: "json_ws []" "json_ws (b # bs) \<longleftrightarrow> json_space (uint b) \<and> json_ws bs"
  by (simp_all add: json_ws_def)

lemma skip_whitespace_text:
  assumes "json_ws w" and "lex_at s (w @ bs) buf" and "\<not> json_space (first_of bs)"
  shows "wp False skip_whitespace (\<lambda>_ t. jcurrent t = first_of bs \<and> lex_at t (tl bs) buf) (\<lambda>_ _. False) s"
  using assms unfolding skip_whitespace_def
proof (induction w arbitrary: s)
  case Nil
  then have "jcurrent (got s) = first_of bs" "lex_at (got s) (tl bs) buf" by (simp_all add: lex_at_def)
  with Nil show ?case by (intro wp_loop_step) (simp add: wp_rules)
next
  case (Cons b w)
  then have "lex_at (got s) (w @ bs) buf" "jcurrent (got s) = uint b" by (auto intro: lex_at_got)
  with Cons show ?case by (intro wp_loop_step) (simp add: wp_rules)
qed

lemma ungot_at: "lex_at s bs buf \<Longrightarrow> lex_at (ungot (got s)) bs buf"
  by (simp add: lex_at_def)

lemma scan_text:
  assumes w: "json_ws w" and s: "lex_at s (w @ bs) buf" and c: "\<not> json_space (first_of bs)" "first_of bs \<noteq> 0xEF"
    and tok: "\<And>t. jcurrent t = first_of bs \<Longrightarrow> lex_at t (tl bs) buf \<Longrightarrow> wp False (scan_token F (first_of bs)) Q E t"
  shows "wp False (scan F) Q E s"
proof -
  have first: "first_of (w @ bs) \<noteq> 0xEF" using w c by (cases w) (auto simp: json_space_def)
  have "jcurrent (got s) = first_of (w @ bs)" using s by (simp add: lex_at_def)
  then have bom: "wp False (bindM (getsM chars_read_total) (\<lambda>n. if n = 0 then skip_bom else returnM True))
     (\<lambda>ok t. ok \<and> lex_at t (w @ bs) buf) (\<lambda>_ _. False) s"
    using s first ungot_at [OF s] by (simp add: wp_rules skip_bom_def)
  have ws: "wp False (bindM skip_whitespace (\<lambda>_. bindM (getsM jcurrent) (scan_token F))) Q E t"
    if "lex_at t (w @ bs) buf" for t
    unfolding wp_bind [of False skip_whitespace]
    by (rule wp_mono [OF skip_whitespace_text [OF w that c(1)]]) (use tok in \<open>auto simp: wp_bind wp_basic\<close>)
  show ?thesis
    unfolding scan_def wp_bind [of False "bindM (getsM chars_read_total) _"]
    by (rule wp_mono [OF bom]) (use ws in auto)
qed

lemma scan_end:
  assumes "json_ws w" and "lex_at s w buf"
  shows "wp False (scan F) (\<lambda>tok t. tok = end_of_input \<and> lex_at t [] buf) (\<lambda>_ _. False) s"
proof (rule scan_text [OF assms(1), where bs = "[]"])
  show "lex_at s (w @ []) buf" using assms(2) by simp
qed (simp_all add: json_space_def scan_token_def digit_def wp_basic)

text \<open>Structural characters, and a string as a key.\<close>

definition structural :: "u8 \<Rightarrow> token_type option" where
  "structural b = map_of [(0x5B, begin_array), (0x5D, end_array), (0x7B, begin_object), (0x7D, end_object),
     (0x3A, name_separator), (0x2C, value_separator)] b"

lemma structural_cases: "structural b = Some t \<Longrightarrow>
    b = 0x5B \<and> t = begin_array \<or> b = 0x5D \<and> t = end_array \<or> b = 0x7B \<and> t = begin_object
    \<or> b = 0x7D \<and> t = end_object \<or> b = 0x3A \<and> t = name_separator \<or> b = 0x2C \<and> t = value_separator"
  by (auto simp: structural_def split: if_splits)

lemma scan_structural:
  assumes "structural b = Some t" and "json_ws w" and "lex_at s (w @ b # bs) buf"
  shows "wp False (scan F) (\<lambda>tok u. tok = t \<and> lex_at u bs buf) (\<lambda>_ _. False) s"
  using structural_cases [OF assms(1)]
  by (intro scan_text [OF assms(2,3)]) (auto simp: json_space_def scan_token_def wp_basic)

lemma scan_string_token:
  assumes "string_body t str" and "json_ws w" and "lex_at s (w @ 0x22 # t @ 0x22 # bs) buf"
  shows "wp False (scan F) (\<lambda>tok u. tok = value_string \<and> lex_at u bs str) (\<lambda>_ _. False) s"
  by (intro scan_text [OF assms(2,3)])
    (use scan_string_text [OF assms(1)] in \<open>auto simp: json_space_def scan_token_def\<close>)

lemma number_type_first:
  "number_type num = Some t \<Longrightarrow> \<exists>b ds. num = b # ds \<and> (uint b = 0x2D \<or> digit (uint b))"
  by (auto simp: number_type_def split: list.splits if_splits)

lemma scan_number_token:
  assumes "number_type num = Some t" and "json_ws w" and "number_stops bs" and "lex_at s (w @ num @ bs) buf"
  shows "wp False (scan F)
     (\<lambda>tok u. token_value tok u = Some (number_of_type F t num) \<and> lex_ok u \<and> pending u = bs) (\<lambda>_ _. False) s"
proof -
  obtain b ds where num: "num = b # ds" "uint b = 0x2D \<or> digit (uint b)" using number_type_first [OF assms(1)] by blast
  have s: "lex_at s (w @ b # ds @ bs) buf" using assms(4) num by simp
  show ?thesis
    by (rule scan_text [OF assms(2) s])
      (use num assms(3) scan_number_text [OF assms(1) num(1) assms(3)] in
        \<open>auto simp: json_space_def scan_token_def digit_def\<close>)
qed

lemma scan_literals:
  assumes "json_ws w"
  shows "lex_at s (w @ bytes_of_string ''true'' @ bs) buf \<Longrightarrow>
      wp False (scan F) (\<lambda>tok u. tok = literal_true \<and> lex_at u bs buf) (\<lambda>_ _. False) s"
    and "lex_at s (w @ bytes_of_string ''false'' @ bs) buf \<Longrightarrow>
      wp False (scan F) (\<lambda>tok u. tok = literal_false \<and> lex_at u bs buf) (\<lambda>_ _. False) s"
    and "lex_at s (w @ bytes_of_string ''null'' @ bs) buf \<Longrightarrow>
      wp False (scan F) (\<lambda>tok u. tok = literal_null \<and> lex_at u bs buf) (\<lambda>_ _. False) s"
proof -
  have lit: "wp False (scan F) (\<lambda>tok u. tok = t \<and> lex_at u bs buf) (\<lambda>_ _. False) s"
    if "lex_at s (w @ b # ds @ bs) buf" "scan_token F (uint b) = scan_literal_from (map uint ds) t"
      "\<not> json_space (uint b)" "uint b \<noteq> 0xEF" for b ds t
    by (rule scan_text [OF assms that(1)]) (use that scan_literal_from_text [of _ ds bs buf t] in auto)
  show "lex_at s (w @ bytes_of_string ''true'' @ bs) buf \<Longrightarrow>
      wp False (scan F) (\<lambda>tok u. tok = literal_true \<and> lex_at u bs buf) (\<lambda>_ _. False) s"
    by (rule lit [where b = "0x74" and ds = "tl (bytes_of_string ''true'')"])
      (simp_all add: byte_of_char_def scan_token_def scan_literal_def json_space_def)
  show "lex_at s (w @ bytes_of_string ''false'' @ bs) buf \<Longrightarrow>
      wp False (scan F) (\<lambda>tok u. tok = literal_false \<and> lex_at u bs buf) (\<lambda>_ _. False) s"
    by (rule lit [where b = "0x66" and ds = "tl (bytes_of_string ''false'')"])
      (simp_all add: byte_of_char_def scan_token_def scan_literal_def json_space_def)
  show "lex_at s (w @ bytes_of_string ''null'' @ bs) buf \<Longrightarrow>
      wp False (scan F) (\<lambda>tok u. tok = literal_null \<and> lex_at u bs buf) (\<lambda>_ _. False) s"
    by (rule lit [where b = "0x6E" and ds = "tl (bytes_of_string ''null'')"])
      (simp_all add: byte_of_char_def scan_token_def scan_literal_def json_space_def)
qed

end
