(* ===== verification/Json_Complete.thy ===== *)
theory Json_Complete
  imports Json_Scan
begin

text \<open>
  The parser takes every text of the grammar and builds its value. The builder works through
  pointers into the value; a pointer that is the place of what is being built is a focus.
\<close>

section \<open>Where the builder is\<close>

definition focus :: "(json \<Rightarrow> json) \<Rightarrow> json_path \<Rightarrow> bool" where
  "focus fill r \<longleftrightarrow> (\<forall>q v. json_at (r @ q) (fill v) = json_at q v)
     \<and> (\<forall>q v w. json_assign (r @ q) w (fill v) = fill (json_assign q w v))"

lemma focusD:
  assumes "focus fill r"
  shows "json_at r (fill v) = v" "json_assign r w (fill v) = fill w"
    "json_at (r @ q) (fill v) = json_at q v" "json_assign (r @ q) w (fill v) = fill (json_assign q w v)"
  using assms unfolding focus_def by (metis append_Nil2 json_at.simps(1) json_assign.simps(1))+

lemma obj_put_put [simp]: "obj_put k v (obj_put k w ps) = obj_put k v ps"
  by (induction k w ps rule: obj_put.induct) auto

lemma focus_root: "focus (\<lambda>v. v) []"
  by (simp add: focus_def)

lemma focus_array: "focus fill r \<Longrightarrow> focus (\<lambda>v. fill (JArray (us @ [v]))) (r @ [Elem (length us)])"
  by (simp add: focus_def)

lemma focus_object: "focus fill r \<Longrightarrow> focus (\<lambda>v. fill (JObject (obj_put k v ps))) (r @ [Key k])"
  by (simp add: focus_def obj_find_put)

text \<open>The next value goes there.\<close>

definition slot :: "json_parser \<Rightarrow> (json \<Rightarrow> json) \<Rightarrow> json_path \<Rightarrow> bool" where
  "slot p fill r \<longleftrightarrow> focus fill r
     \<and> (\<forall>v l t. handle_value v (p\<lparr>lexer := l, last_token := t\<rparr>)
          = Some (Inr r, p\<lparr>lexer := l, last_token := t, dom_root := fill v\<rparr>))"

lemma slot_root: "ref_stack p = [] \<Longrightarrow> slot p (\<lambda>v. v) []"
  by (simp add: slot_def focus_root handle_value_def run)

lemma slot_array:
  assumes "focus fill r" and "dom_root p = fill (JArray us)" and "ref_stack p = S @ [r]"
  shows "slot p (\<lambda>v. fill (JArray (us @ [v]))) (r @ [Elem (length us)])"
  using assms by (simp add: slot_def focus_array handle_value_def run Let_def focusD)

lemma slot_object:
  assumes "focus fill r" and "dom_root p = fill (JObject ps)" and "ref_stack p = S @ [r]"
    and "object_element p = r @ [Key k]" and "obj_find k ps \<noteq> None"
  shows "slot p (\<lambda>v. fill (JObject (obj_put k v ps))) (r @ [Key k])"
  using assms by (auto simp: slot_def focus_object handle_value_def run Let_def focusD)

lemma slot_wp:
  assumes "slot p fill r"
  shows "wp T (handle_value v) Q E (p\<lparr>lexer := l, last_token := t\<rparr>)
     = Q r (p\<lparr>lexer := l, last_token := t, dom_root := fill v\<rparr>)"
  using assms by (simp add: slot_def wp_def)

section \<open>Tokens and rounds\<close>

definition parser_at :: "json_parser \<Rightarrow> bytes \<Rightarrow> bool" where
  "parser_at p bs \<longleftrightarrow> lex_ok (lexer p) \<and> pending (lexer p) = bs"

lemma parser_at_lex: "parser_at p bs \<longleftrightarrow> lex_at (lexer p) bs (token_buffer (lexer p))"
  by (simp add: parser_at_def lex_at_def)

lemma get_token_wp:
  "wp T (get_token F) Q E p =
     wp T (scan F) (\<lambda>t l. Q t (p\<lparr>lexer := l, last_token := t\<rparr>)) (\<lambda>e l. E e (p\<lparr>lexer := l\<rparr>)) (lexer p)"
  by (simp add: get_token_def on_lexer_def wp_rules)

lemma token_structural:
  assumes "structural b = Some t" and "json_ws w" and "parser_at p (w @ b # bs)"
    and "\<And>l. lex_ok l \<Longrightarrow> pending l = bs \<Longrightarrow> Q t (p\<lparr>lexer := l, last_token := t\<rparr>)"
  shows "wp False (get_token F) Q E p"
  unfolding get_token_wp
  by (rule wp_mono [OF scan_structural [OF assms(1,2) assms(3) [unfolded parser_at_lex]]])
    (use assms(4) in \<open>auto simp: lex_at_def\<close>)

lemma token_key:
  assumes "string_body kt k" and "json_ws w" and "parser_at p (w @ 0x22 # kt @ 0x22 # bs)"
    and "\<And>l. lex_ok l \<Longrightarrow> pending l = bs \<Longrightarrow> token_buffer l = k \<Longrightarrow>
      Q value_string (p\<lparr>lexer := l, last_token := value_string\<rparr>)"
  shows "wp False (get_token F) Q E p"
  unfolding get_token_wp
  by (rule wp_mono [OF scan_string_token [OF assms(1,2) assms(3) [unfolded parser_at_lex]]])
    (use assms(4) in \<open>auto simp: lex_at_def\<close>)

lemma loop_after:
  "wp T (loopM (sax_parse_round F) (states, True)) Q E p =
     wp T (after_value F states)
       (\<lambda>r q. case r of Inl a \<Rightarrow> wp T (loopM (sax_parse_round F) a) Q E q | Inr b \<Rightarrow> Q b q) E p"
proof -
  have "sax_parse_round F (states, True) = after_value F states" by (simp add: sax_parse_round_def)
  then show ?thesis by (subst wp_loop_unfold) simp
qed

lemma loop_value:
  assumes "wp T (parse_value F states)
     (\<lambda>r q. case r of
          Inl st \<Rightarrow> wp T (loopM (sax_parse_round F) (st, False)) Q E q
        | Inr _ \<Rightarrow> wp T (loopM (sax_parse_round F) (states, True)) Q E q) E p"
  shows "wp T (loopM (sax_parse_round F) (states, False)) Q E p"
proof (rule wp_loop_step)
  have round: "sax_parse_round F (states, False) = bindM (parse_value F states) (\<lambda>r. case r of
       Inl states \<Rightarrow> returnM (Inl (states, False)) | Inr _ \<Rightarrow> after_value F states)"
    by (simp add: sax_parse_round_def)
  show "wp T (sax_parse_round F (states, False))
     (\<lambda>r t. case r of Inl a' \<Rightarrow> wp T (loopM (sax_parse_round F) a') Q E t | Inr b \<Rightarrow> Q b t) E p"
    unfolding round wp_bind
    by (rule wp_mono [OF assms]) (auto simp: wp_basic loop_after split: sum.splits)
qed

text \<open>After the value the loop goes on with what follows.\<close>

definition goes_on ::
  "json_env \<Rightarrow> bool list \<Rightarrow> (bool \<Rightarrow> json_parser \<Rightarrow> bool) \<Rightarrow> (exn \<Rightarrow> json_parser \<Rightarrow> bool) \<Rightarrow> bytes \<Rightarrow> json \<Rightarrow>
     json_path list \<Rightarrow> bool \<Rightarrow> bool" where
  "goes_on F states Q E bs tree stack err \<longleftrightarrow> (\<forall>q. parser_at q bs \<and> dom_root q = tree \<and> ref_stack q = stack
     \<and> errored q = err \<longrightarrow> wp False (loopM (sax_parse_round F) (states, True)) Q E q)"

lemma goes_onD:
  "goes_on F states Q E bs tree stack err \<Longrightarrow> parser_at q bs \<Longrightarrow> dom_root q = tree \<Longrightarrow> ref_stack q = stack
     \<Longrightarrow> errored q = err \<Longrightarrow> wp False (loopM (sax_parse_round F) (states, True)) Q E q"
  by (simp add: goes_on_def)

definition starts_value ::
  "json_env \<Rightarrow> bool list \<Rightarrow> (bool \<Rightarrow> json_parser \<Rightarrow> bool) \<Rightarrow> (exn \<Rightarrow> json_parser \<Rightarrow> bool) \<Rightarrow> json_parser \<Rightarrow> bool" where
  "starts_value F states Q E p \<longleftrightarrow> wp False (get_token F)
     (\<lambda>t q. t \<noteq> end_array \<and> wp False (loopM (sax_parse_round F) (states, False)) Q E q) E p"

text \<open>A value that is one token.\<close>

lemma one_token:
  assumes "slot p fill r" and "goes_on F states Q E bs (fill v) (ref_stack p) (errored p)"
    and "token_value t l = Some v" and "json_ok v" and "lex_ok l" and "pending l = bs"
  shows "wp False (loopM (sax_parse_round F) (states, False)) Q E (p\<lparr>lexer := l, last_token := t\<rparr>)"
proof (rule loop_value)
  let ?p = "p\<lparr>lexer := l, last_token := t\<rparr>" and ?q = "p\<lparr>lexer := l, last_token := t, dom_root := fill v\<rparr>"
  have q: "wp False (loopM (sax_parse_round F) (states, True)) Q E ?q"
    by (rule goes_onD [OF assms(2)]) (use assms in \<open>simp_all add: parser_at_def\<close>)
  have "parse_value F states ?p = bindM (sax_value v) (\<lambda>_. returnM (Inr ())) ?p"
    using assms(3,4)
    by (cases t) (auto simp: parse_value_def bindM_def getsM_def token_value_def)
  then have "wp False (parse_value F states) R E ?p = R (Inr ()) ?q" for R
    using slot_wp [OF assms(1)] unfolding wp_def [of _ "parse_value F states"]
    by (simp add: wp_def [symmetric] sax_value_def wp_bind wp_ext)
  with q show "wp False (parse_value F states)
     (\<lambda>r q. case r of
          Inl st \<Rightarrow> wp False (loopM (sax_parse_round F) (st, False)) Q E q
        | Inr _ \<Rightarrow> wp False (loopM (sax_parse_round F) (states, True)) Q E q) E ?p" by simp
qed


section \<open>Values, elements and members\<close>

definition value_ok :: "json_env \<Rightarrow> json \<Rightarrow> bytes \<Rightarrow> bool" where
  "value_ok F v t \<longleftrightarrow> (\<forall>p w bs fill r states Q E. json_ws w \<longrightarrow> parser_at p (w @ t @ bs) \<longrightarrow> number_stops bs
     \<longrightarrow> slot p fill r \<longrightarrow> goes_on F states Q E bs (fill v) (ref_stack p) (errored p) \<longrightarrow> starts_value F states Q E p)"

definition elements_ok :: "json_env \<Rightarrow> json list \<Rightarrow> bytes \<Rightarrow> bool" where
  "elements_ok F vs t \<longleftrightarrow> (\<forall>p bs fill r us S states Q E. parser_at p (t @ 0x5D # bs) \<longrightarrow> focus fill r
     \<longrightarrow> dom_root p = fill (JArray us) \<longrightarrow> ref_stack p = S @ [r]
     \<longrightarrow> goes_on F states Q E bs (fill (JArray (us @ vs))) S (errored p) \<longrightarrow> starts_value F (states @ [True]) Q E p)"

definition starts_member ::
  "json_env \<Rightarrow> bool list \<Rightarrow> (bool \<Rightarrow> json_parser \<Rightarrow> bool) \<Rightarrow> (exn \<Rightarrow> json_parser \<Rightarrow> bool) \<Rightarrow> json_parser \<Rightarrow> bool" where
  "starts_member F states Q E p \<longleftrightarrow> wp False (get_token F)
     (\<lambda>t q. t \<noteq> end_object \<and> wp False (parse_key F t) (\<lambda>_. wp False (get_token F)
        (\<lambda>_. wp False (loopM (sax_parse_round F) (states @ [False], False)) Q E) E) E q) E p"

abbreviation put_members :: "(string \<times> json) list \<Rightarrow> (string \<times> json) list \<Rightarrow> (string \<times> json) list" where
  "put_members ps ms \<equiv> foldl (\<lambda>ps (k, v). obj_put k v ps) ps ms"

definition members_ok :: "json_env \<Rightarrow> (string \<times> json) list \<Rightarrow> bytes \<Rightarrow> bool" where
  "members_ok F ms t \<longleftrightarrow> (\<forall>p bs fill r ps S states Q E. parser_at p (t @ 0x7D # bs) \<longrightarrow> focus fill r
     \<longrightarrow> dom_root p = fill (JObject ps) \<longrightarrow> ref_stack p = S @ [r]
     \<longrightarrow> goes_on F states Q E bs (fill (JObject (put_members ps ms))) S (errored p) \<longrightarrow> starts_member F states Q E p)"

lemma value_okD:
  "value_ok F v t \<Longrightarrow> json_ws w \<Longrightarrow> parser_at p (w @ t @ bs) \<Longrightarrow> number_stops bs \<Longrightarrow> slot p fill r
     \<Longrightarrow> goes_on F states Q E bs (fill v) (ref_stack p) (errored p) \<Longrightarrow> starts_value F states Q E p"
  unfolding value_ok_def by blast

lemma elements_okD:
  "elements_ok F vs t \<Longrightarrow> parser_at p (t @ 0x5D # bs) \<Longrightarrow> focus fill r \<Longrightarrow> dom_root p = fill (JArray us)
     \<Longrightarrow> ref_stack p = S @ [r] \<Longrightarrow> goes_on F states Q E bs (fill (JArray (us @ vs))) S (errored p)
     \<Longrightarrow> starts_value F (states @ [True]) Q E p"
  unfolding elements_ok_def by blast

lemma members_okD:
  "members_ok F ms t \<Longrightarrow> parser_at p (t @ 0x7D # bs) \<Longrightarrow> focus fill r \<Longrightarrow> dom_root p = fill (JObject ps)
     \<Longrightarrow> ref_stack p = S @ [r] \<Longrightarrow> goes_on F states Q E bs (fill (JObject (put_members ps ms))) S (errored p)
     \<Longrightarrow> starts_member F states Q E p"
  unfolding members_ok_def by blast

lemma starts_valueI:
  assumes "wp False (scan F) (\<lambda>t l. t \<noteq> end_array
     \<and> wp False (loopM (sax_parse_round F) (states, False)) Q E (p\<lparr>lexer := l, last_token := t\<rparr>)) (\<lambda>_ _. False) (lexer p)"
  shows "starts_value F states Q E p"
  unfolding starts_value_def get_token_wp by (rule wp_mono [OF assms]) auto

subsection \<open>One token\<close>

lemma token_value_ok:
  assumes "json_ok v"
    and "\<And>w bs s buf. json_ws w \<Longrightarrow> number_stops bs \<Longrightarrow> lex_at s (w @ t @ bs) buf \<Longrightarrow>
      wp False (scan F) (\<lambda>tok l. token_value tok l = Some v \<and> lex_ok l \<and> pending l = bs) (\<lambda>_ _. False) s"
  shows "value_ok F v t"
  unfolding value_ok_def
proof (intro allI impI)
  fix p w bs fill r states Q E
  assume w: "json_ws w" and p: "parser_at p (w @ t @ bs)" and stop: "number_stops bs" and slot: "slot p fill r"
    and cont: "goes_on F states Q E bs (fill v) (ref_stack p) (errored p)"
  show "starts_value F states Q E p"
  proof (intro starts_valueI wp_mono [OF assms(2) [OF w stop p [unfolded parser_at_lex]]])
    fix tok l
    assume "token_value tok l = Some v \<and> lex_ok l \<and> pending l = bs"
    then show "tok \<noteq> end_array
      \<and> wp False (loopM (sax_parse_round F) (states, False)) Q E (p\<lparr>lexer := l, last_token := tok\<rparr>)"
      using one_token [OF slot cont _ assms(1)] by (auto simp: token_value_def)
  qed simp
qed

lemma literal_ok:
  "value_ok F JNull (bytes_of_string ''null'')" "value_ok F (JBool True) (bytes_of_string ''true'')"
  "value_ok F (JBool False) (bytes_of_string ''false'')"
  by (rule token_value_ok; auto simp: token_value_def lex_at_def
      intro: wp_mono [OF scan_literals(3)] wp_mono [OF scan_literals(1)] wp_mono [OF scan_literals(2)])+


lemma utf8_ok_concat: "utf8_ok [] xs \<Longrightarrow> utf8_ok [] (xs @ ys) = utf8_ok [] ys"
  by (rule utf8_ok_append)

lemma string_body_utf8: "string_body t s \<Longrightarrow> utf8_ok [] s"
proof (induction rule: string_body.induct)
  case (string_escape e c t s)
  then show ?case by (auto simp: simple_escapes_def)
next
  case (string_pair hs h ls l t s)
  then show ?case by (simp add: utf8_ok_encode scalar_value_def)
qed (simp_all add: utf8_ok_encode)

lemma string_ok:
  assumes "string_body t s"
  shows "value_ok F (JString (string_of_bytes s)) (0x22 # t @ [0x22])"
proof (rule token_value_ok)
  show "json_ok (JString (string_of_bytes s))" using string_body_utf8 [OF assms] by (simp add: utf8_string_def)
  fix w bs l buf
  assume w: "json_ws w" and l: "lex_at l (w @ (0x22 # t @ [0x22]) @ bs) buf"
  from l have l': "lex_at l (w @ 0x22 # t @ 0x22 # bs) buf" by simp
  show "wp False (scan F)
     (\<lambda>tok l. token_value tok l = Some (JString (string_of_bytes s)) \<and> lex_ok l \<and> pending l = bs) (\<lambda>_ _. False) l"
    by (rule wp_mono [OF scan_string_token [OF assms w l']]) (auto simp: token_value_def lex_at_def)
qed

lemma number_ok:
  assumes "number_type num = Some t" and "json_ok (number_of_type F t num)"
  shows "value_ok F (number_of_type F t num) num"
  by (rule token_value_ok [OF assms(2)]) (rule scan_number_token [OF assms(1)])

subsection \<open>Arrays\<close>

lemma start_wp:
  assumes "slot p fill r"
  shows "wp T (start_container v) Q E (p\<lparr>lexer := l, last_token := t\<rparr>)
     = Q () (p\<lparr>lexer := l, last_token := t, dom_root := fill v, ref_stack := ref_stack p @ [r]\<rparr>)"
  by (simp add: start_container_def wp_rules slot_wp [OF assms])

lemma number_stops_byte [simp]:
  "number_stops (0x5D # bs)" "number_stops (0x7D # bs)" "number_stops (0x2C # bs)" "number_stops []"
  by (simp_all add: number_stops_def Let_def digit_def)

lemma number_stops_ws: "json_ws w \<Longrightarrow> number_stops bs \<Longrightarrow> number_stops (w @ bs)"
  by (cases w) (auto simp: number_stops_def Let_def digit_def json_space_def)

lemma structural_bytes [simp]:
  "structural 0x5B = Some begin_array" "structural 0x5D = Some end_array" "structural 0x7B = Some begin_object"
  "structural 0x7D = Some end_object" "structural 0x3A = Some name_separator" "structural 0x2C = Some value_separator"
  by (simp_all add: structural_def)

lemma parse_value_array:
  "wp T (parse_value F states) Q E (p\<lparr>lexer := l, last_token := begin_array\<rparr>) =
     wp T (bindM start_array (\<lambda>_. bindM (get_token F) (\<lambda>t.
         if t = end_array then bindM end_container (\<lambda>_. returnM (Inr ()))
         else returnM (Inl (states @ [True]))))) Q E (p\<lparr>lexer := l, last_token := begin_array\<rparr>)"
  by (simp add: parse_value_def wp_bind [of _ "getsM _"] wp_basic)

text \<open>After the bracket: the array ends, or its first element comes.\<close>

lemma open_array:
  assumes w: "json_ws w" and p: "parser_at p (w @ 0x5B # bs)" and slot: "slot p fill r"
    and go: "\<And>q. parser_at q bs \<Longrightarrow> dom_root q = fill (JArray []) \<Longrightarrow> ref_stack q = ref_stack p @ [r] \<Longrightarrow>
      errored q = errored p \<Longrightarrow> wp False (get_token F) (\<lambda>t q.
        if t = end_array then wp False end_container (\<lambda>_ q. wp False (loopM (sax_parse_round F) (states, True)) Q E q) E q
        else wp False (loopM (sax_parse_round F) (states @ [True], False)) Q E q) E q"
  shows "starts_value F states Q E p"
  unfolding starts_value_def
proof (rule token_structural [OF _ w p])
  fix l
  assume l: "lex_ok l" "pending l = bs"
  let ?q = "p\<lparr>lexer := l, last_token := begin_array, dom_root := fill (JArray []), ref_stack := ref_stack p @ [r]\<rparr>"
  have "wp False (get_token F) (\<lambda>t. wp False (if t = end_array then bindM end_container (\<lambda>_. returnM (Inr ()))
       else returnM (Inl (states @ [True])))
     (\<lambda>r q. case r of Inl st \<Rightarrow> wp False (loopM (sax_parse_round F) (st, False)) Q E q
        | Inr _ \<Rightarrow> wp False (loopM (sax_parse_round F) (states, True)) Q E q) E) E ?q"
    by (rule wp_mono [OF go]) (use l in \<open>auto simp: parser_at_def wp_bind wp_ext wp_basic split: if_splits\<close>)
  then show "begin_array \<noteq> end_array
      \<and> wp False (loopM (sax_parse_round F) (states, False)) Q E (p\<lparr>lexer := l, last_token := begin_array\<rparr>)"
    by (intro conjI loop_value)
      (simp_all add: parse_value_array start_array_def start_wp [OF slot] wp_bind [of _ "start_container _"]
        wp_bind [of _ "get_token F"])
qed simp

lemma empty_array_ok:
  assumes "json_ws w"
  shows "value_ok F (JArray []) (0x5B # w @ [0x5D])"
  unfolding value_ok_def
proof (intro allI impI)
  fix p w' bs fill r states Q E
  assume w': "json_ws w'" and p: "parser_at p (w' @ (0x5B # w @ [0x5D]) @ bs)" and slot: "slot p fill r"
    and cont: "goes_on F states Q E bs (fill (JArray [])) (ref_stack p) (errored p)"
  show "starts_value F states Q E p"
    by (rule open_array [OF w' _ slot, where bs = "w @ 0x5D # bs"], use p in simp, rule token_structural [OF _ assms])
      (auto simp: wp_basic end_container_def parser_at_def intro!: goes_onD [OF cont])
qed

lemma array_ok:
  assumes "elements_ok F vs t"
  shows "value_ok F (JArray vs) (0x5B # t @ [0x5D])"
  unfolding value_ok_def
proof (intro allI impI)
  fix p w' bs fill r states Q E
  assume w': "json_ws w'" and p: "parser_at p (w' @ (0x5B # t @ [0x5D]) @ bs)" and slot: "slot p fill r"
    and cont: "goes_on F states Q E bs (fill (JArray vs)) (ref_stack p) (errored p)"
  have f: "focus fill r" using slot by (simp add: slot_def)
  show "starts_value F states Q E p"
  proof (rule open_array [OF w' _ slot, where bs = "t @ 0x5D # bs"])
    show "parser_at p (w' @ 0x5B # t @ 0x5D # bs)" using p by simp
    fix q
    assume q: "parser_at q (t @ 0x5D # bs)" "dom_root q = fill (JArray [])" "ref_stack q = ref_stack p @ [r]"
      "errored q = errored p"
    have "starts_value F (states @ [True]) Q E q"
      by (rule elements_okD [OF assms q(1) f q(2,3)]) (use cont q in simp)
    then show "wp False (get_token F) (\<lambda>t q.
        if t = end_array then wp False end_container (\<lambda>_ q. wp False (loopM (sax_parse_round F) (states, True)) Q E q) E q
        else wp False (loopM (sax_parse_round F) (states @ [True], False)) Q E q) E q"
      unfolding starts_value_def by (rule wp_mono) auto
  qed
qed

lemma after_value_array:
  "wp T (after_value F (states @ [True])) Q E p = wp T (get_token F) (\<lambda>t. wp T (
        if t = value_separator then bindM (get_token F) (\<lambda>_. returnM (Inl (states @ [True], False)))
        else if t = end_array then bindM end_container (\<lambda>_. returnM (Inl (states, True)))
        else unexpected end_array ''array'') Q E) E p"
  by (simp add: after_value_def wp_bind cong: if_cong)

lemma element_goes_on:
  assumes w: "json_ws w" and cont: "goes_on F states Q E bs tree S err"
  shows "goes_on F (states @ [True]) Q E (w @ 0x5D # bs) tree (S @ [r]) err"
  unfolding goes_on_def
proof (intro allI impI, elim conjE)
  fix q
  assume q: "parser_at q (w @ 0x5D # bs)" "dom_root q = tree" "ref_stack q = S @ [r]" "errored q = err"
  show "wp False (loopM (sax_parse_round F) (states @ [True], True)) Q E q"
    unfolding loop_after after_value_array
    by (rule token_structural [OF _ w q(1)])
      (use q in \<open>auto simp: wp_rules end_container_def parser_at_def intro!: goes_onD [OF cont]\<close>)
qed

lemma next_element_goes_on:
  assumes w: "json_ws w"
    and start: "\<And>q. parser_at q bs \<Longrightarrow> dom_root q = tree \<Longrightarrow> ref_stack q = stack \<Longrightarrow> errored q = err \<Longrightarrow>
      starts_value F (states @ [True]) Q E q"
  shows "goes_on F (states @ [True]) Q E (w @ 0x2C # bs) tree stack err"
  unfolding goes_on_def
proof (intro allI impI, elim conjE)
  fix q
  assume q: "parser_at q (w @ 0x2C # bs)" "dom_root q = tree" "ref_stack q = stack" "errored q = err"
  show "wp False (loopM (sax_parse_round F) (states @ [True], True)) Q E q"
    unfolding loop_after after_value_array
  proof (rule token_structural [OF _ w q(1)])
    fix l
    assume "lex_ok l" "pending l = bs"
    then have "starts_value F (states @ [True]) Q E (q\<lparr>lexer := l, last_token := value_separator\<rparr>)"
      using q by (intro start) (simp_all add: parser_at_def)
    then show "wp False (if value_separator = value_separator
        then bindM (get_token F) (\<lambda>_. returnM (Inl (states @ [True], False)))
        else if value_separator = end_array then bindM end_container (\<lambda>_. returnM (Inl (states, True)))
        else unexpected end_array ''array'')
       (\<lambda>r q. case r of Inl a \<Rightarrow> wp False (loopM (sax_parse_round F) a) Q E q | Inr b \<Rightarrow> Q b q) E
       (q\<lparr>lexer := l, last_token := value_separator\<rparr>)"
      unfolding starts_value_def by (auto simp: wp_bind wp_ext elim!: wp_mono)
  qed simp
qed

lemma elements_one_ok:
  assumes "json_ws w" and "value_ok F v t" and "json_ws w'"
  shows "elements_ok F [v] (w @ t @ w')"
  unfolding elements_ok_def
proof (intro allI impI)
  fix p bs fill r us S states Q E
  assume p: "parser_at p ((w @ t @ w') @ 0x5D # bs)" and f: "focus fill r" "dom_root p = fill (JArray us)" "ref_stack p = S @ [r]"
    and cont: "goes_on F states Q E bs (fill (JArray (us @ [v]))) S (errored p)"
  show "starts_value F (states @ [True]) Q E p"
    by (rule value_okD [OF assms(2,1) _ _ slot_array [OF f], where bs = "w' @ 0x5D # bs"])
      (use p f element_goes_on [OF assms(3) cont] in \<open>auto intro: number_stops_ws [OF assms(3)]\<close>)
qed

lemma elements_more_ok:
  assumes "json_ws w" and "value_ok F v t" and "json_ws w'" and "elements_ok F vs ts"
  shows "elements_ok F (v # vs) (w @ t @ w' @ 0x2C # ts)"
  unfolding elements_ok_def
proof (intro allI impI)
  fix p bs fill r us S states Q E
  assume p: "parser_at p ((w @ t @ w' @ 0x2C # ts) @ 0x5D # bs)"
    and f: "focus fill r" "dom_root p = fill (JArray us)" "ref_stack p = S @ [r]"
    and cont: "goes_on F states Q E bs (fill (JArray (us @ v # vs))) S (errored p)"
  have "goes_on F (states @ [True]) Q E (w' @ 0x2C # ts @ 0x5D # bs) (fill (JArray (us @ [v]))) (S @ [r]) (errored p)"
    by (rule next_element_goes_on [OF assms(3)], rule elements_okD [OF assms(4) _ f(1), where us = "us @ [v]"])
      (use cont in simp_all)
  with f show "starts_value F (states @ [True]) Q E p"
    by (intro value_okD [OF assms(2,1) _ _ slot_array [OF f], where bs = "w' @ 0x2C # ts @ 0x5D # bs"])
      (use p in \<open>auto intro: number_stops_ws [OF assms(3)]\<close>)
qed


subsection \<open>Objects\<close>

lemma parse_value_object:
  "wp T (parse_value F states) Q E (p\<lparr>lexer := l, last_token := begin_object\<rparr>) =
     wp T (bindM start_object (\<lambda>_. bindM (get_token F) (\<lambda>t.
         if t = end_object then bindM end_container (\<lambda>_. returnM (Inr ()))
         else bindM (parse_key F t) (\<lambda>_.
           bindM (get_token F) (\<lambda>_. returnM (Inl (states @ [False]))))))) Q E (p\<lparr>lexer := l, last_token := begin_object\<rparr>)"
  by (simp add: parse_value_def wp_bind [of _ "getsM _"] wp_basic)

lemma open_object:
  assumes w: "json_ws w" and p: "parser_at p (w @ 0x7B # bs)" and slot: "slot p fill r"
    and go: "\<And>q. parser_at q bs \<Longrightarrow> dom_root q = fill (JObject []) \<Longrightarrow> ref_stack q = ref_stack p @ [r] \<Longrightarrow>
      errored q = errored p \<Longrightarrow> wp False (get_token F) (\<lambda>t q.
        if t = end_object then wp False end_container (\<lambda>_ q. wp False (loopM (sax_parse_round F) (states, True)) Q E q) E q
        else wp False (parse_key F t) (\<lambda>_. wp False (get_token F)
          (\<lambda>_. wp False (loopM (sax_parse_round F) (states @ [False], False)) Q E) E) E q) E q"
  shows "starts_value F states Q E p"
  unfolding starts_value_def
proof (rule token_structural [OF _ w p])
  fix l
  assume l: "lex_ok l" "pending l = bs"
  let ?q = "p\<lparr>lexer := l, last_token := begin_object, dom_root := fill (JObject []), ref_stack := ref_stack p @ [r]\<rparr>"
  have "wp False (get_token F) (\<lambda>t. wp False (if t = end_object then bindM end_container (\<lambda>_. returnM (Inr ()))
       else bindM (parse_key F t) (\<lambda>_. bindM (get_token F) (\<lambda>_. returnM (Inl (states @ [False])))))
     (\<lambda>r q. case r of Inl st \<Rightarrow> wp False (loopM (sax_parse_round F) (st, False)) Q E q
        | Inr _ \<Rightarrow> wp False (loopM (sax_parse_round F) (states, True)) Q E q) E) E ?q"
    by (rule wp_mono [OF go]) (use l in \<open>auto simp: parser_at_def wp_bind wp_ext wp_basic split: if_splits\<close>)
  then show "begin_object \<noteq> end_array
      \<and> wp False (loopM (sax_parse_round F) (states, False)) Q E (p\<lparr>lexer := l, last_token := begin_object\<rparr>)"
    by (intro conjI loop_value)
      (simp_all add: parse_value_object start_object_def start_wp [OF slot] wp_bind [of _ "start_container _"]
        wp_bind [of _ "get_token F"])
qed simp

lemma empty_object_ok:
  assumes "json_ws w"
  shows "value_ok F (JObject []) (0x7B # w @ [0x7D])"
  unfolding value_ok_def
proof (intro allI impI)
  fix p w' bs fill r states Q E
  assume w': "json_ws w'" and p: "parser_at p (w' @ (0x7B # w @ [0x7D]) @ bs)" and slot: "slot p fill r"
    and cont: "goes_on F states Q E bs (fill (JObject [])) (ref_stack p) (errored p)"
  show "starts_value F states Q E p"
    by (rule open_object [OF w' _ slot, where bs = "w @ 0x7D # bs"], use p in simp, rule token_structural [OF _ assms])
      (auto simp: wp_basic end_container_def parser_at_def intro!: goes_onD [OF cont])
qed

lemma object_ok:
  assumes "members_ok F ms t"
  shows "value_ok F (members_value ms) (0x7B # t @ [0x7D])"
  unfolding value_ok_def
proof (intro allI impI)
  fix p w' bs fill r states Q E
  assume w': "json_ws w'" and p: "parser_at p (w' @ (0x7B # t @ [0x7D]) @ bs)" and slot: "slot p fill r"
    and cont: "goes_on F states Q E bs (fill (members_value ms)) (ref_stack p) (errored p)"
  have f: "focus fill r" using slot by (simp add: slot_def)
  show "starts_value F states Q E p"
  proof (rule open_object [OF w' _ slot, where bs = "t @ 0x7D # bs"])
    show "parser_at p (w' @ 0x7B # t @ 0x7D # bs)" using p by simp
    fix q
    assume q: "parser_at q (t @ 0x7D # bs)" "dom_root q = fill (JObject [])" "ref_stack q = ref_stack p @ [r]"
      "errored q = errored p"
    have "starts_member F states Q E q"
      by (rule members_okD [OF assms q(1) f q(2,3)]) (use cont q in \<open>simp add: members_value_def\<close>)
    then show "wp False (get_token F) (\<lambda>t q.
        if t = end_object then wp False end_container (\<lambda>_ q. wp False (loopM (sax_parse_round F) (states, True)) Q E q) E q
        else wp False (parse_key F t) (\<lambda>_. wp False (get_token F)
          (\<lambda>_. wp False (loopM (sax_parse_round F) (states @ [False], False)) Q E) E) E q) E q"
      unfolding starts_member_def by (rule wp_mono) auto
  qed
qed

text \<open>A key and its value.\<close>

definition with_key :: "string \<Rightarrow> (string \<times> json) list \<Rightarrow> (string \<times> json) list" where
  "with_key k ps = (case obj_find k ps of Some _ \<Rightarrow> ps | None \<Rightarrow> obj_put k JNull ps)"

lemma with_key_put: "obj_put k v (with_key k ps) = obj_put k v ps" "obj_find k (with_key k ps) \<noteq> None"
  by (auto simp: with_key_def obj_find_put split: option.split)

lemma sax_key_wp:
  assumes "focus fill r" and "dom_root p = fill (JObject ps)" and "ref_stack p = S @ [r]"
  shows "wp T (sax_key k) Q E p
     = Q () (p\<lparr>dom_root := fill (JObject (with_key k ps)), object_element := r @ [Key k]\<rparr>)"
  using assms by (simp add: sax_key_def wp_rules Let_def focusD with_key_def)

lemma member_ok:
  assumes w: "json_ws w" and kt: "string_body kt k" and w1: "json_ws w1" and w2: "json_ws w2" and v: "value_ok F v t"
    and p: "parser_at p (w @ 0x22 # kt @ 0x22 # w1 @ 0x3A # w2 @ t @ bs)"
    and f: "focus fill r" and d: "dom_root p = fill (JObject ps)" and st: "ref_stack p = S @ [r]" and stop: "number_stops bs"
    and cont: "goes_on F (states @ [False]) Q E bs (fill (JObject (obj_put (string_of_bytes k) v ps))) (S @ [r]) (errored p)"
  shows "starts_member F states Q E p"
  unfolding starts_member_def
proof (rule token_key [OF kt w p])
  fix l
  assume l: "lex_ok l" "pending l = w1 @ 0x3A # w2 @ t @ bs" "token_buffer l = k"
  let ?k = "string_of_bytes k"
  let ?q = "p\<lparr>lexer := l, last_token := value_string, dom_root := fill (JObject (with_key ?k ps)), object_element := r @ [Key ?k]\<rparr>"
  have q: "parser_at ?q (w1 @ 0x3A # w2 @ t @ bs)" using l by (simp add: parser_at_def)
  have "wp False (get_token F) (\<lambda>t. wp False (if t \<noteq> name_separator then unexpected name_separator ''object separator''
        else returnM ()) (\<lambda>_. wp False (get_token F)
          (\<lambda>_. wp False (loopM (sax_parse_round F) (states @ [False], False)) Q E) E) E) E ?q"
  proof (rule token_structural [OF _ w1 q])
    fix l'
    assume l': "lex_ok l'" "pending l' = w2 @ t @ bs"
    let ?r = "?q\<lparr>lexer := l', last_token := name_separator\<rparr>"
    have sl: "slot ?r (\<lambda>v. fill (JObject (obj_put ?k v (with_key ?k ps)))) (r @ [Key ?k])"
      by (rule slot_object [OF f]) (simp_all add: st with_key_put)
    have "starts_value F (states @ [False]) Q E ?r"
      by (rule value_okD [OF v w2 _ stop sl]) (use l' st cont in \<open>simp_all add: parser_at_def with_key_put\<close>)
    then show "wp False (if name_separator \<noteq> name_separator then unexpected name_separator ''object separator''
        else returnM ()) (\<lambda>_. wp False (get_token F)
          (\<lambda>_. wp False (loopM (sax_parse_round F) (states @ [False], False)) Q E) E) E ?r"
      unfolding starts_value_def by (auto simp: wp_basic elim!: wp_mono)
  qed simp
  then show "value_string \<noteq> end_object \<and> wp False (parse_key F value_string) (\<lambda>_. wp False (get_token F)
        (\<lambda>_. wp False (loopM (sax_parse_round F) (states @ [False], False)) Q E) E) E
        (p\<lparr>lexer := l, last_token := value_string\<rparr>)"
    by (simp add: parse_key_def wp_bind wp_basic l sax_key_wp [OF f, of "p\<lparr>lexer := l, last_token := value_string\<rparr>" ps S] d st)
qed

lemma after_value_object:
  "wp T (after_value F (states @ [False])) Q E p = wp T (get_token F) (\<lambda>t. wp T (
        if t = value_separator then
          bindM (get_token F) (\<lambda>t. bindM (parse_key F t) (\<lambda>_.
          bindM (get_token F) (\<lambda>_. returnM (Inl (states @ [False], False)))))
        else if t = end_object then bindM end_container (\<lambda>_. returnM (Inl (states, True)))
        else unexpected end_object ''object'') Q E) E p"
  by (simp add: after_value_def wp_bind cong: if_cong)

lemma member_goes_on:
  assumes w: "json_ws w" and cont: "goes_on F states Q E bs tree S err"
  shows "goes_on F (states @ [False]) Q E (w @ 0x7D # bs) tree (S @ [r]) err"
  unfolding goes_on_def
proof (intro allI impI, elim conjE)
  fix q
  assume q: "parser_at q (w @ 0x7D # bs)" "dom_root q = tree" "ref_stack q = S @ [r]" "errored q = err"
  show "wp False (loopM (sax_parse_round F) (states @ [False], True)) Q E q"
    unfolding loop_after after_value_object
    by (rule token_structural [OF _ w q(1)])
      (use q in \<open>auto simp: wp_rules end_container_def parser_at_def intro!: goes_onD [OF cont]\<close>)
qed

lemma next_member_goes_on:
  assumes w: "json_ws w"
    and start: "\<And>q. parser_at q bs \<Longrightarrow> dom_root q = tree \<Longrightarrow> ref_stack q = stack \<Longrightarrow> errored q = err \<Longrightarrow>
      starts_member F states Q E q"
  shows "goes_on F (states @ [False]) Q E (w @ 0x2C # bs) tree stack err"
  unfolding goes_on_def
proof (intro allI impI, elim conjE)
  fix q
  assume q: "parser_at q (w @ 0x2C # bs)" "dom_root q = tree" "ref_stack q = stack" "errored q = err"
  show "wp False (loopM (sax_parse_round F) (states @ [False], True)) Q E q"
    unfolding loop_after after_value_object
  proof (rule token_structural [OF _ w q(1)])
    fix l
    assume "lex_ok l" "pending l = bs"
    then have "starts_member F states Q E (q\<lparr>lexer := l, last_token := value_separator\<rparr>)"
      using q by (intro start) (simp_all add: parser_at_def)
    then show "wp False (if value_separator = value_separator
        then bindM (get_token F) (\<lambda>t. bindM (parse_key F t) (\<lambda>_.
          bindM (get_token F) (\<lambda>_. returnM (Inl (states @ [False], False)))))
        else if value_separator = end_object then bindM end_container (\<lambda>_. returnM (Inl (states, True)))
        else unexpected end_object ''object'')
       (\<lambda>r q. case r of Inl a \<Rightarrow> wp False (loopM (sax_parse_round F) a) Q E q | Inr b \<Rightarrow> Q b q) E
       (q\<lparr>lexer := l, last_token := value_separator\<rparr>)"
      unfolding starts_member_def by (auto simp: wp_bind wp_ext elim!: wp_mono)
  qed simp
qed

lemma members_one_ok:
  assumes "json_ws w" and "string_body kt k" and "json_ws w1" and "json_ws w2" and "value_ok F v t" and "json_ws w'"
  shows "members_ok F [(string_of_bytes k, v)] (w @ 0x22 # kt @ 0x22 # w1 @ 0x3A # w2 @ t @ w')"
  unfolding members_ok_def
proof (intro allI impI)
  fix p bs fill r ps S states Q E
  assume p: "parser_at p ((w @ 0x22 # kt @ 0x22 # w1 @ 0x3A # w2 @ t @ w') @ 0x7D # bs)" and f: "focus fill r"
    "dom_root p = fill (JObject ps)" "ref_stack p = S @ [r]"
    and cont: "goes_on F states Q E bs (fill (JObject (put_members ps [(string_of_bytes k, v)]))) S (errored p)"
  show "starts_member F states Q E p"
    by (rule member_ok [OF assms(1-5) _ f, where bs = "w' @ 0x7D # bs"])
      (use p member_goes_on [OF assms(6) cont] in \<open>auto intro: number_stops_ws [OF assms(6)]\<close>)
qed

lemma members_more_ok:
  assumes "json_ws w" and "string_body kt k" and "json_ws w1" and "json_ws w2" and "value_ok F v t" and "json_ws w'"
    and "members_ok F ms ts"
  shows "members_ok F ((string_of_bytes k, v) # ms) (w @ 0x22 # kt @ 0x22 # w1 @ 0x3A # w2 @ t @ w' @ 0x2C # ts)"
  unfolding members_ok_def
proof (intro allI impI)
  fix p bs fill r ps S states Q E
  assume p: "parser_at p ((w @ 0x22 # kt @ 0x22 # w1 @ 0x3A # w2 @ t @ w' @ 0x2C # ts) @ 0x7D # bs)" and f: "focus fill r"
    "dom_root p = fill (JObject ps)" "ref_stack p = S @ [r]"
    and cont: "goes_on F states Q E bs (fill (JObject (put_members ps ((string_of_bytes k, v) # ms)))) S (errored p)"
  let ?ps = "obj_put (string_of_bytes k) v ps"
  have "goes_on F (states @ [False]) Q E (w' @ 0x2C # ts @ 0x7D # bs) (fill (JObject ?ps)) (S @ [r]) (errored p)"
    by (rule next_member_goes_on [OF assms(6)], rule members_okD [OF assms(7) _ f(1), where ps = ?ps])
      (use cont in simp_all)
  then show "starts_member F states Q E p"
    by (intro member_ok [OF assms(1-5) _ f, where bs = "w' @ 0x2C # ts @ 0x7D # bs"])
      (use p in \<open>auto intro: number_stops_ws [OF assms(6)]\<close>)
qed

section \<open>Every text\<close>

lemma json_text_ok:
  "json_text F v t \<Longrightarrow> value_ok F v t" "elements_text F vs ts \<Longrightarrow> elements_ok F vs ts"
  "members_text F ms us \<Longrightarrow> members_ok F ms us"
  by (induction rule: json_text_elements_text_members_text.inducts)
    (simp_all add: literal_ok string_ok number_ok empty_array_ok array_ok empty_object_ok object_ok
      elements_one_ok elements_more_ok members_one_ok members_more_ok del: bytes_of_string_simps)

lemma json_parse_document:
  assumes "json_document F v bs"
  shows "json_parse F bs s = Some (Inr v, s)"
proof -
  from assms obtain w t w' where bs: "bs = w @ t @ w'" and w: "json_ws w" "json_ws w'" and t: "json_text F v t"
    by (auto simp: json_document_def)
  let ?p = "new_parser bs"
  have p: "parser_at ?p (w @ t @ w')"
    by (simp add: parser_at_def new_parser_def new_lexer_def lex_ok_def pending_def bs)
  let ?Q = "\<lambda>(_ :: bool) q. wp False (bindM (get_token F) (\<lambda>t.
     if t \<noteq> end_of_input then unexpected end_of_input ''value''
     else bindM (getsM errored) (\<lambda>e. if e then returnM JDiscarded else getsM dom_root)))
     (\<lambda>j _. j = v) (\<lambda>_ _. False) q"
  have fin: "wp False (loopM (sax_parse_round F) ([], True)) ?Q (\<lambda>_ _. False) q"
    if q: "parser_at q w'" "dom_root q = v" "\<not> errored q" for q
    unfolding loop_after after_value_def wp_bind get_token_wp
    by (simp add: wp_bind wp_basic get_token_wp)
      (rule wp_mono [OF scan_end [OF w(2) q(1) [unfolded parser_at_lex]]], use q in \<open>auto simp: wp_rules\<close>)
  have "starts_value F [] ?Q (\<lambda>_ _. False) ?p"
    by (rule value_okD [OF json_text_ok(1) [OF t] w(1) p _ slot_root])
      (use fin w in \<open>auto simp: goes_on_def new_parser_def intro: number_stops_ws [of w' "[]", simplified]\<close>)
  then have "wp False (parser_parse F) (\<lambda>j _. j = v) (\<lambda>_ _. False) ?p"
    unfolding starts_value_def parser_parse_def sax_parse_internal_def
    by (auto simp: wp_bind wp_ext elim!: wp_mono)
  then show ?thesis by (auto simp: json_parse_def elim: wp_totalE)
qed

end
