(* ===== verification/Dtoa_Arith.thy ===== *)
theory Dtoa_Arith
  imports Json_Dtoa
begin

text \<open>
  What the arithmetic of \<open>diyfp\<close> computes, on natural numbers: the product of two significands
  is rounded to its upper 64 bits, a significand is normalized, and the boundaries of a double
  are the significands of the middles between it and its neighbours.
\<close>

lemma json_assert_bind: "Option.bind (json_assert b) f = (if b then f () else None)"
  by (simp add: json_assert_def)

section \<open>Words of 64 bits\<close>

lemma unat_less_64 [simp]: "unat (x :: u64) < 18446744073709551616"
  using unsigned_less [of x] by simp

lemma unat_plus_64: "unat a + unat b < 18446744073709551616 \<Longrightarrow> unat (a + b :: u64) = unat a + unat b"
  by (simp add: unat_add_lem [THEN iffD1])

lemma unat_times_64: "unat a * unat b < 18446744073709551616 \<Longrightarrow> unat (a * b :: u64) = unat a * unat b"
  by (simp add: unat_mult_lem [THEN iffD1])

lemma unat_minus_64: "b \<le> a \<Longrightarrow> unat (a - b :: u64) = unat a - unat b"
  by (simp add: unat_sub)

lemma unat_drop_64: "unat (drop_bit n (x :: u64)) = unat x div 2 ^ n"
  unfolding unat_drop_bit_eq by (rule drop_bit_eq_div)

lemma unat_push_64:
  assumes "unat x * 2 ^ n < 18446744073709551616"
  shows "unat (push_bit n x :: u64) = unat x * 2 ^ n"
proof -
  have "unat (push_bit n x) = unat x * 2 ^ n mod 2 ^ 64"
    unfolding unsigned_push_bit_eq unfolding take_bit_eq_mod push_bit_eq_mult by simp
  with assms show ?thesis by simp
qed

lemma unat_low_32: "unat (x AND 0xFFFFFFFF :: u64) = unat x mod 2 ^ 32"
proof -
  have "x AND 0xFFFFFFFF = take_bit 32 x" by (simp add: take_bit_eq_mask mask_eq_exp_minus_1)
  then have "unat (x AND 0xFFFFFFFF) = take_bit 32 (unat x)" by (simp only: unsigned_take_bit_eq)
  then show ?thesis by (simp only: take_bit_eq_mod)
qed

section \<open>The product\<close>

text \<open>The upper half of a product, from the four products of the halves of its factors.\<close>

lemma upper_half:
  fixes u v :: nat
  defines "ul \<equiv> u mod 2 ^ 32" and "uh \<equiv> u div 2 ^ 32" and "vl \<equiv> v mod 2 ^ 32" and "vh \<equiv> v div 2 ^ 32"
  shows "(u * v + 2 ^ 63) div 2 ^ 64
    = uh * vh + uh * vl div 2 ^ 32 + ul * vh div 2 ^ 32
      + (ul * vl div 2 ^ 32 + ul * vh mod 2 ^ 32 + uh * vl mod 2 ^ 32 + 2 ^ 31) div 2 ^ 32"
proof -
  let ?b = "2 ^ 32 :: nat"
  have u: "u = ul + ?b * uh" and v: "v = vl + ?b * vh" by (simp_all add: ul_def uh_def vl_def vh_def)
  define p0 p1 p2 p3 where "p0 = ul * vl" and "p1 = ul * vh" and "p2 = uh * vl" and "p3 = uh * vh"
  let ?Q = "p0 div ?b + p1 mod ?b + p2 mod ?b + 2 ^ 31"
  have "u * v = p0 + ?b * (p1 + p2) + ?b * ?b * p3"
    by (simp only: u v p0_def p1_def p2_def p3_def) (simp add: algebra_simps)
  moreover have "u * v + 2 ^ 63 = r0 + ?b * (q0 + r1 + r2 + 2 ^ 31 + ?b * (p3 + q2 + q1))"
    if "u * v = p0 + ?b * (p1 + p2) + ?b * ?b * p3" "p0 = r0 + ?b * q0" "p1 = r1 + ?b * q1" "p2 = r2 + ?b * q2"
    for q0 q1 q2 r0 r1 r2 using that by simp
  ultimately have "u * v + 2 ^ 63 = p0 mod ?b + ?b * (?Q + ?b * (p3 + p2 div ?b + p1 div ?b))"
    by simp
  then have "(u * v + 2 ^ 63) div ?b = (p0 mod ?b + ?b * (?Q + ?b * (p3 + p2 div ?b + p1 div ?b))) div ?b"
    by (simp only:)
  then have q: "(u * v + 2 ^ 63) div ?b = ?Q + ?b * (p3 + p2 div ?b + p1 div ?b)"
    by (subst (asm) div_mult_self2) simp_all
  have "(?Q + ?b * (p3 + p2 div ?b + p1 div ?b)) div ?b = p3 + p2 div ?b + p1 div ?b + ?Q div ?b"
    by (subst div_mult_self2) simp_all
  with q have "(u * v + 2 ^ 63) div ?b div ?b = p3 + p2 div ?b + p1 div ?b + ?Q div ?b" by (simp only:)
  moreover have "(u * v + 2 ^ 63) div 2 ^ 64 = (u * v + 2 ^ 63) div ?b div ?b"
    by (simp add: div_mult2_eq [symmetric])
  ultimately show ?thesis by (simp only: p0_def p1_def p2_def p3_def)
qed

lemma diyfp_mul_f: "unat (dy_f (diyfp_mul x y)) = (unat (dy_f x) * unat (dy_f y) + 2 ^ 63) div 2 ^ 64"
proof -
  let ?b = "2 ^ 32 :: nat"
  define u v where "u = unat (dy_f x)" and "v = unat (dy_f y)"
  have b: "u mod ?b < ?b" "v mod ?b < ?b" "u div ?b < ?b" "v div ?b < ?b"
    using unat_less_64 [of "dy_f x"] unat_less_64 [of "dy_f y"]
    by (simp_all add: u_def v_def less_mult_imp_div_less)
  have small: "a * c < 18446744073709551616" "a * c \<le> 18446744065119617025" "a * c div ?b \<le> 4294967294"
    if "a < ?b" "c < ?b" for a c :: nat
  proof -
    have "a * c \<le> (?b - 1) * (?b - 1)" using that by (intro mult_le_mono) auto
    then show le: "a * c \<le> 18446744065119617025" by simp
    then show "a * c < 18446744073709551616" by simp
    from div_le_mono [OF le, of ?b] show "a * c div ?b \<le> 4294967294" by simp
  qed
  have p: "unat ((dy_f x AND 0xFFFFFFFF) * (dy_f y AND 0xFFFFFFFF)) = (u mod ?b) * (v mod ?b)"
      "unat ((dy_f x AND 0xFFFFFFFF) * drop_bit 32 (dy_f y)) = (u mod ?b) * (v div ?b)"
      "unat (drop_bit 32 (dy_f x) * (dy_f y AND 0xFFFFFFFF)) = (u div ?b) * (v mod ?b)"
      "unat (drop_bit 32 (dy_f x) * drop_bit 32 (dy_f y)) = (u div ?b) * (v div ?b)"
    using small(1) [OF b(1) b(2)] small(1) [OF b(1) b(4)] small(1) [OF b(3) b(2)] small(1) [OF b(3) b(4)]
    by (simp_all add: unat_times_64 unat_low_32 unat_drop_64 u_def v_def)
  let ?p0 = "(u mod ?b) * (v mod ?b)" and ?p1 = "(u mod ?b) * (v div ?b)"
    and ?p2 = "(u div ?b) * (v mod ?b)" and ?p3 = "(u div ?b) * (v div ?b)"
  define Q where "Q = ?p0 div ?b + ?p1 mod ?b + ?p2 mod ?b + 2 ^ 31"
  have m: "?p1 mod ?b \<le> 4294967295" "?p2 mod ?b \<le> 4294967295"
    using mod_less_divisor [of ?b ?p1] mod_less_divisor [of ?b ?p2] by auto
  then have Q: "Q \<le> 12884901888 + 4294967295" unfolding Q_def using small(3) [OF b(1) b(2)] by simp
  have "u * v + 2 ^ 63 < 2 ^ 64 * 2 ^ 64"
  proof -
    have "u * v \<le> 18446744073709551615 * 18446744073709551615"
      using unat_less_64 [of "dy_f x"] unat_less_64 [of "dy_f y"] unfolding u_def v_def
      by (intro mult_le_mono) linarith+
    then show ?thesis by simp
  qed
  then have "(u * v + 2 ^ 63) div 2 ^ 64 < 18446744073709551616" by (simp add: less_mult_imp_div_less)
  then have h: "?p3 + ?p2 div ?b + ?p1 div ?b + Q div ?b < 18446744073709551616"
    unfolding upper_half Q_def .
  have three: "unat (a + b + c + 2147483648) = unat a + unat b + unat c + 2 ^ 31"
    if "unat a \<le> 4294967294" "unat b \<le> 4294967295" "unat c \<le> 4294967295" for a b c :: u64
    using that by (simp add: unat_plus_64)
  have four: "unat (a + b + c + d) = unat a + unat b + unat c + unat d"
    if "unat a + unat b + unat c + unat d < 18446744073709551616" for a b c d :: u64
    using that by (simp add: unat_plus_64)
  have Q': "unat (drop_bit 32 ((dy_f x AND 0xFFFFFFFF) * (dy_f y AND 0xFFFFFFFF))
      + ((dy_f x AND 0xFFFFFFFF) * drop_bit 32 (dy_f y) AND 0xFFFFFFFF)
      + (drop_bit 32 (dy_f x) * (dy_f y AND 0xFFFFFFFF) AND 0xFFFFFFFF) + 2147483648) = Q"
    unfolding Q_def
    by (subst three) (use m small(3) [OF b(1) b(2)] in \<open>simp_all only: unat_drop_64 unat_low_32 p\<close>)
  show ?thesis
    using h unfolding upper_half u_def [symmetric] v_def [symmetric] Q_def [symmetric]
    by (simp add: diyfp_mul_def Let_def four unat_drop_64 p Q')
qed

lemma diyfp_mul_e [simp]: "dy_e (diyfp_mul x y) = dy_e x + dy_e y + 64"
  by (simp add: diyfp_mul_def Let_def)

section \<open>Normalized numbers\<close>

lemma normalize_loop_eq:
  "2 ^ 63 \<le> unat f * 2 ^ d \<Longrightarrow> unat f * 2 ^ d < 2 ^ 64
    \<Longrightarrow> normalize_loop (diyfp_of f e) = Some (diyfp_of (push_bit d f) (e - int d))"
proof (induction d arbitrary: f e)
  case 0
  then have "unat (drop_bit 63 f) \<noteq> 0" by (simp add: unat_drop_64 div_eq_0_iff)
  then have "drop_bit 63 f \<noteq> 0" by (metis unsigned_0)
  then show ?case by (simp add: normalize_loop.simps [of "diyfp_of f e"])
next
  case (Suc d)
  have "unat f * 2 < 2 ^ 64"
  proof -
    have "unat f * 2 * 1 \<le> unat f * 2 * 2 ^ d" by (intro mult_le_mono) simp_all
    also have "\<dots> = unat f * 2 ^ Suc d" by simp
    also note Suc.prems(2)
    finally show ?thesis by simp
  qed
  moreover define g where "g = push_bit 1 f"
  ultimately have p: "unat g = unat f * 2" and "unat (drop_bit 63 f) = 0"
    using unat_push_64 [of f 1] by (simp_all add: unat_drop_64)
  then have "drop_bit 63 f = 0" by (metis unsigned_eq_0_iff)
  moreover have "push_bit d g = push_bit (Suc d) f" by (simp add: g_def)
  moreover have "normalize_loop (diyfp_of g (e - 1)) = Some (diyfp_of (push_bit d g) (e - 1 - int d))"
    using Suc.prems by (intro Suc.IH) (simp_all add: p mult.assoc)
  ultimately show ?case
    unfolding normalize_loop.simps [of "diyfp_of f e"] by (simp add: g_def algebra_simps)
qed

lemma normalize_eq:
  assumes "2 ^ 63 \<le> unat f * 2 ^ d" and "unat f * 2 ^ d < 2 ^ 64"
  shows "diyfp_normalize (diyfp_of f e) = Some (diyfp_of (push_bit d f) (e - int d))"
proof -
  have "f \<noteq> 0" using assms(1) by auto
  with normalize_loop_eq [OF assms] show ?thesis by (simp add: diyfp_normalize_def json_assert_def)
qed

lemma normalize_to_eq:
  assumes "unat f * 2 ^ d < 2 ^ 64"
  shows "diyfp_normalize_to (diyfp_of f e) (e - int d) = Some (diyfp_of (push_bit d f) (e - int d))"
proof -
  have "unat (drop_bit d (push_bit d f)) = unat f" using assms by (simp add: unat_drop_64 unat_push_64)
  then have "drop_bit d (push_bit d f) = f" by (simp only: unsigned_word_eqI)
  then show ?thesis by (simp add: diyfp_normalize_to_def json_assert_def Let_def)
qed

text \<open>Every number that is not zero can be normalized.\<close>

lemma shift_exists:
  assumes "0 < n" and "n < 2 ^ k" and "k \<le> 64"
  obtains d where "2 ^ 63 \<le> n * 2 ^ d" and "n * 2 ^ d < (2 ^ 64 :: nat)" and "64 \<le> k + d"
proof -
  let ?P = "\<lambda>d. 2 ^ 63 \<le> n * 2 ^ d"
  have ex: "?P 63" using assms(1) by simp
  define d where "d = (LEAST d. ?P d)"
  have d: "?P d" unfolding d_def using ex by (rule LeastI)
  have "n * 2 ^ d < 2 ^ 64"
  proof (cases d)
    case 0
    have "(2::nat) ^ k \<le> 2 ^ 64" using assms(3) by (rule power_increasing) simp
    with 0 assms(2) show ?thesis by simp
  next
    case (Suc c)
    then have "\<not> ?P c" using not_less_Least [of c ?P] by (simp add: d_def)
    with Suc show ?thesis by simp
  qed
  moreover have "64 \<le> k + d"
  proof (rule ccontr)
    assume "\<not> 64 \<le> k + d"
    then have "(2::nat) ^ (k + d) \<le> 2 ^ 63" by (intro power_increasing) simp_all
    moreover have "n * 2 ^ d < 2 ^ k * 2 ^ d" using assms(2) by simp
    ultimately show False using d unfolding power_add by linarith
  qed
  ultimately show ?thesis using that d by blast
qed

end
