(* ===== verification/Double_Spec.thy ===== *)
theory Double_Spec
  imports Dtoa_Arith
begin

text \<open>
  The rational number that a double stands for, and which numbers round to it: those between
  the middles of the double and its two neighbours. Grisu2 works with exactly these middles.
\<close>

section \<open>Doubles\<close>

text \<open>The magnitude of a double from its bits without the sign: exponent and fraction.\<close>

definition magnitude :: "nat \<Rightarrow> rat" where
  "magnitude n =
     (let E = n div 2 ^ 52; F = n mod 2 ^ 52
      in if E = 0 then of_nat F * 2 powi (- 1074)
         else of_nat (2 ^ 52 + F) * 2 powi (int E - 1075))"

definition finite_magnitude :: "nat \<Rightarrow> bool" where
  "finite_magnitude n \<longleftrightarrow> n < 2047 * 2 ^ 52"

text \<open>The numbers that are nearer to the double \<open>n\<close> than to any other.\<close>

definition rounds_to :: "rat \<Rightarrow> nat \<Rightarrow> bool" where
  "rounds_to q n \<longleftrightarrow> (n = 0 \<longrightarrow> 0 \<le> q) \<and> (n \<noteq> 0 \<longrightarrow> magnitude (n - 1) + magnitude n < 2 * q)
     \<and> 2 * q < magnitude n + magnitude (n + 1)"

section \<open>Significand and exponent\<close>

text \<open>The significand and the exponent as \<open>compute_boundaries\<close> takes them from the bits.\<close>

definition significand :: "nat \<Rightarrow> nat" where
  "significand n = (if n div 2 ^ 52 = 0 then n mod 2 ^ 52 else n mod 2 ^ 52 + 2 ^ 52)"

definition exponent :: "nat \<Rightarrow> int" where
  "exponent n = (if n div 2 ^ 52 = 0 then - 1074 else int (n div 2 ^ 52) - 1075)"

text \<open>The neighbour below is closer at a power of two.\<close>

definition closer_below :: "nat \<Rightarrow> bool" where
  "closer_below n \<longleftrightarrow> n mod 2 ^ 52 = 0 \<and> 1 < n div 2 ^ 52"

lemma magnitude_eq: "magnitude n = of_nat (significand n) * 2 powi exponent n"
  by (simp add: magnitude_def significand_def exponent_def Let_def add.commute)

lemma div_mod_Suc:
  "(n + 1) div 2 ^ 52 = (if n mod 2 ^ 52 = 2 ^ 52 - 1 then n div 2 ^ 52 + 1 else n div 2 ^ 52)"
  "(n + 1) mod 2 ^ 52 = (if n mod 2 ^ 52 = 2 ^ 52 - 1 then 0 else n mod 2 ^ 52 + 1)" for n :: nat
  using div_Suc [of n "2 ^ 52"] mod_Suc [of n "2 ^ 52"] by (auto split: if_splits)

lemma magnitude_Suc: "magnitude (n + 1) = of_nat (significand n + 1) * 2 powi exponent n"
proof (cases "n mod 2 ^ 52 = 2 ^ 52 - 1")
  case True
  show ?thesis
  proof (cases "n div 2 ^ 52 = 0")
    case True
    then show ?thesis using \<open>n mod 2 ^ 52 = 2 ^ 52 - 1\<close>
      unfolding magnitude_def Let_def div_mod_Suc by (simp add: significand_def exponent_def)
  next
    case False
    have "(2::rat) powi (int (n div 2 ^ 52) + 1 - 1075) = 2 * 2 powi (int (n div 2 ^ 52) - 1075)"
      by (subst power_int_add_1' [symmetric]) (simp_all add: algebra_simps)
    then show ?thesis using True False
      unfolding magnitude_def Let_def div_mod_Suc by (simp add: significand_def exponent_def)
  qed
next
  case False
  then show ?thesis
    unfolding magnitude_def Let_def div_mod_Suc by (auto simp: significand_def exponent_def)
qed

lemma significand_Suc:
  "\<not> closer_below (n + 1) \<Longrightarrow> significand (n + 1) = significand n + 1"
  "\<not> closer_below (n + 1) \<Longrightarrow> exponent (n + 1) = exponent n"
  "closer_below (n + 1) \<Longrightarrow> significand n = 2 ^ 53 - 1"
  "closer_below (n + 1) \<Longrightarrow> significand (n + 1) = 2 ^ 52"
  "closer_below (n + 1) \<Longrightarrow> exponent (n + 1) = exponent n + 1"
  unfolding closer_below_def significand_def exponent_def div_mod_Suc
  by (auto split: if_splits)

text \<open>The middles, for a double whose significand is shifted by \<open>d\<close> bits.\<close>

definition scaled_exponent :: "nat \<Rightarrow> nat \<Rightarrow> int" where
  "scaled_exponent n d = exponent n - 1 - int d"

definition upper_middle :: "nat \<Rightarrow> nat \<Rightarrow> nat" where
  "upper_middle n d = (2 * significand n + 1) * 2 ^ d"

definition lower_middle :: "nat \<Rightarrow> nat \<Rightarrow> nat" where
  "lower_middle n d = (if closer_below n then (4 * significand n - 1) * 2 ^ (d - 1)
     else (2 * significand n - 1) * 2 ^ d)"

lemma power_shift: "(2::rat) powi e = 2 * 2 ^ d * 2 powi (e - 1 - int d)"
proof -
  have "(2::rat) powi e = 2 powi (1 + int d + (e - 1 - int d))" by simp
  also have "\<dots> = 2 powi (1 + int d) * 2 powi (e - 1 - int d)" by (rule power_int_add) simp
  also have "(2::rat) powi (1 + int d) = 2 * 2 ^ d" by (simp add: power_int_add)
  finally show ?thesis .
qed

lemma upper_middle_eq:
  "magnitude n + magnitude (n + 1) = 2 * (of_nat (upper_middle n d) * 2 powi scaled_exponent n d)"
proof -
  have "magnitude n + magnitude (n + 1) = of_nat (2 * significand n + 1) * 2 powi exponent n"
    unfolding magnitude_Suc by (simp add: magnitude_eq algebra_simps)
  then show ?thesis
    unfolding power_shift [of "exponent n" d] upper_middle_def scaled_exponent_def by (simp only: of_nat_mult) simp
qed

lemma lower_middle_eq:
  assumes "n \<noteq> 0" and "0 < d"
  shows "magnitude (n - 1) + magnitude n = 2 * (of_nat (lower_middle n d) * 2 powi scaled_exponent n d)"
proof -
  from assms(1) obtain k where n: "n = k + 1" by (metis Suc_eq_plus1 not0_implies_Suc)
  have sum: "magnitude (n - 1) + magnitude n = of_nat (2 * significand k + 1) * 2 powi exponent k"
    unfolding n magnitude_Suc by (simp add: magnitude_eq algebra_simps)
  show ?thesis
  proof (cases "closer_below n")
    case True
    note m = significand_Suc(3-5) [of k, folded n, OF True]
    from assms(2) obtain c where d: "d = Suc c" by (cases d) auto
    have "scaled_exponent n d = exponent k - 1 - int c" by (simp add: scaled_exponent_def m d)
    moreover have "lower_middle n d = (2 * significand k + 1) * 2 ^ c" by (simp add: lower_middle_def True m d)
    ultimately show ?thesis unfolding sum power_shift [of "exponent k" c] by (simp only: of_nat_mult) simp
  next
    case False
    note m = significand_Suc(1-2) [of k, folded n, OF False]
    have "scaled_exponent n d = exponent k - 1 - int d" by (simp add: scaled_exponent_def m)
    moreover have "lower_middle n d = (2 * significand k + 1) * 2 ^ d" by (simp add: lower_middle_def False m)
    ultimately show ?thesis unfolding sum power_shift [of "exponent k" d] by (simp only: of_nat_mult) simp
  qed
qed

lemma rounds_toI:
  assumes "n \<noteq> 0" and "0 < d"
    and "of_nat (lower_middle n d) * 2 powi scaled_exponent n d < q"
    and "q < of_nat (upper_middle n d) * 2 powi scaled_exponent n d"
  shows "rounds_to q n"
  unfolding rounds_to_def upper_middle_eq [of n d] using assms lower_middle_eq [OF assms(1,2)]
  by (simp only:) simp

section \<open>The boundaries\<close>

lemma positive_double:
  assumes "double_is_finite x" and "is_positive x"
  shows "unat x \<noteq> 0" and "finite_magnitude (unat x)"
proof -
  show "unat x \<noteq> 0" using assms(2) by (simp add: is_positive_def unsigned_eq_0_iff)
  have "\<not> bit (unat x) 63" using assms(2) by (simp add: is_positive_def signbit_def bit_unsigned_iff)
  then have "even (unat x div 2 ^ 63)" by (simp add: bit_iff_odd)
  moreover have "unat x div 2 ^ 63 < 2" using unat_less_64 [of x] by (simp add: less_mult_imp_div_less)
  moreover have "k = 0" if "even k" "k < 2" for k :: nat using that by presburger
  ultimately have "unat x div 2 ^ 63 = 0" by blast
  then have x: "unat x < 2 ^ 63" by (simp add: div_eq_0_iff)
  have "unat (drop_bit 52 x AND 0x7FF) = unat x div 2 ^ 52 mod 2 ^ 11"
  proof -
    have "drop_bit 52 x AND 0x7FF = take_bit 11 (drop_bit 52 x)" by (simp add: take_bit_eq_mask mask_eq_exp_minus_1)
    then have "unat (drop_bit 52 x AND 0x7FF) = take_bit 11 (unat (drop_bit 52 x))" by (simp only: unsigned_take_bit_eq)
    then show ?thesis by (simp only: take_bit_eq_mod unat_drop_64)
  qed
  also have "\<dots> = unat x div 2 ^ 52" using x by (intro mod_less) (simp add: less_mult_imp_div_less)
  finally have "unat x div 2 ^ 52 = unat (drop_bit 52 x AND 0x7FF)" by simp
  moreover have "unat (drop_bit 52 x AND 0x7FF) \<noteq> unat (0x7FF :: u64)"
    using assms(1) unfolding double_is_finite_def by (simp only: unsigned_word_eqI word_unat_eq_iff) simp
  ultimately have "unat x div 2 ^ 52 \<noteq> 2047" by simp
  moreover have "unat x div 2 ^ 52 < 2048" using x by (simp add: less_mult_imp_div_less)
  ultimately have "unat x div 2 ^ 52 < 2047" by linarith
  then show "finite_magnitude (unat x)" by (simp add: finite_magnitude_def div_less_iff_less_mult)
qed

lemma significand_bounds:
  assumes "n \<noteq> 0"
  shows "0 < significand n" and "significand n < 2 ^ 53"
proof -
  have "n mod 2 ^ 52 < 2 ^ 52" by simp
  then show "significand n < 2 ^ 53" by (auto simp: significand_def div_eq_0_iff)
  have "n mod 2 ^ 52 \<noteq> 0" if "n div 2 ^ 52 = 0" using assms that div_mult_mod_eq [of n "2 ^ 52"] by auto
  then show "0 < significand n" by (auto simp: significand_def)
qed

lemma exponent_bounds: "finite_magnitude n \<Longrightarrow> - 1074 \<le> exponent n \<and> exponent n \<le> 971"
proof -
  assume "finite_magnitude n"
  then have "n div 2 ^ 52 < 2047" by (simp add: finite_magnitude_def less_mult_imp_div_less)
  then show ?thesis by (simp add: exponent_def)
qed

text \<open>The significand of a double is shifted by this many bits.\<close>

lemma normal_shift:
  assumes "n \<noteq> 0"
  obtains d where "2 ^ 63 \<le> upper_middle n d" and "upper_middle n d < 2 ^ 64" and "10 \<le> d" and "d \<le> 62"
    and "2 ^ 63 \<le> 2 * significand n * 2 ^ d"
proof -
  note m = significand_bounds [OF assms]
  have "0 < 2 * significand n + 1" "2 * significand n + 1 < 2 ^ 54" using m by simp_all
  then obtain d where d: "2 ^ 63 \<le> (2 * significand n + 1) * 2 ^ d"
      "(2 * significand n + 1) * 2 ^ d < (2 ^ 64 :: nat)" "64 \<le> 54 + d"
    by (rule shift_exists) simp_all
  have "3 * 2 ^ d \<le> (2 * significand n + 1) * 2 ^ d" using m by (intro mult_right_mono) simp_all
  with d(2) have "3 * 2 ^ d < (2 ^ 64 :: nat)" by linarith
  then have "(2::nat) ^ d < 2 ^ 63" by simp
  then have "d < 63" by (rule power_less_imp_less_exp [rotated]) simp
  then have le: "d \<le> 62" by simp
  then have "(2::nat) ^ 63 = 2 ^ (62 - d) * 2 * 2 ^ d" by (simp flip: power_add power_Suc2)
  with d(1) have "2 ^ (62 - d) * 2 * 2 ^ d \<le> (2 * significand n + 1) * 2 ^ d" by (simp only:)
  then have "2 ^ (62 - d) * 2 \<le> 2 * significand n + 1" by (subst (asm) mult_le_cancel2) simp
  then have "2 ^ (62 - d) \<le> significand n" by linarith
  then have "2 * 2 ^ (62 - d) * 2 ^ d \<le> 2 * significand n * 2 ^ d" by simp
  moreover have "2 * 2 ^ (62 - d) * 2 ^ d = (2 ^ 63 :: nat)" using le by (simp flip: power_add power_Suc)
  ultimately have "2 ^ 63 \<le> 2 * significand n * 2 ^ d" by (simp only:)
  with that [of d] d le show ?thesis by (simp add: upper_middle_def)
qed

lemma bits_of_double:
  "unat (drop_bit (kPrecision - 1) x) = unat x div 2 ^ 52"
  "unat (x AND (kHiddenBit - 1)) = unat x mod 2 ^ 52"
proof -
  show "unat (drop_bit (kPrecision - 1) x) = unat x div 2 ^ 52" by (simp add: kPrecision_def unat_drop_64)
  have "x AND (kHiddenBit - 1) = take_bit 52 x"
    by (simp add: kHiddenBit_def kPrecision_def take_bit_eq_mask mask_eq_exp_minus_1 push_bit_eq_mult)
  then have "unat (x AND (kHiddenBit - 1)) = take_bit 52 (unat x)" by (simp only: unsigned_take_bit_eq)
  then show "unat (x AND (kHiddenBit - 1)) = unat x mod 2 ^ 52" by (simp only: take_bit_eq_mod)
qed

lemma compute_boundaries_unfold:
  fixes x :: u64
  defines "n \<equiv> unat x"
  defines "f \<equiv> of_nat (significand n) :: u64"
  assumes "double_is_finite x" and "is_positive x"
  shows "compute_boundaries x = do {
     w_plus \<leftarrow> diyfp_normalize (diyfp_of (2 * f + 1) (exponent n - 1));
     w_minus \<leftarrow> diyfp_normalize_to (if closer_below n then diyfp_of (4 * f - 1) (exponent n - 2)
       else diyfp_of (2 * f - 1) (exponent n - 1)) (dy_e w_plus);
     w \<leftarrow> diyfp_normalize (diyfp_of f (exponent n));
     Some \<lparr>bd_w = w, bd_minus = w_minus, bd_plus = w_plus\<rparr>
   }"
proof -
  note bits = bits_of_double [of x, folded n_def]
  have z: "w = 0 \<longleftrightarrow> unat w = 0" for w :: u64 by (simp add: unsigned_eq_0_iff)
  have F: "x AND (kHiddenBit - 1) = of_nat (n mod 2 ^ 52)"
  proof -
    have "x AND (kHiddenBit - 1) = of_nat (unat (x AND (kHiddenBit - 1)))" by simp
    then show ?thesis by (simp only: bits)
  qed
  have h: "kHiddenBit = of_nat (2 ^ 52)" by (simp add: kHiddenBit_def kPrecision_def push_bit_eq_mult)
  have E: "drop_bit (kPrecision - 1) x = 0 \<longleftrightarrow> n div 2 ^ 52 = 0" "1 < drop_bit (kPrecision - 1) x \<longleftrightarrow> 1 < n div 2 ^ 52"
    "x AND (kHiddenBit - 1) = 0 \<longleftrightarrow> n mod 2 ^ 52 = 0" "uint (drop_bit (kPrecision - 1) x) = int (n div 2 ^ 52)"
    unfolding z word_less_nat_alt uint_nat bits by simp_all
  have v: "(if drop_bit (kPrecision - 1) x = 0 then diyfp_of (x AND (kHiddenBit - 1)) kMinExp
      else diyfp_of ((x AND (kHiddenBit - 1)) + kHiddenBit) (uint (drop_bit (kPrecision - 1) x) - kBias))
    = diyfp_of f (exponent n)"
    unfolding E F unfolding f_def significand_def exponent_def h of_nat_add [symmetric]
    by (simp add: kMinExp_def kBias_def kPrecision_def)
  have c: "(x AND (kHiddenBit - 1) = 0 \<and> 1 < drop_bit (kPrecision - 1) x) = closer_below n"
    unfolding E closer_below_def by simp
  show ?thesis
    unfolding compute_boundaries_def Let_def v c using assms(3,4) by (simp add: json_assert_def)
qed

lemma compute_boundaries_eq:
  assumes "double_is_finite x" and "is_positive x"
  obtains d w m_minus m_plus where "10 \<le> d" and "d \<le> 62"
    and "compute_boundaries x = Some \<lparr>bd_w = diyfp_of w (scaled_exponent (unat x) d),
        bd_minus = diyfp_of m_minus (scaled_exponent (unat x) d), bd_plus = diyfp_of m_plus (scaled_exponent (unat x) d)\<rparr>"
    and "unat w = 2 * significand (unat x) * 2 ^ d" and "unat m_minus = lower_middle (unat x) d"
    and "unat m_plus = upper_middle (unat x) d" and "2 ^ 63 \<le> unat w" and "unat m_plus < 2 ^ 64"
proof -
  define n where "n = unat x"
  note n = positive_double [OF assms, folded n_def]
  note m = significand_bounds [OF n(1)]
  obtain d where d: "2 ^ 63 \<le> upper_middle n d" "upper_middle n d < 2 ^ 64" "10 \<le> d" "d \<le> 62"
    "2 ^ 63 \<le> 2 * significand n * 2 ^ d" using normal_shift [OF n(1)] by blast
  define f :: u64 where "f = of_nat (significand n)"
  let ?e = "scaled_exponent n d"
  have f: "unat f = significand n" using m(2) by (simp add: f_def unat_of_nat)
  have less: "significand n * 2 ^ Suc d < 2 ^ 64" and ge: "2 ^ 63 \<le> significand n * 2 ^ Suc d"
    using d(2,5) by (simp_all add: upper_middle_def algebra_simps)
  have f2: "unat (2 * f + 1) = 2 * significand n + 1" "unat (2 * f - 1) = 2 * significand n - 1"
    "unat (4 * f - 1) = 4 * significand n - 1"
  proof -
    have "unat (2 * f) = 2 * significand n" "unat (4 * f) = 4 * significand n"
      using m(2) unat_times_64 [of 2 f] unat_times_64 [of 4 f] by (simp_all add: f)
    moreover from this have "1 \<le> 2 * f" "1 \<le> 4 * f" using m(1) by (simp_all add: word_le_nat_alt)
    ultimately show "unat (2 * f + 1) = 2 * significand n + 1" "unat (2 * f - 1) = 2 * significand n - 1"
      "unat (4 * f - 1) = 4 * significand n - 1"
      using m(2) by (simp_all add: unat_plus_64 unat_minus_64)
  qed
  have plus: "diyfp_normalize (diyfp_of (2 * f + 1) (exponent n - 1)) = Some (diyfp_of (push_bit d (2 * f + 1)) ?e)"
    unfolding scaled_exponent_def using d(1,2) by (intro normalize_eq) (simp_all only: f2 upper_middle_def)
  have w: "diyfp_normalize (diyfp_of f (exponent n)) = Some (diyfp_of (push_bit (Suc d) f) ?e)"
    using normalize_eq [of f "Suc d" "exponent n"] less ge by (simp add: f scaled_exponent_def algebra_simps)
  have up: "unat (push_bit d (2 * f + 1)) = upper_middle n d" and uw: "unat (push_bit (Suc d) f) = 2 * significand n * 2 ^ d"
    using d(2) less unat_push_64 [of "2 * f + 1" d] unat_push_64 [of f "Suc d"]
    by (simp_all add: f f2 upper_middle_def)
  show ?thesis
  proof (cases "closer_below n")
    case True
    from d(3) obtain c where c: "d = Suc c" by (cases d) auto
    have e: "exponent n - 2 - int c = ?e" by (simp add: scaled_exponent_def c)
    have "(4 * significand n - 1) * 2 ^ c \<le> 4 * significand n * 2 ^ c" by simp
    also have "\<dots> = significand n * 2 ^ Suc d" by (simp add: c)
    finally have l: "(4 * significand n - 1) * 2 ^ c < 2 ^ 64" using less by linarith
    then have "diyfp_normalize_to (diyfp_of (4 * f - 1) (exponent n - 2)) ?e = Some (diyfp_of (push_bit c (4 * f - 1)) ?e)"
      using normalize_to_eq [of "4 * f - 1" c "exponent n - 2"] by (simp only: f2 e)
    with plus w True show ?thesis
      using that [of d "push_bit (Suc d) f" "push_bit c (4 * f - 1)" "push_bit d (2 * f + 1)"] d up uw l
        unat_push_64 [of "4 * f - 1" c] compute_boundaries_unfold [OF assms]
      by (simp add: n_def [symmetric] f_def [symmetric] f2 lower_middle_def c)
  next
    case False
    have "(2 * significand n - 1) * 2 ^ d \<le> 2 * significand n * 2 ^ d" by simp
    also have "\<dots> = significand n * 2 ^ Suc d" by simp
    finally have l: "(2 * significand n - 1) * 2 ^ d < 2 ^ 64" using less by linarith
    then have "diyfp_normalize_to (diyfp_of (2 * f - 1) (exponent n - 1)) ?e = Some (diyfp_of (push_bit d (2 * f - 1)) ?e)"
      using normalize_to_eq [of "2 * f - 1" d "exponent n - 1"] by (simp add: f2 scaled_exponent_def)
    with plus w False show ?thesis
      using that [of d "push_bit (Suc d) f" "push_bit d (2 * f - 1)" "push_bit d (2 * f + 1)"] d up uw l
        unat_push_64 [of "2 * f - 1" d] compute_boundaries_unfold [OF assms]
      by (simp add: n_def [symmetric] f_def [symmetric] f2 lower_middle_def)
  qed
qed

end
