(* ===== verification/Dtoa_Table.thy ===== *)
theory Dtoa_Table
  imports Json_Dtoa
begin

text \<open>
  The table of the powers of ten: every entry is normalized and off by at most half a unit of
  its significand. The numbers have up to a thousand bits; the entries are checked one by one,
  in groups, from one power of five to the next.
\<close>

section \<open>The entries\<close>

text \<open>
  The distance of \<open>f * 2 ^ e\<close> and \<open>10 ^ k\<close> is at most \<open>2 ^ e / 2\<close>: without fractions, and with
  the power of five \<open>p\<close> of the absolute value of \<open>k\<close>.
\<close>

definition positive_power_ok :: "u64 \<times> int \<times> int \<Rightarrow> int \<Rightarrow> bool" where
  "positive_power_ok c p = (case c of (f, e, k) \<Rightarrow>
     let x = uint f * 2 ^ nat (e - k); y = p * 2 ^ nat (k - e); u = 2 ^ nat (e - k)
     in 2 * x \<le> 2 * y + u \<and> 2 * y \<le> 2 * x + u)"

definition negative_power_ok :: "u64 \<times> int \<times> int \<Rightarrow> int \<Rightarrow> bool" where
  "negative_power_ok c p = (case c of (f, e, k) \<Rightarrow>
     let x = uint f * p; y = 2 ^ nat (k - e)
     in e \<le> k \<and> 2 * x \<le> 2 * y + p \<and> 2 * y \<le> 2 * x + p)"

text \<open>The power of five goes from each entry to the next one.\<close>

fun powers_ok_from :: "(u64 \<times> int \<times> int \<Rightarrow> int \<Rightarrow> bool) \<Rightarrow> int \<Rightarrow> (u64 \<times> int \<times> int) list \<Rightarrow> bool" where
  "powers_ok_from ok p [] \<longleftrightarrow> True"
| "powers_ok_from ok p (c # cs) \<longleftrightarrow> ok c p \<and> powers_ok_from ok (p * 390625) cs"

lemma powers_ok_fromD: "powers_ok_from ok (5 ^ n) cs \<Longrightarrow> i < length cs \<Longrightarrow> ok (cs ! i) (5 ^ (n + 8 * i))"
proof (induction cs arbitrary: i n)
  case (Cons c cs)
  have "(5 ^ n * 390625 :: int) = 5 ^ (n + 8)" by (simp add: power_add)
  with Cons.prems Cons.IH [of "n + 8" "i - 1"] show ?case by (cases i) (auto simp: algebra_simps)
qed simp

definition positive_powers :: "(u64 \<times> int \<times> int) list" where
  "positive_powers = drop 38 kCachedPowers"

definition negative_powers :: "(u64 \<times> int \<times> int) list" where
  "negative_powers = rev (take 38 kCachedPowers)"

lemma positive_power_0: "powers_ok_from positive_power_ok (5 ^ 4) (take 20 (drop 0 positive_powers))"
  unfolding positive_powers_def kCachedPowers_def by (simp add: positive_power_ok_def Let_def)

lemma positive_power_20: "powers_ok_from positive_power_ok (5 ^ 164) (take 9 (drop 20 positive_powers))"
  unfolding positive_powers_def kCachedPowers_def by (simp add: positive_power_ok_def Let_def)

lemma positive_power_29: "powers_ok_from positive_power_ok (5 ^ 236) (take 6 (drop 29 positive_powers))"
  unfolding positive_powers_def kCachedPowers_def by (simp add: positive_power_ok_def Let_def)

lemma positive_power_35: "powers_ok_from positive_power_ok (5 ^ 284) (take 6 (drop 35 positive_powers))"
  unfolding positive_powers_def kCachedPowers_def by (simp add: positive_power_ok_def Let_def)

lemma negative_power_0: "powers_ok_from negative_power_ok (5 ^ 4) (take 15 (drop 0 negative_powers))"
  unfolding negative_powers_def kCachedPowers_def by (simp add: negative_power_ok_def Let_def)

lemma negative_power_15: "powers_ok_from negative_power_ok (5 ^ 124) (take 8 (drop 15 negative_powers))"
  unfolding negative_powers_def kCachedPowers_def by (simp add: negative_power_ok_def Let_def)

lemma negative_power_23: "powers_ok_from negative_power_ok (5 ^ 188) (take 6 (drop 23 negative_powers))"
  unfolding negative_powers_def kCachedPowers_def by (simp add: negative_power_ok_def Let_def)

lemma negative_power_29: "powers_ok_from negative_power_ok (5 ^ 236) (take 5 (drop 29 negative_powers))"
  unfolding negative_powers_def kCachedPowers_def by (simp add: negative_power_ok_def Let_def)

lemma negative_power_34: "powers_ok_from negative_power_ok (5 ^ 276) (take 4 (drop 34 negative_powers))"
  unfolding negative_powers_def kCachedPowers_def by (simp add: negative_power_ok_def Let_def)

text \<open>The entry is normalized, and right for the binary exponents that are given to it.\<close>

definition range_ok :: "u64 \<times> int \<times> int \<Rightarrow> bool" where
  "range_ok c = (case c of (f, e, k) \<Rightarrow>
     2 ^ 63 \<le> uint f \<and> k * 262144 < (e + 64) * 78913 \<and> (e + 34) * 78913 < (k - 8) * 262144)"

lemma ranges_ok: "\<forall>c \<in> set kCachedPowers. range_ok c"
  unfolding list_all_iff [symmetric] kCachedPowers_def by (simp add: range_ok_def)

lemma length_kCachedPowers: "length kCachedPowers = 79"
  by (simp add: kCachedPowers_def)

lemma powers_spaced: "map (\<lambda>(f, e, k). k) kCachedPowers = map (\<lambda>i. 8 * int i - 300) [0..<79]"
  by (simp add: kCachedPowers_def upt_rec)

end
