(* ===== verification/Dtoa_Powers.thy ===== *)
theory Dtoa_Powers
  imports Dtoa_Table Dtoa_Arith
begin

text \<open>
  The power of ten that is looked up for a binary exponent: it is normalized, right to half a
  unit of its significand, and it brings the exponent into the range from \<open>kAlpha\<close> to \<open>kGamma\<close>.
\<close>

section \<open>The entries\<close>

lemma powers_ok_chunk:
  assumes "powers_ok_from ok (5 ^ n) (take l (drop a cs))" and "n = 4 + 8 * a" "a \<le> i" "i < a + l" "i < length cs"
  shows "ok (cs ! i) (5 ^ (4 + 8 * i))"
proof -
  have "i - a < length (take l (drop a cs))" using assms(3-5) by auto
  from powers_ok_fromD [OF assms(1) this] have "ok (cs ! i) (5 ^ (4 + 8 * a + 8 * (i - a)))" using assms(2-5) by simp
  moreover have "4 + 8 * a + 8 * (i - a) = 4 + 8 * i" using assms(3) by simp
  ultimately show ?thesis by (simp only:)
qed

lemma positive_power_entry:
  assumes "i < 41"
  shows "positive_power_ok (positive_powers ! i) (5 ^ (4 + 8 * i))"
proof -
  have l: "i < length positive_powers" using assms by (simp add: positive_powers_def length_kCachedPowers)
  consider "i < 20" | "20 \<le> i" "i < 29" | "29 \<le> i" "i < 35" | "35 \<le> i" "i < 41" using assms by linarith
  then show ?thesis
  proof cases
    case 1 show ?thesis by (rule powers_ok_chunk [OF positive_power_0]) (use 1 l in simp_all)
  next
    case 2 show ?thesis by (rule powers_ok_chunk [OF positive_power_20]) (use 2 l in simp_all)
  next
    case 3 show ?thesis by (rule powers_ok_chunk [OF positive_power_29]) (use 3 l in simp_all)
  next
    case 4 show ?thesis by (rule powers_ok_chunk [OF positive_power_35]) (use 4 l in simp_all)
  qed
qed

lemma negative_power_entry:
  assumes "i < 38"
  shows "negative_power_ok (negative_powers ! i) (5 ^ (4 + 8 * i))"
proof -
  have l: "i < length negative_powers" using assms by (simp add: negative_powers_def length_kCachedPowers)
  consider "i < 15" | "15 \<le> i" "i < 23" | "23 \<le> i" "i < 29" | "29 \<le> i" "i < 34" | "34 \<le> i" "i < 38"
    using assms by linarith
  then show ?thesis
  proof cases
    case 1 show ?thesis by (rule powers_ok_chunk [OF negative_power_0]) (use 1 l in simp_all)
  next
    case 2 show ?thesis by (rule powers_ok_chunk [OF negative_power_15]) (use 2 l in simp_all)
  next
    case 3 show ?thesis by (rule powers_ok_chunk [OF negative_power_23]) (use 3 l in simp_all)
  next
    case 4 show ?thesis by (rule powers_ok_chunk [OF negative_power_29]) (use 4 l in simp_all)
  next
    case 5 show ?thesis by (rule powers_ok_chunk [OF negative_power_34]) (use 5 l in simp_all)
  qed
qed

section \<open>Their error\<close>

lemma rat_le: "a \<le> b \<Longrightarrow> (of_int a :: rat) \<le> of_int b"
  by (simp only: of_int_le_iff)

lemma abs_halfI: "2 * x \<le> 2 * y + u \<Longrightarrow> 2 * y \<le> 2 * x + u \<Longrightarrow> \<bar>x - y\<bar> \<le> u / 2" for x y u :: rat
  by (simp add: abs_if)

lemma two_powi_nat: "(2::rat) powi a * 2 ^ nat (- a) = 2 ^ nat a"
proof (cases "0 \<le> a")
  case False
  have "(2::rat) powi a * 2 ^ nat (- a) = 2 powi a * 2 powi (- a)" using False by (simp add: power_int_def)
  also have "\<dots> = 1" by (subst power_int_add [symmetric]) simp_all
  finally show ?thesis using False by simp
qed (simp add: power_int_def)

lemma ten_powi: "(10::rat) ^ n = 5 ^ n * 2 ^ n"
  by (simp flip: power_mult_distrib)

lemma positive_power_error:
  assumes "positive_power_ok (f, e, int n) (5 ^ n)"
  shows "\<bar>of_int (uint f) * 2 powi e - 10 powi int n\<bar> \<le> (2 powi e / 2 :: rat)"
proof -
  define a where "a = e - int n"
  let ?f = "of_int (uint f) :: rat" and ?s = "2 ^ nat (- a) :: rat"
  have i: "2 * (uint f * 2 ^ nat a) \<le> 2 * (5 ^ n * 2 ^ nat (- a)) + 2 ^ nat a"
    "2 * (5 ^ n * 2 ^ nat (- a)) \<le> 2 * (uint f * 2 ^ nat a) + 2 ^ nat a"
    using assms by (simp_all add: positive_power_ok_def Let_def a_def)
  then have "2 * (?f * 2 ^ nat a) \<le> 2 * (5 ^ n * ?s) + 2 ^ nat a" "2 * (5 ^ n * ?s) \<le> 2 * (?f * 2 ^ nat a) + 2 ^ nat a"
    using i [THEN rat_le] by simp_all
  then have "?s * (2 * (?f * 2 powi a)) \<le> ?s * (2 * 5 ^ n + 2 powi a)" "?s * (2 * 5 ^ n) \<le> ?s * (2 * (?f * 2 powi a) + 2 powi a)"
    unfolding two_powi_nat [of a, symmetric] by (simp_all add: algebra_simps)
  then have le: "2 * (?f * 2 powi a) \<le> 2 * 5 ^ n + 2 powi a" "2 * 5 ^ n \<le> 2 * (?f * 2 powi a) + 2 powi a"
    by (simp_all only: mult_le_cancel_left_pos zero_less_power zero_less_numeral)
  have "(2::rat) powi e = 2 powi (a + int n)" by (simp add: a_def)
  also have "\<dots> = 2 powi a * 2 ^ n" by (subst power_int_add) simp_all
  finally have e: "(2::rat) powi e = 2 powi a * 2 ^ n" .
  from mult_right_mono [OF le(1), of "2 ^ n"] mult_right_mono [OF le(2), of "2 ^ n"] show ?thesis
    by (intro abs_halfI) (simp_all add: e ten_powi algebra_simps)
qed

lemma negative_power_error:
  assumes "negative_power_ok (f, e, - int n) (5 ^ n)"
  shows "\<bar>of_int (uint f) * 2 powi e - 10 powi (- int n)\<bar> \<le> (2 powi e / 2 :: rat)"
proof -
  define b where "b = - int n - e"
  let ?f = "of_int (uint f) :: rat" and ?s = "10 powi (- int n) * 2 powi e :: rat"
  have b: "0 \<le> b" and i: "2 * (uint f * 5 ^ n) \<le> 2 * 2 ^ nat b + 5 ^ n" "2 * 2 ^ nat b \<le> 2 * (uint f * 5 ^ n) + 5 ^ n"
    using assms by (simp_all add: negative_power_ok_def Let_def b_def)
  then have le: "2 * (?f * 5 ^ n) \<le> 2 * 2 powi b + 5 ^ n" "2 * 2 powi b \<le> 2 * (?f * 5 ^ n) + 5 ^ n"
    using i [THEN rat_le] by (simp_all add: power_int_def)
  have "(5::rat) ^ n * 2 ^ n * 10 powi (- int n) = 1"
    by (simp add: power_int_minus flip: ten_powi)
  then have p: "(5::rat) ^ n * (2 ^ n * 10 powi (- int n) * 2 powi e) = 2 powi e" by (simp add: mult.assoc [symmetric])
  have "(2::rat) powi b * (2 ^ n * 2 powi e) = 2 powi b * (2 powi int n * 2 powi e)" by simp
  also have "\<dots> = 2 powi (b + (int n + e))" by (simp add: power_int_add)
  finally have "(2::rat) powi b * (2 ^ n * 2 powi e) = 1" by (simp add: b_def)
  then have q: "(2::rat) powi b * (2 ^ n * 10 powi (- int n) * 2 powi e) = 10 powi (- int n)"
    by (simp add: algebra_simps)
  define s :: rat where "s = 2 ^ n * 10 powi (- int n) * 2 powi e"
  have "0 \<le> s" by (simp add: s_def zero_le_power_int)
  from mult_right_mono [OF le(1) this] mult_right_mono [OF le(2) this]
  have "2 * (?f * (5 ^ n * s)) \<le> 2 * (2 powi b * s) + 5 ^ n * s" "2 * (2 powi b * s) \<le> 2 * (?f * (5 ^ n * s)) + 5 ^ n * s"
    by (simp_all add: algebra_simps)
  then show ?thesis using p q by (intro abs_halfI) (simp_all add: s_def [symmetric])
qed

section \<open>The lookup\<close>

lemma power_exponent: "i < 79 \<Longrightarrow> snd (snd (kCachedPowers ! i)) = 8 * int i - 300"
  using arg_cong [OF powers_spaced, of "\<lambda>l. l ! i"]
  by (simp add: length_kCachedPowers case_prod_unfold)

lemma power_error:
  assumes "i < 79" and "kCachedPowers ! i = (f, e, k)"
  shows "\<bar>of_nat (unat f) * 2 powi e - 10 powi k\<bar> \<le> (2 powi e / 2 :: rat)"
proof -
  have k: "k = 8 * int i - 300" using power_exponent [OF assms(1)] assms(2) by simp
  have u: "(of_nat (unat f) :: rat) = of_int (uint f)" by simp
  show ?thesis
  proof (cases "i < 38")
    case True
    then have "negative_powers ! (37 - i) = (f, e, k)"
      using assms(2) by (simp add: negative_powers_def rev_nth length_kCachedPowers)
    moreover have n: "k = - int (4 + 8 * (37 - i))" using True by (simp add: k of_nat_diff)
    ultimately have "negative_power_ok (f, e, - int (4 + 8 * (37 - i))) (5 ^ (4 + 8 * (37 - i)))"
      using negative_power_entry [of "37 - i"] by simp
    from negative_power_error [OF this] show ?thesis unfolding u n .
  next
    case False
    then have "positive_powers ! (i - 38) = (f, e, k)"
      using assms by (simp add: positive_powers_def length_kCachedPowers)
    moreover have n: "k = int (4 + 8 * (i - 38))" using False by (simp add: k of_nat_diff)
    ultimately have "positive_power_ok (f, e, int (4 + 8 * (i - 38))) (5 ^ (4 + 8 * (i - 38)))"
      using positive_power_entry [of "i - 38"] assms(1) False by simp
    from positive_power_error [OF this] show ?thesis unfolding u n .
  qed
qed

text \<open>The approximation of the decimal exponent, a division that rounds towards zero.\<close>

lemma scaled_log:
  fixes f :: int
  defines "k \<equiv> (f * 78913) sdiv 262144 + (if f > 0 then 1 else 0)"
  shows "k * 262144 \<le> f * 78913 + 262144" and "f * 78913 \<le> k * 262144"
proof -
  have d: "x div 262144 * 262144 \<le> x" "x \<le> x div 262144 * 262144 + 262144" for x :: int
    using div_mult_mod_eq [of x 262144] pos_mod_bound [of 262144 x] pos_mod_sign [of 262144 x] by linarith+
  have "k * 262144 \<le> f * 78913 + 262144 \<and> f * 78913 \<le> k * 262144"
  proof (cases "0 < f")
    case True
    then have "k = (f * 78913) div 262144 + 1" by (simp add: k_def signed_divide_int_def)
    then show ?thesis using d [of "f * 78913"] by (simp add: algebra_simps)
  next
    case False
    then have "k = - ((- f * 78913) div 262144)" by (cases "f = 0") (simp_all add: k_def signed_divide_int_def)
    then show ?thesis using d [of "- f * 78913"] by (simp add: algebra_simps)
  qed
  then show "k * 262144 \<le> f * 78913 + 262144" "f * 78913 \<le> k * 262144" by auto
qed

lemma get_cached_power:
  assumes "- 1137 \<le> e" and "e \<le> 960"
  obtains f ce k where "get_cached_power_for_binary_exponent e = Some \<lparr>cp_f = f, cp_e = ce, cp_k = k\<rparr>"
    and "2 ^ 63 \<le> unat f" and "- 60 \<le> ce + e + 64" and "ce + e + 64 \<le> - 32"
    and "\<bar>of_nat (unat f) * 2 powi ce - 10 powi k\<bar> \<le> (2 powi ce / 2 :: rat)"
proof -
  define g where "g = - 61 - e"
  define k0 where "k0 = (g * 78913) sdiv 262144 + (if g > 0 then 1 else 0)"
  note log = scaled_log [of g, folded k0_def]
  have g: "- 1021 \<le> g" "g \<le> 1076" using assms by (simp_all add: g_def)
  have k0: "- 307 \<le> k0" using log(2) g(1) by linarith
  have k1: "k0 \<le> 324" using log(1) g(2) by linarith
  define i where "i = nat ((k0 + 307) div 8)"
  have i: "int i = (k0 + 307) div 8" "i < 79" "8 * int i \<le> k0 + 307" "k0 + 307 \<le> 8 * int i + 7"
  proof -
    show i: "int i = (k0 + 307) div 8" using k0 by (simp add: i_def)
    show "8 * int i \<le> k0 + 307" "k0 + 307 \<le> 8 * int i + 7" unfolding i by presburger+
    with k1 show "i < 79" by linarith
  qed
  obtain f ce k where c: "kCachedPowers ! i = (f, ce, k)" by (cases "kCachedPowers ! i") auto
  have "kCachedPowers ! i \<in> set kCachedPowers" using i(2) by (simp add: length_kCachedPowers)
  with ranges_ok c have "range_ok (f, ce, k)" by metis
  then have r: "2 ^ 63 \<le> uint f" "k * 262144 < ce * 78913 + 5050432" "ce * 78913 + 4780194 < k * 262144"
    by (simp_all add: range_ok_def)
  have k: "k = 8 * int i - 300" using power_exponent [OF i(2)] c by simp
  have "k0 \<le> k" "k - 7 \<le> k0" using i(3,4) k by linarith+
  then have "g < ce + 64" "ce + 34 < g" using r log by linarith+
  then have range: "- 60 \<le> ce + e + 64" "ce + e + 64 \<le> - 32" by (simp_all add: g_def)
  have idx: "(- kCachedPowersMinDecExp + k0 + (kCachedPowersDecStep - 1)) sdiv kCachedPowersDecStep = int i"
    using k0 i(1) by (simp add: kCachedPowersMinDecExp_def kCachedPowersDecStep_def signed_divide_int_def sgn_if add.commute)
  have f: "kAlpha - e - 1 = g" by (simp add: kAlpha_def g_def)
  have conds: "(- 1500 \<le> e) = True" "(e \<le> 1500) = True" "(0 \<le> int i) = True" "(i < 79) = True"
    "(kAlpha \<le> cp_e \<lparr>cp_f = f, cp_e = ce, cp_k = k\<rparr> + e + 64) = True"
    "(cp_e \<lparr>cp_f = f, cp_e = ce, cp_k = k\<rparr> + e + 64 \<le> kGamma) = True"
    using assms i(2) range by (simp_all add: kAlpha_def kGamma_def)
  have "get_cached_power_for_binary_exponent e = Some \<lparr>cp_f = f, cp_e = ce, cp_k = k\<rparr>"
    unfolding get_cached_power_for_binary_exponent_def Let_def f k0_def [symmetric] idx
    unfolding nat_int c length_kCachedPowers prod.case json_assert_bind conds if_True ..
  moreover have "2 ^ 63 \<le> unat f" using nat_mono [OF r(1)] unfolding unat_eq_nat_uint by simp
  ultimately show ?thesis using that range power_error [OF i(2) c] by blast
qed

end
