(* ===== verification/Dtoa_Digits.thy ===== *)
theory Dtoa_Digits
  imports Dtoa_Arith
begin

text \<open>
  The generation of digits: on a scaled upper boundary \<open>P * 2 ^ - s\<close> it ends, no assertion
  fails, and the number of the digits lies between the boundaries. Everything is stated on
  natural numbers; \<open>delta\<close> is the distance of the boundaries.
\<close>

section \<open>Lists of digits\<close>

definition digit_char :: "nat \<Rightarrow> u8" where
  "digit_char d = of_nat (48 + d)"

text \<open>A number without leading zeros.\<close>

definition digit_list :: "bytes \<Rightarrow> bool" where
  "digit_list ds \<longleftrightarrow> (\<forall>d \<in> set ds. is_digit d) \<and> ds \<noteq> [] \<and> hd ds \<noteq> 48"

lemma unat_digit_char: "d \<le> 9 \<Longrightarrow> unat (digit_char d) = 48 + d"
  by (simp add: digit_char_def unat_of_nat del: of_nat_add)

lemma digit_char_digit [simp]: "d \<le> 9 \<Longrightarrow> is_digit (digit_char d)" "d \<le> 9 \<Longrightarrow> digit_value (digit_char d) = d"
  by (simp_all add: is_digit_def word_le_nat_alt unat_digit_char digit_value_def)

lemma digit_char_48: "d \<le> 9 \<Longrightarrow> digit_char d = 48 \<longleftrightarrow> d = 0"
  by (simp add: word_unat_eq_iff unat_digit_char)

lemma digit_char_minus: "0 < d \<Longrightarrow> digit_char d - 1 = digit_char (d - 1)"
  by (cases d) (simp_all add: digit_char_def)

lemma digits_value_simps [simp]:
  "digits_value [] = 0" "digits_value (ds @ [d]) = 10 * digits_value ds + digit_value d"
  by (simp_all add: digits_value_def)

lemma digits_value_less: "\<forall>d \<in> set ds. is_digit d \<Longrightarrow> digits_value ds < 10 ^ length ds"
proof (induction ds rule: rev_induct)
  case (snoc d ds)
  then have "unat d \<le> 57" by (simp add: is_digit_def word_le_nat_alt)
  then have "digit_value d \<le> 9" by (simp add: digit_value_def)
  with snoc show ?case by simp
qed simp

lemma digits_value_ge: "digit_list ds \<Longrightarrow> 10 ^ (length ds - 1) \<le> digits_value ds"
proof (induction ds rule: rev_induct)
  case (snoc d ds)
  show ?case
  proof (cases "ds = []")
    case True
    with snoc.prems have "is_digit d" "d \<noteq> 48" by (simp_all add: digit_list_def)
    then have "1 \<le> digit_value d" by (auto simp: is_digit_def digit_value_def word_le_nat_alt word_unat_eq_iff)
    with True digits_value_simps(2) [of "[]" d] show ?thesis by simp
  next
    case False
    with snoc have "10 ^ (length ds - 1) \<le> digits_value ds" by (simp add: digit_list_def)
    moreover have "length ds = Suc (length ds - 1)" using False by (cases ds) auto
    then have "(10::nat) ^ length ds = 10 * 10 ^ (length ds - 1)" by (metis power_Suc)
    ultimately show ?thesis by simp
  qed
qed (simp add: digit_list_def)

section \<open>Rounding\<close>

lemma round_loop_eq:
  assumes "d \<le> 9" and "unat rest + d * unat ten_k > unat delta" and "rest \<le> delta" and "0 < ten_k"
  shows "\<exists>j < d. unat rest + j * unat ten_k \<le> unat delta
    \<and> round_loop (ds @ [digit_char d]) dist_w delta rest ten_k = Some (ds @ [digit_char (d - j)])"
  using assms
proof (induction d arbitrary: rest)
  case (Suc d)
  show ?case
  proof (cases "rest < dist_w \<and> delta - rest \<ge> ten_k \<and> (rest + ten_k < dist_w \<or> dist_w - rest > rest + ten_k - dist_w)")
    case True
    then have "unat ten_k \<le> unat (delta - rest)" by (simp add: word_le_nat_alt)
    then have le: "unat rest + unat ten_k \<le> unat delta" using Suc.prems(3) by (simp add: unat_minus_64 word_le_nat_alt)
    then have r: "unat (rest + ten_k) = unat rest + unat ten_k"
      using unat_less_64 [of delta] by (intro unat_plus_64) linarith
    obtain j where j: "j < d" "unat (rest + ten_k) + j * unat ten_k \<le> unat delta"
      "round_loop (ds @ [digit_char d]) dist_w delta (rest + ten_k) ten_k = Some (ds @ [digit_char (d - j)])"
      using Suc.IH [of "rest + ten_k"] Suc.prems le r by (auto simp: word_le_nat_alt)
    have "round_loop (ds @ [digit_char (Suc d)]) dist_w delta rest ten_k
        = round_loop (ds @ [digit_char d]) dist_w delta (rest + ten_k) ten_k"
      unfolding round_loop.simps [of "ds @ [digit_char (Suc d)]"] using True Suc.prems(1)
      by (simp add: json_assert_def digit_char_48 digit_char_minus)
    with j r show ?thesis by (intro exI [of _ "Suc j"]) simp
  next
    case False
    then have "round_loop (ds @ [digit_char (Suc d)]) dist_w delta rest ten_k = Some (ds @ [digit_char (Suc d)])"
      by (subst round_loop.simps) (simp only: if_False)
    with Suc.prems(3) show ?thesis by (intro exI [of _ 0]) (simp add: word_le_nat_alt)
  qed
qed (simp add: word_le_nat_alt)

lemma grisu2_round_eq:
  assumes "d \<le> 9" and "unat rest + d * unat ten_k > unat delta" and "rest \<le> delta" and "0 < ten_k" and "dist_w \<le> delta"
  obtains j where "j < d" and "unat rest + j * unat ten_k \<le> unat delta"
    and "grisu2_round (ds @ [digit_char d]) dist_w delta rest ten_k = Some (ds @ [digit_char (d - j)])"
proof -
  obtain j where "j < d" "unat rest + j * unat ten_k \<le> unat delta"
    "round_loop (ds @ [digit_char d]) dist_w delta rest ten_k = Some (ds @ [digit_char (d - j)])"
    using round_loop_eq [OF assms(1-4)] by blast
  with that [of j] assms(3-5) show ?thesis by (simp add: grisu2_round_def json_assert_def)
qed

lemma digit_list_snoc: "ds = [] \<or> digit_list ds \<Longrightarrow> d \<le> 9 \<Longrightarrow> (ds = [] \<Longrightarrow> 0 < d) \<Longrightarrow> digit_list (ds @ [digit_char d])"
  by (auto simp: digit_list_def digit_char_48)

text \<open>The last digit is rounded down, as long as the number stays between the boundaries.\<close>

lemma round_between:
  assumes "ds = [] \<or> digit_list ds" and "d \<le> 9" and "rest \<le> delta" and "0 < ten_k" and "dist_w \<le> delta"
    and "unat delta < d * unat ten_k + unat rest" and "X = (10 * digits_value ds + d) * unat ten_k + unat rest"
  obtains buf where "grisu2_round (ds @ [digit_char d]) dist_w delta rest ten_k = Some buf" and "digit_list buf"
    and "length buf = Suc (length ds)" and "digits_value buf * unat ten_k \<le> X"
    and "X \<le> digits_value buf * unat ten_k + unat delta"
proof -
  have "unat rest + d * unat ten_k > unat delta" using assms(6) by simp
  from grisu2_round_eq [OF assms(2) this assms(3-5)] obtain j where j: "j < d" "unat rest + j * unat ten_k \<le> unat delta"
    "grisu2_round (ds @ [digit_char d]) dist_w delta rest ten_k = Some (ds @ [digit_char (d - j)])" by blast
  have "X = (10 * digits_value ds + (d - j)) * unat ten_k + (unat rest + j * unat ten_k)"
    using assms(7) j(1) by (simp flip: add_mult_distrib)
  with j assms(1,2) show ?thesis
    by (intro that [of "ds @ [digit_char (d - j)]"]) (auto intro!: digit_list_snoc)
qed

section \<open>The integral part\<close>

lemma ucast_digit: "d \<le> 9 \<Longrightarrow> 48 + ucast (d :: u32) = digit_char (unat d)"
  by (simp add: digit_char_def)

lemma unat_ucast_64: "unat (ucast (x :: u32) :: u64) = unat x"
proof -
  have "unat x < 2 ^ 32" using unsigned_less [of x] by simp
  then show ?thesis by (simp add: unsigned_ucast_eq take_bit_nat_eq_self)
qed

text \<open>Where a number stops with \<open>L\<close> digits, \<open>P\<close> has more than \<open>L - 2\<close> digits more than \<open>delta\<close>.\<close>

lemma digits_needed:
  assumes "ds = [] \<or> digit_list ds" and "X = digits_value ds * u + r" and "r < u" and "delta < (r :: nat)"
  shows "10 ^ (Suc (length ds) - 2) * delta < X"
proof (cases "ds = []")
  case True
  with assms show ?thesis by simp
next
  case False
  with assms(1) have "10 ^ (length ds - 1) \<le> digits_value ds" using digits_value_ge by blast
  then have "10 ^ (length ds - 1) * delta \<le> digits_value ds * delta" by simp
  also have "\<dots> \<le> digits_value ds * u" using assms(3,4) by simp
  also have "\<dots> < X" using assms(2,4) by simp
  finally show ?thesis by (simp add: numeral_2_eq_2)
qed

lemma integral_digits_eq:
  assumes "dy_e one = - int s" and "P = (digits_value ds * 10 ^ n + unat p1) * 2 ^ s + unat p2"
    and "P < 2 ^ 64" and "unat p1 < 10 ^ n" and "unat p2 < 2 ^ s" and "0 < n \<Longrightarrow> unat pow10 = 10 ^ (n - 1)"
    and "ds = [] \<Longrightarrow> 0 < n \<and> 10 ^ (n - 1) \<le> unat p1" and "ds \<noteq> [] \<Longrightarrow> digit_list ds"
    and "unat delta < unat p1 * 2 ^ s + unat p2" and "dist_w \<le> delta"
  shows "(\<exists>k buf. integral_digits one delta dist_w p2 de n ds p1 pow10 = Some (Inl (buf, de + int k)) \<and> digit_list buf
      \<and> 10 ^ (length buf - 2) * unat delta < P \<and> digits_value buf * (10 ^ k * 2 ^ s) \<le> P
      \<and> P \<le> digits_value buf * (10 ^ k * 2 ^ s) + unat delta)
    \<or> (\<exists>buf. integral_digits one delta dist_w p2 de n ds p1 pow10 = Some (Inr buf) \<and> digit_list buf
      \<and> P = digits_value buf * 2 ^ s + unat p2 \<and> unat delta < unat p2)"
  using assms
proof (induction n arbitrary: ds p1 pow10)
  case (Suc n)
  have pow: "unat pow10 = 10 ^ n" using Suc.prems(6) by simp
  let ?d = "p1 div pow10" and ?r = "p1 mod pow10"
  have d: "unat ?d = unat p1 div 10 ^ n" and r: "unat ?r = unat p1 mod 10 ^ n" by (simp_all add: unat_div unat_mod pow)
  have split: "unat p1 = unat ?d * 10 ^ n + unat ?r" unfolding d r by (rule div_mult_mod_eq [symmetric])
  have d9: "unat ?d \<le> 9"
  proof -
    have "unat p1 div 10 ^ n < 10" using Suc.prems(4) by (simp add: less_mult_imp_div_less mult.commute)
    then show ?thesis by (simp add: d)
  qed
  have rn: "unat ?r < 10 ^ n" unfolding r by simp
  define rest where "rest = push_bit s (ucast ?r) + p2"
  have le: "unat p1 * 2 ^ s + unat p2 \<le> P" using Suc.prems(2) by (simp add: add_mult_distrib)
  have rs: "unat ?r * 2 ^ s + unat p2 < 2 ^ 64"
  proof -
    have "unat ?r * 2 ^ s \<le> unat p1 * 2 ^ s" unfolding split by simp
    with le Suc.prems(3) show ?thesis by linarith
  qed
  have rest: "unat rest = unat ?r * 2 ^ s + unat p2"
    using rs by (simp add: rest_def unat_plus_64 unat_push_64 unat_ucast_64)
  let ?X = "unat p1 * 2 ^ s + unat p2" and ?u = "10 ^ n * 2 ^ s :: nat"
  have lead: "ds = [] \<Longrightarrow> 0 < unat ?d" using Suc.prems(7) by (simp add: d div_greater_zero_iff)
  have u: "?u \<le> P"
  proof (cases "ds = []")
    case True
    then have "?u \<le> unat p1 * 2 ^ s" using Suc.prems(7) by simp
    with le show ?thesis by linarith
  next
    case False
    then have "1 \<le> digits_value ds" using digits_value_ge [OF Suc.prems(8)] by (meson le_trans one_le_numeral one_le_power)
    then have "1 * (10 * ?u) \<le> digits_value ds * (10 * ?u)" by (rule mult_right_mono) simp
    also have "\<dots> \<le> P" unfolding Suc.prems(2) by (simp add: algebra_simps)
    finally show ?thesis by linarith
  qed
  then have ten: "unat (push_bit s (ucast pow10) :: u64) = ?u"
    using Suc.prems(3) by (simp add: unat_push_64 unat_ucast_64 pow)
  have X: "?X = unat ?d * ?u + unat rest" unfolding rest by (subst split) (simp add: algebra_simps)
  have P: "P = digits_value ds * (10 * ?u) + ?X" unfolding Suc.prems(2) by (simp add: algebra_simps)
  have ds: "ds = [] \<or> digit_list ds" using Suc.prems(8) by blast
  have step: "integral_digits one delta dist_w p2 de (Suc n) ds p1 pow10 =
     (if rest \<le> delta then do {
        buf \<leftarrow> grisu2_round (ds @ [digit_char (unat ?d)]) dist_w delta rest (push_bit s (ucast pow10));
        Some (Inl (buf, de + int n)) }
      else integral_digits one delta dist_w p2 de n (ds @ [digit_char (unat ?d)]) ?r (pow10 div 10))"
    using d9 Suc.prems(1) by (simp add: Let_def json_assert_def word_le_nat_alt ucast_digit rest_def)
  show ?case
  proof (cases "rest \<le> delta")
    case True
    have "P = (10 * digits_value ds + unat ?d) * ?u + unat rest" unfolding P X by (simp add: algebra_simps)
    then obtain buf where buf: "grisu2_round (ds @ [digit_char (unat ?d)]) dist_w delta rest (push_bit s (ucast pow10)) = Some buf"
      "digit_list buf" "length buf = Suc (length ds)" "digits_value buf * ?u \<le> P" "P \<le> digits_value buf * ?u + unat delta"
      using round_between [OF ds d9 True, of "push_bit s (ucast pow10)" dist_w P] Suc.prems(9,10) X ten
      by (auto simp: word_less_nat_alt)
    have "?X < 10 * ?u"
    proof -
      have "Suc (unat p1) * 2 ^ s \<le> 10 ^ Suc n * 2 ^ s" using Suc.prems(4) by (intro mult_right_mono) simp_all
      with Suc.prems(5) show ?thesis by simp
    qed
    from digits_needed [OF ds P this Suc.prems(9)] buf show ?thesis
      unfolding step using True by (intro disjI1 exI [of _ n] exI [of _ buf]) simp
  next
    case False
    have "integral_digits one delta dist_w p2 de (Suc n) ds p1 pow10
      = integral_digits one delta dist_w p2 de n (ds @ [digit_char (unat ?d)]) ?r (pow10 div 10)"
      unfolding step using False by simp
    moreover have "P = (digits_value (ds @ [digit_char (unat ?d)]) * 10 ^ n + unat ?r) * 2 ^ s + unat p2"
      unfolding Suc.prems(2) using d9 by (subst split) (simp add: algebra_simps)
    moreover have "0 < n \<Longrightarrow> unat (pow10 div 10) = 10 ^ (n - 1)" by (cases n) (simp_all add: unat_div pow)
    moreover have "unat delta < unat ?r * 2 ^ s + unat p2" using False rest by (simp add: word_le_nat_alt)
    moreover have "digit_list (ds @ [digit_char (unat ?d)])" using ds d9 lead by (rule digit_list_snoc)
    ultimately show ?thesis
      using Suc.IH [of "ds @ [digit_char (unat ?d)]" ?r "pow10 div 10"] Suc.prems(1,3,5,10) rn by simp
  qed
qed auto

section \<open>The digits after the point\<close>

lemma fraction_digits_eq:
  assumes "dy_e one = - int s" and "dy_f one = push_bit s 1" and "s \<le> 60"
    and "P * 10 ^ m = digits_value ds * 2 ^ s + unat p2" and "unat p2 < 2 ^ s" and "digit_list ds"
    and "unat delta < unat p2" and "dist_w \<le> delta" and "unat delta = 10 ^ m * D" and "0 < D"
  shows "\<exists>buffer d m' delta' dist' p2'. fraction_digits one delta dist_w p2 ds m = Some (buffer @ [digit_char d], m', delta', dist', p2')
    \<and> d \<le> 9 \<and> digit_list buffer \<and> p2' \<le> delta' \<and> dist' \<le> delta' \<and> unat delta' = 10 ^ m' * D
    \<and> P * 10 ^ m' = (10 * digits_value buffer + d) * 2 ^ s + unat p2' \<and> unat delta' < d * 2 ^ s + unat p2'
    \<and> 10 ^ (Suc (length buffer) - 2) * D < P"
  using assms
proof (induction "2 ^ s - unat delta" arbitrary: delta dist_w p2 ds m rule: less_induct)
  case less
  have s60: "(2::nat) ^ s \<le> 2 ^ 60" using less.prems(3) by (intro power_increasing) simp_all
  have u10: "unat (p2 * 10) = unat p2 * 10" "unat (delta * 10) = unat delta * 10" "unat (dist_w * 10) = unat dist_w * 10"
    using s60 less.prems(5,7,8) by (simp_all add: unat_times_64 word_le_nat_alt)
  let ?d = "drop_bit s (p2 * 10)" and ?r = "(p2 * 10) AND (dy_f one - 1)"
  have d: "unat ?d = unat p2 * 10 div 2 ^ s" by (simp add: unat_drop_64 u10)
  have r: "unat ?r = unat p2 * 10 mod 2 ^ s"
  proof -
    have "?r = take_bit s (p2 * 10)" by (simp add: less.prems(2) take_bit_eq_mask mask_eq_exp_minus_1 push_bit_eq_mult)
    then have "unat ?r = take_bit s (unat (p2 * 10))" by (simp only: unsigned_take_bit_eq)
    then show ?thesis by (simp only: take_bit_eq_mod u10)
  qed
  have d9: "unat ?d \<le> 9"
  proof -
    have "unat p2 * 10 div 2 ^ s < 10" using less.prems(5) by (simp add: less_mult_imp_div_less)
    then show ?thesis by (simp add: d)
  qed
  have split: "unat p2 * 10 = unat ?d * 2 ^ s + unat ?r" unfolding d r by (rule div_mult_mod_eq [symmetric])
  have rs: "unat ?r < 2 ^ s" unfolding r by simp
  have P: "P * 10 ^ Suc m = (10 * digits_value ds + unat ?d) * 2 ^ s + unat ?r"
  proof -
    have "P * 10 ^ Suc m = 10 * digits_value ds * 2 ^ s + unat p2 * 10" using less.prems(4) by simp
    then show ?thesis unfolding split by (simp add: algebra_simps)
  qed
  have D: "unat (delta * 10) = 10 ^ Suc m * D" unfolding u10 less.prems(9) by simp
  have prev: "unat (delta * 10) < unat ?d * 2 ^ s + unat ?r" unfolding split [symmetric] u10 using less.prems(7) by simp
  have dd: "dist_w * 10 \<le> delta * 10" using less.prems(8) by (simp add: word_le_nat_alt u10)
  have c: "48 + ucast ?d = digit_char (unat ?d)" by (simp add: digit_char_def)
  have a: "p2 \<le> 0xFFFFFFFFFFFFFFFF div 10" using s60 less.prems(5) by (simp add: word_le_nat_alt unat_div)
  have step: "fraction_digits one delta dist_w p2 ds m =
     (if ?r \<le> delta * 10 then Some (ds @ [digit_char (unat ?d)], m + 1, delta * 10, dist_w * 10, ?r)
      else fraction_digits one (delta * 10) (dist_w * 10) ?r (ds @ [digit_char (unat ?d)]) (m + 1))"
    using d9 a less.prems(1)
    by (subst fraction_digits.simps) (simp add: Let_def json_assert_def word_le_nat_alt c)
  have need: "10 ^ (Suc (length ds) - 2) * unat delta < P * 10 ^ m"
    using digits_needed [OF _ less.prems(4,5,7)] less.prems(6) by blast
  then have need: "10 ^ (Suc (length ds) - 2) * D < P"
    unfolding less.prems(9) by (simp add: algebra_simps)
  show ?case
  proof (cases "?r \<le> delta * 10")
    case True
    with step d9 less.prems(6) dd D P prev need show ?thesis
      by (intro exI [of _ ds] exI [of _ "unat ?d"] exI [of _ "m + 1"] exI [of _ "delta * 10"] exI [of _ "dist_w * 10"]
          exI [of _ ?r]) simp
  next
    case False
    have "digit_list (ds @ [digit_char (unat ?d)])" using less.prems(6) d9 by (intro digit_list_snoc) (auto simp: digit_list_def)
    moreover have "2 ^ s - unat (delta * 10) < 2 ^ s - unat delta"
    proof (rule diff_less_mono2)
      have "0 < unat delta" unfolding less.prems(9) using less.prems(10) by simp
      then show "unat delta < unat (delta * 10)" unfolding u10 by simp
      show "unat delta < 2 ^ s" using less.prems(5,7) by simp
    qed
    moreover have "unat (delta * 10) < unat ?r" using False by (simp add: word_le_nat_alt)
    ultimately show ?thesis
      using less.hyps [of "delta * 10" "m + 1" "ds @ [digit_char (unat ?d)]" ?r "dist_w * 10"]
        less.prems(1-3,10) P rs dd D d9 step False by simp
  qed
qed

section \<open>All the digits\<close>

lemma find_largest_pow10_eq:
  assumes "0 < n" and "find_largest_pow10 n = (k, pow10)"
  shows "0 < k" and "unat pow10 = 10 ^ (k - 1)" and "10 ^ (k - 1) \<le> unat n" and "unat n < 10 ^ k"
proof -
  have "unat n < 2 ^ 32" using unsigned_less [of n] by simp
  then have b: "unat n < 4294967296" by simp
  have p: "0 < unat n" using assms(1) by (simp add: word_less_nat_alt)
  show "0 < k" "unat pow10 = 10 ^ (k - 1)" "10 ^ (k - 1) \<le> unat n" "unat n < 10 ^ k"
    using assms(2) b p by (auto simp: find_largest_pow10_def word_le_nat_alt split: if_splits)
qed

text \<open>
  The number between the boundaries: the digits \<open>buf\<close> and the exponent \<open>k\<close> stand for a multiple
  of the unit \<open>2 ^ - s\<close> of the boundaries.
\<close>

definition digits_between :: "nat \<Rightarrow> nat \<Rightarrow> nat \<Rightarrow> bytes \<Rightarrow> int \<Rightarrow> bool" where
  "digits_between P delta s buf k \<longleftrightarrow> digit_list buf \<and> 10 ^ (length buf - 2) * delta < P
     \<and> of_nat P - of_nat delta \<le> of_nat (digits_value buf) * 10 powi k * (2 ^ s :: rat)
     \<and> of_nat (digits_value buf) * 10 powi k * 2 ^ s \<le> (of_nat P :: rat)"

lemma digits_between_integral:
  assumes "digit_list buf" and "10 ^ (length buf - 2) * delta < P" and "digits_value buf * (10 ^ k * 2 ^ s) \<le> P"
    and "P \<le> digits_value buf * (10 ^ k * 2 ^ s) + delta"
  shows "digits_between P delta s buf (int k)"
proof -
  have "(of_nat (digits_value buf * (10 ^ k * 2 ^ s)) :: rat) \<le> of_nat P"
    "(of_nat P :: rat) \<le> of_nat (digits_value buf * (10 ^ k * 2 ^ s) + delta)"
    using assms(3,4) by (simp_all only: of_nat_le_iff)
  with assms(1,2) show ?thesis by (simp add: digits_between_def mult.assoc)
qed

lemma digits_between_fraction:
  assumes "digit_list buf" and "10 ^ (length buf - 2) * delta < P" and "digits_value buf * 2 ^ s \<le> P * 10 ^ m"
    and "P * 10 ^ m \<le> digits_value buf * 2 ^ s + 10 ^ m * delta"
  shows "digits_between P delta s buf (- int m)"
proof -
  let ?V = "of_nat (digits_value buf) * 10 powi (- int m) * 2 ^ s :: rat"
  have V: "?V = of_nat (digits_value buf) * 2 ^ s / 10 ^ m" by (simp add: power_int_minus divide_inverse)
  have "(of_nat (digits_value buf * 2 ^ s) :: rat) \<le> of_nat (P * 10 ^ m)"
    "(of_nat (P * 10 ^ m) :: rat) \<le> of_nat (digits_value buf * 2 ^ s + 10 ^ m * delta)"
    using assms(3,4) by (simp_all only: of_nat_le_iff)
  then have "?V \<le> of_nat P" "of_nat P - of_nat delta \<le> ?V"
    unfolding V by (simp_all add: pos_divide_le_eq pos_le_divide_eq left_diff_distrib mult.commute)
  with assms(1,2) show ?thesis by (simp add: digits_between_def)
qed

lemma grisu2_digit_gen_eq:
  assumes e: "dy_e M_plus = - int s" "dy_e M_minus = - int s" "dy_e w = - int s" "32 \<le> s" "s \<le> 60"
    and f: "dy_f M_minus \<le> dy_f w" "dy_f w \<le> dy_f M_plus" "0 < dy_f M_minus" "dy_f M_minus < dy_f M_plus"
      "2 ^ s \<le> unat (dy_f M_plus)"
  obtains buf k where "grisu2_digit_gen [] de M_minus w M_plus = Some (buf, de + k)"
    and "digits_between (unat (dy_f M_plus)) (unat (dy_f M_plus) - unat (dy_f M_minus)) s buf k"
proof -
  define P where "P = unat (dy_f M_plus)"
  define delta where "delta = dy_f M_plus - dy_f M_minus"
  define dist_w where "dist_w = dy_f M_plus - dy_f w"
  define one where "one = diyfp_of (push_bit s 1) (- int s)"
  define p1 :: u32 where "p1 = ucast (drop_bit s (dy_f M_plus))"
  define p2 where "p2 = dy_f M_plus AND (dy_f one - 1)"
  have delta: "unat delta = P - unat (dy_f M_minus)" "0 < unat delta" "unat delta < P"
    using f by (simp_all add: delta_def P_def unat_minus_64 word_less_nat_alt)
  have dist: "dist_w \<le> delta" using f by (simp add: dist_w_def delta_def word_le_nat_alt unat_minus_64)
  have P64: "P < 2 ^ 64" by (simp add: P_def)
  have "P div 2 ^ s < 2 ^ 32"
  proof -
    have "(2::nat) ^ 64 \<le> 2 ^ 32 * 2 ^ s" unfolding power_add [symmetric] using e(4) by (intro power_increasing) simp_all
    with P64 have "P < 2 ^ 32 * 2 ^ s" by linarith
    then show ?thesis by (simp add: less_mult_imp_div_less)
  qed
  then have p1: "unat p1 = P div 2 ^ s"
    by (simp add: p1_def unsigned_ucast_eq take_bit_eq_mod unat_drop_64 P_def)
  have p2: "unat p2 = P mod 2 ^ s"
  proof -
    have "p2 = take_bit s (dy_f M_plus)"
      by (simp add: p2_def one_def take_bit_eq_mask mask_eq_exp_minus_1 push_bit_eq_mult)
    then have "unat p2 = take_bit s P" by (simp only: unsigned_take_bit_eq P_def)
    then show ?thesis by (simp only: take_bit_eq_mod)
  qed
  have "0 < unat p1" unfolding p1 using f(5) by (simp add: P_def div_greater_zero_iff)
  then have p1_pos: "0 < p1" by (simp add: word_less_nat_alt)
  obtain n pow10 where find: "find_largest_pow10 p1 = (n, pow10)" by (cases "find_largest_pow10 p1")
  note find' = find_largest_pow10_eq [OF p1_pos find]
  have split: "P = (digits_value [] * 10 ^ n + unat p1) * 2 ^ s + unat p2"
    unfolding p1 p2 by (simp add: div_mult_mod_eq)
  have gen: "grisu2_digit_gen [] de M_minus w M_plus = do {
      r \<leftarrow> integral_digits one delta dist_w p2 de n [] p1 pow10;
      (case r of
         Inl result \<Rightarrow> Some result
       | Inr buffer \<Rightarrow> do {
           json_assert (p2 > delta);
           (buffer, m, delta, dist_w, p2) \<leftarrow> fraction_digits one delta dist_w p2 buffer 0;
           buf \<leftarrow> grisu2_round buffer dist_w delta p2 (dy_f one);
           Some (buf, de - int m)
         })
    }"
  proof -
    have sub: "diyfp_sub M_plus M_minus = Some (diyfp_of delta (- int s))"
      "diyfp_sub M_plus w = Some (diyfp_of dist_w (- int s))"
      using e f by (simp_all add: diyfp_sub_def json_assert_def delta_def dist_w_def)
    have one: "diyfp_of (push_bit (nat (- dy_e M_plus)) 1) (dy_e M_plus) = one" by (simp only: one_def e) simp
    have conds: "(dy_e M_plus \<ge> kAlpha) = True" "(dy_e M_plus \<le> kGamma) = True" "(p1 > 0) = True"
      using e p1_pos by (simp_all add: kAlpha_def kGamma_def)
    have p1: "ucast (drop_bit (nat (- dy_e one)) (dy_f M_plus)) = p1" by (simp add: p1_def one_def)
    show ?thesis
      unfolding grisu2_digit_gen_def json_assert_bind sub Let_def one Option.bind.simps diyfp.select_convs
        p2_def [symmetric] p1 conds if_True find prod.case ..
  qed
  have one: "dy_e one = - int s" "dy_f one = push_bit s 1" by (simp_all add: one_def)
  have p2s: "unat p2 < 2 ^ s" unfolding p2 by simp
  have first: "unat delta < unat p1 * 2 ^ s + unat p2" using delta(3) split by simp
  from integral_digits_eq [OF one(1) split P64 find'(4) p2s find'(2) _ _ first dist, of de] find'(1,3)
  consider k buf where "integral_digits one delta dist_w p2 de n [] p1 pow10 = Some (Inl (buf, de + int k))"
      "digit_list buf" "10 ^ (length buf - 2) * unat delta < P" "digits_value buf * (10 ^ k * 2 ^ s) \<le> P"
      "P \<le> digits_value buf * (10 ^ k * 2 ^ s) + unat delta"
    | buf where "integral_digits one delta dist_w p2 de n [] p1 pow10 = Some (Inr buf)" "digit_list buf"
      "P = digits_value buf * 2 ^ s + unat p2" "unat delta < unat p2"
    by blast
  then show ?thesis
  proof cases
    case (1 k buf)
    then show ?thesis
      using that [of buf "int k"] digits_between_integral [OF 1(2-5)] by (simp add: gen delta(1) P_def)
  next
    case (2 ds)
    then have "P * 10 ^ 0 = digits_value ds * 2 ^ s + unat p2" "unat delta = 10 ^ 0 * unat delta" by simp_all
    from fraction_digits_eq [OF one e(5) this(1) p2s 2(2,4) dist this(2) delta(2)]
    obtain buffer d m delta' dist' p2' where fd: "fraction_digits one delta dist_w p2 ds 0 = Some (buffer @ [digit_char d], m, delta', dist', p2')"
      "d \<le> 9" "digit_list buffer" "p2' \<le> delta'" "dist' \<le> delta'" "unat delta' = 10 ^ m * unat delta"
      "P * 10 ^ m = (10 * digits_value buffer + d) * 2 ^ s + unat p2'" "unat delta' < d * 2 ^ s + unat p2'"
      "10 ^ (Suc (length buffer) - 2) * unat delta < P" by blast
    have u: "unat (dy_f one) = 2 ^ s"
    proof -
      have "(2::nat) ^ s \<le> 2 ^ 60" using e(5) by (intro power_increasing) simp_all
      then show ?thesis using unat_push_64 [of 1 s] by (simp add: one)
    qed
    then have pos: "0 < dy_f one" by (simp add: word_less_nat_alt)
    from round_between [OF _ fd(2,4) pos fd(5), of buffer "P * 10 ^ m"] fd(3,7,8)
    obtain buf where buf: "grisu2_round (buffer @ [digit_char d]) dist' delta' p2' (dy_f one) = Some buf" "digit_list buf"
      "length buf = Suc (length buffer)" "digits_value buf * 2 ^ s \<le> P * 10 ^ m"
      "P * 10 ^ m \<le> digits_value buf * 2 ^ s + unat delta'"
      unfolding u by blast
    have "delta < p2" using 2(4) by (simp add: word_less_nat_alt)
    then have "grisu2_digit_gen [] de M_minus w M_plus = Some (buf, de + - int m)"
      by (simp add: gen 2(1) fd(1) buf(1) json_assert_def)
    moreover have "digits_between P (unat delta) s buf (- int m)"
      using digits_between_fraction [OF buf(2) _ buf(4), of "unat delta"] buf(3,5) fd(6,9) by simp
    ultimately show ?thesis using that [of buf "- int m"] by (simp add: delta(1) P_def)
  qed
qed

end
