(* ===== verification/Dtoa_Grisu.thy ===== *)
theory Dtoa_Grisu
  imports Double_Spec Dtoa_Powers Dtoa_Digits
begin

text \<open>
  Grisu2 is right: it ends on every positive finite double, no assertion fails, and its at most
  17 digits stand for a number that rounds to the double. The scaled middles are off by less
  than one unit, so the boundaries, which are moved inwards by one, lie between the middles.
\<close>

section \<open>The error of the product\<close>

lemma rounded_quotient:
  fixes n b :: nat
  assumes "even b" and "0 < b"
  shows "\<bar>of_nat ((n + b div 2) div b) - of_nat n / of_nat b\<bar> \<le> (1 / 2 :: rat)"
proof -
  define h where "h = b div 2"
  have b: "b = 2 * h" using assms(1) by (simp add: h_def)
  define q r where "q = (n + h) div b" and "r = (n + h) mod b"
  have "q * b + r = n + h" "r < b" using assms(2) by (simp_all add: q_def r_def)
  then have "(of_nat (q * b + r) :: rat) = of_nat (n + h)" "(of_nat r :: rat) < of_nat b" by (simp_all only: of_nat_less_iff)
  then have e: "of_nat n = of_nat q * of_nat b + of_nat r - (of_nat h :: rat)" "(of_nat r :: rat) < of_nat b" by simp_all
  have hb: "(of_nat h :: rat) = of_nat b / 2" "0 < (of_nat b :: rat)" using assms(2) by (simp_all add: b)
  have "of_nat q - of_nat n / of_nat b = (of_nat h - of_nat r) / (of_nat b :: rat)"
    using hb(2) by (simp add: e field_simps)
  moreover have "\<bar>(of_nat h - of_nat r) / (of_nat b :: rat)\<bar> \<le> 1 / 2"
  proof -
    have "\<bar>of_nat h - of_nat r\<bar> \<le> (of_nat b / 2 :: rat)"
      unfolding abs_le_iff using hb(1) e(2) of_nat_0_le_iff [of r, where 'a = rat] by (intro conjI) linarith+
    then show ?thesis using hb(2) by (simp add: abs_divide pos_divide_le_eq)
  qed
  ultimately show ?thesis by (simp add: q_def h_def)
qed

text \<open>A product with a cached power \<open>f\<close>, and with the power of ten \<open>t\<close> that it stands for.\<close>

lemma product_error:
  "\<bar>of_nat (unat (dy_f (diyfp_mul (diyfp_of y e) (diyfp_of f ce)))) - of_nat (unat y) * (of_nat (unat f) / 2 ^ 64)\<bar> \<le> (1 / 2 :: rat)"
  using rounded_quotient [of "2 ^ 64" "unat y * unat f"] by (simp add: diyfp_mul_f)

lemma scaled_error:
  assumes "\<bar>of_nat (unat f) - t\<bar> \<le> (1 / 2 :: rat)"
  shows "\<bar>of_nat (unat (dy_f (diyfp_mul (diyfp_of y e) (diyfp_of f ce)))) - of_nat (unat y) * (t / 2 ^ 64)\<bar> < 1"
proof -
  have y: "of_nat (unat y) / 2 ^ 64 < (1 :: rat)"
  proof -
    have "(of_nat (unat y) :: rat) < of_nat 18446744073709551616" using unat_less_64 [of y] by (simp only: of_nat_less_iff)
    then show ?thesis by simp
  qed
  have "of_nat (unat y) * (of_nat (unat f) / 2 ^ 64) - of_nat (unat y) * (t / 2 ^ 64)
      = of_nat (unat y) / 2 ^ 64 * (of_nat (unat f) - t)"
    by (simp only: times_divide_eq_right times_divide_eq_left right_diff_distrib diff_divide_distrib)
  then have "\<bar>of_nat (unat y) * (of_nat (unat f) / 2 ^ 64) - of_nat (unat y) * (t / 2 ^ 64)\<bar>
      = of_nat (unat y) / 2 ^ 64 * \<bar>of_nat (unat f) - t\<bar>"
    using divide_nonneg_pos [of "of_nat (unat y) :: rat" "2 ^ 64"] by (simp only: abs_mult abs_of_nonneg of_nat_0_le_iff zero_less_power zero_less_numeral)
  also have "\<dots> \<le> of_nat (unat y) / 2 ^ 64 * (1 / 2)" by (intro mult_left_mono assms divide_nonneg_nonneg of_nat_0_le_iff) simp
  also have "\<dots> < 1 / 2" using y by simp
  finally show ?thesis using product_error [of y e f ce] by linarith
qed

section \<open>The boundaries of a double\<close>

lemma middle_gaps:
  assumes "n \<noteq> 0" and "10 \<le> d"
  shows "2 * significand n * 2 ^ d + 1024 \<le> upper_middle n d"
    and "lower_middle n d + 512 \<le> 2 * significand n * 2 ^ d"
    and "0 < lower_middle n d"
proof -
  note m = significand_bounds [OF assms(1)]
  have d: "(1024::nat) \<le> 2 ^ d" using power_increasing [OF assms(2), of "2::nat"] by simp
  then show "2 * significand n * 2 ^ d + 1024 \<le> upper_middle n d" by (simp add: upper_middle_def)
  have "lower_middle n d + 512 \<le> 2 * significand n * 2 ^ d \<and> 0 < lower_middle n d"
  proof (cases "closer_below n")
    case True
    obtain c where c: "d = Suc c" using assms(2) by (cases d) auto
    have "(4 * significand n - 1) * 2 ^ c + 2 ^ c = 4 * significand n * 2 ^ c"
      using m by (simp add: diff_mult_distrib)
    with True d m show ?thesis by (simp add: lower_middle_def c)
  next
    case False
    have "(2 * significand n - 1) * 2 ^ d + 2 ^ d = 2 * significand n * 2 ^ d"
      using m by (simp add: diff_mult_distrib)
    with False d m show ?thesis by (simp add: lower_middle_def)
  qed
  then show "lower_middle n d + 512 \<le> 2 * significand n * 2 ^ d" "0 < lower_middle n d" by auto
qed

text \<open>
  The distance of the middles determines how many digits are needed: \<open>c\<close> is the factor by which
  the significands are scaled.
\<close>

lemma seventeen_digits:
  fixes c :: rat
  assumes "n \<noteq> 0" and "10 \<le> d" and "1 / 2 \<le> c"
  shows "of_nat (upper_middle n d) * c \<le> 10 ^ 16 * ((of_nat (upper_middle n d) - of_nat (lower_middle n d)) * c - 3)"
proof -
  note m = significand_bounds [OF assms(1)]
  define u where "u = 2 ^ d * c"
  have u: "512 \<le> u"
  proof -
    have "(1024::rat) \<le> 2 ^ d" using power_increasing [OF assms(2), of "2::rat"] by simp
    then have "1024 * (1 / 2) \<le> 2 ^ d * c" using assms(3) by (intro mult_mono) simp_all
    then show ?thesis by (simp add: u_def)
  qed
  have upper: "of_nat (upper_middle n d) * c = (2 * of_nat (significand n) + 1) * u"
    by (simp add: upper_middle_def u_def algebra_simps)
  show ?thesis
  proof (cases "closer_below n")
    case True
    obtain k where k: "d = Suc k" using assms(2) by (cases d) auto
    have s: "significand n = 2 ^ 52" using True by (simp add: closer_below_def significand_def)
    have "lower_middle n d * 2 = (4 * significand n - 1) * 2 ^ d" using True by (simp add: lower_middle_def k)
    then have "(of_nat (lower_middle n d * 2) :: rat) = of_nat ((4 * significand n - 1) * 2 ^ d)" by (simp only:)
    then have "of_nat (lower_middle n d) * c = (4 * of_nat (significand n) - 1) / 2 * u"
      using m by (simp add: u_def of_nat_diff s)
    then show ?thesis unfolding left_diff_distrib upper using u by (simp add: s)
  next
    case False
    have "of_nat (lower_middle n d) * c = (2 * of_nat (significand n) - 1) * u"
      using False m by (simp add: lower_middle_def u_def of_nat_diff)
    then have diff: "(of_nat (upper_middle n d) - of_nat (lower_middle n d)) * c = 2 * u"
      unfolding left_diff_distrib upper by (simp add: algebra_simps)
    have "(of_nat (2 * significand n + 1) :: rat) \<le> of_nat (2 ^ 54)" using m(2) by (simp only: of_nat_le_iff) simp
    then have "(2 * of_nat (significand n) + 1) * u \<le> 2 ^ 54 * u" using u by (intro mult_right_mono) simp_all
    also have "\<dots> \<le> 10 ^ 16 * (2 * u - 3)" using u by simp
    finally show ?thesis unfolding diff upper .
  qed
qed

section \<open>The digits of a double\<close>

text \<open>Rounding to an integer a product with a factor of at least a half keeps distances.\<close>

lemma product_gap:
  assumes "2 ^ 63 \<le> unat f" and "unat y + g \<le> unat z"
  shows "of_nat (unat (dy_f (diyfp_mul (diyfp_of y e) (diyfp_of f ce)))) + of_nat g / 2 - (1 :: rat)
    \<le> of_nat (unat (dy_f (diyfp_mul (diyfp_of z e) (diyfp_of f ce))))"
proof -
  define c where "c = (of_nat (unat f) / 2 ^ 64 :: rat)"
  have "(of_nat (2 ^ 63) :: rat) \<le> of_nat (unat f)" using assms(1) by (simp only: of_nat_le_iff)
  then have c: "1 / 2 \<le> c" by (simp add: c_def)
  have "(of_nat (unat y + g) :: rat) \<le> of_nat (unat z)" using assms(2) by (simp only: of_nat_le_iff)
  then have "of_nat (unat y + g) * c \<le> of_nat (unat z) * c" using c by (intro mult_right_mono) simp_all
  moreover have "of_nat g * (1 / 2) \<le> of_nat g * c" using c by (intro mult_left_mono) simp_all
  ultimately have "of_nat (unat y) * c + of_nat g / 2 \<le> of_nat (unat z) * c" by (simp add: distrib_right)
  with product_error [of y e f ce] product_error [of z e f ce] show ?thesis
    unfolding c_def [symmetric] abs_le_iff by linarith
qed

lemma too_close:
  fixes p m a b :: rat
  assumes "10 ^ 16 * (p - m - 2) < p - 1" and "a \<le> 10 ^ 16 * (a - b - 3)" and "p - a \<le> 1 / 2" and "- (p - a) \<le> 1 / 2"
    and "m - b \<le> 1 / 2" and "- (m - b) \<le> 1 / 2"
  shows False
  using assms by simp

lemma shift_quotient:
  fixes a b c d e g :: rat
  shows "d * (a * b) * inverse (e * (c * g)) = d * a * (b / c / g) / e"
  by (simp add: divide_inverse mult_ac)

lemma grisu2_scaled_eq:
  assumes d: "10 \<le> d" and n: "n \<noteq> 0" "finite_magnitude n" "d \<le> 62"
    and u: "unat w = 2 * significand n * 2 ^ d" "unat m_minus = lower_middle n d" "unat m_plus = upper_middle n d"
    and w: "2 ^ 63 \<le> unat w"
  defines "E \<equiv> scaled_exponent n d"
  obtains buf k where "grisu2_scaled (diyfp_of m_minus E) (diyfp_of w E) (diyfp_of m_plus E) = Some (buf, k)"
    and "digit_list buf" and "length buf \<le> 17"
    and "of_nat (lower_middle n d) * 2 powi E < (of_nat (digits_value buf) * 10 powi k :: rat)"
    and "of_nat (digits_value buf) * 10 powi k < (of_nat (upper_middle n d) * 2 powi E :: rat)"
proof -
  note gaps = middle_gaps [OF n(1) d]
  have E: "- 1137 \<le> E" "E \<le> 960" using exponent_bounds [OF n(2)] d n(3) by (simp_all add: E_def scaled_exponent_def)
  obtain f ce K where c: "get_cached_power_for_binary_exponent E = Some \<lparr>cp_f = f, cp_e = ce, cp_k = K\<rparr>"
    "2 ^ 63 \<le> unat f" "- 60 \<le> ce + E + 64" "ce + E + 64 \<le> - 32"
    "\<bar>of_nat (unat f) * 2 powi ce - 10 powi K\<bar> \<le> (2 powi ce / 2 :: rat)"
    using get_cached_power [OF E] by blast
  define s where "s = nat (- (ce + E + 64))"
  have s: "int s = - (ce + E + 64)" "32 \<le> s" "s \<le> 60" using c(3,4) by (simp_all add: s_def)
  define t where "t = (10 powi K / 2 powi ce :: rat)"
  have t: "\<bar>of_nat (unat f) - t\<bar> \<le> 1 / 2"
  proof -
    have "of_nat (unat f) - t = (of_nat (unat f) * 2 powi ce - 10 powi K) / 2 powi ce" by (simp add: t_def diff_divide_distrib)
    then have "\<bar>of_nat (unat f) - t\<bar> = \<bar>of_nat (unat f) * 2 powi ce - 10 powi K\<bar> / 2 powi ce"
      by (simp only: abs_divide) simp
    also have "\<dots> \<le> (2 powi ce / 2) / 2 powi ce" by (intro divide_right_mono c(5)) simp
    finally show ?thesis by simp
  qed
  define P where "P y = unat (dy_f (diyfp_mul (diyfp_of y E) (diyfp_of f ce)))" for y
  have err: "\<bar>of_nat (P y) - of_nat (unat y) * (t / 2 ^ 64)\<bar> < 1" for y
    unfolding P_def by (rule scaled_error [OF t])
  have gap: "of_nat (P y) + of_nat g / 2 - (1 :: rat) \<le> of_nat (P z)" if "unat y + g \<le> unat z" for y z g
    unfolding P_def by (rule product_gap [OF c(2) that])
  have "(of_nat (P w + 511) :: rat) \<le> of_nat (P m_plus)" "(of_nat (P m_minus + 255) :: rat) \<le> of_nat (P w)"
      "(of_nat (P 0 + 2 ^ 62 - 1) :: rat) \<le> of_nat (P w)"
    using gap [of w 1024 m_plus] gap [of m_minus 512 w] gap [of 0 "2 ^ 63" w] gaps u w by (simp_all add: of_nat_diff)
  then have order: "P w + 511 \<le> P m_plus" "P m_minus + 255 \<le> P w" "2 ^ 62 \<le> P w + 1" by (simp_all only: of_nat_le_iff)
  have P64: "P y < 2 ^ 64" for y unfolding P_def by simp
  define M_minus where "M_minus = diyfp_of (dy_f (diyfp_mul (diyfp_of m_minus E) (diyfp_of f ce)) + 1) (E + ce + 64)"
  define W where "W = diyfp_mul (diyfp_of w E) (diyfp_of f ce)"
  define M_plus where "M_plus = diyfp_of (dy_f (diyfp_mul (diyfp_of m_plus E) (diyfp_of f ce)) - 1) (E + ce + 64)"
  have M: "unat (dy_f M_minus) = P m_minus + 1" "unat (dy_f W) = P w" "unat (dy_f M_plus) = P m_plus - 1"
  proof -
    have plus: "unat (z + 1) = unat z + 1" if "unat z + 255 \<le> unat z'" for z z' :: u64
    proof -
      have "unat z + 1 < 18446744073709551616" using that unat_less_64 [of z'] by linarith
      then show ?thesis by (simp add: unat_plus_64)
    qed
    have minus: "unat (z - 1) = unat z - 1" if "unat z' + 511 \<le> unat z" for z z' :: u64
      using that unat_minus_64 [of 1 z] by (simp add: word_le_nat_alt)
    show "unat (dy_f M_minus) = P m_minus + 1" "unat (dy_f W) = P w" "unat (dy_f M_plus) = P m_plus - 1"
      using plus [OF order(2) [unfolded P_def]] minus [OF order(1) [unfolded P_def]]
      by (simp_all add: M_minus_def W_def M_plus_def P_def)
  qed
  have exps: "dy_e M_plus = - int s" "dy_e M_minus = - int s" "dy_e W = - int s"
    by (simp_all add: M_plus_def M_minus_def W_def s(1))
  have "(2::nat) ^ s \<le> 2 ^ 60" using s(3) by (intro power_increasing) simp_all
  then have fs: "dy_f M_minus \<le> dy_f W" "dy_f W \<le> dy_f M_plus" "0 < dy_f M_minus" "dy_f M_minus < dy_f M_plus"
    "2 ^ s \<le> unat (dy_f M_plus)"
    using order by (simp_all add: word_le_nat_alt word_less_nat_alt M)
  obtain buf k where gen: "grisu2_digit_gen [] (- K) M_minus W M_plus = Some (buf, - K + k)"
    and between: "digits_between (P m_plus - 1) (P m_plus - 1 - (P m_minus + 1)) s buf k"
    using grisu2_digit_gen_eq [OF exps s(2,3) fs, of "- K"] unfolding M by blast
  have run: "grisu2_scaled (diyfp_of m_minus E) (diyfp_of w E) (diyfp_of m_plus E) = Some (buf, - K + k)"
    using gen by (simp add: grisu2_scaled_def json_assert_def c(1) Let_def M_minus_def W_def M_plus_def)
  define c where "c = (of_nat (unat f) / 2 ^ 64 :: rat)"
  have c2: "1 / 2 \<le> c"
  proof -
    have "(of_nat (2 ^ 63) :: rat) \<le> of_nat (unat f)" using c(2) by (simp only: of_nat_le_iff)
    then show ?thesis by (simp add: c_def)
  qed
  have perr: "\<bar>of_nat (P y) - of_nat (unat y) * c\<bar> \<le> 1 / 2" for y
    unfolding P_def c_def by (rule product_error)
  have delta: "(of_nat (P m_plus - 1) :: rat) = of_nat (P m_plus) - 1"
    "(of_nat (P m_plus - 1 - (P m_minus + 1)) :: rat) = of_nat (P m_plus) - of_nat (P m_minus) - 2"
    using order by (simp_all add: of_nat_diff)
  have "length buf \<le> 17"
  proof (rule ccontr)
    assume "\<not> length buf \<le> 17"
    then have "10 ^ 16 * (P m_plus - 1 - (P m_minus + 1)) \<le> 10 ^ (length buf - 2) * (P m_plus - 1 - (P m_minus + 1))"
      by (intro mult_right_mono power_increasing) simp_all
    also have "\<dots> < P m_plus - 1" using between by (simp add: digits_between_def)
    finally have "(of_nat (10 ^ 16 * (P m_plus - 1 - (P m_minus + 1))) :: rat) < of_nat (P m_plus - 1)"
      by (simp only: of_nat_less_iff)
    then have "10 ^ 16 * (of_nat (P m_plus) - of_nat (P m_minus) - 2) < (of_nat (P m_plus) - 1 :: rat)"
      by (simp only: of_nat_mult delta) simp
    moreover have "of_nat (upper_middle n d) * c \<le> 10 ^ 16 * ((of_nat (upper_middle n d) - of_nat (lower_middle n d)) * c - 3)"
      by (rule seventeen_digits [OF n(1) d c2])
    ultimately show False
      using abs_le_D1 [OF perr [of m_plus]] abs_le_D2 [OF perr [of m_plus]] abs_le_D1 [OF perr [of m_minus]]
        abs_le_D2 [OF perr [of m_minus]]
      unfolding u left_diff_distrib by (rule too_close)
  qed
  define q where "q = (of_nat (digits_value buf) * 10 powi (- K + k) :: rat)"
  define V where "V = (of_nat (digits_value buf) * 10 powi k * 2 ^ s :: rat)"
  have tens: "(10::rat) powi k = 10 powi (- K + k) * 10 powi K" by (subst power_int_add [symmetric]) simp_all
  have "(2::rat) ^ s * (2 powi E * 2 powi (ce + 64)) = 1"
  proof -
    have "(2::rat) ^ s * (2 powi E * 2 powi (ce + 64)) = 2 powi (int s + (E + (ce + 64)))" by (simp add: power_int_add)
    then show ?thesis by (simp add: s(1))
  qed
  then have twos: "(2::rat) ^ s = inverse (2 powi E * 2 powi (ce + 64))" by (simp add: inverse_eq_divide nonzero_eq_divide_eq)
  have "(2::rat) powi (ce + 64) = 2 powi ce * 2 ^ 64" by (subst power_int_add) simp_all
  then have V: "V = q * (t / 2 ^ 64) / 2 powi E"
    unfolding V_def q_def t_def tens twos by (simp only: shift_quotient)
  have pos: "0 < t / 2 ^ 64" "0 < (2::rat) powi E" by (simp_all add: t_def zero_less_power_int)
  have "of_nat (P m_minus) + 1 \<le> V" "V \<le> of_nat (P m_plus) - 1"
    using between unfolding digits_between_def V_def [symmetric] delta by simp_all
  then have "of_nat (lower_middle n d) * (t / 2 ^ 64) < V" "V < of_nat (upper_middle n d) * (t / 2 ^ 64)"
    using err [of m_minus] err [of m_plus] unfolding u abs_less_iff by linarith+
  then have "(of_nat (lower_middle n d) * 2 powi E) * (t / 2 ^ 64) < q * (t / 2 ^ 64)"
    "q * (t / 2 ^ 64) < (of_nat (upper_middle n d) * 2 powi E) * (t / 2 ^ 64)"
    unfolding V pos_less_divide_eq [OF pos(2)] pos_divide_less_eq [OF pos(2)] by (simp_all only: mult_ac)
  then have "of_nat (lower_middle n d) * 2 powi E < q" "q < of_nat (upper_middle n d) * 2 powi E"
    by (simp_all only: mult_less_cancel_right_pos [OF pos(1)])
  then show ?thesis
    using that [of buf "- K + k"] run \<open>length buf \<le> 17\<close> between by (simp add: q_def digits_between_def)
qed

lemma grisu2_eq:
  assumes "double_is_finite x" and "is_positive x"
  obtains buf k where "grisu2 x = Some (buf, k)" and "digit_list buf" and "length buf \<le> 17"
    and "rounds_to (of_nat (digits_value buf) * 10 powi k) (unat x)"
    and "2 powi (- 1137) < (of_nat (digits_value buf) * 10 powi k :: rat)"
    and "of_nat (digits_value buf) * 10 powi k < (2 ^ 1024 :: rat)"
proof -
  let ?n = "unat x"
  note n = positive_double [OF assms]
  obtain d w m_minus m_plus where d: "10 \<le> d" "d \<le> 62"
    and run: "compute_boundaries x = Some \<lparr>bd_w = diyfp_of w (scaled_exponent ?n d),
        bd_minus = diyfp_of m_minus (scaled_exponent ?n d), bd_plus = diyfp_of m_plus (scaled_exponent ?n d)\<rparr>"
    and u: "unat w = 2 * significand ?n * 2 ^ d" "unat m_minus = lower_middle ?n d" "unat m_plus = upper_middle ?n d"
      "2 ^ 63 \<le> unat w" "unat m_plus < 2 ^ 64"
    using compute_boundaries_eq [OF assms] by blast
  let ?E = "scaled_exponent ?n d"
  obtain buf k where b: "grisu2_scaled (diyfp_of m_minus ?E) (diyfp_of w ?E) (diyfp_of m_plus ?E) = Some (buf, k)"
      "digit_list buf" "length buf \<le> 17"
      "of_nat (lower_middle ?n d) * 2 powi ?E < (of_nat (digits_value buf) * 10 powi k :: rat)"
      "of_nat (digits_value buf) * 10 powi k < (of_nat (upper_middle ?n d) * 2 powi ?E :: rat)"
    using grisu2_scaled_eq [OF d(1) n d(2) u(1-4)] by blast
  have E: "- 1137 \<le> ?E" "?E \<le> 960" using exponent_bounds [OF n(2)] d by (simp_all add: scaled_exponent_def)
  have "rounds_to (of_nat (digits_value buf) * 10 powi k) ?n"
    using d(1) by (intro rounds_toI [OF n(1) _ b(4,5)]) simp
  moreover have "2 powi (- 1137) < (of_nat (digits_value buf) * 10 powi k :: rat)"
  proof -
    have "(1::rat) \<le> of_nat (lower_middle ?n d)" using middle_gaps(3) [OF n(1) d(1)] by simp
    then have "1 * 2 powi (- 1137) \<le> of_nat (lower_middle ?n d) * (2 powi ?E :: rat)"
      using E(1) by (intro mult_mono power_int_increasing) (simp_all add: zero_le_power_int)
    with b(4) show ?thesis by linarith
  qed
  moreover have "of_nat (digits_value buf) * 10 powi k < (2 ^ 1024 :: rat)"
  proof -
    have "(of_nat (upper_middle ?n d) :: rat) \<le> of_nat (2 ^ 64)" using u(3,5) by (simp only: of_nat_le_iff)
    moreover have "(2::rat) powi ?E \<le> 2 powi 960" using E(2) by (intro power_int_increasing) simp_all
    ultimately have "of_nat (upper_middle ?n d) * (2 powi ?E :: rat) \<le> 2 ^ 64 * 2 ^ 960"
      by (intro mult_mono) (simp_all add: zero_le_power_int)
    also have "\<dots> = 2 ^ 1024" by (simp flip: power_add)
    finally show ?thesis using b(5) by linarith
  qed
  moreover have "grisu2 x = Some (buf, k)"
    using assms b(1) run by (simp add: grisu2_def json_assert_def)
  ultimately show ?thesis using that b(2,3) by blast
qed

end
