(* ===== verification/Decimal_Text.thy ===== *)
theory Decimal_Text
  imports Dtoa_Grisu Json_Grammar
begin

text \<open>
  The rational number that a decimal text stands for, what \<open>strtod\<close> does with it, and the texts
  that \<open>format_buffer\<close> makes of digits and an exponent: they are floating point numbers of JSON
  with the value of the digits.
\<close>

section \<open>Decimal texts\<close>

definition exponent_text_value :: "bytes \<Rightarrow> int" where
  "exponent_text_value t = (case t of
       [] \<Rightarrow> 0
     | c # ds \<Rightarrow> if c = 0x2D then - int (digits_value ds)
         else if c = 0x2B then int (digits_value ds)
         else int (digits_value t))"

text \<open>Digits, perhaps a point and digits, perhaps \<open>e\<close> and an exponent.\<close>

definition unsigned_decimal :: "bytes \<Rightarrow> rat" where
  "unsigned_decimal t =
     (let m = takeWhile (\<lambda>b. b \<noteq> 0x65 \<and> b \<noteq> 0x45) t;
          x = drop (Suc (length m)) t;
          i = takeWhile (\<lambda>b. b \<noteq> 0x2E) m;
          f = drop (Suc (length i)) m
      in of_nat (digits_value (i @ f)) * 10 powi (exponent_text_value x - int (length f)))"

definition has_minus :: "bytes \<Rightarrow> bool" where
  "has_minus t \<longleftrightarrow> t \<noteq> [] \<and> hd t = 0x2D"

definition decimal_magnitude :: "bytes \<Rightarrow> rat" where
  "decimal_magnitude t = unsigned_decimal (if has_minus t then tl t else t)"

text \<open>
  \<open>strtod\<close> rounds to the nearest double: of a number that is nearer to a finite double than to
  any other it returns this one, with the sign of the text.
\<close>

definition strtod_rounds :: "json_env \<Rightarrow> bool" where
  "strtod_rounds F \<longleftrightarrow> (\<forall>t n. number_type t \<noteq> None \<longrightarrow> finite_magnitude n \<longrightarrow> rounds_to (decimal_magnitude t) n
     \<longrightarrow> strtod F t = (if has_minus t then of_nat n OR push_bit 63 1 else of_nat n))"

section \<open>The automaton of the numbers\<close>

lemma digit_is_digit: "digit (uint b) \<longleftrightarrow> is_digit b"
  by (simp add: digit_def is_digit_def word_le_def)

lemma number_run_append:
  "number_run a (xs @ ys) = (case number_run a xs of None \<Rightarrow> None | Some a' \<Rightarrow> number_run a' ys)"
  by (induction a xs rule: number_run.induct) (auto split: option.split)

lemma number_run_digits:
  "\<forall>d \<in> set ds. digit (uint d) \<Longrightarrow> number_run (number_any1, t) ds = Some (number_any1, t)"
  by (induction ds) (simp_all add: number_next_def)

lemma number_run_fraction:
  "\<forall>d \<in> set ds. digit (uint d) \<Longrightarrow> ds \<noteq> [] \<Longrightarrow> number_run (number_decimal1, t) ds = Some (number_decimal2, value_float)"
proof -
  have "\<forall>d \<in> set ds. digit (uint d) \<Longrightarrow> number_run (number_decimal2, t) ds = Some (number_decimal2, t)" for ds t
    by (induction ds) (simp_all add: number_next_def)
  then show "\<forall>d \<in> set ds. digit (uint d) \<Longrightarrow> ds \<noteq> [] \<Longrightarrow> number_run (number_decimal1, t) ds = Some (number_decimal2, value_float)"
    by (cases ds) (simp_all add: number_next_def)
qed

lemma number_run_exponent:
  "\<forall>d \<in> set ds. digit (uint d) \<Longrightarrow> ds \<noteq> [] \<Longrightarrow> number_run (number_sign, t) ds = Some (number_any2, t)"
proof -
  have "\<forall>d \<in> set ds. digit (uint d) \<Longrightarrow> number_run (number_any2, t) ds = Some (number_any2, t)" for ds
    by (induction ds) (simp_all add: number_next_def)
  then show "\<forall>d \<in> set ds. digit (uint d) \<Longrightarrow> ds \<noteq> [] \<Longrightarrow> number_run (number_sign, t) ds = Some (number_any2, t)"
    by (cases ds) (simp_all add: number_next_def)
qed

text \<open>The type of a number does not matter before it is known to be a floating point number.\<close>

lemma number_run_float:
  "number_run (st, t) ds = Some (st', value_float) \<Longrightarrow> t \<noteq> value_float \<Longrightarrow> number_run (st, t') ds = Some (st', value_float)"
proof (induction ds arbitrary: st t t')
  case (Cons d ds)
  show ?case
  proof (cases "number_next (st, t) (uint d)")
    case None
    with Cons.prems show ?thesis by simp
  next
    case (Some a)
    then obtain st2 t2 where a: "number_next (st, t) (uint d) = Some (st2, t2)" by (cases a) auto
    have "number_next (st, t') (uint d) = Some (st2, t2) \<or> (t2 = t \<and> number_next (st, t') (uint d) = Some (st2, t'))
        \<or> t2 = value_integer \<and> number_next (st, t') (uint d) = Some (st2, t2)"
      using a by (auto simp: number_next_def split: number_state.splits if_splits)
    with a Cons show ?thesis by auto
  qed
qed simp

lemma number_type_minus:
  assumes "number_type (b # ds) = Some value_float" and "digit (uint b)"
  shows "number_type (0x2D # b # ds) = Some value_float"
proof -
  obtain st where st: "number_run (number_start (uint b)) ds = Some (st, value_float)" "number_final st"
    using assms by (auto simp: number_type_def split: option.splits if_splits)
  have nb: "uint b \<noteq> 0x2D" using assms(2) by (auto simp: digit_def)
  have "number_next (number_minus, value_unsigned) (uint b) = Some (fst (number_start (uint b)), value_integer)"
    using assms(2) nb by (simp add: number_next_def number_start_def)
  moreover have "number_run (fst (number_start (uint b)), value_integer) ds = Some (st, value_float)"
    using number_run_float [of "fst (number_start (uint b))" "snd (number_start (uint b))" ds st value_integer] st(1)
    by (simp add: number_start_def)
  ultimately show ?thesis using st(2) by (simp add: number_type_def number_start_def)
qed

section \<open>The value of a text\<close>

abbreviation all_digits :: "bytes \<Rightarrow> bool" where
  "all_digits ds \<equiv> \<forall>d \<in> set ds. is_digit d"

lemma not_digits: "\<not> digit 0x2E" "\<not> digit 0x65" "\<not> digit 0x2B" "\<not> digit 0x2D"
  by (simp_all add: digit_def)

lemma digit_distinct: "is_digit d \<Longrightarrow> d \<noteq> 0x65 \<and> d \<noteq> 0x45 \<and> d \<noteq> 0x2E \<and> d \<noteq> 0x2D \<and> d \<noteq> 0x2B"
  by (auto simp: is_digit_def)

lemma take_digits:
  "all_digits ds \<Longrightarrow> takeWhile (\<lambda>b. b \<noteq> 0x65 \<and> b \<noteq> 0x45) (ds @ rest) = ds @ takeWhile (\<lambda>b. b \<noteq> 0x65 \<and> b \<noteq> 0x45) rest"
  "all_digits ds \<Longrightarrow> takeWhile (\<lambda>b. b \<noteq> 0x2E) (ds @ rest) = ds @ takeWhile (\<lambda>b. b \<noteq> 0x2E) rest"
  using digit_distinct by (induction ds) auto

lemma take_digits_Nil:
  "all_digits ds \<Longrightarrow> takeWhile (\<lambda>b. b \<noteq> 0x65 \<and> b \<noteq> 0x45) ds = ds"
  "all_digits ds \<Longrightarrow> takeWhile (\<lambda>b. b \<noteq> 0x2E) ds = ds"
  using take_digits [of ds "[]"] by simp_all

lemma unsigned_decimal_point:
  "all_digits i \<Longrightarrow> all_digits f \<Longrightarrow>
    unsigned_decimal (i @ 0x2E # f) = of_nat (digits_value (i @ f)) * 10 powi (- int (length f))"
  by (simp add: unsigned_decimal_def take_digits take_digits_Nil exponent_text_value_def)

lemma unsigned_decimal_point_exponent:
  "all_digits i \<Longrightarrow> all_digits f \<Longrightarrow>
    unsigned_decimal (i @ 0x2E # f @ 0x65 # x) = of_nat (digits_value (i @ f)) * 10 powi (exponent_text_value x - int (length f))"
  by (simp add: unsigned_decimal_def take_digits)

lemma unsigned_decimal_exponent:
  "all_digits i \<Longrightarrow> unsigned_decimal (i @ 0x65 # x) = of_nat (digits_value i) * 10 powi exponent_text_value x"
  by (simp add: unsigned_decimal_def take_digits take_digits_Nil)

lemma digits_value_zeros: "digits_value (replicate n 48 @ ds) = digits_value ds"
proof -
  have "foldl (\<lambda>n d. 10 * n + digit_value d) 0 (replicate n 48) = 0"
    by (induction n) (simp_all add: digit_value_def)
  then show ?thesis by (simp add: digits_value_def)
qed

lemma digits_value_zeros_after: "digits_value (ds @ replicate n 48) = digits_value ds * 10 ^ n"
proof (induction n)
  case (Suc n)
  have "ds @ replicate (Suc n) 48 = (ds @ replicate n 48) @ [48]" by (simp add: replicate_append_same)
  then have "digits_value (ds @ replicate (Suc n) 48) = 10 * digits_value (ds @ replicate n 48) + digit_value 48"
    by (simp only: digits_value_simps)
  with Suc show ?case by (simp add: digit_value_def)
qed simp

section \<open>The exponent\<close>

lemma digits_value_exponent:
  "a \<le> 9 \<Longrightarrow> b \<le> 9 \<Longrightarrow> digits_value [digit_char a, digit_char b] = 10 * a + b"
  "a \<le> 9 \<Longrightarrow> b \<le> 9 \<Longrightarrow> c \<le> 9 \<Longrightarrow> digits_value [digit_char a, digit_char b, digit_char c] = 100 * a + 10 * b + c"
  by (simp_all add: digits_value_def)

lemma append_exponent_eq:
  assumes "- 1000 < e" and "e < 1000"
  obtains ds where "append_exponent buf e = Some (buf @ (if e < 0 then 0x2D else 0x2B) # ds)" and "all_digits ds"
    and "ds \<noteq> []" and "length ds \<le> 3" and "int (digits_value ds) = \<bar>e\<bar>"
proof -
  define k where "k = nat (if e < 0 then - e else e)"
  have k: "k < 1000" "int k = \<bar>e\<bar>" using assms by (auto simp: k_def)
  define ds where "ds = (if k < 10 then [48, digit_char k] else if k < 100 then [digit_char (k div 10), digit_char (k mod 10)]
    else [digit_char (k div 100), digit_char (k mod 100 div 10), digit_char (k mod 100 mod 10)])"
  have "append_exponent buf e = Some (buf @ (if e < 0 then 0x2D else 0x2B) # ds)"
    using assms unfolding append_exponent_def json_assert_bind Let_def k_def [symmetric]
    by (simp add: ds_def digit_char_def)
  moreover have "all_digits ds \<and> digits_value ds = k"
  proof -
    consider "k < 10" | "10 \<le> k" "k < 100" | "100 \<le> k" by linarith
    then show ?thesis
    proof cases
      case 1
      have "(48 :: u8) = digit_char 0" by (simp add: digit_char_def)
      then have "ds = [digit_char 0, digit_char k]" using 1 by (simp only: ds_def if_True)
      then show ?thesis using 1 digits_value_exponent(1) [of 0 k] by simp
    next
      case 2
      then have "k div 10 \<le> 9" "k mod 10 \<le> 9" by presburger+
      moreover have "ds = [digit_char (k div 10), digit_char (k mod 10)]" using 2 by (simp add: ds_def)
      ultimately show ?thesis using digits_value_exponent(1) [of "k div 10" "k mod 10"] by simp
    next
      case 3
      define r where "r = k mod 100"
      have "r < 100" by (simp add: r_def)
      then have "k div 100 < 10" "r div 10 < 10" "r mod 10 < 10" using k(1) by (simp_all add: less_mult_imp_div_less)
      then have "k div 100 \<le> 9" "r div 10 \<le> 9" "r mod 10 \<le> 9" by linarith+
      moreover have ds: "ds = [digit_char (k div 100), digit_char (r div 10), digit_char (r mod 10)]"
        using 3 by (simp add: ds_def r_def)
      moreover have "100 * (k div 100) + r = k" "10 * (r div 10) + r mod 10 = r" unfolding r_def by (rule mult_div_mod_eq)+
      ultimately have "digits_value ds = k" "all_digits ds"
        using digits_value_exponent(2) [of "k div 100" "r div 10" "r mod 10"] unfolding ds by (linarith, simp only: list.set) auto
      then show ?thesis by blast
    qed
  qed
  ultimately show ?thesis using that [of ds] k(2) by (simp add: ds_def split: if_splits)
qed

section \<open>The formats\<close>

text \<open>What the text of the digits \<open>buf\<close> with the exponent \<open>k\<close> has to be.\<close>

definition text_of_digits :: "bytes \<Rightarrow> bytes \<Rightarrow> int \<Rightarrow> bool" where
  "text_of_digits t buf k \<longleftrightarrow> number_type t = Some value_float \<and> digit (uint (hd t)) \<and> length t \<le> 23
     \<and> unsigned_decimal t = of_nat (digits_value buf) * 10 powi k"

lemma number_type_point:
  assumes "digit_list i" and "all_digits f" and "f \<noteq> []"
  shows "number_type (i @ 0x2E # f) = Some value_float"
    and "all_digits x \<Longrightarrow> x \<noteq> [] \<Longrightarrow> s = 0x2D \<or> s = 0x2B \<Longrightarrow> number_type (i @ 0x2E # f @ 0x65 # s # x) = Some value_float"
    and "all_digits x \<Longrightarrow> x \<noteq> [] \<Longrightarrow> s = 0x2D \<or> s = 0x2B \<Longrightarrow> number_type (i @ 0x65 # s # x) = Some value_float"
proof -
  obtain b ds where i: "i = b # ds" using assms(1) by (cases i) (auto simp: digit_list_def)
  have b: "digit (uint b)" "uint b \<noteq> 0x30" "uint b \<noteq> 0x2D" and ds: "\<forall>d \<in> set ds. digit (uint d)"
    using assms(1) by (auto simp: i digit_list_def digit_is_digit [symmetric] word_uint_eq_iff digit_def)
  have f: "\<forall>d \<in> set f. digit (uint d)" using assms(2) by (simp add: digit_is_digit)
  note run = number_type_def i b number_start_def number_run_append number_run_digits [OF ds]
    number_run_fraction [OF f assms(3)] number_next_def number_final_def not_digits
  show "number_type (i @ 0x2E # f) = Some value_float" by (simp add: run)
  assume x: "all_digits x" "x \<noteq> []" "s = 0x2D \<or> s = 0x2B"
  then have "\<forall>d \<in> set x. digit (uint d)" by (simp add: digit_is_digit)
  note run' = run number_run_exponent [OF this x(2)]
  show "number_type (i @ 0x2E # f @ 0x65 # s # x) = Some value_float" using x(3) by (auto simp: run')
  show "number_type (i @ 0x65 # s # x) = Some value_float" using x(3) by (auto simp: run')
qed

lemma number_type_zero_point:
  assumes "all_digits f" and "f \<noteq> []"
  shows "number_type (0x30 # 0x2E # f) = Some value_float"
proof -
  have f: "\<forall>d \<in> set f. digit (uint d)" using assms(1) by (simp add: digit_is_digit)
  show ?thesis
    by (simp add: number_type_def number_start_def number_run_fraction [OF f assms(2)] number_next_def number_final_def digit_def)
qed

lemma format_plain:
  assumes "digit_list buf" and "length buf + n \<le> 15"
  shows "text_of_digits (buf @ replicate n 48 @ [46, 48]) buf (int n)"
proof -
  let ?i = "buf @ replicate n 48"
  have i: "digit_list ?i" "all_digits ?i" and z: "all_digits [48]"
    using assms(1) by (auto simp: digit_list_def is_digit_def hd_append)
  have "digits_value (?i @ [48]) = digits_value buf * 10 ^ Suc n"
    using digits_value_zeros_after [of buf "Suc n"] by (simp add: replicate_append_same)
  moreover have "(of_nat (digits_value buf * 10 ^ Suc n) :: rat) * 10 powi (- 1) = of_nat (digits_value buf) * 10 ^ n" by simp
  ultimately have "unsigned_decimal (?i @ 0x2E # [48]) = of_nat (digits_value buf) * 10 powi int n"
    using unsigned_decimal_point [OF i(2) z] by simp
  moreover have "number_type (?i @ 0x2E # [48]) = Some value_float" using number_type_point(1) [OF i(1) z] by simp
  moreover have "digit (uint (hd (?i @ 0x2E # [48])))"
    using assms(1) by (auto simp: digit_list_def digit_is_digit hd_append)
  ultimately show ?thesis using assms(2) by (simp add: text_of_digits_def)
qed

lemma format_point:
  assumes "digit_list buf" and "0 < n" and "n < length buf" and "length buf \<le> 17"
  shows "text_of_digits (take n buf @ [46] @ drop n buf) buf (int n - int (length buf))"
proof -
  have i: "digit_list (take n buf)" "all_digits (take n buf)" and f: "all_digits (drop n buf)" "drop n buf \<noteq> []"
    using assms(1-3) by (auto simp: digit_list_def dest: in_set_takeD in_set_dropD)
  have "unsigned_decimal (take n buf @ 0x2E # drop n buf) = of_nat (digits_value buf) * 10 powi (int n - int (length buf))"
    using unsigned_decimal_point [OF i(2) f(1)] assms(3) by (simp add: of_nat_diff)
  moreover have "digit (uint (hd (take n buf @ 0x2E # drop n buf)))"
    using assms(1,2) by (auto simp: digit_list_def digit_is_digit hd_append)
  ultimately show ?thesis using number_type_point(1) [OF i(1) f] assms(3,4) by (simp add: text_of_digits_def)
qed

lemma format_small:
  assumes "digit_list buf" and "n \<le> 3" and "length buf \<le> 17"
  shows "text_of_digits ([48, 46] @ replicate n 48 @ buf) buf (- int (n + length buf))"
proof -
  let ?f = "replicate n 48 @ buf"
  have f: "all_digits ?f" "?f \<noteq> []" and z: "all_digits [48]" using assms(1) by (auto simp: digit_list_def is_digit_def)
  have "digits_value ([48] @ ?f) = digits_value buf" using digits_value_zeros [of "Suc n" buf] by simp
  then have "unsigned_decimal ([48] @ 0x2E # ?f) = of_nat (digits_value buf) * 10 powi (- int (n + length buf))"
    using unsigned_decimal_point [OF z f(1)] by simp
  moreover have "digit (uint (48 :: u8))" by (simp add: digit_def)
  ultimately show ?thesis using number_type_zero_point [OF f] assms(2,3) by (simp add: text_of_digits_def)
qed

lemma exponent_sign: "int (digits_value ds) = \<bar>e\<bar> \<Longrightarrow> exponent_text_value ((if e < 0 then 0x2D else 0x2B) # ds) = e"
  by (simp add: exponent_text_value_def)

lemma format_exponent:
  assumes "digit_list buf" and "length buf \<le> 17" and "- 1000 < e" and "e < 1000"
  shows "\<exists>t. append_exponent ((if int (length buf) = 1 then buf else take 1 buf @ [46] @ drop 1 buf) @ [101]) e = Some t
    \<and> text_of_digits t buf (e + 1 - int (length buf))"
proof -
  let ?s = "if e < 0 then 0x2D else 0x2B :: u8"
  let ?m = "if int (length buf) = 1 then buf else take 1 buf @ [46] @ drop 1 buf"
  obtain ds where ds: "append_exponent (?m @ [101]) e = Some ((?m @ [101]) @ ?s # ds)" "all_digits ds" "ds \<noteq> []"
      "length ds \<le> 3" "int (digits_value ds) = \<bar>e\<bar>"
    using append_exponent_eq [OF assms(3,4), of "?m @ [101]"] by blast
  have s: "?s = 0x2D \<or> ?s = 0x2B" by simp
  note ev = exponent_sign [OF ds(5)]
  have hd: "digit (uint (hd buf))" "buf \<noteq> []" using assms(1) by (simp_all add: digit_list_def digit_is_digit)
  have "text_of_digits (?m @ 0x65 # ?s # ds) buf (e + 1 - int (length buf))"
  proof (cases "length buf = 1")
    case True
    have "unsigned_decimal (buf @ 0x65 # ?s # ds) = of_nat (digits_value buf) * 10 powi e"
      using unsigned_decimal_exponent [of buf "?s # ds"] assms(1) unfolding ev by (simp add: digit_list_def)
    moreover have "number_type (buf @ 0x65 # ?s # ds) = Some value_float"
      using number_type_point(3) [OF assms(1) _ _ ds(2,3) s, of "[48]"] by (simp add: is_digit_def)
    ultimately show ?thesis using True hd ds(4) by (simp add: text_of_digits_def)
  next
    case False
    then have l: "1 < length buf" using hd(2) by (cases buf) auto
    have i: "digit_list (take 1 buf)" "all_digits (take 1 buf)" and f: "all_digits (drop 1 buf)" "drop 1 buf \<noteq> []"
      using assms(1) l by (auto simp: digit_list_def dest: in_set_takeD in_set_dropD)
    have "unsigned_decimal (take 1 buf @ 0x2E # drop 1 buf @ 0x65 # ?s # ds)
        = of_nat (digits_value buf) * 10 powi (e + 1 - int (length buf))"
      using unsigned_decimal_point_exponent [OF i(2) f(1), of "?s # ds"] l unfolding ev
      by (simp add: of_nat_diff algebra_simps)
    moreover note number_type_point(2) [OF i(1) f ds(2,3) s]
    moreover have "digit (uint (hd (take 1 buf @ 0x2E # drop 1 buf @ 0x65 # ?s # ds)))" using hd by (simp add: hd_append)
    ultimately show ?thesis using False assms(2) l ds(4) by (simp add: text_of_digits_def)
  qed
  with ds(1) show ?thesis by simp
qed

lemma format_buffer_eq:
  assumes "digit_list buf" and "length buf \<le> 17" and "- 999 < int (length buf) + k" and "int (length buf) + k < 1000"
  obtains t where "format_buffer buf k to_chars_kMinExp to_chars_kMaxExp = Some t" and "text_of_digits t buf k"
proof -
  let ?n = "int (length buf) + k"
  have pos: "0 < length buf" using assms(1) by (simp add: digit_list_def)
  have "\<exists>t. format_buffer buf k to_chars_kMinExp to_chars_kMaxExp = Some t \<and> text_of_digits t buf k"
  proof -
    consider "0 \<le> k" "?n \<le> 15" | "k < 0" "0 < ?n" "?n \<le> 15" | "- 4 < ?n" "?n \<le> 0" | "?n \<le> - 4 \<or> 15 < ?n" by linarith
    then show ?thesis
    proof cases
      case 1
      moreover from 1 obtain m where "k = int m" using nonneg_int_cases by blast
      ultimately show ?thesis
        using format_plain [OF assms(1), of m] by (simp add: format_buffer_def json_assert_def to_chars_kMinExp_def to_chars_kMaxExp_def Let_def nat_int_add)
    next
      case 2
      then show ?thesis
        using format_point [OF assms(1) _ _ assms(2), of "nat ?n"] by (simp add: format_buffer_def json_assert_def to_chars_kMinExp_def to_chars_kMaxExp_def Let_def)
    next
      case 3
      define m where "m = nat (- ?n)"
      have k: "k = - int m - int (length buf)" "m \<le> 3" using 3 by (simp_all add: m_def)
      have "\<not> int (length buf) \<le> - int m" using pos by linarith
      then have c: "(int (length buf) \<le> - int m \<and> - int m \<le> 15) = False" by blast
      have n: "int (length buf) + k = - int m" by (simp add: k(1))
      show ?thesis
        using format_small [OF assms(1) k(2) assms(2)] k(2)
        unfolding format_buffer_def json_assert_bind Let_def n to_chars_kMinExp_def to_chars_kMaxExp_def c
        by (simp add: k(1) algebra_simps)
    next
      case 4
      then show ?thesis
        using format_exponent [OF assms(1,2), of "?n - 1"] assms(3,4) pos by (auto simp: format_buffer_def json_assert_def to_chars_kMinExp_def to_chars_kMaxExp_def Let_def)
    qed
  qed
  then show ?thesis using that by blast
qed

section \<open>Printing a double\<close>

text \<open>The magnitude of the digits bounds the exponent that is printed.\<close>

lemma exponent_range:
  assumes "digit_list buf" and "2 powi (- int (3 * m)) < (of_nat (digits_value buf) * 10 powi k :: rat)"
    and "of_nat (digits_value buf) * 10 powi k < (2 ^ (3 * m') :: rat)"
  shows "- int m < int (length buf) + k" and "int (length buf) + k \<le> int m'"
proof -
  let ?D = "of_nat (digits_value buf) :: rat" and ?L = "length buf"
  have eight: "(2::rat) ^ (3 * n) \<le> 10 ^ n" for n
    unfolding power_mult by (intro power_mono) simp_all
  have less: "a < b" if "(10::rat) powi a < 10 powi b" for a b
    using that power_int_increasing [of b a "10::rat"] by (force simp: not_less)
  have pos: "0 < (10::rat) powi k" by (simp add: zero_less_power_int)
  have "digits_value buf < 10 ^ ?L" using assms(1) by (intro digits_value_less) (simp add: digit_list_def)
  then have "?D < of_nat (10 ^ ?L)" by (simp only: of_nat_less_iff)
  then have "?D * 10 powi k < 10 ^ ?L * 10 powi k" using pos by simp
  also have "\<dots> = 10 powi (int ?L + k)" by (simp add: power_int_add)
  finally have up: "?D * 10 powi k < 10 powi (int ?L + k)" .
  have "(10::rat) powi (- int m) \<le> 2 powi (- int (3 * m))"
    unfolding power_int_minus power_int_of_nat using eight [of m] by (intro le_imp_inverse_le) simp_all
  with up assms(2) have "(10::rat) powi (- int m) < 10 powi (int ?L + k)" by linarith
  then show "- int m < int ?L + k" by (rule less)
  have "10 ^ (?L - 1) \<le> digits_value buf" by (rule digits_value_ge [OF assms(1)])
  then have "(of_nat (10 ^ (?L - 1)) :: rat) \<le> ?D" by (simp only: of_nat_le_iff)
  then have "10 ^ (?L - 1) * 10 powi k \<le> ?D * 10 powi k" using pos by simp
  moreover have "(10::rat) ^ (?L - 1) * 10 powi k = 10 powi (int (?L - 1) + k)" by (simp add: power_int_add)
  ultimately have "(10::rat) powi (int (?L - 1) + k) < 10 powi int m'"
    using assms(3) eight [of m'] unfolding power_int_of_nat by linarith
  from less [OF this] show "int ?L + k \<le> int m'" by simp
qed

lemma print_positive:
  assumes "double_is_finite x" and "is_positive x"
  obtains buf k t where "grisu2 x = Some (buf, k)" and "length buf \<le> 17"
    and "format_buffer buf k to_chars_kMinExp to_chars_kMaxExp = Some t" and "number_type t = Some value_float"
    and "digit (uint (hd t))" and "length t \<le> 23" and "rounds_to (unsigned_decimal t) (unat x)"
proof -
  obtain buf k where g: "grisu2 x = Some (buf, k)" "digit_list buf" "length buf \<le> 17"
      "rounds_to (of_nat (digits_value buf) * 10 powi k) (unat x)"
      "2 powi (- 1137) < (of_nat (digits_value buf) * 10 powi k :: rat)"
      "of_nat (digits_value buf) * 10 powi k < (2 ^ 1024 :: rat)"
    using grisu2_eq [OF assms] by blast
  have m: "- int (3 * 379) = - 1137" by simp
  have above: "2 powi (- int (3 * 379)) < (of_nat (digits_value buf) * 10 powi k :: rat)"
    unfolding m by (rule g(5))
  have "(2::rat) ^ 1024 \<le> 2 ^ (3 * 342)" by (intro power_increasing) simp_all
  with g(6) have "of_nat (digits_value buf) * 10 powi k < (2 ^ (3 * 342) :: rat)" by (rule less_le_trans)
  note range = exponent_range [OF g(2) above this]
  have low: "- 999 < int (length buf) + k" and high: "int (length buf) + k < 1000" using range by simp_all
  obtain t where t: "format_buffer buf k to_chars_kMinExp to_chars_kMaxExp = Some t" "text_of_digits t buf k"
    using format_buffer_eq [OF g(2,3) low high] by blast
  then show ?thesis using that [of buf k t] g by (simp add: text_of_digits_def)
qed

text \<open>The sign of a double.\<close>

lemma bit_sign: "bit (push_bit 63 1 :: u64) k \<longleftrightarrow> k = 63"
  unfolding bit_push_bit_iff bit_1_iff by auto

lemma flip_sign:
  assumes "\<And>k. bit p k \<longleftrightarrow> k = 63" and "signbit x"
  shows "\<not> signbit (x XOR p)" and "double_is_finite (x XOR p) = double_is_finite x" and "(x XOR p) OR p = x"
proof -
  show "\<not> signbit (x XOR p)" using assms by (simp add: signbit_def bit_xor_iff)
  have m: "(0x7FF :: u64) = mask 11" by (simp add: mask_eq_exp_minus_1)
  have "drop_bit 52 (x XOR p) AND 0x7FF = drop_bit 52 x AND 0x7FF"
    unfolding m by (rule bit_word_eqI) (auto simp: bit_simps assms(1))
  then show "double_is_finite (x XOR p) = double_is_finite x" by (simp add: double_is_finite_def)
  show "(x XOR p) OR p = x"
    using assms by (intro bit_word_eqI) (auto simp: bit_simps signbit_def)
qed

lemmas sign_removed = flip_sign [OF bit_sign]

lemma of_nat_unat_64: "of_nat (unat (x :: u64)) = x"
  by simp

lemma magnitude_0: "rounds_to 0 0"
  by (simp add: rounds_to_def magnitude_def zero_less_power_int)

text \<open>
  Every finite double is printed, in 24 characters at most, as a floating point number that
  rounds to the double.
\<close>

theorem printed_double:
  assumes "double_is_finite x"
  obtains t where "to_chars 64 x = Some t" and "length t \<le> 24" and "number_type t = Some value_float"
    and "\<And>F. strtod_rounds F \<Longrightarrow> strtod F t = x"
proof -
  define p :: u64 where "p = push_bit 63 1"
  define y where "y = (if signbit x then x XOR p else x)"
  define first :: bytes where "first = (if signbit x then [45] else [])"
  have y: "double_is_finite y" "\<not> signbit y" "x = (if signbit x then y OR p else y)"
    using assms sign_removed [of x, folded p_def] by (simp_all add: y_def)
  have start: "(if signbit x then ([45], x XOR p) else ([], x)) = (first, y)" by (simp add: first_def y_def)
  have minus: "has_minus (first @ t) \<longleftrightarrow> signbit x" "decimal_magnitude (first @ t) = unsigned_decimal t"
    if "t \<noteq> []" "digit (uint (hd t))" for t
  proof -
    have "hd t \<noteq> 45" using that(2) by (auto simp: digit_def)
    with that(1) show "has_minus (first @ t) \<longleftrightarrow> signbit x" "decimal_magnitude (first @ t) = unsigned_decimal t"
      by (simp_all add: has_minus_def first_def decimal_magnitude_def)
  qed
  have typed: "number_type (first @ t) = Some value_float" if "number_type t = Some value_float" "t \<noteq> []" "digit (uint (hd t))" for t
    using that number_type_minus [of "hd t" "tl t"] by (cases t) (simp_all add: first_def)
  have read: "strtod F (first @ t) = x"
    if "strtod_rounds F" "number_type t = Some value_float" "t \<noteq> []" "digit (uint (hd t))" "rounds_to (unsigned_decimal t) (unat y)"
      "finite_magnitude (unat y)" for F t
    using that(1,5,6) typed [OF that(2-4)] minus [OF that(3,4)] y(3)
    unfolding strtod_rounds_def p_def by (metis of_nat_unat_64 option.distinct(1))
  show ?thesis
  proof (cases "y = 0")
    case True
    let ?t = "[48, 46, 48] :: bytes"
    have z: "all_digits [48]" "[48 :: u8] \<noteq> []" by (simp_all add: is_digit_def)
    have t: "number_type ?t = Some value_float" "digit (uint (hd ?t))" "unsigned_decimal ?t = 0"
      using number_type_zero_point [OF z] unsigned_decimal_point [OF z(1) z(1)]
      by (simp_all add: digit_def digits_value_def digit_value_def)
    have "to_chars 64 x = Some (first @ ?t)"
      using assms start True unfolding to_chars_def Let_def p_def [symmetric] by (simp add: json_assert_def)
    moreover have "rounds_to (unsigned_decimal ?t) (unat y)" using magnitude_0 True by (simp add: t(3))
    moreover have "finite_magnitude (unat y)" using True by (simp add: finite_magnitude_def)
    ultimately show ?thesis using that [of "first @ ?t"] typed [OF t(1) _ t(2)] read [OF _ t(1) _ t(2)]
      by (simp add: first_def)
  next
    case False
    then have pos: "is_positive y" using y(2) by (simp add: is_positive_def)
    obtain buf k t where b: "grisu2 y = Some (buf, k)" "length buf \<le> 17"
      "format_buffer buf k to_chars_kMinExp to_chars_kMaxExp = Some t" "number_type t = Some value_float"
      "digit (uint (hd t))" "length t \<le> 23" "rounds_to (unsigned_decimal t) (unat y)"
      using print_positive [OF y(1) pos] by blast
    have "t \<noteq> []" using b(4) by (auto simp: number_type_def)
    have "to_chars 64 x = Some (first @ t)"
      using assms start False b(1-3) unfolding to_chars_def Let_def p_def [symmetric]
      by (simp add: json_assert_def max_digits10_def to_chars_kMinExp_def to_chars_kMaxExp_def first_def)
    with \<open>t \<noteq> []\<close> show ?thesis
      using that [of "first @ t"] typed [OF b(4) _ b(5)] read [OF _ b(4) _ b(5,7) positive_double(2) [OF y(1) pos]] b(6)
      by (simp add: first_def)
  qed
qed

end
