(* ===== verification/Json_Roundtrip.thy ===== *)
theory Json_Roundtrip
  imports Json_Complete Decimal_Text
begin

text \<open>
  What the serializer writes is a text of the grammar, for the value in its canonical form: an
  integer that is not negative is unsigned. So parsing what was dumped gives the value back.
\<close>

section \<open>The canonical form\<close>

fun canon :: "json \<Rightarrow> json" where
  "canon (JInt x) = (if sint x < 0 then JInt x else JUInt x)"
| "canon (JArray vs) = JArray (map canon vs)"
| "canon (JObject ps) = JObject (map (\<lambda>p. (fst p, canon (snd p))) ps)"
| "canon j = j"

section \<open>Strings\<close>

lemma hex_4_text: "n < 65536 \<Longrightarrow> hex_text (hex_4 n) n"
proof -
  assume n: "n < 65536"
  have hd: "hex_digit (hex_lower d) = Some d" if "d < 16" for d
  proof -
    have "unat (of_nat k :: u8) = k" if "k < 256" for k using that by (simp add: unat_of_nat)
    from this [of "48 + d"] this [of "87 + d"] that
    have "unat (hex_lower d) = (if d < 10 then 48 + d else 87 + d)"
      by (auto simp: hex_lower_def simp del: of_nat_add)
    with that show ?thesis by (auto simp: hex_digit_def Let_def)
  qed
  have "n div 4096 < 16" "n div 4096 mod 16 = n div 4096" using n by simp_all
  moreover have "n = 4096 * (n div 4096) + 256 * (n div 256 mod 16) + 16 * (n div 16 mod 16) + n mod 16"
  proof -
    define x where "x = n div 16"
    define y where "y = x div 16"
    define z where "z = y div 16"
    have "n = 16 * x + n mod 16" "x = 16 * y + x mod 16" "y = 16 * z + y mod 16"
      by (simp_all add: x_def y_def z_def)
    moreover have "n div 256 = y" "n div 4096 = z"
      by (simp_all add: x_def y_def z_def div_mult2_eq [symmetric])
    ultimately show ?thesis unfolding x_def [symmetric] by simp
  qed
  ultimately show ?thesis by (simp add: hex_text_def hex_4_def hd)
qed

lemma escape_low:
  assumes "n < 0x80"
  shows "escape_byte (of_nat n) = (if n = 8 then [0x5C, 0x62] else if n = 9 then [0x5C, 0x74]
      else if n = 10 then [0x5C, 0x6E] else if n = 12 then [0x5C, 0x66] else if n = 13 then [0x5C, 0x72]
      else if n = 34 then [0x5C, 0x22] else if n = 92 then [0x5C, 0x5C]
      else if n < 32 then [0x5C, 0x75] @ hex_4 n else [of_nat n])"
proof -
  have u: "unat (ucast (of_nat n :: u8) :: u32) = n"
    using assms by (simp add: unsigned_ucast_eq unat_of_nat take_bit_nat_eq_self)
  have e: "(ucast (of_nat n :: u8) :: u32) = k \<longleftrightarrow> n = unat k" for k using u by (metis word_unat_eq_iff)
  show ?thesis
    by (auto simp: escape_byte_def escape_codepoint_def e u word_le_nat_alt)
qed

lemma escape_high_bytes:
  assumes "scalar_value cp" and "0x80 \<le> cp"
  shows "escape_bytes (utf8_encode cp) = utf8_encode cp"
proof -
  have hi: "\<not> (of_nat k :: u8) < 0x80" if "128 \<le> k" "k < 256" for k
    using that by (simp add: word_less_nat_alt unat_of_nat)
  have k: "k mod 64 < 64" for k :: nat by simp
  have b: "128 + k mod 64 < 256" for k :: nat using k [of k] by linarith
  have d: "cp < 0x800 \<Longrightarrow> 192 + cp div 64 < 256" "cp < 0x10000 \<Longrightarrow> 224 + cp div 4096 < 256"
    "240 + cp div 262144 < 256" using assms by (auto simp: scalar_value_def)
  show ?thesis
    using assms(2) d by (auto simp: utf8_encode_def escape_byte_high hi b simp del: of_nat_add of_nat_numeral)
qed

lemma escape_body: "list_all scalar_value cps \<Longrightarrow>
    string_body (escape_bytes (concat (map utf8_encode cps))) (concat (map utf8_encode cps))"
proof (induction cps)
  case Nil
  then show ?case by (simp add: string_end)
next
  case (Cons cp cps)
  let ?t = "escape_bytes (concat (map utf8_encode cps))" and ?s = "concat (map utf8_encode cps)"
  have IH: "string_body ?t ?s" and cp: "scalar_value cp" using Cons by simp_all
  show ?case
  proof (cases "cp < 0x80")
    case False
    then show ?thesis
      using string_char [OF cp _ _ _ IH] escape_high_bytes [OF cp] by simp
  next
    case True
    have "string_body (escape_byte (of_nat cp) @ ?t) (of_nat cp # ?s)"
    proof (cases "cp \<in> {8, 9, 10, 12, 13, 34, 92}")
      case True
      then have "\<exists>e. escape_byte (of_nat cp) = [0x5C, e] \<and> (e, of_nat cp) \<in> set simple_escapes"
        using escape_low [of 8] escape_low [of 9] escape_low [of 10] escape_low [of 12] escape_low [of 13]
          escape_low [of 34] escape_low [of 92]
        by (elim insertE emptyE) (simp_all add: simple_escapes_def)
      then show ?thesis using string_escape [OF _ IH] by auto
    next
      case False
      show ?thesis
      proof (cases "cp < 32")
        case True
        then have "string_body (0x5C # 0x75 # hex_4 cp @ ?t) (utf8_encode cp @ ?s)"
          using string_unicode [OF hex_4_text cp IH] by simp
        with False True show ?thesis by (simp add: escape_low utf8_encode_ascii)
      next
        case 2: False
        then show ?thesis
          using string_char [OF cp _ _ _ IH] False True by (simp add: escape_low utf8_encode_ascii)
      qed
    qed
    with True show ?thesis by (simp add: utf8_encode_ascii)
  qed
qed

lemma dumped_string:
  assumes "utf8_string s"
  obtains t where "dump_escaped s = Inr t" and "string_body t (bytes_of_string s)"
proof -
  from assms obtain cps where "list_all scalar_value cps" "bytes_of_string s = concat (map utf8_encode cps)"
    by (auto simp: utf8_string_def utf8_ok_iff)
  with escape_body [of cps] assms show thesis
    by (intro that [of "escape_bytes (bytes_of_string s)"]) (simp_all add: dump_escaped_eq utf8_string_def)
qed

section \<open>Numbers\<close>

lemma digit_byte: "n < 10 \<Longrightarrow> digit (uint (of_nat (48 + n) :: u8))" "n < 10 \<Longrightarrow> uint (of_nat (48 + n) :: u8) = 48 + int n"
  by (subst uint_of_nat_u8; simp add: digit_def)+

lemma dec_digits: "\<forall>d \<in> set (dec n). digit (uint d)"
proof (induction n rule: less_induct)
  case (less n)
  show ?case
  proof (cases "n < 10")
    case True
    then show ?thesis using digit_byte(1) [of n] by (simp add: dec_less)
  next
    case False
    then show ?thesis using less [of "n div 10"] digit_byte(1) [of "n mod 10"] by (auto simp: dec_more)
  qed
qed

lemma dec_first: "0 < n \<Longrightarrow> \<exists>b ds. dec n = b # ds \<and> digit (uint b) \<and> uint b \<noteq> 0x30"
proof (induction n rule: less_induct)
  case (less n)
  show ?case
  proof (cases "n < 10")
    case True
    then show ?thesis using digit_byte [of n] less.prems by (simp add: dec_less)
  next
    case False
    then have "0 < n div 10" "n div 10 < n" by auto
    with less.IH obtain b ds where "dec (n div 10) = b # ds \<and> digit (uint b) \<and> uint b \<noteq> 0x30" by blast
    with False show ?thesis by (simp add: dec_more)
  qed
qed

lemma number_type_dec:
  "number_type (dec n) = Some value_unsigned" "0 < n \<Longrightarrow> number_type (45 # dec n) = Some value_integer"
proof -
  show "number_type (dec n) = Some value_unsigned"
  proof (cases "n = 0")
    case True
    then show ?thesis by (simp add: dec_less number_type_def number_start_def number_final_def digit_def)
  next
    case False
    then obtain b ds where b: "dec n = b # ds" "digit (uint b)" "uint b \<noteq> 0x30" using dec_first by blast
    then have "\<forall>d \<in> set ds. digit (uint d)" using dec_digits [of n] by simp
    with b show ?thesis
      by (auto simp: number_type_def number_start_def number_run_digits number_final_def digit_def)
  qed
  show "number_type (45 # dec n) = Some value_integer" if n: "0 < n"
  proof -
    obtain b ds where b: "dec n = b # ds" "digit (uint b)" "uint b \<noteq> 0x30" using dec_first [OF n] by blast
    then have "\<forall>d \<in> set ds. digit (uint d)" using dec_digits [of n] by simp
    with b show ?thesis
      by (simp add: number_type_def number_start_def number_next_def number_run_digits number_final_def)
  qed
qed

lemma digits_value_dec [simp]: "digits_value (dec n) = n"
  by (simp add: dec_def digits_value_to_decimal)

lemma unsigned_text: "json_text F (JUInt x) (dump_unsigned x)"
proof -
  have v: "number_of_type F value_unsigned (dec (unat x)) = JUInt x"
    using unsigned_less [where ?'a = nat and w = x] by (simp add: number_of_type_def strtoull_def)
  show ?thesis
    using text_number [OF number_type_dec(1), of F "unat x"] by (simp add: v dump_unsigned_eq)
qed

lemma signed_text: "json_text F (canon (JInt x)) (dump_signed x)"
proof (cases "sint x < 0")
  case True
  let ?n = "nat (- sint x)"
  have n: "0 < ?n" "?n \<le> 2 ^ 63" using True sint_ge [of x] by auto
  have "int ?n = - sint x" using True by simp
  then have "(of_nat ?n :: u64) = - x" by (metis of_int_of_nat_eq of_int_minus of_int_sint scast_id)
  then have "number_of_type F value_integer (45 # dec ?n) = JInt x"
    using n by (simp add: number_of_type_def strtoll_def)
  then show ?thesis
    using text_number [OF number_type_dec(2) [OF n(1)], of F] True by (simp add: dump_signed_eq)
next
  case False
  then have "nat (sint x) = unat x" using sint_cases(2) [of x] by simp
  with False unsigned_text [of F x] show ?thesis by (simp add: dump_signed_eq dump_unsigned_eq)
qed

section \<open>Values\<close>

lemma put_members_sorted: "sorted_keys (ps @ ms) \<Longrightarrow> put_members ps ms = ps @ ms"
proof (induction ms arbitrary: ps)
  case (Cons m ms)
  obtain k v where m: "m = (k, v)" by (cases m)
  have "obj_put k v ps = ps @ [(k, v)]"
    using Cons.prems by (intro obj_put_append) (auto simp: m sorted_wrt_append)
  with Cons.IH [of "ps @ [(k, v)]"] Cons.prems show ?case by (simp add: m)
qed simp

lemma json_ws_Nil: "json_ws []"
  by simp

abbreviation canon_members :: "(string \<times> json) list \<Rightarrow> (string \<times> json) list" where
  "canon_members \<equiv> map (\<lambda>p. (fst p, canon (snd p)))"

lemma members_value_canon: "sorted_keys ps \<Longrightarrow> members_value (canon_members ps) = canon (JObject ps)"
  using put_members_sorted [of "[]" "canon_members ps"] by (simp add: members_value_def comp_def)

lemma float_text: "double_is_finite x \<Longrightarrow> strtod_rounds F \<Longrightarrow> json_text F (JFloat x) (dump_float x)"
proof -
  assume x: "double_is_finite x" and F: "strtod_rounds F"
  obtain t where "to_chars 64 x = Some t" "number_type t = Some value_float" "strtod F t = x"
    using printed_double [OF x] F by metis
  with x text_number [of t value_float F] show ?thesis
    by (simp add: dump_float_def number_buffer_def number_of_type_def)
qed

lemma serialize_text:
  "json_ok j \<Longrightarrow> \<exists>t. serialize j = Inr t \<and> (strtod_rounds F \<longrightarrow> json_text F (canon j) t)"
  "\<forall>p \<in> set ps. utf8_string (fst p) \<and> json_ok (snd p) \<Longrightarrow>
     \<exists>t. serialize_members ps = Inr t
       \<and> (ps \<noteq> [] \<longrightarrow> strtod_rounds F \<longrightarrow> members_text F (canon_members ps) t)"
  "\<forall>v \<in> set vs. json_ok v \<Longrightarrow>
     \<exists>t. serialize_elements vs = Inr t \<and> (vs \<noteq> [] \<longrightarrow> strtod_rounds F \<longrightarrow> elements_text F (map canon vs) t)"
proof (induction j and ps and vs rule: serialize_serialize_members_serialize_elements.induct)
  case (1 ps)
  show ?case
  proof (cases "ps = []")
    case True
    then show ?thesis using text_empty_object [OF json_ws_Nil, of F] by simp
  next
    case False
    with 1 obtain t where t: "serialize_members ps = Inr t"
      "strtod_rounds F \<longrightarrow> members_text F (canon_members ps) t" by auto
    moreover have "sorted_keys ps" using 1 by simp
    ultimately show ?thesis
      using text_object [of F "canon_members ps" t] False
      by (auto simp: and_then_def members_value_canon simp del: canon.simps)
  qed
next
  case (2 vs)
  show ?case
  proof (cases vs)
    case Nil
    then show ?thesis using text_empty_array [OF json_ws_Nil, of F] by simp
  next
    case Cons
    with 2 obtain t where t: "serialize_elements vs = Inr t"
      "strtod_rounds F \<longrightarrow> elements_text F (map canon vs) t" by auto
    with Cons show ?thesis using text_array [of F "map canon vs" t] by (auto simp: and_then_def)
  qed
next
  case (3 s)
  then have "utf8_string s" by simp
  then obtain t where "dump_escaped s = Inr t" "string_body t (bytes_of_string s)" by (rule dumped_string)
  then show ?case using text_string [of t "bytes_of_string s" F] by (simp add: and_then_def)
next
  case (4 b)
  then show ?case using text_true text_false by simp
next
  case (5 x)
  then show ?case using signed_text by (simp del: canon.simps)
next
  case (6 x)
  then show ?case using unsigned_text by simp
next
  case (7 x)
  then show ?case using float_text by simp
next
  case 9
  then show ?case using text_null by simp
next
  case (11 k v ps)
  then obtain kt t where k: "dump_escaped k = Inr kt" "string_body kt (bytes_of_string k)"
    by (auto elim: dumped_string)
  with 11 obtain t where t: "serialize v = Inr t" "strtod_rounds F \<longrightarrow> json_text F (canon v) t" by auto
  show ?case
  proof (cases "ps = []")
    case True
    then show ?thesis
      using k t members_one [OF json_ws_Nil k(2) json_ws_Nil json_ws_Nil _ json_ws_Nil, of F "canon v" t]
      by (auto simp: and_then_def)
  next
    case False
    with 11 k t obtain ts where ts: "serialize_members ps = Inr ts"
      "strtod_rounds F \<longrightarrow> members_text F (canon_members ps) ts" by auto
    with False k t show ?thesis
      using members_more [OF json_ws_Nil k(2) json_ws_Nil json_ws_Nil _ json_ws_Nil, of F "canon v" t "canon_members ps" ts]
      by (auto simp: and_then_def)
  qed
next
  case (13 v vs)
  then obtain t where t: "serialize v = Inr t" "strtod_rounds F \<longrightarrow> json_text F (canon v) t" by auto
  show ?case
  proof (cases "vs = []")
    case True
    then show ?thesis
      using t elements_one [OF json_ws_Nil _ json_ws_Nil, of F "canon v" t] by (auto simp: and_then_def)
  next
    case False
    with 13 t obtain ts where ts: "serialize_elements vs = Inr ts"
      "strtod_rounds F \<longrightarrow> elements_text F (map canon vs) ts" by auto
    with False t show ?thesis
      using elements_more [OF json_ws_Nil _ json_ws_Nil, of F "canon v" t "map canon vs" ts]
      by (auto simp: and_then_def)
  qed
qed auto

lemma json_dump_ok: "json_ok j \<Longrightarrow> \<exists>t. json_dump j = Inr t"
  using serialize_text(1) [of j undefined] by (auto simp: json_dump_def and_then_def)

lemma json_round_trip:
  assumes "json_ok j" and "strtod_rounds F" and "json_dump j = Inr t"
  shows "json_parse F (bytes_of_string t) s = Some (Inr (canon j), s)"
proof -
  from serialize_text(1) [OF assms(1), of F] assms(2,3) have "json_text F (canon j) (bytes_of_string t)"
    by (auto simp: json_dump_def and_then_def)
  then have "json_document F (canon j) (bytes_of_string t)"
    unfolding json_document_def by (metis append_Nil append_Nil2 json_ws_Nil)
  then show ?thesis by (rule json_parse_document)
qed

end
