(* ===== verification/Json_Rejects.thy ===== *)
theory Json_Rejects
  imports Json_Complete
begin

text \<open>
  Two kinds of texts that the grammar of RFC 8259 has and \<open>Json_Grammar\<close> leaves out, because the
  parser throws on them: a number beyond the doubles, and an escape of half a surrogate pair.
\<close>

text \<open>A first token on which the parser stops.\<close>

lemma bad_token_throws:
  assumes scan: "wp False (scan F) (\<lambda>t l. t = parse_error \<or> t = value_float \<and> \<not> double_is_finite (lex_float l))
      (\<lambda>_ _. False) (lexer (new_parser bs))"
  shows "\<exists>m. json_parse F bs s = Some (Inl (JsonError m), s)"
proof -
  let ?E = "\<lambda>e _. \<exists>m. e = JsonError m"
  have stops: "wp False (parse_value F []) Q ?E (p\<lparr>lexer := l, last_token := t\<rparr>)"
    if "t = parse_error \<or> t = value_float \<and> \<not> double_is_finite (lex_float l)" for p t l Q
    using that by (auto simp: parse_value_def wp_rules unexpected_def sax_error_def Let_def)
  have "wp False (parser_parse F) (\<lambda>_ _. False) ?E (new_parser bs)"
    unfolding parser_parse_def wp_bind get_token_wp
    by (rule wp_mono [OF scan]) (auto simp: sax_parse_internal_def wp_ext intro!: loop_value stops)
  then show ?thesis by (auto simp: json_parse_def wp_def split: option.splits prod.splits sum.splits)
qed

lemma new_lexer_at: "lex_at (lexer (new_parser bs)) bs (token_buffer (lexer (new_parser bs)))"
  by (simp add: lex_at_def new_parser_def new_lexer_def lex_ok_def pending_def)

text \<open>The last conjunct of \<open>json_ok\<close> of a number is that it is finite.\<close>

lemma overflow_throws:
  assumes "number_type num = Some t" and "\<not> json_ok (number_of_type F t num)" and "json_ws w"
    and "number_stops behind"
  shows "\<exists>m. json_parse F (w @ num @ behind) s = Some (Inl (JsonError m), s)"
proof (rule bad_token_throws, rule wp_mono [OF scan_number_token [OF assms(1,3,4) new_lexer_at]])
  fix tok l
  assume tok: "token_value tok l = Some (number_of_type F t num) \<and> lex_ok l \<and> pending l = behind"
  have "\<exists>x. number_of_type F t num = JFloat x \<and> \<not> double_is_finite x"
    using assms(2) by (auto simp: number_of_type_def split: option.splits if_splits)
  then show "tok = parse_error \<or> tok = value_float \<and> \<not> double_is_finite (lex_float l)"
    using tok by (auto simp: token_value_def split: token_type.splits)
qed simp

section \<open>Half a surrogate pair\<close>

text \<open>A second half without a first, or a first half with no escape behind it.\<close>

definition lone_surrogate :: "nat \<Rightarrow> bytes \<Rightarrow> bool" where
  "lone_surrogate cp behind \<longleftrightarrow> 0xDC00 \<le> cp \<and> cp \<le> 0xDFFF \<or> 0xD800 \<le> cp \<and> cp \<le> 0xDBFF \<and> first_of behind \<noteq> 0x5C"

lemma scan_lone_surrogate:
  assumes "hex_text ds cp" and "lone_surrogate cp behind" and "lex_at s (ds @ behind) buf"
  shows "wp False scan_unicode (\<lambda>r t. \<exists>msg. r = Inl msg) (\<lambda>_ _. False) s"
proof -
  have low: "wp False (scan_low_surrogate c) (\<lambda>r t. \<exists>msg. r = Inl msg) (\<lambda>_ _. False) t"
    if "lex_at t behind buf" "first_of behind \<noteq> 0x5C" for c t
    using that by (auto simp: scan_low_surrogate_def wp_rules lex_at_def)
  show ?thesis
    unfolding scan_unicode_def wp_bind
    by (rule wp_mono [OF get_codepoint_text [OF assms(1,3)]])
      (use assms(2) low in \<open>auto simp: wp_rules lone_surrogate_def\<close>)
qed

lemma surrogate_throws:
  assumes "string_body t str" and "hex_text ds cp" and "lone_surrogate cp behind" and "json_ws w"
  shows "\<exists>m. json_parse F (w @ 0x22 # t @ 0x5C # 0x75 # ds @ behind) s = Some (Inl (JsonError m), s)"
proof (rule bad_token_throws, rule wp_mono [where Q = "\<lambda>t _. t = parse_error"])
  let ?bad = "0x5C # 0x75 # ds @ behind"
  have loop: "wp False (loopM scan_string_round ()) (\<lambda>t _. t = parse_error) (\<lambda>_ _. False) u"
    if u: "lex_at u ?bad buf" for u buf
  proof -
    note cur = lex_at_got(2) [OF u] lex_at_got(2) [OF lex_at_got(1) [OF u]]
    have v: "lex_at (got (got u)) (ds @ behind) buf" using u by (auto intro!: lex_at_got)
    have bad: "wp False (bindM scan_unicode (\<lambda>r. case r of Inl msg \<Rightarrow> string_error msg
         | Inr cp \<Rightarrow> bindM (add_codepoint cp) (\<lambda>_. returnM (Inl ()))))
       (\<lambda>r t. r = Inr parse_error) (\<lambda>_ _. False) (got (got u))"
      unfolding wp_bind
      by (rule wp_mono [OF scan_lone_surrogate [OF assms(2,3) v]])
        (auto simp: wp_rules string_error_def lexer_error_def)
    have stop: "wp False (scan_string_round ()) (\<lambda>r t. r = Inr parse_error) (\<lambda>_ _. False) u"
      unfolding scan_string_round_def wp_bind wp_lexer
      using bad by (simp add: cur scan_escape_def wp_bind [of _ lexer_get] wp_lexer)
    show ?thesis by (intro wp_loop_step) (rule wp_mono [OF stop], auto)
  qed
  show "wp False (scan F) (\<lambda>t _. t = parse_error) (\<lambda>_ _. False) (lexer (new_parser (w @ 0x22 # t @ ?bad)))"
  proof (rule scan_text [OF assms(4) new_lexer_at])
    fix v
    assume v: "lex_at v (tl (0x22 # t @ ?bad)) (token_buffer (lexer (new_parser (w @ 0x22 # t @ ?bad))))"
    have "wp False scan_string (\<lambda>t _. t = parse_error) (\<lambda>_ _. False) v"
      unfolding scan_string_def wp_bind wp_lexer
      by (rule scan_string_body [OF assms(1) lex_at_added(3) loop]) (use v in auto)
    then show "wp False (scan_token F (first_of (0x22 # t @ ?bad))) (\<lambda>t _. t = parse_error) (\<lambda>_ _. False) v"
      by (simp add: scan_token_def)
  qed (simp_all add: json_space_def)
qed auto

end
