(* ===== verification/Nearest_Double.thy ===== *)
theory Nearest_Double
  imports Decimal_Text
begin

text \<open>
  A \<open>strtod\<close> that keeps the contract \<open>strtod_rounds\<close>: the bits of the double are found one by
  one, from the first, by comparing the number with the middles between neighbours.
\<close>

section \<open>The middles are ordered\<close>

lemma magnitude_mono: "m \<le> n \<Longrightarrow> magnitude m \<le> magnitude n"
proof (rule lift_Suc_mono_le [of magnitude])
  show "magnitude n \<le> magnitude (Suc n)" for n
    using magnitude_Suc [of n] by (simp add: magnitude_eq [of n] mult_right_mono zero_le_power_int)
qed

lemma middle_mono: "0 < m \<Longrightarrow> m \<le> n \<Longrightarrow> magnitude (m - 1) + magnitude m \<le> magnitude (n - 1) + magnitude n"
  by (intro add_mono magnitude_mono) simp_all

section \<open>The search\<close>

text \<open>The bits below the bit \<open>i\<close> of the double are still to be found.\<close>

fun nearest_from :: "rat \<Rightarrow> nat \<Rightarrow> nat \<Rightarrow> nat" where
  "nearest_from q n 0 = n"
| "nearest_from q n (Suc i) =
     (let m = n + 2 ^ i
      in nearest_from q (if magnitude (m - 1) + magnitude m < 2 * q then m else n) i)"

definition nearest_strtod :: "bytes \<Rightarrow> u64" where
  "nearest_strtod t =
     (let n = nearest_from (decimal_magnitude t) 0 63
      in if has_minus t then of_nat n OR push_bit 63 1 else of_nat n)"

lemma nearest_from_eq:
  assumes "rounds_to q x" and "n \<le> x" and "x < n + 2 ^ i"
  shows "nearest_from q n i = x"
  using assms(2,3)
proof (induction i arbitrary: n)
  case (Suc i)
  let ?m = "n + 2 ^ i"
  have "magnitude (?m - 1) + magnitude ?m < 2 * q \<longleftrightarrow> ?m \<le> x"
  proof
    assume less: "magnitude (?m - 1) + magnitude ?m < 2 * q"
    show "?m \<le> x"
    proof (rule ccontr)
      assume "\<not> ?m \<le> x"
      then have "magnitude (x + 1 - 1) + magnitude (x + 1) \<le> magnitude (?m - 1) + magnitude ?m"
        by (intro middle_mono) simp_all
      with less assms(1) show False by (simp add: rounds_to_def)
    qed
  next
    assume m: "?m \<le> x"
    then have "x \<noteq> 0" by (metis add_is_0 le_zero_eq power_eq_0_iff zero_neq_numeral)
    with middle_mono [OF _ m] assms(1) show "magnitude (?m - 1) + magnitude ?m < 2 * q"
      by (force simp: rounds_to_def)
  qed
  with Suc show ?case by (simp add: Let_def)
qed simp

lemma nearest_strtod_rounds: "strtod F = nearest_strtod \<Longrightarrow> strtod_rounds F"
proof -
  assume F: "strtod F = nearest_strtod"
  have "nearest_from (decimal_magnitude t) 0 63 = n" if "finite_magnitude n" "rounds_to (decimal_magnitude t) n" for t n
    using that by (intro nearest_from_eq) (simp_all add: finite_magnitude_def)
  then show ?thesis by (simp add: strtod_rounds_def F nearest_strtod_def Let_def)
qed

end
