(* ===== verification/Json_Properties.thy ===== *)
theory Json_Properties
  imports Json_Roundtrip Json_Rejects Nearest_Double
begin

text \<open>
  What json.hpp promises: parsing always ends and gives a value that can be printed, every text
  of the grammar is accepted with its value, printing and parsing are inverse, strings are printed
  exactly when they are UTF-8, and integers are printed in decimal.
\<close>

section \<open>A concrete machine\<close>

text \<open>An environment whose \<open>strtod\<close> rounds to the nearest double.\<close>

definition demo_doubles :: json_env where
  "demo_doubles = \<lparr>strtod = nearest_strtod, double_to_int16 = (\<lambda>x. ucast x)\<rparr>"

lemma demo_strtod_rounds: "strtod_rounds demo_doubles"
  by (rule nearest_strtod_rounds) (simp add: demo_doubles_def)

text \<open>The text \<open>[1, -2, "A"]\<close> with an escape and white space.\<close>

definition demo_text :: bytes where
  "demo_text = [0x5B, 0x31, 0x2C, 0x20, 0x2D, 0x32, 0x2C, 0x22, 0x5C, 0x75, 0x30, 0x30, 0x34, 0x31, 0x22, 0x20, 0x5D]"

definition demo_value :: json where
  "demo_value = JArray [JUInt 1, JInt (-2), JString ''A'']"

lemma char_A: "char_of (65 :: nat) = CHR ''A''"
  by code_simp

lemma demo_document: "json_document F demo_value demo_text"
proof -
  have n1: "json_text F (JUInt 1) [0x31]"
    using text_number [of "[0x31]" value_unsigned F]
    by (simp add: number_type_def number_start_def number_final_def digit_def number_of_type_def strtoull_def
        digits_value_def digit_value_def)
  have n2: "json_text F (JInt (-2)) [0x2D, 0x32]"
    using text_number [of "[0x2D, 0x32]" value_integer F]
    by (simp add: number_type_def number_start_def number_next_def number_final_def digit_def number_of_type_def
        strtoll_def digits_value_def digit_value_def)
  have hex: "hex_text [0x30, 0x30, 0x34, 0x31] 65" by (simp add: hex_text_def hex_digit_def)
  have "string_body (0x5C # 0x75 # [0x30, 0x30, 0x34, 0x31] @ []) (utf8_encode 65 @ [])"
    by (rule string_unicode [OF hex _ string_end]) (simp add: scalar_value_def)
  then have body: "string_body [0x5C, 0x75, 0x30, 0x30, 0x34, 0x31] [65]" by (simp add: utf8_encode_def)
  have s: "json_text F (JString ''A'') (0x22 # [0x5C, 0x75, 0x30, 0x30, 0x34, 0x31] @ [0x22])"
    using text_string [OF body, of F] by (simp add: char_of_byte_def char_A)
  have sp: "json_ws [0x20]" by (simp add: json_space_def)
  note e = elements_more [OF json_ws_Nil n1 json_ws_Nil
      elements_more [OF sp n2 json_ws_Nil elements_one [OF json_ws_Nil s sp]]]
  have "json_text F demo_value demo_text" using text_array [OF e] by (simp add: demo_value_def demo_text_def)
  then show ?thesis unfolding json_document_def by (metis append_Nil append_Nil2 json_ws_Nil)
qed

section \<open>Parsing\<close>

text \<open>C19: Parsing ends on every input, and it either returns a value whose strings and keys are
  UTF-8, whose keys are sorted and whose doubles are finite, never a discarded one, or throws an
  exception of the JSON library; the parse leaves the caller's state alone.\<close>

theorem parse_ends_in_a_value:
  "\<exists>r. json_parse F input s = Some (r, s)
     \<and> (case r of Inr j \<Rightarrow> json_ok j | Inl e \<Rightarrow> \<exists>m. e = JsonError m)"
  by (rule json_parse_total [of F input s]) simp_all

text \<open>C18: Every text of the grammar \<open>json_document\<close> is accepted and parsed to the value it stands
  for: escapes and surrogate pairs are decoded to UTF-8, the last of several members with the same
  key counts, and an integer that does not fit into 64 bits becomes a double. The grammar is that
  of RFC 8259 in UTF-8, without two kinds of texts: those with a number that \<open>strtod\<close> takes beyond
  the finite doubles, and those with a \<open>\u\<close> escape that is half a surrogate pair. The parser does not
  accept these: it throws on such a number between white space, 1e400 for instance, and on a
  string with a low surrogate that follows no high one, or a high one that no escape follows.\<close>

theorem every_text_is_parsed:
  shows "(json_document F v bs \<longrightarrow> json_parse F bs s = Some (Inr v, s))
   \<and> (number_type num = Some t \<and> \<not> json_ok (number_of_type F t num) \<and> json_ws w \<and> json_ws w' \<longrightarrow>
       (\<exists>m. json_parse F (w @ num @ w') s = Some (Inl (JsonError m), s)))
   \<and> (string_body body str \<and> hex_text ds cp \<and> lone_surrogate cp behind \<and> json_ws w \<longrightarrow>
       (\<exists>m. json_parse F (w @ 0x22 # body @ 0x5C # 0x75 # ds @ behind) s = Some (Inl (JsonError m), s)))"
  using json_parse_document [of F v bs s] surrogate_throws [of body str ds cp behind w F s]
    overflow_throws [of num t F w w' s] number_stops_ws [of w' "[]"] by simp

lemma every_text_is_parsed_witness:
  "json_parse demo_doubles demo_text () = Some (Inr (JArray [JUInt 1, JInt (-2), JString ''A'']), ())
   \<and> (\<exists>m. json_parse demo_doubles ([0x22, 0x5C, 0x75, 0x44, 0x45, 0x41, 0x44, 0x22]) () = Some (Inl (JsonError m), ()))"
proof -
  have hex: "hex_text [0x44, 0x45, 0x41, 0x44] 0xDEAD" by (simp add: hex_text_def hex_digit_def)
  show ?thesis
    using every_text_is_parsed [of demo_doubles demo_value demo_text "()" "[]" value_float "[]" "[]" "[]" "[]"
        "[0x44, 0x45, 0x41, 0x44]" "0xDEAD" "[0x22]"] demo_document [of demo_doubles] hex string_end
    by (simp add: demo_value_def lone_surrogate_def)
qed

text \<open>C29: A value that was parsed can always be printed: \<open>dump\<close> does not throw on it.\<close>

theorem parsed_values_print:
  assumes "json_parse F input s = Some (Inr j, s')"
  shows "\<exists>t. json_dump j = Inr t"
  using json_parse_total [of F input s] assms by (metis json_dump_ok Pair_inject Inl_Inr_False option.inject sum.inject(2))

lemma parsed_values_print_witness: "\<exists>t. json_dump demo_value = Inr t"
  using parsed_values_print [OF json_parse_document [OF demo_document]] by simp

text \<open>C5: A value is read back from what it was printed to, up to the signedness of integers that
  are not negative; a double is read back as the same double, provided that \<open>strtod\<close> rounds to
  the nearest one.\<close>

theorem printed_values_are_read_back:
  assumes "json_ok j" and "strtod_rounds F" and "json_dump j = Inr t"
  shows "json_parse F (bytes_of_string t) s = Some (Inr (canon j), s)"
  by (rule json_round_trip [OF assms])

text \<open>With the double 0.1.\<close>

lemma printed_values_are_read_back_witness:
  "\<exists>t. json_dump (JArray [demo_value, JFloat 0x3FB999999999999A]) = Inr t
     \<and> json_parse demo_doubles (bytes_of_string t) () = Some (Inr (JArray [demo_value, JFloat 0x3FB999999999999A]), ())"
proof -
  let ?j = "JArray [demo_value, JFloat 0x3FB999999999999A]"
  have ok: "json_ok ?j" by (simp add: demo_value_def utf8_string_def byte_of_char_def double_is_finite_def)
  then obtain t where t: "json_dump ?j = Inr t" using json_dump_ok by blast
  moreover have "canon ?j = ?j" by (simp add: demo_value_def)
  ultimately show ?thesis
    using printed_values_are_read_back [OF ok demo_strtod_rounds t, of "()"] by auto
qed

section \<open>Printing\<close>

text \<open>C6: Grisu2 is right: every finite double is printed, no assertion fails and every loop ends; the
  text has at most 24 characters, is a floating point number of JSON, and a \<open>strtod\<close> that rounds to
  the nearest double reads the same double back.\<close>

theorem doubles_are_read_back:
  assumes "double_is_finite x" and "strtod_rounds F"
  shows "\<exists>t. to_chars 64 x = Some t \<and> length t \<le> 24 \<and> number_type t = Some value_float \<and> strtod F t = x"
  using printed_double [OF assms(1)] assms(2) by metis

lemma doubles_are_read_back_witness:
  "\<exists>t. to_chars 64 0x3FB999999999999A = Some t \<and> length t \<le> 24 \<and> number_type t = Some value_float
     \<and> nearest_strtod t = 0x3FB999999999999A"
  using doubles_are_read_back [OF _ demo_strtod_rounds, of "0x3FB999999999999A"]
  by (simp add: double_is_finite_def demo_doubles_def)

text \<open>C30: The printer of strings, an automaton over a table, accepts exactly the sequences of bytes
  that are UTF-8 encodings of code points, and throws on every other string; what it prints is a
  body of RFC 8259 that stands for the string.\<close>

theorem strings_print_iff_utf8:
  "(case dump_escaped s of
      Inr t \<Rightarrow> string_body t (bytes_of_string s)
        \<and> (\<exists>cps. list_all scalar_value cps \<and> bytes_of_string s = concat (map utf8_encode cps))
    | Inl e \<Rightarrow> (\<exists>m. e = JsonError m)
        \<and> (\<nexists>cps. list_all scalar_value cps \<and> bytes_of_string s = concat (map utf8_encode cps)))"
  unfolding utf8_ok_iff [symmetric]
proof (cases "utf8_ok [] (bytes_of_string s)")
  case True
  then obtain t where "dump_escaped s = Inr t" "string_body t (bytes_of_string s)"
    using dumped_string [of s] by (auto simp: utf8_string_def)
  with True show "case dump_escaped s of
      Inr t \<Rightarrow> string_body t (bytes_of_string s) \<and> utf8_ok [] (bytes_of_string s)
    | Inl e \<Rightarrow> (\<exists>m. e = JsonError m) \<and> \<not> utf8_ok [] (bytes_of_string s)" by simp
next
  case False
  then show "case dump_escaped s of
      Inr t \<Rightarrow> string_body t (bytes_of_string s) \<and> utf8_ok [] (bytes_of_string s)
    | Inl e \<Rightarrow> (\<exists>m. e = JsonError m) \<and> \<not> utf8_ok [] (bytes_of_string s)"
    using dump_escaped_fails [OF False] by auto
qed

text \<open>C31: Integers are printed in decimal without leading zeros, the smallest signed one included,
  and the text fits into the buffer of 64 bytes.\<close>

theorem integers_print_in_decimal:
  "dump_unsigned x = bytes_of_string (to_decimal (unat x))
   \<and> dump_signed x = bytes_of_string ((if sint x < 0 then ''-'' else []) @ to_decimal (nat \<bar>sint x\<bar>))
   \<and> length (dump_signed x) \<le> 64"
proof (intro conjI)
  show "dump_unsigned x = bytes_of_string (to_decimal (unat x))" by (simp add: dump_unsigned_eq dec_def)
  show "dump_signed x = bytes_of_string ((if sint x < 0 then ''-'' else []) @ to_decimal (nat \<bar>sint x\<bar>))"
    by (auto simp: dump_signed_eq dec_def byte_of_char_def)
  have "nat \<bar>sint x\<bar> < 10 ^ 63" using sint_ge [of x] sint_lt [of x] by auto
  then have "length (dec (nat \<bar>sint x\<bar>)) \<le> 63" by (intro length_dec_le) simp_all
  then show "length (dump_signed x) \<le> 64" by (auto simp: dump_signed_eq split: if_splits)
qed

end
