(* ===== verification/Registry.thy ===== *)
theory Registry
  imports Address
begin

text \<open>
  Registry.cpp and RegistryEntry.cpp: the topics and the addresses of their hubs, a vector with
  linear search. The contract of a registry is the locale \<open>registry\<close>, a map from topics to
  addresses; the vector keeps it, because no topic is ever in it twice.
\<close>

section \<open>The interface\<close>

text \<open>
  IRegistry.h. \<open>get\<close> writes the address through a reference: what the argument holds before,
  and what it holds afterwards. The timeout is in seconds.
\<close>

record 'r IRegistry =
  ireg_set :: "string \<Rightarrow> Address \<Rightarrow> ('r, unit) prog"
  ireg_get :: "string \<Rightarrow> Address \<Rightarrow> rat \<Rightarrow> ('r, bool \<times> Address) prog"
  ireg_remove :: "string \<Rightarrow> ('r, unit) prog"

section \<open>The vector\<close>

record RegistryEntry =
  re_topic :: string
  re_address :: Address

definition new_RegistryEntry :: "string \<Rightarrow> Address \<Rightarrow> RegistryEntry" where
  "new_RegistryEntry topic address = \<lparr>re_topic = topic, re_address = Address_copy address\<rparr>"

type_synonym entries = "RegistryEntry list"

definition new_Registry :: entries where
  "new_Registry = []"

fun reg_find_from :: "string \<Rightarrow> int \<Rightarrow> entries \<Rightarrow> int" where
  "reg_find_from topic i [] = -1"
| "reg_find_from topic i (e # es) = (if topic = re_topic e then i else reg_find_from topic (i + 1) es)"

definition reg_find :: "string \<Rightarrow> entries \<Rightarrow> int" where
  "reg_find topic es = reg_find_from topic 0 es"

definition reg_erase_at :: "int \<Rightarrow> (entries, unit) prog" where
  "reg_erase_at index = modifyM (\<lambda>es. take (nat index) es @ drop (nat index + 1) es)"

definition reg_erase :: "string \<Rightarrow> (entries, unit) prog" where
  "reg_erase topic = bindM (getsM (reg_find topic)) (\<lambda>index.
     whenM (index \<ge> 0) (reg_erase_at index))"

definition reg_insert :: "string \<Rightarrow> Address \<Rightarrow> (entries, unit) prog" where
  "reg_insert topic address = modifyM (\<lambda>es. es @ [new_RegistryEntry topic address])"

definition reg_set :: "string \<Rightarrow> Address \<Rightarrow> (entries, unit) prog" where
  "reg_set topic address =
     (if addr_is_set address then blockM [reg_erase topic, reg_insert topic address]
      else throwM (RuntimeError ''Registry::add: address not set''))"

definition reg_get :: "string \<Rightarrow> Address \<Rightarrow> rat \<Rightarrow> (entries, bool \<times> Address) prog" where
  "reg_get topic address timeout = bindM (getsM (\<lambda>es. (reg_find topic es, es))) (\<lambda>(index, es).
     if index \<ge> 0 then
       returnM (True, address\<lparr>addr := addr (re_address (es ! nat index))\<rparr>)
     else returnM (False, address))"

definition reg_remove :: "string \<Rightarrow> (entries, unit) prog" where
  "reg_remove topic = bindM (getsM (reg_find topic)) (\<lambda>index.
     whenM (index \<ge> 0) (reg_erase_at index))"

definition Registry :: "entries IRegistry" where
  "Registry = \<lparr>ireg_set = reg_set, ireg_get = reg_get, ireg_remove = reg_remove\<rparr>"

section \<open>The contracts\<close>

text \<open>
  What every registry promises, for the topics and addresses that it can take: to keep what it
  was given, and nothing else. A registry that also answers for unknown topics promises more.
\<close>

datatype registry_op = SetTopic string Address | RemoveTopic string

fun apply_op :: "(string \<Rightarrow> Address option) \<Rightarrow> registry_op \<Rightarrow> string \<Rightarrow> Address option" where
  "apply_op m (SetTopic t a) = m(t \<mapsto> a)"
| "apply_op m (RemoveTopic t) = m(t := None)"

fun run_op :: "'r IRegistry \<Rightarrow> registry_op \<Rightarrow> ('r, unit) prog" where
  "run_op R (SetTopic t a) = ireg_set R t a"
| "run_op R (RemoveTopic t) = ireg_remove R t"

fun run_ops :: "'r IRegistry \<Rightarrow> registry_op list \<Rightarrow> ('r, unit) prog" where
  "run_ops R [] = returnM ()"
| "run_ops R (x # xs) = bindM (run_op R x) (\<lambda>_. run_ops R xs)"

fun good_op :: "(string \<Rightarrow> bool) \<Rightarrow> (Address \<Rightarrow> bool) \<Rightarrow> registry_op \<Rightarrow> bool" where
  "good_op good_topic good_address (SetTopic t a) \<longleftrightarrow> good_topic t \<and> good_address a"
| "good_op good_topic good_address (RemoveTopic t) \<longleftrightarrow> good_topic t"

locale registry_store =
  fixes R :: "'r IRegistry"
    and contents :: "'r \<Rightarrow> string \<Rightarrow> Address option"
    and intact :: "'r \<Rightarrow> bool"
    and good_topic :: "string \<Rightarrow> bool"
    and good_address :: "Address \<Rightarrow> bool"
  assumes store_law: "intact r \<Longrightarrow> good_topic t \<Longrightarrow> good_address a \<Longrightarrow>
      wp False (ireg_set R t a) (\<lambda>_ r'. intact r' \<and> contents r' = (contents r)(t \<mapsto> a)) (\<lambda>_ _. False) r"
    and lookup_law: "intact r \<Longrightarrow> good_topic t \<Longrightarrow> contents r t = Some x \<Longrightarrow> good_address x \<Longrightarrow>
      wp False (ireg_get R t a timeout)
        (\<lambda>(found, b) r'. intact r' \<and> contents r' = contents r \<and> found \<and> b = x) (\<lambda>_ _. False) r"
    and erase_law: "intact r \<Longrightarrow> good_topic t \<Longrightarrow>
      wp False (ireg_remove R t) (\<lambda>_ r'. intact r' \<and> contents r' = (contents r)(t := None)) (\<lambda>_ _. False) r"
begin

lemma run_op_law:
  "intact r \<Longrightarrow> good_op good_topic good_address x \<Longrightarrow>
     wp False (run_op R x) (\<lambda>_ r'. intact r' \<and> contents r' = apply_op (contents r) x) (\<lambda>_ _. False) r"
  by (cases x) (auto intro: store_law erase_law)

text \<open>After any sequence of operations the registry holds what a map would hold.\<close>

lemma run_ops_law:
  assumes "intact r" and "list_all (good_op good_topic good_address) xs"
  shows "wp False (run_ops R xs) (\<lambda>_ r'. intact r' \<and> contents r' = foldl apply_op (contents r) xs) (\<lambda>_ _. False) r"
  using assms
proof (induction xs arbitrary: r)
  case (Cons x xs)
  then have "intact r" "good_op good_topic good_address x" and xs: "list_all (good_op good_topic good_address) xs" by simp_all
  then show ?case
    by (auto simp: wp_bind intro!: wp_mono [OF run_op_law] wp_mono [OF Cons.IH [OF _ xs]])
qed (simp add: wp_basic)

lemma get_after_ops:
  assumes "intact r" and "list_all (good_op good_topic good_address) xs" and "foldl apply_op (contents r) xs t = Some a"
    and "good_topic t" and "good_address a"
  shows "wp False (bindM (run_ops R xs) (\<lambda>_. ireg_get R t b timeout)) (\<lambda>(found, c) _. found \<and> c = a) (\<lambda>_ _. False) r"
  unfolding wp_bind
  by (rule wp_mono [OF run_ops_law [OF assms(1,2)]])
    (use assms(3-5) in \<open>auto intro!: wp_mono [OF lookup_law] split: prod.splits\<close>)

end

locale registry =
  fixes R :: "'r IRegistry"
    and contents :: "'r \<Rightarrow> string \<Rightarrow> Address option"
    and intact :: "'r \<Rightarrow> bool"
  assumes set_law: "intact r \<Longrightarrow> addr_is_set a \<Longrightarrow>
      wp False (ireg_set R t a) (\<lambda>_ r'. intact r' \<and> contents r' = (contents r)(t \<mapsto> a)) (\<lambda>_ _. False) r"
    and set_unset_law: "intact r \<Longrightarrow> \<not> addr_is_set a \<Longrightarrow>
      wp False (ireg_set R t a) (\<lambda>_ _. False) (\<lambda>e r'. r' = r) r"
    and get_law: "intact r \<Longrightarrow>
      wp False (ireg_get R t a timeout)
        (\<lambda>(found, b) r'. r' = r \<and> (case contents r t of
             None \<Rightarrow> \<not> found \<and> b = a | Some x \<Rightarrow> found \<and> b = x)) (\<lambda>_ _. False) r"
    and remove_law: "intact r \<Longrightarrow>
      wp False (ireg_remove R t) (\<lambda>_ r'. intact r' \<and> contents r' = (contents r)(t := None))
        (\<lambda>_ _. False) r"

sublocale registry \<subseteq> store: registry_store R contents intact "\<lambda>_. True" addr_is_set
proof
  fix r and t :: string and a x :: Address and timeout :: rat
  assume i: "intact r"
  show "addr_is_set a \<Longrightarrow>
      wp False (ireg_set R t a) (\<lambda>_ r'. intact r' \<and> contents r' = (contents r)(t \<mapsto> a)) (\<lambda>_ _. False) r"
    by (rule set_law [OF i])
  show "contents r t = Some x \<Longrightarrow>
      wp False (ireg_get R t a timeout)
        (\<lambda>(found, b) r'. intact r' \<and> contents r' = contents r \<and> found \<and> b = x) (\<lambda>_ _. False) r"
    using i by (auto intro!: wp_mono [OF get_law [OF i]] split: prod.splits)
  show "wp False (ireg_remove R t) (\<lambda>_ r'. intact r' \<and> contents r' = (contents r)(t := None)) (\<lambda>_ _. False) r"
    by (rule remove_law [OF i])
qed

context registry
begin

lemma get_after_remove:
  assumes "intact r"
  shows "wp False (bindM (ireg_remove R t) (\<lambda>_. ireg_get R t b timeout))
     (\<lambda>(found, c) _. \<not> found \<and> c = b) (\<lambda>_ _. False) r"
  unfolding wp_rules
  by (rule wp_mono [OF remove_law [OF assms]]) (auto intro!: wp_mono [OF get_law] split: prod.splits)

text \<open>After any sequence of operations, whatever topic is asked for.\<close>

lemma get_answer:
  assumes "intact r" and "list_all (good_op (\<lambda>_. True) addr_is_set) xs"
  shows "wp False (bindM (run_ops R xs) (\<lambda>_. ireg_get R t b timeout))
     (\<lambda>(found, c) r'. intact r' \<and> (case foldl apply_op (contents r) xs t of
          None \<Rightarrow> \<not> found \<and> c = b | Some x \<Rightarrow> found \<and> c = x)) (\<lambda>_ _. False) r"
  unfolding wp_bind
  by (rule wp_mono [OF store.run_ops_law [OF assms]]) (auto intro!: wp_mono [OF get_law] split: prod.splits)

end

section \<open>The vector keeps the contract\<close>

definition reg_contents :: "entries \<Rightarrow> string \<Rightarrow> Address option" where
  "reg_contents es = map_of (map (\<lambda>e. (re_topic e, re_address e)) es)"

definition reg_intact :: "entries \<Rightarrow> bool" where
  "reg_intact es \<longleftrightarrow> distinct (map re_topic es)"

lemma Address_copy_id [simp]: "Address_copy a = a"
  by (simp add: Address_copy_def zero_Address_def addr_get_sockaddr_def)

lemma reg_find_from_range: "reg_find_from t i es = -1 \<or> i \<le> reg_find_from t i es \<and> reg_find_from t i es < i + int (length es)"
  by (induction t i es rule: reg_find_from.induct) auto

text \<open>Where a topic is found, and that it is not found only when it is not there.\<close>

lemma reg_find_cases:
  obtains (missing) "reg_find t es = -1" and "t \<notin> re_topic ` set es"
    | (found) xs e ys where "es = xs @ e # ys" and "re_topic e = t" and "t \<notin> re_topic ` set xs"
        and "reg_find t es = int (length xs)"
proof -
  have "reg_find_from t i es = -1 \<and> t \<notin> re_topic ` set es
      \<or> (\<exists>xs e ys. es = xs @ e # ys \<and> re_topic e = t \<and> t \<notin> re_topic ` set xs
           \<and> reg_find_from t i es = i + int (length xs))" for i
  proof (induction t i es rule: reg_find_from.induct)
    case (2 t i e es)
    show ?case
    proof (cases "t = re_topic e")
      case True
      then show ?thesis by (intro disjI2 exI [where x = "[]"] exI [where x = e] exI [where x = es]) simp
    next
      case False
      from 2 [OF False] show ?thesis
      proof
        assume "\<exists>xs e ys. es = xs @ e # ys \<and> re_topic e = t \<and> t \<notin> re_topic ` set xs
           \<and> reg_find_from t (i + 1) es = i + 1 + int (length xs)"
        then obtain xs f ys where "es = xs @ f # ys" "re_topic f = t" "t \<notin> re_topic ` set xs"
          "reg_find_from t (i + 1) es = i + 1 + int (length xs)" by blast
        with False show ?thesis
          by (intro disjI2 exI [where x = "e # xs"] exI [where x = f] exI [where x = ys]) auto
      qed (use False in auto)
    qed
  qed simp
  from this [of 0] show thesis unfolding reg_find_def using missing found by (auto simp: reg_find_def)
qed

lemma reg_contents_append: "reg_contents (xs @ ys) t = (case reg_contents xs t of None \<Rightarrow> reg_contents ys t | Some a \<Rightarrow> Some a)"
  by (simp add: reg_contents_def map_add_def split: option.split)

lemma reg_contents_None: "t \<notin> re_topic ` set es \<Longrightarrow> reg_contents es t = None"
  by (auto simp: reg_contents_def map_of_eq_None_iff image_iff)

lemma reg_erase_spec:
  assumes "reg_intact es"
  shows "\<exists>es'. reg_erase t es = Some (Inr (), es') \<and> reg_intact es' \<and> t \<notin> re_topic ` set es'
     \<and> reg_contents es' = (reg_contents es)(t := None)"
proof (cases rule: reg_find_cases [of t es])
  case missing
  then have "(reg_contents es)(t := None) = reg_contents es" by (simp add: reg_contents_None fun_upd_idem)
  with missing assms show ?thesis by (simp add: reg_erase_def run)
next
  case (found xs e ys)
  have "reg_contents (xs @ ys) = (reg_contents es)(t := None)"
    using found assms
    by (auto simp: fun_eq_iff reg_contents_append reg_contents_None reg_intact_def)
      (auto simp: reg_contents_def split: option.split)
  with found assms show ?thesis
    by (auto simp: reg_erase_def reg_erase_at_def run reg_intact_def)
qed

lemma reg_remove_eq: "reg_remove = reg_erase"
  by (simp add: reg_remove_def reg_erase_def fun_eq_iff)

interpretation vector: registry Registry reg_contents reg_intact
proof
  fix es :: entries and a b :: Address and t :: string and timeout :: rat
  assume i: "reg_intact es"
  obtain es' where e: "reg_erase t es = Some (Inr (), es')" "reg_intact es'" "t \<notin> re_topic ` set es'"
    "reg_contents es' = (reg_contents es)(t := None)" using reg_erase_spec [OF i] by blast
  show "addr_is_set a \<Longrightarrow> wp False (ireg_set Registry t a)
      (\<lambda>_ r'. reg_intact r' \<and> reg_contents r' = (reg_contents es)(t \<mapsto> a)) (\<lambda>_ _. False) es"
    using e
    by (auto simp: Registry_def reg_set_def reg_insert_def wp_def run new_RegistryEntry_def reg_intact_def
        fun_eq_iff reg_contents_append split: option.split) (auto simp: reg_contents_def)
  show "\<not> addr_is_set a \<Longrightarrow> wp False (ireg_set Registry t a) (\<lambda>_ _. False) (\<lambda>_ r'. r' = es) es"
    by (simp add: Registry_def reg_set_def wp_rules)
  show "wp False (ireg_remove Registry t)
      (\<lambda>_ r'. reg_intact r' \<and> reg_contents r' = (reg_contents es)(t := None)) (\<lambda>_ _. False) es"
    using e by (simp add: Registry_def reg_remove_eq wp_def)
  show "wp False (ireg_get Registry t a timeout)
        (\<lambda>(found, b) r'. r' = es \<and> (case reg_contents es t of
             None \<Rightarrow> \<not> found \<and> b = a | Some x \<Rightarrow> found \<and> b = x)) (\<lambda>_ _. False) es"
    by (cases rule: reg_find_cases [of t es])
      (auto simp: Registry_def reg_get_def wp_rules reg_contents_None reg_contents_append,
        auto simp: reg_contents_def)
qed

end
