(* ===== verification/Messaging.thy ===== *)
theory Messaging
  imports WebSocket MemBuffer Json_Parser Json_Serializer Registry
begin

text \<open>
  What the layer above the websockets shares: IWebSocket.h as a record of its member functions,
  the class hierarchy of the exceptions, and the environment that the messages depend on.
\<close>

section \<open>Websockets\<close>

text \<open>\<open>recv\<close> writes the message through a reference: what the argument held, and what it holds.\<close>

record 'w IWebSocket =
  iws_recv :: "bytes \<Rightarrow> rat \<Rightarrow> ('w, RecvStatus \<times> bytes) prog"
  iws_send :: "bytes \<Rightarrow> MessageType \<Rightarrow> ('w, bool) prog"
  iws_close :: "CloseCode \<Rightarrow> ('w, unit) prog"
  iws_is_connected :: "('w, bool) prog"

definition websocket_object :: "'w ws_env \<Rightarrow> 'w WebSocket IWebSocket" where
  "websocket_object E = \<lparr>iws_recv = ws_recv E, iws_send = ws_send E, iws_close = ws_close E,
     iws_is_connected = ws_is_connected E\<rparr>"

section \<open>Exceptions\<close>

text \<open>\<open>RecvError\<close> and the exceptions of json.hpp are no \<open>std::runtime_error\<close>.\<close>

fun is_runtime_error :: "exn \<Rightarrow> bool" where
  "is_runtime_error (RuntimeError m) = True"
| "is_runtime_error (RecvError m c) = False"
| "is_runtime_error (InvalidArgument m) = False"
| "is_runtime_error (JsonError m) = False"

fun is_json_error :: "exn \<Rightarrow> bool" where
  "is_json_error (JsonError m) = True"
| "is_json_error _ = False"

section \<open>Local objects\<close>

text \<open>
  A block with a local object: the destructor runs whether the block returns or throws. An
  exception that leaves a destructor ends the process (\<open>std::terminate\<close>).
\<close>

definition scopeM :: "('s, 'a) prog \<Rightarrow> ('s, unit) prog \<Rightarrow> ('s, 'a) prog" where
  "scopeM m destructor = (\<lambda>s. case m s of
       None \<Rightarrow> None
     | Some (r, t) \<Rightarrow> (case destructor t of
           None \<Rightarrow> None
         | Some (d, u) \<Rightarrow> (case d of Inl e \<Rightarrow> None | Inr _ \<Rightarrow> Some (r, u))))"

lemma wp_scope [wp_rules]:
  "wp T (scopeM m d) Q E s =
     wp T m (\<lambda>x. wp T d (\<lambda>_. Q x) (\<lambda>_ _. T)) (\<lambda>e. wp T d (\<lambda>_. E e) (\<lambda>_ _. T)) s"
  by (simp add: wp_def scopeM_def split: option.split prod.split sum.split)

section \<open>JSON in programs\<close>

text \<open>\<open>std::string s = j[key];\<close>\<close>

definition string_field :: "string \<Rightarrow> json \<Rightarrow> exn + string" where
  "string_field key j = and_then (json_get key j) json_to_string"

definition bool_field :: "string \<Rightarrow> json \<Rightarrow> exn + bool" where
  "bool_field key j = and_then (json_get key j) json_to_bool"

text \<open>The string with quotation marks around it, as the formats of the messages have it.\<close>

definition dquoted :: "string \<Rightarrow> string" where
  "dquoted s = [q_char] @ s @ [q_char]"

section \<open>The environment\<close>

text \<open>The network functions of the system, the address that \<open>set_local_ip\<close> chose, the doubles.\<close>

record rcom_env =
  re_net :: net_env
  re_ip :: string
  re_json :: json_env

text \<open>\<open>Address address;\<close> and \<open>Address address(s);\<close> as statements; the static address is only read.\<close>

definition local_address :: "rcom_env \<Rightarrow> (string, Address) prog \<Rightarrow> ('s, Address) prog" where
  "local_address G constructor = (\<lambda>s. case constructor (re_ip G) of
       None \<Rightarrow> None
     | Some (r, _) \<Rightarrow> Some (r, s))"

end
