(* ===== verification/WebSocketServer.thy ===== *)
theory WebSocketServer
  imports Messaging
begin

text \<open>
  WebSocketServer.cpp: a server socket, the websockets of the peers that connected to it, and
  the listener that gets their messages. A websocket is an object that the factory makes; the
  server holds pointers to them, of type \<open>'h\<close>, and everything they work on is the world \<open>'w\<close>.
\<close>

section \<open>Interfaces\<close>

text \<open>
  ISocketFactory.h: the constructors give a pointer. What a pointer points to, and the
  destructor, belong to the factory in the model.
\<close>

record ('h, 'w) ISocketFactory =
  sf_new_server_side :: "int \<Rightarrow> ('w, 'h) prog"
  sf_new_client_side :: "Address \<Rightarrow> ('w, 'h) prog"
  sf_object :: "'h \<Rightarrow> 'w IWebSocket"
  sf_delete :: "'h \<Rightarrow> ('w, unit) prog"

text \<open>IServerSocket.h\<close>

record 'w IServerSocket =
  iss_accept :: "rat \<Rightarrow> ('w, int) prog"
  iss_get_address :: "Address \<Rightarrow> ('w, Address) prog"
  iss_close :: "('w, unit) prog"

section \<open>The object\<close>

record ('h, 'w) WebSocketServer =
  wss_links :: "'h list"
  wss_message :: bytes
  wss_world :: 'w

definition new_WebSocketServer :: "'w \<Rightarrow> ('h, 'w) WebSocketServer" where
  "new_WebSocketServer w = \<lparr>wss_links = [], wss_message = [], wss_world = w\<rparr>"

text \<open>
  IMessageListener.h: \<open>onmessage\<close> gets the server and one of its links, and the buffer of the
  server by reference; it runs on the state of the server, which it may call.
\<close>

type_synonym ('h, 'w) listener =
  "'h \<Rightarrow> MessageType \<Rightarrow> (('h, 'w) WebSocketServer, unit) prog"

text \<open>DummyMessageListener.h\<close>

definition dummy_listener :: "('h, 'w) listener" where
  "dummy_listener websocket type = returnM ()"

definition wss_on_world :: "('w, 'a) prog \<Rightarrow> (('h, 'w) WebSocketServer, 'a) prog" where
  "wss_on_world m = zoomM wss_world (\<lambda>w s. s\<lparr>wss_world := w\<rparr>) m"

definition wss_with_link ::
  "('h, 'w) ISocketFactory \<Rightarrow> nat \<Rightarrow> ('w IWebSocket \<Rightarrow> ('w, 'a) prog) \<Rightarrow> (('h, 'w) WebSocketServer, 'a) prog" where
  "wss_with_link F index m =
     bindM (getsM (\<lambda>s. wss_links s ! index)) (\<lambda>h. wss_on_world (m (sf_object F h)))"

section \<open>Links\<close>

definition wss_append :: "('h, 'w) ISocketFactory \<Rightarrow> int \<Rightarrow> (('h, 'w) WebSocketServer, 'h) prog" where
  "wss_append F fd =
     bindM (wss_on_world (sf_new_server_side F fd)) (\<lambda>h.
     bindM (modifyM (\<lambda>s. s\<lparr>wss_links := wss_links s @ [h]\<rparr>)) (\<lambda>_. returnM h))"

definition wss_close ::
  "('h, 'w) ISocketFactory \<Rightarrow> nat \<Rightarrow> CloseCode \<Rightarrow> (('h, 'w) WebSocketServer, unit) prog" where
  "wss_close F index code = wss_with_link F index (\<lambda>W. iws_close W code)"

definition wss_send ::
  "('h, 'w) ISocketFactory \<Rightarrow> nat \<Rightarrow> bytes \<Rightarrow> MessageType \<Rightarrow> (('h, 'w) WebSocketServer, bool) prog" where
  "wss_send F index message type =
     bindM (wss_with_link F index iws_is_connected) (\<lambda>connected.
     if connected then wss_with_link F index (\<lambda>W. iws_send W message type) else returnM True)"

definition wss_count_links :: "('h, 'w) WebSocketServer \<Rightarrow> nat" where
  "wss_count_links s = length (wss_links s)"

definition wss_get_link :: "nat \<Rightarrow> ('h, 'w) WebSocketServer \<Rightarrow> 'h" where
  "wss_get_link index s = wss_links s ! index"

text \<open>A loop over the indices of the links, whose number is read again in every round.\<close>

definition for_links ::
  "(nat \<Rightarrow> (('h, 'w) WebSocketServer, unit) prog) \<Rightarrow> (('h, 'w) WebSocketServer, unit) prog" where
  "for_links body = loopM (\<lambda>i. bindM (getsM wss_count_links) (\<lambda>n.
     if i < n then bindM (body i) (\<lambda>_. returnM (Inl (i + 1))) else returnM (Inr ()))) 0"

section \<open>New connections\<close>

definition handle_new_connection ::
  "('h, 'w) ISocketFactory \<Rightarrow> int \<Rightarrow> (('h, 'w) WebSocketServer, unit) prog" where
  "handle_new_connection F fd = bindM (wss_append F fd) (\<lambda>_. returnM ())"

definition try_new_connection ::
  "('h, 'w) ISocketFactory \<Rightarrow> int \<Rightarrow> (('h, 'w) WebSocketServer, unit) prog" where
  "try_new_connection F fd =
     catchM (handle_new_connection F fd)
       (\<lambda>e. if is_runtime_error e then returnM () else throwM e)"

definition handle_new_connections ::
  "('h, 'w) ISocketFactory \<Rightarrow> 'w IServerSocket \<Rightarrow> (('h, 'w) WebSocketServer, unit) prog" where
  "handle_new_connections F S = loopM (\<lambda>_.
     bindM (wss_on_world (iss_accept S 0)) (\<lambda>fd.
     bindM (whenM (fd \<ge> 0) (try_new_connection F fd)) (\<lambda>_.
     returnM (if fd \<ge> 0 then Inl () else Inr ())))) ()"

section \<open>New messages\<close>

definition handle_new_messages_of ::
  "('h, 'w) ISocketFactory \<Rightarrow> ('h, 'w) listener \<Rightarrow> nat \<Rightarrow> (('h, 'w) WebSocketServer, unit) prog" where
  "handle_new_messages_of F listener index =
     bindM (getsM wss_message) (\<lambda>message.
     bindM (wss_with_link F index (\<lambda>W. iws_recv W message 0)) (\<lambda>(status, message).
     bindM (modifyM (\<lambda>s. s\<lparr>wss_message := message\<rparr>)) (\<lambda>_.
     if status = kRecvText \<or> status = kRecvBinary then
       let type = (if status = kRecvText then kTextMessage else kBinaryMessage)
       in bindM (getsM (wss_get_link index)) (\<lambda>h. listener h type)
     else if status = kRecvError then wss_close F index kCloseInternalError
     else returnM ())))"

definition handle_new_messages ::
  "('h, 'w) ISocketFactory \<Rightarrow> ('h, 'w) listener \<Rightarrow> (('h, 'w) WebSocketServer, unit) prog" where
  "handle_new_messages F listener = for_links (\<lambda>i.
     bindM (wss_with_link F i iws_is_connected) (\<lambda>connected.
     whenM connected (handle_new_messages_of F listener i)))"

section \<open>Closed links\<close>

text \<open>
  \<open>std::remove_if\<close> asks every link once, in order; then the ones that are not connected are
  destroyed.
\<close>

fun partition_links ::
  "('h, 'w) ISocketFactory \<Rightarrow> 'h list \<Rightarrow> ('w, 'h list \<times> 'h list) prog" where
  "partition_links F [] = returnM ([], [])"
| "partition_links F (h # hs) =
     bindM (iws_is_connected (sf_object F h)) (\<lambda>connected.
     bindM (partition_links F hs) (\<lambda>(kept, closed).
     returnM (if connected then (h # kept, closed) else (kept, h # closed))))"

definition remove_closed_links ::
  "('h, 'w) ISocketFactory \<Rightarrow> (('h, 'w) WebSocketServer, unit) prog" where
  "remove_closed_links F =
     bindM (getsM wss_links) (\<lambda>links.
     bindM (wss_on_world (partition_links F links)) (\<lambda>(kept, closed).
     bindM (wss_on_world (blockM (map (sf_delete F) closed))) (\<lambda>_.
     modifyM (\<lambda>s. s\<lparr>wss_links := kept\<rparr>))))"

section \<open>The operations\<close>

definition wss_handle_events ::
  "('h, 'w) ISocketFactory \<Rightarrow> 'w IServerSocket \<Rightarrow> ('h, 'w) listener \<Rightarrow> (('h, 'w) WebSocketServer, unit) prog" where
  "wss_handle_events F S listener =
     blockM [handle_new_connections F S, handle_new_messages F listener, remove_closed_links F]"

text \<open>The pointer \<open>exclude\<close> may be null.\<close>

definition wss_broadcast ::
  "('h, 'w) ISocketFactory \<Rightarrow> bytes \<Rightarrow> MessageType \<Rightarrow> 'h option \<Rightarrow> (('h, 'w) WebSocketServer, unit) prog" where
  "wss_broadcast F message type exclude = for_links (\<lambda>i.
     bindM (getsM (wss_get_link i)) (\<lambda>h.
     whenM (exclude \<noteq> Some h)
       (bindM (wss_send F i message type) (\<lambda>success.
        whenM (\<not> success) (wss_close F i kCloseInternalError)))))"

definition wss_get_address ::
  "'w IServerSocket \<Rightarrow> Address \<Rightarrow> (('h, 'w) WebSocketServer, Address) prog" where
  "wss_get_address S address = wss_on_world (iss_get_address S address)"

definition wss_destroy ::
  "('h, 'w) ISocketFactory \<Rightarrow> 'w IServerSocket \<Rightarrow> (('h, 'w) WebSocketServer, unit) prog" where
  "wss_destroy F S = blockM [wss_on_world (iss_close S),
     for_links (\<lambda>i. bindM (wss_with_link F i iws_is_connected) (\<lambda>connected.
       whenM connected (wss_close F i kCloseGoingAway))),
     bindM (getsM wss_links) (\<lambda>links. wss_on_world (blockM (map (sf_delete F) links)))]"

section \<open>IWebSocketServer\<close>

record ('h, 's) IWebSocketServer =
  iwss_handle_events :: "('s, unit) prog"
  iwss_broadcast :: "bytes \<Rightarrow> MessageType \<Rightarrow> 'h option \<Rightarrow> ('s, unit) prog"
  iwss_get_address :: "Address \<Rightarrow> ('s, Address) prog"
  iwss_count_links :: "('s, nat) prog"
  iwss_get_link :: "nat \<Rightarrow> ('s, 'h) prog"

definition server_object ::
  "('h, 'w) ISocketFactory \<Rightarrow> 'w IServerSocket \<Rightarrow> ('h, 'w) listener \<Rightarrow> ('h, ('h, 'w) WebSocketServer) IWebSocketServer" where
  "server_object F S listener = \<lparr>iwss_handle_events = wss_handle_events F S listener,
     iwss_broadcast = wss_broadcast F, iwss_get_address = wss_get_address S,
     iwss_count_links = getsM wss_count_links, iwss_get_link = (\<lambda>i. getsM (wss_get_link i))\<rparr>"

end
