(* ===== verification/RegistryProxy.thy ===== *)
theory RegistryProxy
  imports Messaging
begin

text \<open>
  RegistryProxy.cpp: the other end of RegistryServer.cpp, a registry whose operations are
  requests over a websocket. The state is the one of the websocket and of the clock.
\<close>

section \<open>Requests\<close>

definition make_register_request :: "MemBuffer \<Rightarrow> string \<Rightarrow> Address \<Rightarrow> MemBuffer" where
  "make_register_request request topic address =
     (let address_string = addr_tostring address
      in request @ bytes_of_string (mb_vprintf
        (''{'' @ dquoted ''request'' @ '': '' @ dquoted ''register'' @ '', ''
         @ dquoted ''topic'' @ '': '' @ dquoted (c_str topic) @ '', ''
         @ dquoted ''address'' @ '': '' @ dquoted (c_str address_string) @ ''}'')))"

definition make_get_request :: "MemBuffer \<Rightarrow> string \<Rightarrow> MemBuffer" where
  "make_get_request request topic =
     request @ bytes_of_string (mb_vprintf
        (''{'' @ dquoted ''request'' @ '': '' @ dquoted ''get'' @ '', ''
         @ dquoted ''topic'' @ '': '' @ dquoted (c_str topic) @ ''}''))"

definition make_unregister_request :: "MemBuffer \<Rightarrow> string \<Rightarrow> MemBuffer" where
  "make_unregister_request request topic =
     request @ bytes_of_string (mb_vprintf
        (''{'' @ dquoted ''request'' @ '': '' @ dquoted ''unregister'' @ '', ''
         @ dquoted ''topic'' @ '': '' @ dquoted (c_str topic) @ ''}''))"

definition send_request :: "'w IWebSocket \<Rightarrow> bytes \<Rightarrow> ('w, unit) prog" where
  "send_request websocket request =
     bindM (iws_send websocket request kTextMessage) (\<lambda>success.
     whenM (\<not> success) (throwM (RuntimeError ''RegistryProxy::send_request failed'')))"

section \<open>Responses\<close>

text \<open>A status other than a timeout or an error goes on, whatever the message then is.\<close>

definition read_response :: "'w IWebSocket \<Rightarrow> bytes \<Rightarrow> rat \<Rightarrow> ('w, bytes) prog" where
  "read_response websocket response timeout =
     bindM (iws_recv websocket response timeout) (\<lambda>(status, response).
     if status = kRecvTimeOut then throwM (RuntimeError ''RegistryProxy::read_response: Time-out'')
     else if status = kRecvError then throwM (RuntimeError ''RegistryProxy::read_response: Error'')
     else returnM response)"

text \<open>The text is parsed as a C string: up to its first NUL.\<close>

definition parse_response :: "rcom_env \<Rightarrow> bytes \<Rightarrow> ('w, json) prog" where
  "parse_response G response =
     catchM (json_parse (re_json G) (c_bytes response))
       (\<lambda>e. if is_json_error e then throwM (RuntimeError ''RegistryProxy::parse_response failed'')
            else throwM e)"

definition is_success :: "json \<Rightarrow> ('w, bool) prog" where
  "is_success jsonobj =
     catchM (throw_left (bool_field ''success'' jsonobj))
       (\<lambda>e. if is_json_error e then throwM (RuntimeError ''RegistryProxy: invalid response'')
            else throwM e)"

definition assert_success :: "json \<Rightarrow> ('w, unit) prog" where
  "assert_success jsonobj =
     bindM (catchM (throw_left (bool_field ''success'' jsonobj))
              (\<lambda>e. if is_json_error e then returnM False else throwM e)) (\<lambda>success.
     whenM (\<not> success) (throwM (RuntimeError ''RegistryProxy::assert_success failed'')))"

definition response_assert_success :: "rcom_env \<Rightarrow> 'w IWebSocket \<Rightarrow> ('w, unit) prog" where
  "response_assert_success G websocket =
     bindM (read_response websocket [] 10) (\<lambda>response.
     bindM (parse_response G response) assert_success)"

definition get_address :: "json \<Rightarrow> ('w, bool \<times> string) prog" where
  "get_address jsonobj =
     catchM (bindM (throw_left (string_field ''address'' jsonobj)) (\<lambda>address_string.
         returnM (True, address_string)))
       (\<lambda>e. if is_json_error e then throwM (RuntimeError ''RegistryProxy: invalid response'')
            else throwM e)"

text \<open>\<open>address.set(address_string)\<close> on the argument.\<close>

definition set_address_arg :: "rcom_env \<Rightarrow> string \<Rightarrow> Address \<Rightarrow> ('w, Address) prog" where
  "set_address_arg G address_string address = (\<lambda>w. case addr_set_string (re_net G) address_string address of
       None \<Rightarrow> None
     | Some (r, address) \<Rightarrow> (case r of Inl e \<Rightarrow> Some (Inl e, w) | Inr _ \<Rightarrow> Some (Inr address, w)))"

definition read_address ::
  "rcom_env \<Rightarrow> 'w IWebSocket \<Rightarrow> Address \<Rightarrow> rat \<Rightarrow> ('w, bool \<times> Address) prog" where
  "read_address G websocket address timeout =
     bindM (read_response websocket [] timeout) (\<lambda>response.
     bindM (parse_response G response) (\<lambda>jsonobj.
     bindM (is_success jsonobj) (\<lambda>success.
     if success then
       bindM (get_address jsonobj) (\<lambda>(found, address_string).
       if found then
         bindM (set_address_arg G address_string address) (\<lambda>address. returnM (found, address))
       else returnM (found, address))
     else returnM (False, address))))"

section \<open>The operations\<close>

definition proxy_set :: "rcom_env \<Rightarrow> 'w IWebSocket \<Rightarrow> string \<Rightarrow> Address \<Rightarrow> ('w, unit) prog" where
  "proxy_set G websocket topic address =
     (let request = make_register_request [] topic address
      in bindM (send_request websocket request) (\<lambda>_. response_assert_success G websocket))"

definition proxy_remove :: "rcom_env \<Rightarrow> 'w IWebSocket \<Rightarrow> string \<Rightarrow> ('w, unit) prog" where
  "proxy_remove G websocket topic =
     (let request = make_unregister_request [] topic
      in bindM (send_request websocket request) (\<lambda>_. response_assert_success G websocket))"

text \<open>\<open>get\<close> asks until the topic is found or the time is over, with pauses of half a second.\<close>

definition proxy_get_round ::
  "rcom_env \<Rightarrow> 'w IWebSocket \<Rightarrow> 'w ILinux \<Rightarrow> bytes \<Rightarrow> rat \<Rightarrow> rat \<Rightarrow> bool \<times> bool \<times> Address
     \<Rightarrow> ('w, (bool \<times> bool \<times> Address) + bool \<times> Address) prog" where
  "proxy_get_round G websocket linux request start_time timeout = (\<lambda>(found, timed_out, address).
     if \<not> found \<and> \<not> timed_out then
       bindM (send_request websocket request) (\<lambda>_.
       bindM (read_address G websocket address timeout) (\<lambda>(found, address).
       bindM (rcom_time linux) (\<lambda>now.
       let time_passed = now - start_time;
           timed_out = (time_passed \<ge> timeout)
       in if \<not> found \<and> \<not> timed_out then
            bindM (rcom_sleep linux (min (1 / 2) (timeout - time_passed)))
              (\<lambda>_. returnM (Inl (found, timed_out, address)))
          else returnM (Inl (found, timed_out, address)))))
     else returnM (Inr (found, address)))"

definition proxy_get ::
  "rcom_env \<Rightarrow> 'w IWebSocket \<Rightarrow> 'w ILinux \<Rightarrow> string \<Rightarrow> Address \<Rightarrow> rat \<Rightarrow> ('w, bool \<times> Address) prog" where
  "proxy_get G websocket linux topic address timeout =
     bindM (rcom_time linux) (\<lambda>start_time.
     let request = make_get_request [] topic
     in loopM (proxy_get_round G websocket linux request start_time timeout) (False, False, address))"

definition RegistryProxy :: "rcom_env \<Rightarrow> 'w IWebSocket \<Rightarrow> 'w ILinux \<Rightarrow> 'w IRegistry" where
  "RegistryProxy G websocket linux = \<lparr>ireg_set = proxy_set G websocket,
     ireg_get = proxy_get G websocket linux, ireg_remove = proxy_remove G websocket\<rparr>"

definition proxy_destroy :: "'w IWebSocket \<Rightarrow> ('w, unit) prog" where
  "proxy_destroy websocket = iws_close websocket kCloseNormal"

end
