(* ===== verification/RegistryLookup.thy ===== *)
theory RegistryLookup
  imports Messaging
begin

text \<open>
  RegistryLookup.cpp and RegistryLookupServer.cpp: finding the registry with a broadcast over
  UDP, and the thread that answers; and the static functions of RegistryServer.cpp that use it.
  These files call the system directly, so the calls are a record of their own.
\<close>

section \<open>The system calls\<close>

text \<open>
  \<open>recvfrom\<close> gets the buffer without its last byte, and returns its result, the buffer and the
  address of the sender.
\<close>

record 'k udp_calls =
  udp_socket :: "('k, int) prog"
  udp_set_broadcast :: "int \<Rightarrow> ('k, int) prog"
  udp_set_rcvtimeo :: "int \<Rightarrow> int \<Rightarrow> ('k, int) prog"
  udp_bind :: "int \<Rightarrow> sockaddr_in \<Rightarrow> ('k, int) prog"
  udp_sendto :: "int \<Rightarrow> bytes \<Rightarrow> sockaddr_in \<Rightarrow> ('k, int) prog"
  udp_recvfrom :: "int \<Rightarrow> bytes \<Rightarrow> ('k, int \<times> bytes \<times> sockaddr_in) prog"
  udp_close :: "int \<Rightarrow> ('k, int) prog"

definition kLookupPort :: u16 where "kLookupPort = 10101"
definition INADDR_BROADCAST :: u32 where "INADDR_BROADCAST = 0xFFFFFFFF"
definition INADDR_ANY :: u32 where "INADDR_ANY = 0"

section \<open>The client's side\<close>

record 'k RegistryLookup =
  rl_port :: u16
  rl_socket :: int
  rl_address :: string
  rl_kernel :: 'k

definition new_RegistryLookup :: "u16 \<Rightarrow> 'k \<Rightarrow> 'k RegistryLookup" where
  "new_RegistryLookup port k = \<lparr>rl_port = port, rl_socket = -1, rl_address = [], rl_kernel = k\<rparr>"

definition rl_sys :: "('k, 'a) prog \<Rightarrow> ('k RegistryLookup, 'a) prog" where
  "rl_sys m = zoomM rl_kernel (\<lambda>k s. s\<lparr>rl_kernel := k\<rparr>) m"

definition rl_with_socket :: "(int \<Rightarrow> ('k, 'a) prog) \<Rightarrow> ('k RegistryLookup, 'a) prog" where
  "rl_with_socket m = bindM (getsM rl_socket) (\<lambda>fd. rl_sys (m fd))"

text \<open>\<open>close(socket_); throw std::runtime_error(msg);\<close>\<close>

definition rl_fail :: "'k udp_calls \<Rightarrow> string \<Rightarrow> ('k RegistryLookup, unit) prog" where
  "rl_fail U msg = bindM (rl_with_socket (udp_close U)) (\<lambda>_. throwM (RuntimeError msg))"

definition rl_create_socket :: "'k udp_calls \<Rightarrow> ('k RegistryLookup, unit) prog" where
  "rl_create_socket U =
     bindM (rl_sys (udp_socket U)) (\<lambda>fd.
     bindM (modifyM (\<lambda>s. s\<lparr>rl_socket := fd\<rparr>)) (\<lambda>_.
     bindM (whenM (fd < 0) (throwM (RuntimeError ''Failed to create socket.''))) (\<lambda>_.
     bindM (rl_with_socket (udp_set_broadcast U)) (\<lambda>rc.
     bindM (whenM (rc < 0) (rl_fail U ''Failed to enable broadcast.'')) (\<lambda>_.
     bindM (rl_with_socket (\<lambda>fd. udp_set_rcvtimeo U fd 15)) (\<lambda>rc.
     whenM (rc < 0) (rl_fail U ''Failed to set the timeout.'')))))))"

definition rl_send_message :: "'k udp_calls \<Rightarrow> ('k RegistryLookup, unit) prog" where
  "rl_send_message U =
     bindM (getsM rl_port) (\<lambda>port.
     let serverAddr = \<lparr>sin_family = AF_INET, sin_port = htons port, sin_addr = INADDR_BROADCAST\<rparr>;
         broadcastMessage = bytes_of_string ''who-has-the-registry-ip''
     in bindM (rl_with_socket (\<lambda>fd. udp_sendto U fd broadcastMessage serverAddr)) (\<lambda>bytesSent.
        whenM (bytesSent < 0) (rl_fail U ''Failed to send broadcast message.'')))"

text \<open>The byte after the ones received becomes a NUL, and the buffer is read as a C string.\<close>

definition rl_get_response :: "'k udp_calls \<Rightarrow> bytes \<Rightarrow> ('k RegistryLookup, unit) prog" where
  "rl_get_response U buffer =
     bindM (rl_with_socket (\<lambda>fd. udp_recvfrom U fd (take 1023 buffer))) (\<lambda>(bytesRead, piece, sender).
     let buffer = piece @ drop 1023 buffer
     in whenM (bytesRead > 0)
          (modifyM (\<lambda>s. s\<lparr>rl_address := string_of_bytes (c_bytes (buffer[nat bytesRead := 0]))\<rparr>)))"

text \<open>At most eight rounds, until there is an address.\<close>

fun rl_rounds :: "'k udp_calls \<Rightarrow> bytes \<Rightarrow> nat \<Rightarrow> ('k RegistryLookup, unit) prog" where
  "rl_rounds U buffer 0 = returnM ()"
| "rl_rounds U buffer (Suc n) =
     bindM (rl_send_message U) (\<lambda>_.
     bindM (rl_get_response U buffer) (\<lambda>_.
     bindM (getsM rl_address) (\<lambda>a. if a \<noteq> [] then returnM () else rl_rounds U buffer n)))"

definition rl_lookup :: "'k udp_calls \<Rightarrow> bytes \<Rightarrow> ('k RegistryLookup, string) prog" where
  "rl_lookup U uninit =
     bindM (rl_create_socket U) (\<lambda>_.
     bindM (rl_rounds U uninit 8) (\<lambda>_.
     bindM (rl_with_socket (udp_close U)) (\<lambda>_.
     bindM (getsM rl_address) (\<lambda>a.
     if a = [] then throwM (RuntimeError ''Failed to receive data.'') else returnM a))))"

section \<open>The address of the registry\<close>

text \<open>The static variables of RegistryServer.cpp, and the system.\<close>

record 'k registry_statics =
  use_registry_address :: bool
  registry_address :: Address
  st_kernel :: 'k

text \<open>\<open>RegistryLookup lookup;\<close> is a local object; \<open>address.set(s)\<close> works on the argument.\<close>

definition local_lookup :: "'k udp_calls \<Rightarrow> bytes \<Rightarrow> ('k registry_statics, string) prog" where
  "local_lookup U uninit = (\<lambda>s.
     case rl_lookup U uninit (new_RegistryLookup kLookupPort (st_kernel s)) of
       None \<Rightarrow> None
     | Some (r, l) \<Rightarrow> Some (r, s\<lparr>st_kernel := rl_kernel l\<rparr>))"

definition set_local_address ::
  "rcom_env \<Rightarrow> string \<Rightarrow> Address \<Rightarrow> ('k registry_statics, Address) prog" where
  "set_local_address G address_string address = (\<lambda>s.
     case addr_set_string (re_net G) address_string address of
       None \<Rightarrow> None
     | Some (r, address) \<Rightarrow> (case r of Inl e \<Rightarrow> Some (Inl e, s) | Inr _ \<Rightarrow> Some (Inr address, s)))"

definition registry_get_address ::
  "rcom_env \<Rightarrow> 'k udp_calls \<Rightarrow> bytes \<Rightarrow> Address \<Rightarrow> ('k registry_statics, Address) prog" where
  "registry_get_address G U uninit address =
     bindM (getsM (\<lambda>s. s)) (\<lambda>s.
     bindM (if use_registry_address s then returnM (addr_tostring (registry_address s))
            else local_lookup U uninit) (\<lambda>address_string.
     set_local_address G address_string address))"

definition registry_set_address ::
  "rcom_env \<Rightarrow> string \<Rightarrow> u16 \<Rightarrow> ('k registry_statics, unit) prog" where
  "registry_set_address G ip port =
     bindM (zoomM registry_address (\<lambda>a s. s\<lparr>registry_address := a\<rparr>) (addr_set (re_net G) (Some ip) port)) (\<lambda>_.
     modifyM (\<lambda>s. s\<lparr>use_registry_address := True\<rparr>))"

section \<open>The server's side\<close>

record 'k RegistryLookupServer =
  rls_socket :: int
  rls_address :: string
  rls_quit :: bool
  rls_kernel :: 'k

definition rls_sys :: "('k, 'a) prog \<Rightarrow> ('k RegistryLookupServer, 'a) prog" where
  "rls_sys m = zoomM rls_kernel (\<lambda>k s. s\<lparr>rls_kernel := k\<rparr>) m"

definition rls_with_socket :: "(int \<Rightarrow> ('k, 'a) prog) \<Rightarrow> ('k RegistryLookupServer, 'a) prog" where
  "rls_with_socket m = bindM (getsM rls_socket) (\<lambda>fd. rls_sys (m fd))"

definition new_RegistryLookupServer :: "string \<Rightarrow> 'k \<Rightarrow> 'k RegistryLookupServer" where
  "new_RegistryLookupServer address k =
     \<lparr>rls_socket = -1, rls_address = address, rls_quit = False, rls_kernel = k\<rparr>"

text \<open>A failure leaves the socket open: the constructor throws, and the destructor is not run.\<close>

definition rls_init :: "'k udp_calls \<Rightarrow> u16 \<Rightarrow> ('k RegistryLookupServer, unit) prog" where
  "rls_init U port =
     bindM (rls_sys (udp_socket U)) (\<lambda>fd.
     bindM (modifyM (\<lambda>s. s\<lparr>rls_socket := fd\<rparr>)) (\<lambda>_.
     bindM (whenM (fd < 0) (throwM (RuntimeError ''Failed to create socket.''))) (\<lambda>_.
     bindM (rls_with_socket (udp_set_broadcast U)) (\<lambda>rc.
     bindM (whenM (rc < 0) (throwM (RuntimeError ''Failed to enable broadcast.''))) (\<lambda>_.
     let a = \<lparr>sin_family = AF_INET, sin_port = htons port, sin_addr = INADDR_ANY\<rparr> in
     bindM (rls_with_socket (\<lambda>fd. udp_bind U fd a)) (\<lambda>rc.
     whenM (rc < 0) (throwM (RuntimeError ''Failed to bind socket to address.''))))))))"

text \<open>One round of the thread: \<open>Inr ()\<close> when \<open>quit_\<close> was set. The request itself is not looked at.\<close>

definition rls_round :: "'k udp_calls \<Rightarrow> unit \<Rightarrow> ('k RegistryLookupServer, unit + unit) prog" where
  "rls_round U = (\<lambda>_. bindM (getsM (\<lambda>s. (rls_quit s, rls_address s))) (\<lambda>(quit, address).
     if quit then returnM (Inr ())
     else
       bindM (rls_with_socket (\<lambda>fd. udp_recvfrom U fd (replicate 1023 0))) (\<lambda>(bytesRead, buffer, clientAddr).
       if bytesRead < 0 then returnM (Inl ())
       else bindM (rls_with_socket (\<lambda>fd. udp_sendto U fd (bytes_of_string address) clientAddr))
              (\<lambda>_. returnM (Inl ())))))"

definition rls_receiveLookupRequests :: "'k udp_calls \<Rightarrow> ('k RegistryLookupServer, unit) prog" where
  "rls_receiveLookupRequests U = loopM (rls_round U) ()"

text \<open>\<open>stop\<close> sets the flag, and the thread is then joined: the rest of its loop runs.\<close>

definition rls_stop :: "'k udp_calls \<Rightarrow> ('k RegistryLookupServer, unit) prog" where
  "rls_stop U = bindM (modifyM (\<lambda>s. s\<lparr>rls_quit := True\<rparr>)) (\<lambda>_. rls_receiveLookupRequests U)"

definition rls_destroy :: "'k udp_calls \<Rightarrow> ('k RegistryLookupServer, unit) prog" where
  "rls_destroy U = bindM (rls_stop U) (\<lambda>_. bindM (rls_with_socket (udp_close U)) (\<lambda>_. returnM ()))"

end
