(* ===== verification/MessageHub.thy ===== *)
theory MessageHub
  imports WebSocketServer RegistryProxy RegistryLookup Util
begin

text \<open>
  MessageHub.cpp and MessageLink.cpp: the two ends of a topic. A hub is a server whose address
  is registered under the topic, a link is a websocket to the hub, found through the registry.
  What they share is the world: the websockets, the system, and the static variables of
  RegistryServer.cpp.
\<close>

section \<open>What hubs and links share\<close>

text \<open>The part of the world that holds the static variables, and the calls made on it.\<close>

record ('k, 's) surroundings =
  su_env :: rcom_env
  su_udp :: "'k udp_calls"
  su_linux :: "'s ILinux"
  su_uninit :: bytes
  su_statics :: "'s \<Rightarrow> 'k registry_statics"
  su_put_statics :: "'k registry_statics \<Rightarrow> 's \<Rightarrow> 's"

text \<open>\<open>Address registry_address; RegistryServer::get_address(registry_address);\<close>\<close>

definition ask_registry_address :: "('k, 's) surroundings \<Rightarrow> ('s, Address) prog" where
  "ask_registry_address X =
     bindM (local_address (su_env X) (Address_default (re_net (su_env X)))) (\<lambda>registry_address.
     zoomM (su_statics X) (su_put_statics X)
       (registry_get_address (su_env X) (su_udp X) (su_uninit X) registry_address))"

text \<open>
  A websocket to the registry and a proxy on it, for the time of a block: the destructor of the
  proxy closes the websocket, which is then destroyed.
\<close>

definition with_registry ::
  "('k, 's) surroundings \<Rightarrow> ('h, 's) ISocketFactory \<Rightarrow> ('s IRegistry \<Rightarrow> ('s, 'a) prog) \<Rightarrow> ('s, 'a) prog" where
  "with_registry X F body =
     bindM (ask_registry_address X) (\<lambda>registry_address.
     bindM (sf_new_client_side F registry_address) (\<lambda>registry_socket.
     scopeM (body (RegistryProxy (su_env X) (sf_object F registry_socket) (su_linux X)))
       (bindM (proxy_destroy (sf_object F registry_socket)) (\<lambda>_. sf_delete F registry_socket))))"

section \<open>The hub\<close>

record ('h, 's) MessageHub =
  hub_server :: "('h, 's) IWebSocketServer"
  hub_factory :: "('h, 's) ISocketFactory"
  hub_topic :: string

text \<open>The pointers to the server and to the factory may be null.\<close>

definition new_MessageHub ::
  "string \<Rightarrow> ('h, 's) IWebSocketServer option \<Rightarrow> ('h, 's) ISocketFactory option \<Rightarrow> exn + ('h, 's) MessageHub" where
  "new_MessageHub topic server socket_factory =
     (case server of None \<Rightarrow> Inl (InvalidArgument ''MessageHub: Invalid server socket'')
      | Some S \<Rightarrow> (case socket_factory of None \<Rightarrow> Inl (InvalidArgument ''MessageHub: Invalid socket factory'')
        | Some F \<Rightarrow>
            if \<not> is_valid_topic topic then Inl (InvalidArgument ''MessageHub: Invalid topic'')
            else Inr \<lparr>hub_server = S, hub_factory = F, hub_topic = topic\<rparr>))"

definition hub_register_topic :: "('k, 's) surroundings \<Rightarrow> ('h, 's) MessageHub \<Rightarrow> ('s, unit) prog" where
  "hub_register_topic X hub = with_registry X (hub_factory hub) (\<lambda>R.
     bindM (local_address (su_env X) (Address_default (re_net (su_env X)))) (\<lambda>my_address.
     bindM (iwss_get_address (hub_server hub) my_address) (\<lambda>my_address.
     ireg_set R (hub_topic hub) my_address)))"

definition hub_handle_events :: "('h, 's) MessageHub \<Rightarrow> ('s, unit) prog" where
  "hub_handle_events hub = iwss_handle_events (hub_server hub)"

definition hub_broadcast ::
  "('h, 's) MessageHub \<Rightarrow> bytes \<Rightarrow> MessageType \<Rightarrow> 'h option \<Rightarrow> ('s, unit) prog" where
  "hub_broadcast hub message type exclude = iwss_broadcast (hub_server hub) message type exclude"

definition hub_count_links :: "('h, 's) MessageHub \<Rightarrow> ('s, nat) prog" where
  "hub_count_links hub = iwss_count_links (hub_server hub)"

text \<open>The end of \<open>create\<close>: a hub that is not standalone registers its topic.\<close>

definition hub_create ::
  "('k, 's) surroundings \<Rightarrow> string \<Rightarrow> ('h, 's) IWebSocketServer \<Rightarrow> ('h, 's) ISocketFactory \<Rightarrow> bool
     \<Rightarrow> ('s, ('h, 's) MessageHub) prog" where
  "hub_create X topic ws_server socket_factory standalone =
     bindM (throw_left (new_MessageHub topic (Some ws_server) (Some socket_factory))) (\<lambda>hub.
     bindM (whenM (\<not> standalone) (hub_register_topic X hub)) (\<lambda>_. returnM hub))"

section \<open>The link\<close>

text \<open>The pointer to the websocket is null until the link is connected.\<close>

record ('h, 's) MessageLink =
  ml_websocket :: "'h option"
  ml_topic :: string
  ml_recv_status :: RecvStatus
  ml_world :: 's

definition ml_on_world :: "('s, 'a) prog \<Rightarrow> (('h, 's) MessageLink, 'a) prog" where
  "ml_on_world m = zoomM ml_world (\<lambda>w l. l\<lparr>ml_world := w\<rparr>) m"

definition ml_with_websocket ::
  "('h, 's) ISocketFactory \<Rightarrow> ('s IWebSocket \<Rightarrow> ('s, 'a) prog) \<Rightarrow> (('h, 's) MessageLink, 'a) prog" where
  "ml_with_websocket F m =
     bindM (getsM ml_websocket) (\<lambda>p. ml_on_world (m (sf_object F (the p))))"

definition ml_get_remote_address ::
  "('k, 's) surroundings \<Rightarrow> ('h, 's) ISocketFactory \<Rightarrow> Address \<Rightarrow> rat \<Rightarrow> (('h, 's) MessageLink, bool \<times> Address) prog" where
  "ml_get_remote_address X F address timeout =
     bindM (getsM ml_topic) (\<lambda>topic.
     ml_on_world (with_registry X F (\<lambda>R. ireg_get R topic address timeout)))"

definition ml_connect ::
  "('k, 's) surroundings \<Rightarrow> ('h, 's) ISocketFactory \<Rightarrow> rat \<Rightarrow> (('h, 's) MessageLink, bool) prog" where
  "ml_connect X F timeout =
     bindM (local_address (su_env X) (Address_default (re_net (su_env X)))) (\<lambda>hub_address.
     bindM (ml_get_remote_address X F hub_address timeout) (\<lambda>(found, hub_address).
     if found then
       bindM (ml_on_world (sf_new_client_side F hub_address)) (\<lambda>h.
       bindM (modifyM (\<lambda>l. l\<lparr>ml_websocket := Some h\<rparr>)) (\<lambda>_. returnM True))
     else returnM False))"

text \<open>The constructor, from the members as they are initialised.\<close>

definition ml_construct ::
  "('k, 's) surroundings \<Rightarrow> ('h, 's) ISocketFactory \<Rightarrow> rat \<Rightarrow> (('h, 's) MessageLink, unit) prog" where
  "ml_construct X F timeout =
     bindM (getsM ml_topic) (\<lambda>topic.
     if \<not> is_valid_topic topic then throwM (RuntimeError ''MessageLink: Ill-formatted topic string'')
     else bindM (ml_connect X F timeout) (\<lambda>connected.
       whenM (\<not> connected) (throwM (RuntimeError ''MessageLink: Failed to connect''))))"

definition new_MessageLink :: "string \<Rightarrow> 's \<Rightarrow> ('h, 's) MessageLink" where
  "new_MessageLink topic w =
     \<lparr>ml_websocket = None, ml_topic = topic, ml_recv_status = kRecvText, ml_world = w\<rparr>"

definition ml_destroy :: "('h, 's) ISocketFactory \<Rightarrow> (('h, 's) MessageLink, unit) prog" where
  "ml_destroy F = bindM (ml_with_websocket F (\<lambda>W. iws_close W kCloseGoingAway)) (\<lambda>_.
     bindM (getsM ml_websocket) (\<lambda>p. ml_on_world (sf_delete F (the p))))"

definition ml_obtained_message :: "('h, 's) MessageLink \<Rightarrow> bool" where
  "ml_obtained_message l \<longleftrightarrow> ml_recv_status l = kRecvText \<or> ml_recv_status l = kRecvBinary"

definition ml_recv ::
  "('h, 's) ISocketFactory \<Rightarrow> bytes \<Rightarrow> rat \<Rightarrow> (('h, 's) MessageLink, bool \<times> bytes) prog" where
  "ml_recv F message timeout =
     bindM (ml_with_websocket F (\<lambda>W. iws_recv W message timeout)) (\<lambda>(status, message).
     bindM (modifyM (\<lambda>l. l\<lparr>ml_recv_status := status\<rparr>)) (\<lambda>_.
     bindM (getsM ml_obtained_message) (\<lambda>b. returnM (b, message))))"

definition ml_send ::
  "('h, 's) ISocketFactory \<Rightarrow> bytes \<Rightarrow> MessageType \<Rightarrow> (('h, 's) MessageLink, bool) prog" where
  "ml_send F message type = ml_with_websocket F (\<lambda>W. iws_send W message type)"

definition ml_is_connected :: "('h, 's) ISocketFactory \<Rightarrow> (('h, 's) MessageLink, bool) prog" where
  "ml_is_connected F = ml_with_websocket F iws_is_connected"

section \<open>IMessageLink\<close>

record 'l IMessageLink =
  iml_recv :: "bytes \<Rightarrow> rat \<Rightarrow> ('l, bool \<times> bytes) prog"
  iml_send :: "bytes \<Rightarrow> MessageType \<Rightarrow> ('l, bool) prog"
  iml_recv_status :: "('l, RecvStatus) prog"
  iml_is_connected :: "('l, bool) prog"

definition link_object :: "('h, 's) ISocketFactory \<Rightarrow> ('h, 's) MessageLink IMessageLink" where
  "link_object F = \<lparr>iml_recv = ml_recv F, iml_send = ml_send F,
     iml_recv_status = getsM ml_recv_status, iml_is_connected = ml_is_connected F\<rparr>"

end
