(* ===== verification/Loopback.thy ===== *)
theory Loopback
  imports MessageHub
begin

text \<open>
  Two ends put together: a websocket whose other end is an object that listens for messages. A
  message that is sent is handled by the listener at once; what the listener sends is what is
  received next. That the two ends of a real websocket deliver messages like this is the
  subject of the theory WebSocket_Properties. A listener that throws ends the process of its
  server: the message is not answered.
\<close>

type_synonym outbox = "(MessageType \<times> bytes) list"

text \<open>The websocket that the listener answers on.\<close>

definition outbox_socket :: "outbox IWebSocket" where
  "outbox_socket = \<lparr>iws_recv = (\<lambda>message timeout. returnM (kRecvTimeOut, message)),
     iws_send = (\<lambda>message type. bindM (modifyM (\<lambda>q. q @ [(type, message)])) (\<lambda>_. returnM True)),
     iws_close = (\<lambda>code. returnM ()), iws_is_connected = returnM True\<rparr>"

text \<open>The websocket of the client; \<open>'p\<close> is the state of the listener, with its outbox in it.\<close>

definition status_of :: "MessageType \<Rightarrow> RecvStatus" where
  "status_of type = (if type = kTextMessage then kRecvText else kRecvBinary)"

definition loop_recv ::
  "('p \<Rightarrow> outbox) \<Rightarrow> (outbox \<Rightarrow> 'p \<Rightarrow> 'p) \<Rightarrow> bytes \<Rightarrow> ('p, RecvStatus \<times> bytes) prog" where
  "loop_recv get put message = bindM (getsM get) (\<lambda>q. case q of
       [] \<Rightarrow> returnM (kRecvTimeOut, message)
     | (type, m) # q' \<Rightarrow> bindM (modifyM (put q')) (\<lambda>_. returnM (status_of type, m)))"

definition loop_send :: "(bytes \<Rightarrow> MessageType \<Rightarrow> ('p, unit) prog) \<Rightarrow> bytes \<Rightarrow> MessageType \<Rightarrow> ('p, bool) prog" where
  "loop_send onmessage message type =
     bindM (catchM (onmessage message type) (\<lambda>e. returnM ())) (\<lambda>_. returnM True)"

definition loop_socket ::
  "(bytes \<Rightarrow> MessageType \<Rightarrow> ('p, unit) prog) \<Rightarrow> ('p \<Rightarrow> outbox) \<Rightarrow> (outbox \<Rightarrow> 'p \<Rightarrow> 'p) \<Rightarrow> 'p IWebSocket" where
  "loop_socket onmessage get put = \<lparr>iws_recv = (\<lambda>message timeout. loop_recv get put message),
     iws_send = loop_send onmessage, iws_close = (\<lambda>code. returnM ()), iws_is_connected = returnM True\<rparr>"

text \<open>The factory of the websockets of a message link: there is only the one.\<close>

definition loop_factory :: "'p IWebSocket \<Rightarrow> (unit, 'p) ISocketFactory" where
  "loop_factory W = \<lparr>sf_new_server_side = (\<lambda>fd. returnM ()), sf_new_client_side = (\<lambda>a. returnM ()),
     sf_object = (\<lambda>h. W), sf_delete = (\<lambda>h. returnM ())\<rparr>"

text \<open>A system for these runs: its clock stands still, and it has no descriptors.\<close>

definition idle_linux :: "'s ILinux" where
  "idle_linux = \<lparr>lx_clock_gettime = returnM (0, 0), lx_clock_nanosleep = (\<lambda>_ _. returnM 0),
     lx_getrandom = (\<lambda>b. returnM (-1, b)), lx_poll = (\<lambda>_ _ _. returnM (-1, 0)), lx_socket = returnM (-1),
     lx_connect = (\<lambda>_ _. returnM (-1)), lx_bind = (\<lambda>_ _. returnM (-1)), lx_listen = (\<lambda>_ _. returnM (-1)),
     lx_accept = (\<lambda>_. returnM (-1)), lx_getsockname = (\<lambda>_ a. returnM a),
     lx_setsockopt_nodelay = (\<lambda>_ _. returnM (-1)), lx_shutdown = (\<lambda>_. returnM (-1)), lx_close = (\<lambda>_. returnM (-1)),
     lx_recv = (\<lambda>_ b _. returnM (-1, b)), lx_send = (\<lambda>_ _ _. returnM (-1)), lx_errno = returnM 9,
     lx_raw_recv = (\<lambda>_ b _. returnM (-1, b))\<rparr>"

lemma idle_time [simp]: "rcom_time idle_linux s = Some (Inr 0, s)"
  by (simp add: rcom_time_def idle_linux_def run)

lemmas loop_defs = outbox_socket_def loop_recv_def loop_send_def loop_socket_def loop_factory_def

end
