(* ===== verification/RegistryServer.thy ===== *)
theory RegistryServer
  imports Messaging
begin

text \<open>
  RegistryServer.cpp: the listener that keeps a registry for the hubs and links of the network.
  A message is a JSON object with a request; the answer is printed with \<open>printf\<close>, so what goes
  into it is not escaped. The registry is an object of the interface \<open>IRegistry\<close>.
\<close>

section \<open>The object\<close>

record ('r, 'w) RegistryServer =
  rsv_registry :: 'r
  rsv_response :: bytes
  rsv_world :: 'w

definition new_RegistryServer :: "'r \<Rightarrow> 'w \<Rightarrow> ('r, 'w) RegistryServer" where
  "new_RegistryServer r w = \<lparr>rsv_registry = r, rsv_response = [], rsv_world = w\<rparr>"

definition on_registry :: "('r, 'a) prog \<Rightarrow> (('r, 'w) RegistryServer, 'a) prog" where
  "on_registry m = zoomM rsv_registry (\<lambda>r s. s\<lparr>rsv_registry := r\<rparr>) m"

definition on_net :: "('w, 'a) prog \<Rightarrow> (('r, 'w) RegistryServer, 'a) prog" where
  "on_net m = zoomM rsv_world (\<lambda>w s. s\<lparr>rsv_world := w\<rparr>) m"

section \<open>Answers\<close>

definition send_response :: "'w IWebSocket \<Rightarrow> (('r, 'w) RegistryServer, unit) prog" where
  "send_response websocket = bindM (getsM rsv_response) (\<lambda>response.
     bindM (on_net (iws_send websocket response kTextMessage)) (\<lambda>sent. returnM ()))"

text \<open>\<open>response_.clear(); response_.printf(text);\<close>\<close>

definition print_response :: "string \<Rightarrow> (('r, 'w) RegistryServer, unit) prog" where
  "print_response text = modifyM (\<lambda>s. s\<lparr>rsv_response := [] @ bytes_of_string (mb_vprintf text)\<rparr>)"

definition success_text :: string where
  "success_text = ''{'' @ dquoted ''success'' @ '':true}''"

definition address_text :: "string \<Rightarrow> string \<Rightarrow> string" where
  "address_text topic address_string =
     ''{'' @ dquoted ''success'' @ '':true, '' @ dquoted ''topic'' @ '': '' @ dquoted (c_str topic)
     @ '', '' @ dquoted ''address'' @ '': '' @ dquoted (c_str address_string) @ ''}''"

definition fail_text :: "string \<Rightarrow> string" where
  "fail_text message =
     ''{'' @ dquoted ''success'' @ '':false, '' @ dquoted ''message'' @ '':'' @ dquoted (c_str message) @ ''}''"

definition send_success :: "'w IWebSocket \<Rightarrow> (('r, 'w) RegistryServer, unit) prog" where
  "send_success websocket = blockM [print_response success_text, send_response websocket]"

definition send_empty_address :: "'w IWebSocket \<Rightarrow> (('r, 'w) RegistryServer, unit) prog" where
  "send_empty_address websocket = blockM [print_response success_text, send_response websocket]"

definition send_fail :: "'w IWebSocket \<Rightarrow> string \<Rightarrow> (('r, 'w) RegistryServer, unit) prog" where
  "send_fail websocket message =
     blockM [print_response (fail_text message), send_response websocket]"

definition send_address ::
  "'w IWebSocket \<Rightarrow> string \<Rightarrow> Address \<Rightarrow> (('r, 'w) RegistryServer, unit) prog" where
  "send_address websocket topic address =
     blockM [print_response (address_text topic (addr_tostring address)), send_response websocket]"

section \<open>Requests\<close>

definition rsv_set :: "'r IRegistry \<Rightarrow> string \<Rightarrow> Address \<Rightarrow> (('r, 'w) RegistryServer, unit) prog" where
  "rsv_set R topic address = on_registry (ireg_set R topic address)"

definition rsv_get ::
  "'r IRegistry \<Rightarrow> string \<Rightarrow> Address \<Rightarrow> (('r, 'w) RegistryServer, bool \<times> Address) prog" where
  "rsv_get R topic address = on_registry (ireg_get R topic address 12)"

definition rsv_remove :: "'r IRegistry \<Rightarrow> string \<Rightarrow> (('r, 'w) RegistryServer, unit) prog" where
  "rsv_remove R topic = on_registry (ireg_remove R topic)"

definition handle_register ::
  "rcom_env \<Rightarrow> 'r IRegistry \<Rightarrow> 'w IWebSocket \<Rightarrow> json \<Rightarrow> (('r, 'w) RegistryServer, unit) prog" where
  "handle_register G R websocket message =
     catchM
       (bindM (throw_left (string_field ''topic'' message)) (\<lambda>topic.
        bindM (throw_left (string_field ''address'' message)) (\<lambda>address_string.
        bindM (local_address G (Address_string (re_net G) address_string)) (\<lambda>address.
        bindM (rsv_set R topic address) (\<lambda>_.
        send_success websocket)))))
       (\<lambda>e. send_fail websocket ''RegistryServer: set failed'')"

definition handle_unregister ::
  "'r IRegistry \<Rightarrow> 'w IWebSocket \<Rightarrow> json \<Rightarrow> (('r, 'w) RegistryServer, unit) prog" where
  "handle_unregister R websocket message =
     catchM
       (bindM (throw_left (string_field ''topic'' message)) (\<lambda>topic.
        bindM (rsv_remove R topic) (\<lambda>_.
        send_success websocket)))
       (\<lambda>e. send_fail websocket ''RegistryServer: remove failed'')"

definition handle_get ::
  "rcom_env \<Rightarrow> 'r IRegistry \<Rightarrow> 'w IWebSocket \<Rightarrow> json \<Rightarrow> (('r, 'w) RegistryServer, unit) prog" where
  "handle_get G R websocket message =
     catchM
       (bindM (local_address G (Address_default (re_net G))) (\<lambda>address.
        bindM (throw_left (string_field ''topic'' message)) (\<lambda>topic.
        bindM (rsv_get R topic address) (\<lambda>(found, address).
        if found then send_address websocket topic address
        else send_empty_address websocket))))
       (\<lambda>e. if is_runtime_error e then send_fail websocket (what e) else throwM e)"

definition handle_json_message ::
  "rcom_env \<Rightarrow> 'r IRegistry \<Rightarrow> 'w IWebSocket \<Rightarrow> json \<Rightarrow> (('r, 'w) RegistryServer, unit) prog" where
  "handle_json_message G R websocket message =
     bindM (throw_left (string_field ''request'' message)) (\<lambda>request.
     if request = ''register'' then handle_register G R websocket message
     else if request = ''unregister'' then handle_unregister R websocket message
     else if request = ''get'' then handle_get G R websocket message
     else send_fail websocket ''Unknown request'')"

definition handle_message ::
  "rcom_env \<Rightarrow> 'r IRegistry \<Rightarrow> 'w IWebSocket \<Rightarrow> bytes \<Rightarrow> (('r, 'w) RegistryServer, unit) prog" where
  "handle_message G R websocket message =
     bindM (json_parse (re_json G) message) (\<lambda>obj. handle_json_message G R websocket obj)"

definition registry_onmessage ::
  "rcom_env \<Rightarrow> 'r IRegistry \<Rightarrow> 'w IWebSocket \<Rightarrow> bytes \<Rightarrow> MessageType
     \<Rightarrow> (('r, 'w) RegistryServer, unit) prog" where
  "registry_onmessage G R websocket message type =
     catchM (handle_message G R websocket message)
       (\<lambda>e. if is_json_error e then send_fail websocket (what e)
            else if is_runtime_error e then send_fail websocket (what e)
            else send_fail websocket ''Internal error'')"

end
