(* ===== verification/Message_Texts.thy ===== *)
theory Message_Texts
  imports Loopback Json_Roundtrip RegistryServer
begin

text \<open>
  The messages between a registry and its clients are printed by hand. When what goes into them
  needs no escaping they are texts of RFC 8259, and the other end reads what was meant.
\<close>

section \<open>Strings that need no escaping\<close>

definition plain_text :: "string \<Rightarrow> bool" where
  "plain_text s \<longleftrightarrow> utf8_string s \<and> list_all plain_byte (bytes_of_string s)"

lemma plain_body: "plain_text s \<Longrightarrow> string_body (bytes_of_string s) (bytes_of_string s)"
proof -
  assume p: "plain_text s"
  then obtain cps where c: "list_all scalar_value cps" "bytes_of_string s = concat (map utf8_encode cps)"
    by (auto simp: plain_text_def utf8_string_def utf8_ok_iff)
  have "escape_bytes (bytes_of_string s) = bytes_of_string s"
    using p by (intro escape_bytes_plain) (simp add: plain_text_def)
  with escape_body [OF c(1)] c(2) show ?thesis by simp
qed

lemma plain_text_no_nul:
  assumes "plain_text s" and "c \<in> set s"
  shows "byte_of_char c \<noteq> 0"
proof
  assume z: "byte_of_char c = 0"
  from assms have "plain_byte (byte_of_char c)"
    by (auto simp: plain_text_def bytes_of_string_def list_all_iff)
  with z show False by (simp add: plain_byte_def)
qed

lemma c_str_whole: "(\<forall>c \<in> set s. byte_of_char c \<noteq> 0) \<Longrightarrow> c_str s = s"
  by (rule c_str_id) blast

lemma plain_c_str [simp]: "plain_text s \<Longrightarrow> c_str s = s"
  using plain_text_no_nul by (blast intro: c_str_whole)

lemma c_bytes_of_string: "(\<forall>c \<in> set s. byte_of_char c \<noteq> 0) \<Longrightarrow> c_bytes (bytes_of_string s) = bytes_of_string s"
  unfolding c_bytes_def by (rule takeWhile_all) (auto simp: bytes_of_string_def)

text \<open>Addresses are plain.\<close>

lemma plain_ascii: "(\<And>c. c \<in> set s \<Longrightarrow> is_digit (byte_of_char c) \<or> byte_of_char c \<in> {46, 58}) \<Longrightarrow> plain_text s"
proof -
  assume a: "\<And>c. c \<in> set s \<Longrightarrow> is_digit (byte_of_char c) \<or> byte_of_char c \<in> {46, 58}"
  have x: "plain_byte x \<and> x < 0x80" if "is_digit x \<or> x \<in> {46, 58}" for x
    using that by (auto simp: plain_byte_def is_digit_def word_le_nat_alt word_less_nat_alt word_unat_eq_iff)
  have b: "plain_byte (byte_of_char c) \<and> byte_of_char c < 0x80" if "c \<in> set s" for c
    using x a [OF that] by blast
  have "utf8_ok [] (bytes_of_string s)" using b by (induction s) auto
  with b show ?thesis by (auto simp: plain_text_def utf8_string_def bytes_of_string_def list_all_iff)
qed

lemma plain_address: "plain_text (addr_tostring a)"
proof (rule plain_ascii)
  have d: "is_digit (byte_of_char c)" if "c \<in> set (to_decimal n)" for c n
    using that to_decimal_digits [of n] by (auto simp: bytes_of_string_def)
  show "c \<in> set (addr_tostring a) \<Longrightarrow> is_digit (byte_of_char c) \<or> byte_of_char c \<in> {46, 58}" for c
    using d by (auto simp: addr_tostring_def addr_ip_def inet_ntoa_def Let_def byte_of_char_def)
qed

section \<open>Objects\<close>

lemma bytes_dquoted: "bytes_of_string (dquoted s) = 0x22 # bytes_of_string s @ [0x22]"
  by (simp add: dquoted_def q_char_def byte_of_char_def)

lemma member_text:
  assumes "plain_text k" and "json_ws w" and "json_ws w2" and "json_text F v t"
  shows "members_text F [(k, v)] (w @ bytes_of_string (dquoted k) @ 0x3A # w2 @ t)"
    and "members_text F ms ts \<Longrightarrow> members_text F ((k, v) # ms) (w @ bytes_of_string (dquoted k) @ 0x3A # w2 @ t @ 0x2C # ts)"
  using members_one [OF assms(2) plain_body [OF assms(1)] json_ws_Nil assms(3,4) json_ws_Nil]
    members_more [OF assms(2) plain_body [OF assms(1)] json_ws_Nil assms(3,4) json_ws_Nil, of ms ts]
  by (simp_all add: bytes_dquoted)

lemma string_text: "plain_text s \<Longrightarrow> json_text F (JString s) (bytes_of_string (dquoted s))"
  using text_string [OF plain_body, of s F] by (simp add: bytes_dquoted)

text \<open>The members of an object of strings, as they are printed.\<close>

fun fields_text :: "(string \<times> string) list \<Rightarrow> string" where
  "fields_text [] = []"
| "fields_text [(k, v)] = dquoted k @ '': '' @ dquoted v"
| "fields_text ((k, v) # p # ps) = dquoted k @ '': '' @ dquoted v @ '', '' @ fields_text (p # ps)"

abbreviation string_members :: "(string \<times> string) list \<Rightarrow> (string \<times> json) list" where
  "string_members \<equiv> map (\<lambda>(k, v). (k, JString v))"

lemma fields_members:
  assumes "\<forall>(k, v) \<in> set ps. plain_text k \<and> plain_text v" and "ps \<noteq> []" and "json_ws w"
  shows "members_text F (string_members ps) (w @ bytes_of_string (fields_text ps))"
  using assms
proof (induction ps arbitrary: w rule: fields_text.induct)
  case (2 k v)
  have sp: "json_ws [0x20]" "json_space 0x20" by (simp_all add: json_space_def)
  from 2 show ?case
    using member_text(1) [of k w "[0x20]" F "JString v" "bytes_of_string (dquoted v)"] sp string_text [of v F]
    by (simp add: byte_of_char_def)
next
  case (3 k v p ps)
  have sp: "json_ws [0x20]" "json_space 0x20" by (simp_all add: json_space_def)
  from 3 have "members_text F (string_members (p # ps)) ([0x20] @ bytes_of_string (fields_text (p # ps)))"
    by (intro "3.IH") (auto simp: sp)
  with 3 show ?case
    using member_text(2) [of k w "[0x20]" F "JString v" "bytes_of_string (dquoted v)"] sp string_text [of v F]
    by (simp add: byte_of_char_def)
qed simp

lemma object_document: "members_text F ms t \<Longrightarrow> json_document F (members_value ms) (0x7B # t @ [0x7D])"
  using text_object [of F ms t] unfolding json_document_def by (metis append_Nil append_Nil2 json_ws_Nil)

text \<open>Reading a field: the last member with the key.\<close>

lemma obj_find_members: "obj_find k (put_members ps ms) = (case map_of (rev ms) k of Some v \<Rightarrow> Some v | None \<Rightarrow> obj_find k ps)"
proof (induction ms arbitrary: ps)
  case (Cons m ms)
  then show ?case by (cases m) (auto simp: obj_find_put map_add_def split: option.split)
qed simp

lemma json_get_members:
  "json_get k (members_value ms) = (case map_of (rev ms) k of Some v \<Rightarrow> Inr v | None \<Rightarrow> Inr JNull)"
  using obj_find_members [of k "[]" ms]
  by (auto simp: members_value_def json_get_def json_index_def obj_find_def split: option.splits)

lemma string_field_members:
  "string_field k (members_value ms) = (case map_of (rev ms) k of
      Some v \<Rightarrow> json_to_string v | None \<Rightarrow> json_to_string JNull)"
  by (simp add: string_field_def json_get_members and_then_def split: option.split)

section \<open>The requests and the answers\<close>

lemma no_nul_dquoted: "(\<forall>c \<in> set s. byte_of_char c \<noteq> 0) \<Longrightarrow> \<forall>c \<in> set (dquoted s). byte_of_char c \<noteq> 0"
  by (auto simp: dquoted_def q_char_def byte_of_char_def)

lemma no_nul_fields:
  "\<forall>(k, v) \<in> set ps. plain_text k \<and> plain_text v \<Longrightarrow> \<forall>c \<in> set (fields_text ps). byte_of_char c \<noteq> 0"
proof (induction ps rule: fields_text.induct)
  case (2 k v)
  then have "\<forall>c \<in> set (dquoted k). byte_of_char c \<noteq> 0" "\<forall>c \<in> set (dquoted v). byte_of_char c \<noteq> 0"
    using no_nul_dquoted plain_text_no_nul by auto
  then show ?case by (auto simp: byte_of_char_def)
next
  case (3 k v p ps)
  then have "\<forall>c \<in> set (dquoted k). byte_of_char c \<noteq> 0" "\<forall>c \<in> set (dquoted v). byte_of_char c \<noteq> 0"
    "\<forall>c \<in> set (fields_text (p # ps)). byte_of_char c \<noteq> 0"
    using no_nul_dquoted plain_text_no_nul by auto
  then show ?case by (auto simp: byte_of_char_def)
qed simp

definition object_text :: "(string \<times> string) list \<Rightarrow> string" where
  "object_text ps = ''{'' @ fields_text ps @ ''}''"

lemma object_text_document:
  assumes "\<forall>(k, v) \<in> set ps. plain_text k \<and> plain_text v" and "ps \<noteq> []"
  shows "json_document F (members_value (string_members ps)) (bytes_of_string (mb_vprintf (object_text ps)))"
proof -
  have "\<forall>c \<in> set (object_text ps). byte_of_char c \<noteq> 0"
    using no_nul_fields [OF assms(1)] by (auto simp: object_text_def byte_of_char_def)
  then have "mb_vprintf (object_text ps) = object_text ps" by (simp add: mb_vprintf_def c_str_whole)
  then show ?thesis
    using object_document [OF fields_members [OF assms json_ws_Nil, of F]]
    by (simp add: object_text_def byte_of_char_def)
qed

end
