(* ===== verification/Registry_Service.thy ===== *)
theory Registry_Service
  imports Message_Texts
begin

text \<open>
  A proxy on one end and a registry server on the other: together they are a registry again, for
  topics and addresses that survive being printed. It is the same contract as the one of the
  registry behind the server, except that asking for an unknown topic throws.
\<close>

section \<open>The two ends\<close>

definition service_socket :: "rcom_env \<Rightarrow> 'r IRegistry \<Rightarrow> ('r, outbox) RegistryServer IWebSocket" where
  "service_socket G R = loop_socket (registry_onmessage G R outbox_socket) rsv_world (\<lambda>q s. s\<lparr>rsv_world := q\<rparr>)"

definition service_proxy ::
  "rcom_env \<Rightarrow> 'r IRegistry \<Rightarrow> ('r, outbox) RegistryServer ILinux \<Rightarrow> ('r, outbox) RegistryServer IRegistry" where
  "service_proxy G R linux = RegistryProxy G (service_socket G R) linux"

text \<open>An address that is printed and parsed again.\<close>

definition good_address :: "rcom_env \<Rightarrow> Address \<Rightarrow> bool" where
  "good_address G a \<longleftrightarrow> addr_is_set a \<and> sin_family (addr a) = AF_INET
     \<and> inet_aton (re_net G) (inet_ntoa (sin_addr (addr a))) = Some (sin_addr (addr a))"

lemma good_parse: "good_address G a \<Longrightarrow> addr_parse (re_net G) (addr_tostring a) b = Some (Inr (), a)"
  using parse_tostring [of "re_net G" a b] by (simp add: good_address_def)

lemma good_construct: "good_address G a \<Longrightarrow> Address_string (re_net G) (addr_tostring a) ip = Some (Inr a, ip)"
  unfolding Address_string_def constructed_def
  by (simp only: good_parse option.case prod.case sum.case unit.case)

section \<open>Messages\<close>

lemma json_parse_wp: "json_document F v bs \<Longrightarrow> wp T (json_parse F bs) Q E s = Q v s"
  by (simp add: wp_def json_parse_document)

lemma send_wp:
  "wp T (send_request (service_socket G R) req) Q E s =
     wp T (registry_onmessage G R outbox_socket req kTextMessage) (\<lambda>_. Q ()) (\<lambda>_. Q ()) s"
  by (simp add: send_request_def service_socket_def loop_defs wp_bind wp_catch wp_ext wp_basic)

lemma read_wp:
  "rsv_world s = [(kTextMessage, m)] \<Longrightarrow>
     wp T (read_response (service_socket G R) b timeout) Q E s = Q m (s\<lparr>rsv_world := []\<rparr>)"
  by (simp add: read_response_def service_socket_def loop_defs status_of_def wp_rules)

lemma send_response_wp:
  "wp T (send_response outbox_socket) Q E s = Q () (s\<lparr>rsv_world := rsv_world s @ [(kTextMessage, rsv_response s)]\<rparr>)"
  by (simp add: send_response_def on_net_def outbox_socket_def wp_rules)

text \<open>The texts that are sent, as objects.\<close>

lemma plain_words [simp]:
  "plain_text ''request''" "plain_text ''topic''" "plain_text ''address''" "plain_text ''success''"
  "plain_text ''register''" "plain_text ''unregister''" "plain_text ''get''"
  by (simp_all add: plain_text_def utf8_string_def byte_of_char_def plain_byte_def)

lemma requests:
  assumes "plain_text t"
  shows "make_register_request [] t a = bytes_of_string (mb_vprintf (object_text
      [(''request'', ''register''), (''topic'', t), (''address'', addr_tostring a)]))"
    and "make_unregister_request [] t = bytes_of_string (mb_vprintf (object_text
      [(''request'', ''unregister''), (''topic'', t)]))"
    and "make_get_request [] t = bytes_of_string (mb_vprintf (object_text
      [(''request'', ''get''), (''topic'', t)]))"
  using assms plain_address [of a]
  by (simp_all add: make_register_request_def make_unregister_request_def make_get_request_def object_text_def Let_def)

lemma success_no_nul: "mb_vprintf success_text = success_text"
  unfolding mb_vprintf_def
  by (rule c_str_whole) (simp add: success_text_def dquoted_def q_char_def byte_of_char_def)

lemma success_document:
  "json_document F (members_value [(''success'', JBool True)]) (c_bytes (bytes_of_string (mb_vprintf success_text)))"
proof -
  have "json_document F (members_value [(''success'', JBool True)])
     (0x7B # (bytes_of_string (dquoted ''success'') @ 0x3A # bytes_of_string ''true'') @ [0x7D])"
    by (rule object_document) (use member_text(1) [OF _ json_ws_Nil json_ws_Nil text_true, of "''success''" F] in simp)
  also have "0x7B # (bytes_of_string (dquoted ''success'') @ 0x3A # bytes_of_string ''true'') @ [0x7D]
      = bytes_of_string success_text"
    by (simp add: success_text_def byte_of_char_def)
  also have "bytes_of_string success_text = c_bytes (bytes_of_string success_text)"
    by (rule c_bytes_of_string [symmetric]) (simp add: success_text_def dquoted_def q_char_def byte_of_char_def)
  finally show ?thesis by (simp add: success_no_nul)
qed

lemma address_document:
  assumes "plain_text t" and "plain_text x"
  shows "json_document F (members_value [(''success'', JBool True), (''topic'', JString t), (''address'', JString x)])
     (c_bytes (bytes_of_string (mb_vprintf (address_text t x))))"
proof -
  have sp: "json_ws [0x20]" "json_space 0x20" by (simp_all add: json_space_def)
  have fs: "\<forall>(k, v) \<in> set [(''topic'', t), (''address'', x)]. plain_text k \<and> plain_text v" using assms by simp
  have ms: "members_text F [(''topic'', JString t), (''address'', JString x)]
      ([0x20] @ bytes_of_string (fields_text [(''topic'', t), (''address'', x)]))"
    using fields_members [OF fs _ sp(1), of F] by simp
  have eq: "address_text t x = ''{'' @ dquoted ''success'' @ '':true, '' @ fields_text [(''topic'', t), (''address'', x)] @ ''}''"
    using assms by (simp add: address_text_def)
  have nul: "\<forall>c \<in> set (address_text t x). byte_of_char c \<noteq> 0"
    using no_nul_fields [OF fs] unfolding eq by (auto simp: dquoted_def q_char_def byte_of_char_def)
  have "json_document F (members_value [(''success'', JBool True), (''topic'', JString t), (''address'', JString x)])
     (0x7B # (bytes_of_string (dquoted ''success'') @ 0x3A # bytes_of_string ''true''
        @ 0x2C # [0x20] @ bytes_of_string (fields_text [(''topic'', t), (''address'', x)])) @ [0x7D])"
    by (rule object_document)
      (use member_text(2) [OF _ json_ws_Nil json_ws_Nil text_true ms, of "''success''"] in simp)
  also have "0x7B # (bytes_of_string (dquoted ''success'') @ 0x3A # bytes_of_string ''true''
        @ 0x2C # [0x20] @ bytes_of_string (fields_text [(''topic'', t), (''address'', x)])) @ [0x7D]
      = bytes_of_string (address_text t x)"
    unfolding eq by (simp add: byte_of_char_def)
  also have "bytes_of_string (address_text t x) = c_bytes (bytes_of_string (address_text t x))"
    by (rule c_bytes_of_string [symmetric, OF nul])
  finally show ?thesis using nul by (simp add: mb_vprintf_def c_str_whole)
qed


section \<open>The service\<close>

locale registry_service = registry R contents intact
  for R :: "'r IRegistry" and contents :: "'r \<Rightarrow> string \<Rightarrow> Address option" and intact :: "'r \<Rightarrow> bool" +
  fixes G :: rcom_env
    and linux :: "('r, outbox) RegistryServer ILinux"
  assumes own_address: "\<exists>a ip. Address_default (re_net G) (re_ip G) = Some (Inr a, ip)"
    and clock: "\<exists>t. rcom_time linux s = Some (Inr t, s)"
begin

definition online :: "('r, outbox) RegistryServer \<Rightarrow> bool" where
  "online s \<longleftrightarrow> intact (rsv_registry s) \<and> rsv_world s = []"

text \<open>What the server answers, and what it does to its registry.\<close>

definition answered ::
  "(string \<Rightarrow> Address option) \<Rightarrow> string \<Rightarrow> ('r, outbox) RegistryServer \<Rightarrow> bool" where
  "answered m text s \<longleftrightarrow> intact (rsv_registry s) \<and> contents (rsv_registry s) = m
     \<and> rsv_world s = [(kTextMessage, bytes_of_string (mb_vprintf text))]"

lemma handle_set:
  assumes "online s" and "plain_text t" and "good_address G a"
  shows "wp False (registry_onmessage G R outbox_socket (make_register_request [] t a) kTextMessage)
     (\<lambda>_. answered ((contents (rsv_registry s))(t \<mapsto> a)) success_text) (\<lambda>_ _. False) s"
proof -
  have doc: "json_document (re_json G) (members_value (string_members
      [(''request'', ''register''), (''topic'', t), (''address'', addr_tostring a)])) (make_register_request [] t a)"
    unfolding requests(1) [OF assms(2)]
    by (rule object_text_document) (use assms(2) plain_address in auto)
  have addr: "wp T (local_address G (Address_string (re_net G) (addr_tostring a))) Q E u = Q a u" for T Q E and u :: "('r, outbox) RegistryServer"
    by (simp add: wp_def local_address_def good_construct [OF assms(3)])
  have set: "wp False (ireg_set R t a) (\<lambda>_ r. intact r \<and> contents r = (contents (rsv_registry s))(t \<mapsto> a)) (\<lambda>_ _. False) (rsv_registry s)"
    using assms by (intro set_law) (simp_all add: online_def good_address_def)
  show ?thesis
    unfolding registry_onmessage_def handle_message_def wp_catch wp_bind json_parse_wp [OF doc]
    using assms(1)
    by (simp add: handle_json_message_def string_field_members json_to_string_def throw_left_def wp_rules
        handle_register_def addr rsv_set_def on_registry_def)
      (rule wp_mono [OF set], auto simp: send_success_def print_response_def wp_rules send_response_wp answered_def online_def)
qed

lemma handle_remove:
  assumes "online s" and "plain_text t"
  shows "wp False (registry_onmessage G R outbox_socket (make_unregister_request [] t) kTextMessage)
     (\<lambda>_. answered ((contents (rsv_registry s))(t := None)) success_text) (\<lambda>_ _. False) s"
proof -
  have doc: "json_document (re_json G) (members_value (string_members
      [(''request'', ''unregister''), (''topic'', t)])) (make_unregister_request [] t)"
    unfolding requests(2) [OF assms(2)]
    by (rule object_text_document) (use assms(2) in auto)
  have rem: "wp False (ireg_remove R t) (\<lambda>_ r. intact r \<and> contents r = (contents (rsv_registry s))(t := None)) (\<lambda>_ _. False) (rsv_registry s)"
    using assms by (intro remove_law) (simp add: online_def)
  show ?thesis
    unfolding registry_onmessage_def handle_message_def wp_catch wp_bind json_parse_wp [OF doc]
    using assms(1)
    by (simp add: handle_json_message_def string_field_members json_to_string_def throw_left_def wp_rules
        handle_unregister_def rsv_remove_def on_registry_def)
      (rule wp_mono [OF rem], auto simp: send_success_def print_response_def wp_rules send_response_wp answered_def online_def)
qed

lemma handle_get_topic:
  assumes "online s" and "plain_text t"
  shows "wp False (registry_onmessage G R outbox_socket (make_get_request [] t) kTextMessage)
     (\<lambda>_. answered (contents (rsv_registry s)) (case contents (rsv_registry s) t of
        None \<Rightarrow> success_text | Some x \<Rightarrow> address_text t (addr_tostring x))) (\<lambda>_ _. False) s"
proof -
  have doc: "json_document (re_json G) (members_value (string_members
      [(''request'', ''get''), (''topic'', t)])) (make_get_request [] t)"
    unfolding requests(3) [OF assms(2)]
    by (rule object_text_document) (use assms(2) in auto)
  obtain a where own: "wp T (local_address G (Address_default (re_net G))) Q E u = Q a u"
    for T Q E and u :: "('r, outbox) RegistryServer"
    using own_address by (auto simp: wp_def local_address_def)
  have "intact (rsv_registry s)" using assms(1) by (simp add: online_def)
  note get = get_law [OF this, of t a 12]
  show ?thesis
    unfolding registry_onmessage_def handle_message_def wp_catch wp_bind json_parse_wp [OF doc]
    using assms(1)
    by (simp add: handle_json_message_def string_field_members json_to_string_def throw_left_def wp_rules
        handle_get_def own rsv_get_def on_registry_def)
      (rule wp_mono [OF get], auto simp: send_empty_address_def send_address_def print_response_def wp_rules
        send_response_wp answered_def online_def split: option.splits)
qed

text \<open>The proxy's side: it takes the answer off the socket and looks into it.\<close>

lemma parse_response_wp:
  "json_document (re_json G) v (c_bytes m) \<Longrightarrow> wp T (parse_response G m) Q E s = Q v s"
  by (simp add: parse_response_def wp_catch json_parse_wp)

lemma success_field: "bool_field ''success'' (members_value ((''success'', JBool True) # ms)) = Inr True"
  if "''success'' \<notin> fst ` set ms"
proof -
  have "map_of (rev ms) ''success'' = None" using that by (simp add: map_of_eq_None_iff)
  then show ?thesis by (simp add: bool_field_def json_get_members and_then_def json_to_bool_def map_add_def)
qed

lemma assert_success_wp:
  assumes "answered m success_text s"
  shows "wp T (response_assert_success G (service_socket G R)) Q E s = Q () (s\<lparr>rsv_world := []\<rparr>)"
proof -
  have w: "rsv_world s = [(kTextMessage, bytes_of_string (mb_vprintf success_text))]"
    using assms by (simp add: answered_def)
  show ?thesis
    by (simp add: response_assert_success_def wp_bind read_wp [OF w] parse_response_wp [OF success_document]
        assert_success_def success_field throw_left_def wp_rules)
qed

lemma online_answered: "answered m text s \<Longrightarrow> online (s\<lparr>rsv_world := []\<rparr>) \<and> contents (rsv_registry s) = m"
  by (simp add: answered_def online_def)

lemma proxy_set_law:
  assumes "online s" and "plain_text t" and "good_address G a"
  shows "wp False (ireg_set (service_proxy G R linux) t a)
     (\<lambda>_ u. online u \<and> contents (rsv_registry u) = (contents (rsv_registry s))(t \<mapsto> a)) (\<lambda>_ _. False) s"
  by (simp add: service_proxy_def RegistryProxy_def proxy_set_def Let_def wp_bind send_wp)
    (rule wp_mono [OF handle_set [OF assms]], simp_all add: assert_success_wp online_answered)

lemma proxy_remove_law:
  assumes "online s" and "plain_text t"
  shows "wp False (ireg_remove (service_proxy G R linux) t)
     (\<lambda>_ u. online u \<and> contents (rsv_registry u) = (contents (rsv_registry s))(t := None)) (\<lambda>_ _. False) s"
  by (simp add: service_proxy_def RegistryProxy_def proxy_remove_def Let_def wp_bind send_wp)
    (rule wp_mono [OF handle_remove [OF assms]], simp_all add: assert_success_wp online_answered)


text \<open>Asking: the address comes back at the first attempt, or the proxy throws.\<close>

lemma get_request_wp:
  assumes "online s" and "plain_text t"
    and "\<And>u. answered (contents (rsv_registry s)) (case contents (rsv_registry s) t of
        None \<Rightarrow> success_text | Some x \<Rightarrow> address_text t (addr_tostring x)) u \<Longrightarrow>
      wp False (read_address G (service_socket G R) a timeout) (\<lambda>(found, b) u. P found b u) E u"
  shows "wp False (bindM (send_request (service_socket G R) (make_get_request [] t)) (\<lambda>_.
      read_address G (service_socket G R) a timeout)) (\<lambda>(found, b) u. P found b u) E s"
  unfolding wp_bind send_wp
  by (rule wp_mono [OF handle_get_topic [OF assms(1,2)]]) (use assms(3) in auto)

lemma read_found:
  assumes "answered m (address_text t (addr_tostring x)) u" and "plain_text t" and "good_address G x"
  shows "wp False (read_address G (service_socket G R) a timeout)
     (\<lambda>(found, b) u. online u \<and> contents (rsv_registry u) = m \<and> found \<and> b = x) E u"
proof -
  have w: "rsv_world u = [(kTextMessage, bytes_of_string (mb_vprintf (address_text t (addr_tostring x))))]"
    using assms(1) by (simp add: answered_def)
  have p: "wp False (set_address_arg G (addr_tostring x) a) Q E u = Q x u" for Q E u
    using good_parse [OF assms(3)] by (simp add: wp_def set_address_arg_def addr_set_string_def)
  show ?thesis
    using online_answered [OF assms(1)]
    by (simp add: read_address_def wp_bind read_wp [OF w] parse_response_wp [OF address_document [OF assms(2) plain_address]]
        is_success_def success_field throw_left_def wp_rules get_address_def string_field_members json_to_string_def p)
qed

lemma read_missing:
  assumes "answered m success_text u"
  shows "wp False (read_address G (service_socket G R) a timeout) Q
     (\<lambda>e u. e = RuntimeError ''RegistryProxy: invalid response'' \<and> online u \<and> contents (rsv_registry u) = m) u"
proof -
  have w: "rsv_world u = [(kTextMessage, bytes_of_string (mb_vprintf success_text))]"
    using assms by (simp add: answered_def)
  show ?thesis
    using online_answered [OF assms]
    by (simp add: read_address_def wp_bind read_wp [OF w] parse_response_wp [OF success_document]
        is_success_def success_field throw_left_def wp_rules get_address_def string_field_members json_to_string_def
        json_type_error_def)
qed

lemma time_wp: "(\<And>now. Q now s) \<Longrightarrow> wp False (rcom_time linux) Q E s"
  using clock [of s] by (auto simp: wp_def)

lemma proxy_get_law:
  assumes "online s" and "plain_text t" and "contents (rsv_registry s) t = Some x" and "good_address G x"
  shows "wp False (ireg_get (service_proxy G R linux) t a timeout)
     (\<lambda>(found, b) u. online u \<and> contents (rsv_registry u) = contents (rsv_registry s) \<and> found \<and> b = x) (\<lambda>_ _. False) s"
proof -
  let ?P = "\<lambda>found b u. online u \<and> contents (rsv_registry u) = contents (rsv_registry s) \<and> found \<and> b = x"
  have ask: "wp False (bindM (send_request (service_socket G R) (make_get_request [] t)) (\<lambda>_.
      read_address G (service_socket G R) a timeout)) (\<lambda>(found, b) u. ?P found b u) (\<lambda>_ _. False) s"
    by (rule get_request_wp [OF assms(1,2)]) (use assms(3) read_found [OF _ assms(2,4)] in auto)
  have second: "wp False (loopM (proxy_get_round G (service_socket G R) linux req start timeout) (True, late, x))
     (\<lambda>(found, b) u. ?P found b u) (\<lambda>_ _. False) u" if "?P True x u" for req start late u
    by (rule wp_loop_step) (use that in \<open>simp add: proxy_get_round_def wp_basic\<close>)
  have round: "wp False (proxy_get_round G (service_socket G R) linux (make_get_request [] t) start timeout (False, False, a))
     K (\<lambda>_ _. False) s" if "\<And>late u. ?P True x u \<Longrightarrow> K (Inl (True, late, x)) u" for start K
    by (simp add: proxy_get_round_def wp_bind)
      (rule wp_mono [OF ask [unfolded wp_bind]], auto simp: wp_bind wp_basic Let_def elim!: wp_mono intro!: time_wp that)
  have "wp False (loopM (proxy_get_round G (service_socket G R) linux (make_get_request [] t) start timeout) (False, False, a))
     (\<lambda>(found, b) u. ?P found b u) (\<lambda>_ _. False) s" for start
    by (intro wp_loop_step round) (use second in simp)
  then show ?thesis
    by (simp add: service_proxy_def RegistryProxy_def proxy_get_def Let_def wp_bind) (rule time_wp)
qed

text \<open>A topic that is not there: the answer has no address, and the proxy takes it for invalid.\<close>

lemma proxy_get_missing:
  assumes "online s" and "plain_text t" and "contents (rsv_registry s) t = None"
  shows "wp False (ireg_get (service_proxy G R linux) t a timeout) (\<lambda>_ _. False)
     (\<lambda>e u. e = RuntimeError ''RegistryProxy: invalid response'' \<and> online u
        \<and> contents (rsv_registry u) = contents (rsv_registry s)) s"
proof -
  let ?E = "\<lambda>e u. e = RuntimeError ''RegistryProxy: invalid response'' \<and> online u
        \<and> contents (rsv_registry u) = contents (rsv_registry s)"
  have ask: "wp False (bindM (send_request (service_socket G R) (make_get_request [] t)) (\<lambda>_.
      read_address G (service_socket G R) a timeout)) (\<lambda>(found, b) u. False) ?E s"
    by (rule get_request_wp [OF assms(1,2)]) (use assms(3) read_missing in auto)
  have "wp False (proxy_get_round G (service_socket G R) linux (make_get_request [] t) start timeout (False, False, a))
     K ?E s" for start K
    by (simp add: proxy_get_round_def wp_bind)
      (rule wp_mono [OF ask [unfolded wp_bind]], auto simp: wp_bind wp_basic Let_def elim!: wp_mono)
  then have "wp False (loopM (proxy_get_round G (service_socket G R) linux (make_get_request [] t) start timeout) (False, False, a))
     (\<lambda>_ _. False) ?E s" for start
    by (rule wp_loop_step)
  then show ?thesis
    by (simp add: service_proxy_def RegistryProxy_def proxy_get_def Let_def wp_bind) (rule time_wp)
qed

end

sublocale registry_service \<subseteq> remote: registry_store "service_proxy G R linux" "\<lambda>s. contents (rsv_registry s)" online
  plain_text "good_address G"
proof
  fix s t a x timeout
  assume s: "online s" "plain_text t"
  show "good_address G a \<Longrightarrow> wp False (ireg_set (service_proxy G R linux) t a)
     (\<lambda>_ u. online u \<and> contents (rsv_registry u) = (contents (rsv_registry s))(t \<mapsto> a)) (\<lambda>_ _. False) s"
    by (rule proxy_set_law [OF s])
  show "contents (rsv_registry s) t = Some x \<Longrightarrow> good_address G x \<Longrightarrow>
     wp False (ireg_get (service_proxy G R linux) t a timeout)
       (\<lambda>(found, b) u. online u \<and> contents (rsv_registry u) = contents (rsv_registry s) \<and> found \<and> b = x) (\<lambda>_ _. False) s"
    by (rule proxy_get_law [OF s])
  show "wp False (ireg_remove (service_proxy G R linux) t)
     (\<lambda>_ u. online u \<and> contents (rsv_registry u) = (contents (rsv_registry s))(t := None)) (\<lambda>_ _. False) s"
    by (rule proxy_remove_law [OF s])
qed

context registry_service
begin

text \<open>A whole session with the service.\<close>

lemma session_found:
  assumes "online s" and "list_all (good_op plain_text (good_address G)) xs"
    and "foldl apply_op (contents (rsv_registry s)) xs t = Some a" and "plain_text t" and "good_address G a"
  shows "wp False (bindM (run_ops (service_proxy G R linux) xs) (\<lambda>_. ireg_get (service_proxy G R linux) t b timeout))
     (\<lambda>(found, c) _. found \<and> c = a) (\<lambda>_ _. False) s"
  by (rule remote.get_after_ops [OF assms])

lemma session_missing:
  assumes "online s" and "list_all (good_op plain_text (good_address G)) xs"
    and "foldl apply_op (contents (rsv_registry s)) xs t = None" and "plain_text t"
  shows "wp False (bindM (run_ops (service_proxy G R linux) xs) (\<lambda>_. ireg_get (service_proxy G R linux) t b timeout))
     (\<lambda>_ _. False) (\<lambda>e _. e = RuntimeError ''RegistryProxy: invalid response'') s"
  unfolding wp_bind
  by (rule wp_mono [OF remote.run_ops_law [OF assms(1,2)]])
    (use assms(3,4) in \<open>auto intro!: wp_mono [OF proxy_get_missing]\<close>)

end

end
