(* ===== verification/Registry_Properties.thy ===== *)
theory Registry_Properties
  imports Registry_Service
begin

text \<open>
  What the registry promises, in the vector and over the network: it is a map from topics to
  addresses.
\<close>

section \<open>Concrete topics and addresses\<close>

definition demo_rcom :: rcom_env where
  "demo_rcom = \<lparr>re_net = \<lparr>inet_aton = (\<lambda>s. if s = ''127.0.0.1'' then Some 0x0100007F
         else if s = ''0.0.0.0'' then Some 0 else None),
       getifaddrs = Some [], getnameinfo = (\<lambda>_. Some ''127.0.0.1'')\<rparr>,
     re_ip = [], re_json = \<lparr>strtod = (\<lambda>b. 0), double_to_int16 = (\<lambda>x. 0)\<rparr>\<rparr>"

definition demo_hub :: Address where
  "demo_hub = \<lparr>addr = \<lparr>sin_family = AF_INET, sin_port = htons 10101, sin_addr = 0x0100007F\<rparr>\<rparr>"

lemma constructed_run: "m zero_Address = Some (Inr (), a) \<Longrightarrow> constructed m ip = Some (Inr a, ip)"
  unfolding constructed_def by (simp only: option.case prod.case sum.case unit.case)

lemma demo_addr_set:
  "ip \<in> {''127.0.0.1'', ''0.0.0.0''} \<Longrightarrow> \<exists>a. addr_set (re_net demo_rcom) (Some ip) port b = Some (Inr (), a)"
  by (auto simp: demo_rcom_def addr_set_def addr_set_ip_def addr_set_port_def run)

lemma demo_own_address: "\<exists>a ip. Address_default (re_net demo_rcom) (re_ip demo_rcom) = Some (Inr a, ip)"
proof -
  let ?N = "re_net demo_rcom"
  have c: "c_str ''0.0.0.0'' = ''0.0.0.0''" "c_str ''127.0.0.1'' = ''127.0.0.1''"
    by (simp_all add: c_str_def byte_of_char_def)
  obtain a where a: "constructed (addr_set ?N (Some ''0.0.0.0'') 0) [] = Some (Inr a, [])"
    using demo_addr_set [of "''0.0.0.0''" 0 zero_Address] constructed_run by blast
  obtain b where b: "addr_set ?N (Some ''127.0.0.1'') 0 a = Some (Inr (), b)"
    using demo_addr_set [of "''127.0.0.1''" 0 a] by blast
  have ip: "get_local_ip ?N [] = Inr ''127.0.0.1''" "re_ip demo_rcom = []"
    by (simp_all add: get_local_ip_def demo_rcom_def)
  have "constructed (bindM (modifyM (\<lambda>_. a)) (\<lambda>_. addr_set ?N (Some ''127.0.0.1'') 0)) [] = Some (Inr b, [])"
    by (rule constructed_run) (simp add: run b)
  then show ?thesis
    by (simp add: Address_default_def Address_port_def Address_ip_port_def run c a ip throw_left_def)
qed

lemma demo_ntoa: "inet_ntoa 0x0100007F = ''127.0.0.1''"
  by (simp add: inet_ntoa_def store_le_def Let_def upt_rec to_decimal.simps char_of_eq_iff)

lemma demo_htons: "htons 10101 \<noteq> 0"
proof
  have z: "htons 0 = 0" by (simp add: htons_def store_le_def upt_rec load_le_def)
  assume "htons 10101 = 0"
  then have "htons 10101 = htons 0" using z by simp
  then have "(10101 :: u16) = 0" by (metis ntohs_htons)
  then show False by simp
qed

lemma demo_good: "good_address demo_rcom demo_hub"
  by (simp add: good_address_def demo_hub_def demo_rcom_def demo_ntoa addr_is_set_def demo_htons)


interpretation office: registry_service Registry reg_contents reg_intact demo_rcom idle_linux
  by unfold_locales (use demo_own_address in auto)

definition demo_ops :: "registry_op list" where
  "demo_ops = [SetTopic ''camera'' demo_hub, RemoveTopic ''camera'',
     SetTopic ''weather'' demo_hub, SetTopic ''camera'' demo_hub]"

lemma demo_ops_good: "list_all (good_op plain_text (good_address demo_rcom)) demo_ops"
  "list_all (good_op (\<lambda>_. True) addr_is_set) demo_ops"
  "foldl apply_op (reg_contents new_Registry) demo_ops ''camera'' = Some demo_hub"
  "foldl apply_op (reg_contents new_Registry) demo_ops ''door'' = None"
proof -
  have p: "plain_text ''camera''" "plain_text ''weather''"
    by (simp_all add: plain_text_def utf8_string_def byte_of_char_def plain_byte_def)
  show "list_all (good_op plain_text (good_address demo_rcom)) demo_ops"
    using demo_good by (simp add: demo_ops_def p)
  show "list_all (good_op (\<lambda>_. True) addr_is_set) demo_ops"
    using demo_good by (auto simp: demo_ops_def good_address_def)
  show "foldl apply_op (reg_contents new_Registry) demo_ops ''camera'' = Some demo_hub"
    "foldl apply_op (reg_contents new_Registry) demo_ops ''door'' = None"
    by (simp_all add: demo_ops_def reg_contents_def new_Registry_def)
qed

section \<open>The vector\<close>

lemma reg_intact_new: "reg_intact new_Registry"
  by (simp add: reg_intact_def new_Registry_def)

text \<open>C10: After any sequence of \<open>set\<close> with an address that is set, and \<open>remove\<close>, \<open>get\<close> on the
  registry's vector answers as the map that the operations build: the address given last, or false
  with the argument left as it was when the topic was never set or was removed.\<close>

theorem registry_refines_a_map:
  assumes "list_all (good_op (\<lambda>_. True) addr_is_set) xs"
  shows "\<exists>es. bindM (run_ops Registry xs) (\<lambda>_. ireg_get Registry t b timeout) new_Registry
     = Some (Inr (case foldl apply_op (reg_contents new_Registry) xs t of None \<Rightarrow> (False, b) | Some a \<Rightarrow> (True, a)), es)"
proof -
  from wp_returns [OF vector.get_answer [OF reg_intact_new assms, of t b timeout]]
  obtain found c es where
    "bindM (run_ops Registry xs) (\<lambda>_. ireg_get Registry t b timeout) new_Registry = Some (Inr (found, c), es)"
    "case foldl apply_op (reg_contents new_Registry) xs t of None \<Rightarrow> \<not> found \<and> c = b | Some a \<Rightarrow> found \<and> c = a"
    by auto
  then show ?thesis by (cases "foldl apply_op (reg_contents new_Registry) xs t") auto
qed

lemma registry_refines_a_map_witness:
  "\<exists>es. bindM (run_ops Registry demo_ops) (\<lambda>_. ireg_get Registry ''camera'' zero_Address 1) new_Registry
     = Some (Inr (True, demo_hub), es)"
  using registry_refines_a_map [OF demo_ops_good(2), of "''camera''" zero_Address 1] by (auto simp: demo_ops_good)

text \<open>C28: No topic is ever in the vector twice: every operation keeps the topics distinct,
  also a \<open>set\<close> that throws because its address is not set, and that one changes nothing.\<close>

theorem no_topic_twice:
  assumes "distinct (map re_topic es)" and "run_op Registry x es = Some (r, es')"
  shows "distinct (map re_topic es') \<and> (case r of Inl e \<Rightarrow> es' = es | Inr _ \<Rightarrow> reg_contents es' = apply_op (reg_contents es) x)"
proof -
  have i: "reg_intact es" using assms(1) by (simp add: reg_intact_def)
  show ?thesis
  proof (cases x)
    case (SetTopic t a)
    show ?thesis
    proof (cases "addr_is_set a")
      case True
      with vector.set_law [OF i True, of t] assms(2) SetTopic show ?thesis
        by (auto simp: wp_def reg_intact_def split: sum.splits)
    next
      case False
      with vector.set_unset_law [OF i False, of t] assms SetTopic show ?thesis
        by (auto simp: wp_def split: sum.splits)
    qed
  next
    case (RemoveTopic t)
    with vector.remove_law [OF i, of t] assms(2) show ?thesis
      by (auto simp: wp_def reg_intact_def split: sum.splits)
  qed
qed

lemma no_topic_twice_witness:
  "\<exists>r es'. run_op Registry (SetTopic ''camera'' demo_hub) new_Registry = Some (r, es') \<and> distinct (map re_topic es')"
proof -
  have "addr_is_set demo_hub" using demo_good by (simp add: good_address_def)
  then obtain x es' where "run_op Registry (SetTopic ''camera'' demo_hub) new_Registry = Some (Inr x, es')"
    using wp_returns [OF vector.set_law [OF reg_intact_new]] by fastforce
  with no_topic_twice [of new_Registry "SetTopic ''camera'' demo_hub"] show ?thesis
    by (fastforce simp: new_Registry_def)
qed

section \<open>The service\<close>

definition fresh_service :: "(entries, outbox) RegistryServer" where
  "fresh_service = new_RegistryServer new_Registry []"

lemma service_intro:
  assumes "\<exists>a ip. Address_default (re_net G) (re_ip G) = Some (Inr a, ip)"
    and "\<forall>s. \<exists>now. rcom_time linux s = Some (Inr now, s)"
  shows "registry_service Registry reg_contents reg_intact G linux"
  using assms vector.registry_axioms by (simp add: registry_service_def registry_service_axioms_def)

lemma fresh_online:
  assumes "registry_service Registry reg_contents reg_intact G linux"
  shows "registry_service.online reg_intact fresh_service" "rsv_registry fresh_service = new_Registry"
  by (simp_all add: registry_service.online_def [OF assms] new_RegistryServer_def reg_intact_new fresh_service_def)

text \<open>C7: A registry behind its server and a proxy is that map too: for topics and addresses that
  need no escaping, after any sequence of requests for registering and unregistering, asking the
  proxy for a topic that is there returns true and its address. Requests and answers are printed,
  sent as messages, parsed as JSON and executed at the other end.\<close>

theorem remote_registry_refines_a_map:
  assumes "\<exists>a ip. Address_default (re_net G) (re_ip G) = Some (Inr a, ip)"
    and "\<forall>s. \<exists>now. rcom_time linux s = Some (Inr now, s)"
    and "list_all (good_op plain_text (good_address G)) xs"
    and "foldl apply_op (reg_contents new_Registry) xs t = Some a" and "plain_text t" and "good_address G a"
  shows "\<exists>s. bindM (run_ops (service_proxy G Registry linux) xs) (\<lambda>_. ireg_get (service_proxy G Registry linux) t b timeout)
     fresh_service = Some (Inr (True, a), s)"
proof -
  note srv = service_intro [OF assms(1,2)]
  have m: "foldl apply_op (reg_contents (rsv_registry fresh_service)) xs t = Some a"
    using assms(4) fresh_online(2) [OF srv] by simp
  show ?thesis
    using wp_returns [OF registry_service.session_found [OF srv fresh_online(1) [OF srv] assms(3) m assms(5,6), of b timeout]]
    by (auto split: prod.splits)
qed

lemma remote_registry_refines_a_map_witness:
  "\<exists>s. bindM (run_ops (service_proxy demo_rcom Registry idle_linux) demo_ops)
     (\<lambda>_. ireg_get (service_proxy demo_rcom Registry idle_linux) ''camera'' zero_Address 1) fresh_service
     = Some (Inr (True, demo_hub), s)"
  by (rule remote_registry_refines_a_map [OF demo_own_address _ demo_ops_good(1,3) _ demo_good])
    (simp_all add: plain_text_def utf8_string_def byte_of_char_def plain_byte_def)

text \<open>C33: A topic that is not registered makes the proxy throw at the first answer: the server
  answers with success and no address, which the proxy takes for an invalid response. IRegistry.h
  has \<open>get\<close> return false when the time is over, and the loop that would wait for it is left.\<close>

theorem unknown_topic_throws:
  assumes "\<exists>a ip. Address_default (re_net G) (re_ip G) = Some (Inr a, ip)"
    and "\<forall>s. \<exists>now. rcom_time linux s = Some (Inr now, s)"
    and "list_all (good_op plain_text (good_address G)) xs"
    and "foldl apply_op (reg_contents new_Registry) xs t = None" and "plain_text t"
  shows "\<exists>s. bindM (run_ops (service_proxy G Registry linux) xs) (\<lambda>_. ireg_get (service_proxy G Registry linux) t b timeout)
     fresh_service = Some (Inl (RuntimeError ''RegistryProxy: invalid response''), s)"
proof -
  note srv = service_intro [OF assms(1,2)]
  have m: "foldl apply_op (reg_contents (rsv_registry fresh_service)) xs t = None"
    using assms(4) fresh_online(2) [OF srv] by simp
  show ?thesis
    using registry_service.session_missing [OF srv fresh_online(1) [OF srv] assms(3) m assms(5), of b timeout]
    by (auto elim: wp_totalE)
qed

lemma unknown_topic_throws_witness:
  "\<exists>s. bindM (run_ops (service_proxy demo_rcom Registry idle_linux) demo_ops)
     (\<lambda>_. ireg_get (service_proxy demo_rcom Registry idle_linux) ''door'' zero_Address 1) fresh_service
     = Some (Inl (RuntimeError ''RegistryProxy: invalid response''), s)"
  by (rule unknown_topic_throws [OF demo_own_address _ demo_ops_good(1,4)])
    (simp_all add: plain_text_def utf8_string_def byte_of_char_def plain_byte_def)

end
