(* ===== verification/RPC_Interfaces.thy ===== *)
theory RPC_Interfaces
  imports Messaging
begin

text \<open>
  The vocabulary of the remote procedure calls: RPCError.h, MessageFields.h, and IRPCHandler.h
  with RemoteObjectsAdaptor.cpp, which picks the handler by the id of the object.
\<close>

section \<open>Errors and fields\<close>

record RPCError =
  rpc_code :: u16
  rpc_message :: string

definition new_RPCError :: RPCError where
  "new_RPCError = \<lparr>rpc_code = 0, rpc_message = []\<rparr>"

definition kParseError :: u16 where "kParseError = - 32700"
definition kInvalidRequest :: u16 where "kInvalidRequest = - 32600"
definition kMethodNotFound :: u16 where "kMethodNotFound = - 32601"
definition kInvalidParams :: u16 where "kInvalidParams = - 32602"
definition kSendError :: u16 where "kSendError = - 32603"
definition kReceiveError :: u16 where "kReceiveError = - 32604"
definition kReceiveTimeout :: u16 where "kReceiveTimeout = - 32605"
definition kLinkClosed :: u16 where "kLinkClosed = - 32606"
definition kInternalError :: u16 where "kInternalError = - 32607"
definition kNullMethod :: u16 where "kNullMethod = - 32000"
definition kInvalidResponse :: u16 where "kInvalidResponse = - 32001"

lemmas rpc_code_defs = kParseError_def kInvalidRequest_def kMethodNotFound_def kInvalidParams_def
  kSendError_def kReceiveError_def kReceiveTimeout_def kLinkClosed_def kInternalError_def
  kNullMethod_def kInvalidResponse_def

definition kID :: string where "kID = ''id''"
definition kMethod :: string where "kMethod = ''method''"
definition kParams :: string where "kParams = ''params''"
definition kResult :: string where "kResult = ''result''"
definition kError :: string where "kError = ''error''"
definition kErrorCode :: string where "kErrorCode = ''code''"
definition kErrorMessage :: string where "kErrorMessage = ''message''"
definition kNoID :: string where "kNoID = ''unknown''"
definition kUnknownMethod :: string where "kUnknownMethod = ''unknown''"

lemmas field_defs = kID_def kMethod_def kParams_def kResult_def kError_def kErrorCode_def
  kErrorMessage_def

section \<open>Handlers\<close>

text \<open>
  A call: its arguments by reference, and the world it is made in. The result is JSON or bytes.
  A handler that throws leaves the arguments as they were when it threw.
\<close>

record ('r, 'h) rpc_call =
  call_params :: json
  call_result :: 'r
  call_error :: RPCError
  call_world :: 'h

record 'h IRPCHandler =
  execute_json :: "string \<Rightarrow> string \<Rightarrow> ((json, 'h) rpc_call, unit) prog"
  execute_binary :: "string \<Rightarrow> string \<Rightarrow> ((bytes, 'h) rpc_call, unit) prog"

definition set_call_error :: "u16 \<Rightarrow> string \<Rightarrow> (('r, 'h) rpc_call, unit) prog" where
  "set_call_error code message =
     modifyM (\<lambda>c. c\<lparr>call_error := \<lparr>rpc_code = code, rpc_message = message\<rparr>\<rparr>)"

section \<open>RemoteObjectsAdaptor\<close>

type_synonym 'h ObjectMap = "string \<rightharpoonup> 'h IRPCHandler"

definition roa_get_adaptor :: "string \<Rightarrow> 'h ObjectMap \<Rightarrow> exn + 'h IRPCHandler" where
  "roa_get_adaptor ident objects = (case objects ident of
       Some adaptor \<Rightarrow> Inr adaptor
     | None \<Rightarrow> Inl (RuntimeError (c_str
         (''Can'' @ [apos] @ ''t find object with given id: '' @ ident))))"

text \<open>\<open>insert\<close> keeps the element that is there.\<close>

definition roa_add :: "string \<Rightarrow> 'h IRPCHandler \<Rightarrow> 'h ObjectMap \<Rightarrow> 'h ObjectMap" where
  "roa_add ident adaptor objects = (case objects ident of None \<Rightarrow> objects(ident \<mapsto> adaptor) | Some _ \<Rightarrow> objects)"

definition roa_execute_json ::
  "'h ObjectMap \<Rightarrow> string \<Rightarrow> string \<Rightarrow> ((json, 'h) rpc_call, unit) prog" where
  "roa_execute_json objects ident method =
     catchM (bindM (throw_left (roa_get_adaptor ident objects)) (\<lambda>adaptor. execute_json adaptor ident method))
       (\<lambda>e. set_call_error 2 (what e))"

definition roa_execute_binary ::
  "'h ObjectMap \<Rightarrow> string \<Rightarrow> string \<Rightarrow> ((bytes, 'h) rpc_call, unit) prog" where
  "roa_execute_binary objects ident method =
     catchM (bindM (throw_left (roa_get_adaptor ident objects)) (\<lambda>adaptor. execute_binary adaptor ident method))
       (\<lambda>e. set_call_error 2 (what e))"

definition RemoteObjectsAdaptor :: "'h ObjectMap \<Rightarrow> 'h IRPCHandler" where
  "RemoteObjectsAdaptor objects = \<lparr>execute_json = roa_execute_json objects, execute_binary = roa_execute_binary objects\<rparr>"

section \<open>RemoteStub\<close>

text \<open>RemoteStub.cpp: calls on a client, with their variants. The constant of RemoteStub.h hides \<open>kNoID\<close>.\<close>

definition stub_kNoID :: string where "stub_kNoID = ''none''"

definition stub_execute :: "'c IRPCHandler \<Rightarrow> string \<Rightarrow> string \<Rightarrow> ((json, 'c) rpc_call, bool) prog" where
  "stub_execute client ident method =
     bindM (modifyM (\<lambda>c. c\<lparr>call_error := new_RPCError\<rparr>)) (\<lambda>_.
     bindM (catchM (execute_json client ident method) (\<lambda>e. set_call_error 1 (what e))) (\<lambda>_.
     getsM (\<lambda>c. rpc_code (call_error c) = 0)))"

definition stub_execute_no_id :: "'c IRPCHandler \<Rightarrow> string \<Rightarrow> ((json, 'c) rpc_call, bool) prog" where
  "stub_execute_no_id client method = stub_execute client stub_kNoID method"

text \<open>The local variables \<open>params\<close> and \<open>result\<close> are null.\<close>

definition stub_execute_with_result ::
  "'c IRPCHandler \<Rightarrow> string \<Rightarrow> string \<Rightarrow> ((json, 'c) rpc_call, bool) prog" where
  "stub_execute_with_result client ident method =
     bindM (modifyM (\<lambda>c. c\<lparr>call_params := JNull\<rparr>)) (\<lambda>_. stub_execute client ident method)"

definition stub_execute_with_params ::
  "'c IRPCHandler \<Rightarrow> string \<Rightarrow> string \<Rightarrow> ((json, 'c) rpc_call, bool) prog" where
  "stub_execute_with_params client ident method =
     bindM (modifyM (\<lambda>c. c\<lparr>call_result := JNull\<rparr>)) (\<lambda>_. stub_execute client ident method)"

definition stub_execute_simple_request ::
  "'c IRPCHandler \<Rightarrow> string \<Rightarrow> string \<Rightarrow> ((json, 'c) rpc_call, bool) prog" where
  "stub_execute_simple_request client ident method =
     bindM (modifyM (\<lambda>c. c\<lparr>call_params := JNull, call_result := JNull\<rparr>)) (\<lambda>_. stub_execute client ident method)"

definition stub_execute_with_result_no_id where
  "stub_execute_with_result_no_id client method = stub_execute_with_result client stub_kNoID method"

definition stub_execute_with_params_no_id where
  "stub_execute_with_params_no_id client method = stub_execute_with_params client stub_kNoID method"

definition stub_execute_simple_request_no_id where
  "stub_execute_simple_request_no_id client method = stub_execute_simple_request client stub_kNoID method"

end
