(* ===== verification/RcomMessageHandler.thy ===== *)
theory RcomMessageHandler
  imports RPC_Interfaces
begin

text \<open>
  RcomMessageHandler.cpp: the listener that answers remote procedure calls. It parses the
  request, has the handler execute it, and sends the response.
\<close>

section \<open>The object\<close>

record ('h, 'w) RcomMessageHandler =
  rmh_handler :: 'h
  rmh_world :: 'w

definition rmh_send ::
  "'w IWebSocket \<Rightarrow> bytes \<Rightarrow> MessageType \<Rightarrow> (('h, 'w) RcomMessageHandler, unit) prog" where
  "rmh_send websocket message type =
     zoomM rmh_world (\<lambda>w s. s\<lparr>rmh_world := w\<rparr>)
       (bindM (iws_send websocket message type) (\<lambda>sent. returnM ()))"

text \<open>\<open>handler_.execute(id, method, params, result, error)\<close> with local variables.\<close>

definition rmh_execute ::
  "(('r, 'h) rpc_call, unit) prog \<Rightarrow> json \<Rightarrow> 'r \<Rightarrow> RPCError \<Rightarrow> (('h, 'w) RcomMessageHandler, 'r \<times> RPCError) prog" where
  "rmh_execute m params result error = (\<lambda>s.
     case m \<lparr>call_params = params, call_result = result, call_error = error, call_world = rmh_handler s\<rparr> of
       None \<Rightarrow> None
     | Some (r, c) \<Rightarrow> (case r of
           Inl e \<Rightarrow> Some (Inl e, s\<lparr>rmh_handler := call_world c\<rparr>)
         | Inr _ \<Rightarrow> Some (Inr (call_result c, call_error c), s\<lparr>rmh_handler := call_world c\<rparr>)))"

section \<open>Requests\<close>

definition rmh_parse_request ::
  "rcom_env \<Rightarrow> bytes \<Rightarrow> RPCError \<Rightarrow> (('h, 'w) RcomMessageHandler, json \<times> RPCError) prog" where
  "rmh_parse_request G message error =
     catchM (bindM (json_parse (re_json G) message) (\<lambda>request. returnM (request, error)))
       (\<lambda>e. returnM (JNull, \<lparr>rpc_code = kParseError, rpc_message = ''Failed to parse the request''\<rparr>))"

definition rmh_get_method :: "json \<Rightarrow> RPCError \<Rightarrow> string \<times> RPCError" where
  "rmh_get_method request error = (case string_field kMethod request of
       Inl e \<Rightarrow> ([], \<lparr>rpc_code = kInvalidRequest, rpc_message = ''Missing method''\<rparr>)
     | Inr value \<Rightarrow> (value, error))"

definition rmh_get_id :: "json \<Rightarrow> RPCError \<Rightarrow> string \<times> RPCError" where
  "rmh_get_id request error =
     (if json_contains kID request then
        case string_field kID request of
          Inl e \<Rightarrow> ([], \<lparr>rpc_code = kInvalidRequest, rpc_message = ''Invalid ID''\<rparr>)
        | Inr value \<Rightarrow> (value, error)
      else ([], error))"

definition rmh_get_params :: "json \<Rightarrow> exn + json" where
  "rmh_get_params request = (if json_contains kParams request then json_get kParams request else Inr JNull)"

section \<open>Responses\<close>

definition int_to_json :: "u16 \<Rightarrow> json" where
  "int_to_json code = JInt (scast code)"

definition construct_error_response :: "string \<Rightarrow> string \<Rightarrow> u16 \<Rightarrow> string \<Rightarrow> exn + json" where
  "construct_error_response ident method code message =
     and_then (json_set kID (JString (if ident \<noteq> [] then ident else kNoID)) JNull) (\<lambda>response.
     and_then (json_set kMethod (JString (if method \<noteq> [] then method else kUnknownMethod)) response) (\<lambda>response.
     if code \<noteq> 0 then
       and_then (json_set kErrorMessage (JString ''No message was given'') JNull) (\<lambda>error.
       and_then (if message \<noteq> [] then json_set kErrorMessage (JString message) error else Inr error) (\<lambda>error.
       and_then (json_set kErrorCode (int_to_json code) error) (\<lambda>error.
       json_set kError error response)))
     else Inr response))"

definition construct_status_response :: "string \<Rightarrow> string \<Rightarrow> RPCError \<Rightarrow> exn + json" where
  "construct_status_response ident method error =
     construct_error_response ident method (rpc_code error) (c_str (rpc_message error))"

definition construct_response :: "string \<Rightarrow> string \<Rightarrow> RPCError \<Rightarrow> json \<Rightarrow> exn + json" where
  "construct_response ident method error result =
     and_then (construct_status_response ident method error) (\<lambda>response.
     if \<not> json_is_null result then json_set kResult result response else Inr response)"

section \<open>The handlers\<close>

definition handle_json_request ::
  "rcom_env \<Rightarrow> 'h IRPCHandler \<Rightarrow> 'w IWebSocket \<Rightarrow> bytes \<Rightarrow> (('h, 'w) RcomMessageHandler, unit) prog" where
  "handle_json_request G H websocket message =
     bindM (rmh_parse_request G message new_RPCError) (\<lambda>(request, error).
     bindM (if rpc_code error = 0 then
              let (ident, error) = rmh_get_id request error;
                  (method, error) = rmh_get_method request error
              in if method \<noteq> [] then
                   bindM (throw_left (rmh_get_params request)) (\<lambda>params.
                   bindM (rmh_execute (execute_json H ident method) params JNull error) (\<lambda>(result, error).
                   throw_left (construct_response ident method error result)))
                 else throw_left (construct_status_response ident kUnknownMethod error)
            else throw_left (construct_status_response kNoID kUnknownMethod error)) (\<lambda>response.
     bindM (throw_left (json_dump response)) (\<lambda>text.
     let serialised = [] @ bytes_of_string text
     in rmh_send websocket serialised kTextMessage)))"

text \<open>A call that the handler executes makes no response: \<open>response\<close> stays null.\<close>

definition handle_binary_request ::
  "rcom_env \<Rightarrow> 'h IRPCHandler \<Rightarrow> 'w IWebSocket \<Rightarrow> bytes \<Rightarrow> (('h, 'w) RcomMessageHandler, unit) prog" where
  "handle_binary_request G H websocket message =
     bindM (rmh_parse_request G message new_RPCError) (\<lambda>(request, error).
     bindM (if rpc_code error = 0 then
              let (ident, error) = rmh_get_id request error;
                  (method, error) = rmh_get_method request error
              in if method \<noteq> [] then
                   bindM (throw_left (rmh_get_params request)) (\<lambda>params.
                   bindM (rmh_execute (execute_binary H ident method) params [] error) (\<lambda>(result, error).
                   returnM (result, error, JNull)))
                 else bindM (throw_left (construct_status_response ident kUnknownMethod error))
                        (\<lambda>response. returnM ([], error, response))
            else bindM (throw_left (construct_status_response kNoID kUnknownMethod error))
                   (\<lambda>response. returnM ([], error, response))) (\<lambda>(result, error, response).
     if rpc_code error = 0 then rmh_send websocket result kBinaryMessage
     else bindM (throw_left (json_dump response)) (\<lambda>text.
       let serialised = [] @ bytes_of_string text
       in rmh_send websocket serialised kTextMessage)))"

definition rcom_onmessage ::
  "rcom_env \<Rightarrow> 'h IRPCHandler \<Rightarrow> 'w IWebSocket \<Rightarrow> bytes \<Rightarrow> MessageType \<Rightarrow> (('h, 'w) RcomMessageHandler, unit) prog" where
  "rcom_onmessage G H websocket message type =
     (if type = kTextMessage then handle_json_request G H websocket message
      else handle_binary_request G H websocket message)"

end
