(* ===== verification/RcomClient.thy ===== *)
theory RcomClient
  imports RPC_Interfaces MessageHub
begin

text \<open>
  RcomClient.cpp: a remote procedure call from the side of the caller, over a message link. The
  client is itself a handler, so the state of a call is the record of the arguments with the
  client as its world. RcomServer.cpp only passes calls on to its hub.
\<close>

section \<open>The object\<close>

record 'l RcomClient =
  rc_link :: 'l
  rc_buffer :: bytes
  rc_timeout :: rat

definition new_RcomClient :: "'l \<Rightarrow> rat \<Rightarrow> 'l RcomClient" where
  "new_RcomClient link timeout_seconds = \<lparr>rc_link = link, rc_buffer = [], rc_timeout = timeout_seconds\<rparr>"

definition rc_on_link :: "('l, 'a) prog \<Rightarrow> (('r, 'l RcomClient) rpc_call, 'a) prog" where
  "rc_on_link m = zoomM (\<lambda>c. rc_link (call_world c))
     (\<lambda>l c. c\<lparr>call_world := (call_world c)\<lparr>rc_link := l\<rparr>\<rparr>) m"

definition rc_set_buffer :: "bytes \<Rightarrow> (('r, 'l RcomClient) rpc_call, unit) prog" where
  "rc_set_buffer buffer = modifyM (\<lambda>c. c\<lparr>call_world := (call_world c)\<lparr>rc_buffer := buffer\<rparr>\<rparr>)"

section \<open>Requests\<close>

definition rc_request :: "string \<Rightarrow> string \<Rightarrow> json \<Rightarrow> exn + json" where
  "rc_request ident method params =
     and_then (json_set kID (JString ident) JNull) (\<lambda>request.
     and_then (json_set kMethod (JString method) request) (\<lambda>request.
     json_set kParams params request))"

text \<open>The buffer is cleared before the request is printed.\<close>

definition rc_make_request ::
  "rcom_env \<Rightarrow> string \<Rightarrow> string \<Rightarrow> (('r, 'l RcomClient) rpc_call, unit) prog" where
  "rc_make_request G ident method =
     bindM (getsM call_params) (\<lambda>params.
     bindM (throw_left (rc_request ident method params)) (\<lambda>request.
     bindM (rc_set_buffer []) (\<lambda>_.
     bindM (throw_left (json_dump request)) (\<lambda>text.
     rc_set_buffer ([] @ bytes_of_string text)))))"

definition rc_send_request ::
  "'l IMessageLink \<Rightarrow> MessageType \<Rightarrow> (('r, 'l RcomClient) rpc_call, bool) prog" where
  "rc_send_request L type =
     bindM (getsM (\<lambda>c. rc_buffer (call_world c))) (\<lambda>buffer.
     bindM (rc_on_link (iml_send L buffer type)) (\<lambda>sent.
     if sent then returnM True
     else bindM (set_call_error kSendError ''RcomClient: Sending failed'') (\<lambda>_. returnM False)))"

section \<open>Responses\<close>

text \<open>The cases of text and binary set the code only.\<close>

definition rc_set_error :: "'l IMessageLink \<Rightarrow> (('r, 'l RcomClient) rpc_call, unit) prog" where
  "rc_set_error L =
     bindM (rc_on_link (iml_recv_status L)) (\<lambda>status. case status of
         kRecvError \<Rightarrow> set_call_error kReceiveError ''RcomClient: Receive failed''
       | kRecvClosed \<Rightarrow> set_call_error kLinkClosed ''RcomClient: Link closed''
       | kRecvTimeOut \<Rightarrow> set_call_error kReceiveTimeout ''RcomClient: Timeout''
       | _ \<Rightarrow> modifyM (\<lambda>c. c\<lparr>call_error := (call_error c)\<lparr>rpc_code := 0\<rparr>\<rparr>))"

text \<open>What the buffer holds before, and whether a message was received and what it holds then.\<close>

definition rc_receive_response ::
  "'l IMessageLink \<Rightarrow> bytes \<Rightarrow> (('r, 'l RcomClient) rpc_call, bool \<times> bytes) prog" where
  "rc_receive_response L buffer =
     bindM (getsM (\<lambda>c. rc_timeout (call_world c))) (\<lambda>timeout.
     bindM (rc_on_link (iml_recv L buffer timeout)) (\<lambda>(received, buffer).
     if received then returnM (True, buffer)
     else bindM (rc_set_error L) (\<lambda>_. returnM (False, buffer))))"

definition rc_read_error :: "rcom_env \<Rightarrow> json \<Rightarrow> ((json, 'l RcomClient) rpc_call, unit) prog" where
  "rc_read_error G response =
     bindM (throw_left (json_get kError response)) (\<lambda>e.
     bindM (throw_left (and_then (json_get kErrorCode e) (json_to_int16 (re_json G)))) (\<lambda>code.
     bindM (modifyM (\<lambda>c. c\<lparr>call_error := (call_error c)\<lparr>rpc_code := code\<rparr>\<rparr>)) (\<lambda>_.
     bindM (throw_left (string_field kErrorMessage e)) (\<lambda>message.
     modifyM (\<lambda>c. c\<lparr>call_error := (call_error c)\<lparr>rpc_message := message\<rparr>\<rparr>)))))"

definition rc_parse_response :: "rcom_env \<Rightarrow> ((json, 'l RcomClient) rpc_call, unit) prog" where
  "rc_parse_response G =
     catchM
       (bindM (getsM (\<lambda>c. rc_buffer (call_world c))) (\<lambda>buffer.
        bindM (json_parse (re_json G) buffer) (\<lambda>response.
        bindM (whenM (json_contains kResult response)
          (bindM (throw_left (json_get kResult response)) (\<lambda>result.
           modifyM (\<lambda>c. c\<lparr>call_result := result\<rparr>)))) (\<lambda>_.
        whenM (json_contains kError response) (rc_read_error G response)))))
       (\<lambda>e. set_call_error kParseError ''RcomClient: Parsing response failed'')"

section \<open>Calls\<close>

definition rc_try_execute_json ::
  "rcom_env \<Rightarrow> 'l IMessageLink \<Rightarrow> string \<Rightarrow> string \<Rightarrow> ((json, 'l RcomClient) rpc_call, unit) prog" where
  "rc_try_execute_json G L ident method =
     bindM (rc_make_request G ident method) (\<lambda>_.
     bindM (rc_send_request L kTextMessage) (\<lambda>sent.
     whenM sent
       (bindM (getsM (\<lambda>c. rc_buffer (call_world c))) (\<lambda>buffer.
        bindM (rc_receive_response L buffer) (\<lambda>(received, buffer).
        bindM (rc_set_buffer buffer) (\<lambda>_.
        whenM received (rc_parse_response G)))))))"

definition rc_execute_json ::
  "rcom_env \<Rightarrow> 'l IMessageLink \<Rightarrow> string \<Rightarrow> string \<Rightarrow> ((json, 'l RcomClient) rpc_call, unit) prog" where
  "rc_execute_json G L ident method =
     catchM (rc_try_execute_json G L ident method) (\<lambda>e. set_call_error kInternalError (what e))"

definition rc_try_execute_binary ::
  "rcom_env \<Rightarrow> 'l IMessageLink \<Rightarrow> string \<Rightarrow> string \<Rightarrow> ((bytes, 'l RcomClient) rpc_call, unit) prog" where
  "rc_try_execute_binary G L ident method =
     bindM (rc_make_request G ident method) (\<lambda>_.
     bindM (rc_send_request L kBinaryMessage) (\<lambda>sent.
     whenM sent
       (bindM (getsM call_result) (\<lambda>result.
        bindM (rc_receive_response L result) (\<lambda>(received, result).
        modifyM (\<lambda>c. c\<lparr>call_result := result\<rparr>))))))"

definition rc_execute_binary ::
  "rcom_env \<Rightarrow> 'l IMessageLink \<Rightarrow> string \<Rightarrow> string \<Rightarrow> ((bytes, 'l RcomClient) rpc_call, unit) prog" where
  "rc_execute_binary G L ident method =
     catchM (rc_try_execute_binary G L ident method) (\<lambda>e. set_call_error kInternalError (what e))"

definition RcomClient :: "rcom_env \<Rightarrow> 'l IMessageLink \<Rightarrow> 'l RcomClient IRPCHandler" where
  "RcomClient G L = \<lparr>execute_json = rc_execute_json G L, execute_binary = rc_execute_binary G L\<rparr>"

definition rc_is_connected :: "'l IMessageLink \<Rightarrow> (('r, 'l RcomClient) rpc_call, bool) prog" where
  "rc_is_connected L = rc_on_link (iml_is_connected L)"

section \<open>RcomServer\<close>

definition rcs_handle_events :: "('h, 's) MessageHub \<Rightarrow> ('s, unit) prog" where
  "rcs_handle_events hub = hub_handle_events hub"

definition rcs_broadcast ::
  "('h, 's) MessageHub \<Rightarrow> bytes \<Rightarrow> MessageType \<Rightarrow> 'h option \<Rightarrow> ('s, unit) prog" where
  "rcs_broadcast hub message type exclude = hub_broadcast hub message type exclude"

end
