(* ===== verification/Rpc_Service.thy ===== *)
theory Rpc_Service
  imports Loopback Json_Roundtrip RcomMessageHandler RcomClient
begin

text \<open>
  A client on one end and a message handler on the other: what a call comes to, when requests and
  responses are printed, sent over a message link, parsed and executed.
\<close>

section \<open>The two ends\<close>

type_synonym 'h peer = "('h, outbox) RcomMessageHandler"

definition rpc_socket :: "rcom_env \<Rightarrow> 'h IRPCHandler \<Rightarrow> 'h peer IWebSocket" where
  "rpc_socket G H = loop_socket (rcom_onmessage G H outbox_socket) rmh_world (\<lambda>q s. s\<lparr>rmh_world := q\<rparr>)"

definition rpc_link :: "rcom_env \<Rightarrow> 'h IRPCHandler \<Rightarrow> (unit, 'h peer) MessageLink IMessageLink" where
  "rpc_link G H = link_object (loop_factory (rpc_socket G H))"

type_synonym ('r, 'h) client_call = "('r, (unit, 'h peer) MessageLink RcomClient) rpc_call"

definition rpc_client :: "rcom_env \<Rightarrow> 'h IRPCHandler \<Rightarrow> (unit, 'h peer) MessageLink RcomClient IRPCHandler" where
  "rpc_client G H = RcomClient G (rpc_link G H)"

text \<open>The handler at the other end of the client of a call, and a client that is connected to it.\<close>

definition peer_of :: "('r, 'h) client_call \<Rightarrow> 'h peer" where
  "peer_of c = ml_world (rc_link (call_world c))"

definition connected_call :: "('r, 'h) client_call \<Rightarrow> bool" where
  "connected_call c \<longleftrightarrow> ml_websocket (rc_link (call_world c)) = Some () \<and> rmh_world (peer_of c) = []"

section \<open>Responses\<close>

text \<open>The members of a response, in the order of their keys.\<close>

definition error_member :: "RPCError \<Rightarrow> (string \<times> json) list" where
  "error_member error = (if rpc_code error = 0 then [] else [(kError, JObject [(kErrorCode, int_to_json (rpc_code error)),
     (kErrorMessage, JString (if c_str (rpc_message error) = [] then ''No message was given'' else c_str (rpc_message error)))])])"

definition response_object :: "string \<Rightarrow> string \<Rightarrow> RPCError \<Rightarrow> json \<Rightarrow> json" where
  "response_object ident method error result = JObject (error_member error
     @ [(kID, JString (if ident = [] then kNoID else ident)), (kMethod, JString (if method = [] then kUnknownMethod else method))]
     @ (if result = JNull then [] else [(kResult, result)]))"

lemma key_order:
  "kError < kID" "kID < kMethod" "kMethod < kResult" "kErrorCode < kErrorMessage"
  "kMethod < kParams" "kID < kParams" "kError < kMethod" "kError < kResult" "kID < kResult"
  by (simp_all add: field_defs less_char_def)

lemma construct_response_eq: "construct_response ident method error result = Inr (response_object ident method error result)"
  by (simp add: construct_response_def construct_status_response_def construct_error_response_def and_then_def
      json_set_def json_index_def obj_find_def response_object_def error_member_def json_is_null_def Let_def
      field_defs less_char_def)

lemma construct_status_eq: "construct_status_response ident m error = Inr (response_object ident m error JNull)"
  using construct_response_eq [of ident m error JNull]
  by (simp add: construct_response_def and_then_def json_is_null_def split: sum.splits)

lemma utf8_words [simp]:
  "utf8_string kNoID" "utf8_string kUnknownMethod" "utf8_string kError" "utf8_string kErrorCode"
  "utf8_string kErrorMessage" "utf8_string kID" "utf8_string kMethod" "utf8_string kParams" "utf8_string kResult"
  "utf8_string ''No message was given''" "utf8_string ''Failed to parse the request''"
  by (simp_all add: utf8_string_def field_defs kNoID_def kUnknownMethod_def byte_of_char_def)

text \<open>What a handler leaves can be sent.\<close>

definition sendable :: "RPCError \<Rightarrow> json \<Rightarrow> bool" where
  "sendable error result \<longleftrightarrow> json_ok result \<and> utf8_string (c_str (rpc_message error))"

lemma response_ok:
  assumes "utf8_string ident" and "utf8_string method" and "sendable error result"
  shows "json_ok (response_object ident method error result)"
  using assms key_order by (auto simp: response_object_def error_member_def sendable_def int_to_json_def)

lemma canon_JNull: "canon j = JNull \<longleftrightarrow> j = JNull"
  by (cases j) auto

lemma ucast_scast: "(ucast (scast c :: u64) :: u16) = c"
  by (rule bit_word_eqI) (auto simp: bit_simps)

lemma code_read_back: "json_to_int16 F (canon (int_to_json c)) = Inr c"
  by (simp add: int_to_json_def json_to_int16_def ucast_scast)


section \<open>The server\<close>

text \<open>What a text is parsed to, whatever the state of the function that parses it.\<close>

definition parses_to :: "json_env \<Rightarrow> bytes \<Rightarrow> exn + json \<Rightarrow> bool" where
  "parses_to F m r \<longleftrightarrow> (\<exists>p. parser_parse F (new_parser m) = Some (r, p))"

lemma parses_to_run: "parses_to F m r \<Longrightarrow> json_parse F m s = Some (r, s)"
  by (auto simp: parses_to_def json_parse_def)

lemma parses_toI: "json_parse F m s = Some (r, t) \<Longrightarrow> parses_to F m r"
  by (auto simp: parses_to_def json_parse_def split: option.splits prod.splits)

lemma rmh_send_wp:
  "wp T (rmh_send outbox_socket m ty) Q E s = Q () (s\<lparr>rmh_world := rmh_world s @ [(ty, m)]\<rparr>)"
  by (simp add: rmh_send_def outbox_socket_def wp_rules)

definition request_object :: "string \<Rightarrow> string \<Rightarrow> json \<Rightarrow> json" where
  "request_object ident method params = JObject [(kID, JString ident), (kMethod, JString method), (kParams, params)]"

lemma request_fields:
  "rmh_get_id (request_object ident method params) error = (ident, error)"
  "rmh_get_method (request_object ident method params) error = (method, error)"
  "rmh_get_params (request_object ident method params) = Inr params"
  by (simp_all add: request_object_def rmh_get_id_def rmh_get_method_def rmh_get_params_def string_field_def
      json_get_def json_index_def obj_find_def and_then_def json_to_string_def field_defs)

lemma parse_request_wp:
  assumes "parses_to (re_json G) m (Inr req)"
  shows "wp T (rmh_parse_request G m error) Q E s = Q (req, error) s"
  by (simp add: rmh_parse_request_def wp_def run parses_to_run [OF assms])

lemma execute_wp:
  assumes "m \<lparr>call_params = params, call_result = result, call_error = error, call_world = rmh_handler s\<rparr> = Some (Inr (), c)"
  shows "wp T (rmh_execute m params result error) Q E s = Q (call_result c, call_error c) (s\<lparr>rmh_handler := call_world c\<rparr>)"
  using assms by (simp add: rmh_execute_def wp_def)

lemma no_error_code [simp]: "rpc_code new_RPCError = 0"
  by (simp add: new_RPCError_def)

text \<open>A call is executed and answered with its result and its error.\<close>

lemma json_call_answered:
  assumes parse: "parses_to (re_json G) m (Inr (request_object ident method params))"
    and exec: "execute_json H ident method \<lparr>call_params = params, call_result = JNull, call_error = new_RPCError,
      call_world = rmh_handler s\<rparr> = Some (Inr (), c)"
    and named: "method \<noteq> []"
    and dump: "json_dump (response_object ident method (call_error c) (call_result c)) = Inr t"
  shows "wp T (rcom_onmessage G H outbox_socket m kTextMessage) Q E s
     = Q () (s\<lparr>rmh_handler := call_world c, rmh_world := rmh_world s @ [(kTextMessage, bytes_of_string t)]\<rparr>)"
  using named
  by (simp add: rcom_onmessage_def handle_json_request_def wp_bind parse_request_wp [OF parse] request_fields
      execute_wp [where m = "execute_json H ident method", OF exec] throw_left_def wp_rules construct_response_eq dump rmh_send_wp Let_def)

text \<open>Without a method nothing is executed, and the answer has no error.\<close>

lemma empty_method_answered:
  assumes parse: "parses_to (re_json G) m (Inr (request_object ident [] params))"
    and dump: "json_dump (response_object ident kUnknownMethod new_RPCError JNull) = Inr t"
  shows "wp T (rcom_onmessage G H outbox_socket m kTextMessage) Q E s
     = Q () (s\<lparr>rmh_world := rmh_world s @ [(kTextMessage, bytes_of_string t)]\<rparr>)"
  by (simp add: rcom_onmessage_def handle_json_request_def wp_bind parse_request_wp [OF parse] request_fields
      throw_left_def wp_rules construct_status_eq dump rmh_send_wp Let_def)

text \<open>What is no JSON is answered with an error.\<close>

definition parse_failure :: RPCError where
  "parse_failure = \<lparr>rpc_code = kParseError, rpc_message = ''Failed to parse the request''\<rparr>"

lemma bad_request_answered:
  assumes parse: "parses_to (re_json G) m (Inl e)"
    and dump: "json_dump (response_object kNoID kUnknownMethod parse_failure JNull) = Inr t"
  shows "wp T (rcom_onmessage G H outbox_socket m ty) Q E s
     = Q () (s\<lparr>rmh_world := rmh_world s @ [(kTextMessage, bytes_of_string t)]\<rparr>)"
proof -
  have p: "wp T (rmh_parse_request G m new_RPCError) Q' E s = Q' (JNull, parse_failure) s" for Q' E s
    by (simp add: rmh_parse_request_def wp_def run parse_failure_def parses_to_run [OF parse])
  have c: "rpc_code parse_failure \<noteq> 0" by (simp add: parse_failure_def kParseError_def)
  show ?thesis
    by (simp add: rcom_onmessage_def handle_json_request_def handle_binary_request_def wp_bind p c throw_left_def
        wp_rules construct_status_eq dump rmh_send_wp Let_def)
qed

text \<open>A binary call: the result as it is, or, when the handler sets an error, the text \<open>null\<close>.\<close>

lemma binary_call_answered:
  assumes parse: "parses_to (re_json G) m (Inr (request_object ident method params))"
    and exec: "execute_binary H ident method \<lparr>call_params = params, call_result = [], call_error = new_RPCError,
      call_world = rmh_handler s\<rparr> = Some (Inr (), c)"
    and named: "method \<noteq> []"
  shows "wp T (rcom_onmessage G H outbox_socket m kBinaryMessage) Q E s
     = Q () (s\<lparr>rmh_handler := call_world c, rmh_world := rmh_world s @
         [if rpc_code (call_error c) = 0 then (kBinaryMessage, call_result c)
          else (kTextMessage, bytes_of_string ''null'')]\<rparr>)"
  using named
  by (simp add: rcom_onmessage_def handle_binary_request_def wp_bind parse_request_wp [OF parse] request_fields
      execute_wp [where m = "execute_binary H ident method", OF exec] throw_left_def wp_rules rmh_send_wp Let_def json_dump_def and_then_def)

section \<open>The client\<close>

lemma rc_request_eq: "rc_request ident method params = Inr (request_object ident method params)"
  by (simp add: rc_request_def and_then_def json_set_def json_index_def obj_find_def request_object_def
      field_defs less_char_def Let_def)

lemma make_request_wp:
  assumes "json_dump (request_object ident method (call_params c)) = Inr t"
  shows "wp T (rc_make_request G ident method) Q E c
     = Q () (c\<lparr>call_world := (call_world c)\<lparr>rc_buffer := bytes_of_string t\<rparr>\<rparr>)"
  using assms by (simp add: rc_make_request_def rc_set_buffer_def wp_rules throw_left_def rc_request_eq)

definition put_peer :: "'h peer \<Rightarrow> ('r, 'h) client_call \<Rightarrow> ('r, 'h) client_call" where
  "put_peer p c = c\<lparr>call_world := (call_world c)\<lparr>rc_link := (rc_link (call_world c))\<lparr>ml_world := p\<rparr>\<rparr>\<rparr>"

definition put_status :: "RecvStatus \<Rightarrow> ('r, 'h) client_call \<Rightarrow> ('r, 'h) client_call" where
  "put_status st c = c\<lparr>call_world := (call_world c)\<lparr>rc_link := (rc_link (call_world c))\<lparr>ml_recv_status := st\<rparr>\<rparr>\<rparr>"

lemma put_simps [simp]:
  "peer_of (put_peer p c) = p" "call_result (put_peer p c) = call_result c" "call_error (put_peer p c) = call_error c"
  "call_params (put_peer p c) = call_params c" "rc_buffer (call_world (put_peer p c)) = rc_buffer (call_world c)"
  "ml_websocket (rc_link (call_world (put_peer p c))) = ml_websocket (rc_link (call_world c))"
  "peer_of (put_status st c) = peer_of c" "call_result (put_status st c) = call_result c"
  "call_error (put_status st c) = call_error c" "call_params (put_status st c) = call_params c"
  "rc_buffer (call_world (put_status st c)) = rc_buffer (call_world c)"
  "ml_websocket (rc_link (call_world (put_status st c))) = ml_websocket (rc_link (call_world c))"
  "peer_of (c\<lparr>call_error := x\<rparr>) = peer_of c" "peer_of (c\<lparr>call_result := y\<rparr>) = peer_of c"
  "peer_of (c\<lparr>call_world := (call_world c)\<lparr>rc_buffer := b\<rparr>\<rparr>) = peer_of c"
  by (simp_all add: put_peer_def put_status_def peer_of_def)

lemma send_request_wp:
  assumes "ml_websocket (rc_link (call_world c)) = Some ()"
    and "\<And>Q E. wp T (rcom_onmessage G H outbox_socket (rc_buffer (call_world c)) type) Q E (peer_of c) = Q () p"
  shows "wp T (rc_send_request (rpc_link G H) type) Q E c = Q True (put_peer p c)"
  using assms
  by (simp add: rc_send_request_def rc_on_link_def rpc_link_def link_object_def ml_send_def ml_with_websocket_def
      ml_on_world_def rpc_socket_def loop_defs wp_rules peer_of_def put_peer_def)

lemma receive_response_wp:
  assumes "ml_websocket (rc_link (call_world c)) = Some ()" and "rmh_world (peer_of c) = [(ty, m)]"
  shows "wp T (rc_receive_response (rpc_link G H) b) Q E c
     = Q (True, m) (put_status (status_of ty) (put_peer ((peer_of c)\<lparr>rmh_world := []\<rparr>) c))"
  using assms
  by (simp add: rc_receive_response_def rc_on_link_def rpc_link_def link_object_def ml_recv_def ml_with_websocket_def
      ml_on_world_def rpc_socket_def loop_defs wp_rules peer_of_def put_peer_def put_status_def ml_obtained_message_def
      status_of_def)


text \<open>The fields of a response as the client finds them.\<close>

lemma response_fields:
  "json_contains kResult (canon (response_object i m e r)) \<longleftrightarrow> r \<noteq> JNull"
  "r \<noteq> JNull \<Longrightarrow> json_get kResult (canon (response_object i m e r)) = Inr (canon r)"
  "json_contains kError (canon (response_object i m e r)) \<longleftrightarrow> rpc_code e \<noteq> 0"
  by (auto simp: response_object_def error_member_def json_get_def json_index_def obj_find_def field_defs)

definition error_message_of :: "RPCError \<Rightarrow> string" where
  "error_message_of e = (if c_str (rpc_message e) = [] then ''No message was given'' else c_str (rpc_message e))"

lemma read_error_wp:
  assumes "rpc_code e \<noteq> 0"
  shows "wp T (rc_read_error G (canon (response_object i m e r))) Q E c
     = Q () (c\<lparr>call_error := \<lparr>rpc_code = rpc_code e, rpc_message = error_message_of e\<rparr>\<rparr>)"
proof -
  have k: "json_get kError (canon (response_object i m e r)) = Inr (JObject [(kErrorCode, canon (int_to_json (rpc_code e))),
      (kErrorMessage, JString (error_message_of e))])"
    using assms by (simp add: response_object_def error_member_def json_get_def json_index_def obj_find_def
        field_defs error_message_of_def)
  have f: "json_get kErrorCode (JObject [(kErrorCode, x), (kErrorMessage, y)]) = Inr x"
    "json_get kErrorMessage (JObject [(kErrorCode, x), (kErrorMessage, y)]) = Inr y" for x y
    by (simp_all add: json_get_def json_index_def obj_find_def field_defs)
  show ?thesis
    by (cases "call_error c") (simp add: rc_read_error_def k f string_field_def and_then_def code_read_back
        json_to_string_def throw_left_def wp_rules)
qed

lemma rc_parse_response_wp:
  assumes "parses_to (re_json G) (rc_buffer (call_world c)) (Inr (canon (response_object i m e r)))"
  shows "wp T (rc_parse_response G) Q E c
     = Q () (c\<lparr>call_result := (if r = JNull then call_result c else canon r),
          call_error := (if rpc_code e = 0 then call_error c
            else \<lparr>rpc_code = rpc_code e, rpc_message = error_message_of e\<rparr>)\<rparr>)"
proof -
  have p: "wp T (json_parse (re_json G) (rc_buffer (call_world c))) Q' E' c = Q' (canon (response_object i m e r)) c" for Q' E'
    by (simp add: wp_def parses_to_run [OF assms])
  show ?thesis
    by (cases "r = JNull"; cases "rpc_code e = 0")
      (simp_all add: rc_parse_response_def wp_catch wp_bind wp_basic p response_fields throw_left_def read_error_wp)
qed

section \<open>Calls\<close>

text \<open>The request that the client sends is the one that the server parses.\<close>

lemma request_sent:
  assumes "strtod_rounds F" and "utf8_string ident" and "utf8_string method" and "json_ok params"
  obtains t where "json_dump (request_object ident method params) = Inr t"
    and "parses_to F (bytes_of_string t) (Inr (request_object ident method (canon params)))"
proof -
  have ok: "json_ok (request_object ident method params)"
    using assms key_order by (simp add: request_object_def)
  then obtain t where t: "json_dump (request_object ident method params) = Inr t" using json_dump_ok by blast
  from json_round_trip [OF ok assms(1) t, THEN parses_toI]
  show thesis using that [OF t] by (simp add: request_object_def)
qed

lemma response_sent:
  assumes "strtod_rounds F" and "utf8_string ident" and "utf8_string method" and "sendable e r"
  obtains t where "json_dump (response_object ident method e r) = Inr t"
    and "parses_to F (bytes_of_string t) (Inr (canon (response_object ident method e r)))"
  using response_ok [OF assms(2-4)] json_dump_ok [of "response_object ident method e r"]
    json_round_trip [OF _ assms(1), of "response_object ident method e r", THEN parses_toI] that by blast

text \<open>From the answer of the peer to the end of a call, with a result in JSON.\<close>

lemma json_exchange:
  assumes c: "connected_call c"
    and dump: "json_dump (request_object ident method (call_params c)) = Inr t"
    and served: "\<And>Q E. wp False (rcom_onmessage G H outbox_socket (bytes_of_string t) kTextMessage) Q E (peer_of c)
        = Q () ((peer_of c)\<lparr>rmh_handler := h, rmh_world := [(kTextMessage, bytes_of_string u)]\<rparr>)"
    and answer: "parses_to (re_json G) (bytes_of_string u) (Inr (canon (response_object i m e r)))"
  shows "wp False (stub_execute (rpc_client G H) ident method)
     (\<lambda>ok d. ok = (rpc_code e = 0) \<and> connected_call d \<and> rmh_handler (peer_of d) = h
        \<and> call_result d = (if r = JNull then call_result c else canon r)
        \<and> call_error d = (if rpc_code e = 0 then new_RPCError
             else \<lparr>rpc_code = rpc_code e, rpc_message = error_message_of e\<rparr>)) (\<lambda>_ _. False) c"
proof -
  let ?c0 = "c\<lparr>call_error := new_RPCError\<rparr>"
  let ?c1 = "?c0\<lparr>call_world := (call_world c)\<lparr>rc_buffer := bytes_of_string t\<rparr>\<rparr>"
  let ?p = "(peer_of c)\<lparr>rmh_handler := h, rmh_world := [(kTextMessage, bytes_of_string u)]\<rparr>"
  let ?c2 = "put_peer ?p ?c1"
  let ?c3 = "put_status kRecvText (put_peer (?p\<lparr>rmh_world := []\<rparr>) ?c2)"
  have con: "ml_websocket (rc_link (call_world c)) = Some ()" using c by (simp add: connected_call_def)
  have p1: "peer_of ?c1 = peer_of c" by (simp add: peer_of_def)
  have send: "wp False (rc_send_request (rpc_link G H) kTextMessage) Q E ?c1 = Q True ?c2" for Q E
    by (rule send_request_wp) (simp_all add: con p1 served)
  have receive: "wp False (rc_receive_response (rpc_link G H) b) Q E ?c2 = Q (True, bytes_of_string u) ?c3" for b Q E
    by (subst receive_response_wp [of _ kTextMessage "bytes_of_string u"]) (simp_all add: con status_of_def)
  have "wp False (rc_try_execute_json G (rpc_link G H) ident method)
     (\<lambda>_ d. connected_call d \<and> rmh_handler (peer_of d) = h
        \<and> call_result d = (if r = JNull then call_result c else canon r)
        \<and> call_error d = (if rpc_code e = 0 then new_RPCError
             else \<lparr>rpc_code = rpc_code e, rpc_message = error_message_of e\<rparr>)) (\<lambda>_ _. False) ?c0"
    using con by (simp add: rc_try_execute_json_def wp_bind make_request_wp dump send wp_basic receive rc_set_buffer_def
        rc_parse_response_wp [where i = i and m = m and e = e and r = r] answer connected_call_def)
  then show ?thesis
    by (simp add: stub_execute_def rpc_client_def RcomClient_def rc_execute_json_def wp_bind wp_catch wp_basic)
      (auto elim!: wp_mono simp: wp_basic)
qed


lemma json_call:
  assumes c: "connected_call c" and F: "strtod_rounds (re_json G)"
    and ok: "utf8_string ident" "utf8_string method" "json_ok (call_params c)" and named: "method \<noteq> []"
    and exec: "execute_json H ident method \<lparr>call_params = canon (call_params c), call_result = JNull,
      call_error = new_RPCError, call_world = rmh_handler (peer_of c)\<rparr> = Some (Inr (), d)"
    and send: "sendable (call_error d) (call_result d)"
  shows "wp False (stub_execute (rpc_client G H) ident method)
     (\<lambda>success e. success = (rpc_code (call_error d) = 0) \<and> connected_call e \<and> rmh_handler (peer_of e) = call_world d
        \<and> call_result e = (if call_result d = JNull then call_result c else canon (call_result d))
        \<and> call_error e = (if rpc_code (call_error d) = 0 then new_RPCError
             else \<lparr>rpc_code = rpc_code (call_error d), rpc_message = error_message_of (call_error d)\<rparr>)) (\<lambda>_ _. False) c"
proof -
  obtain t where t: "json_dump (request_object ident method (call_params c)) = Inr t"
    "parses_to (re_json G) (bytes_of_string t) (Inr (request_object ident method (canon (call_params c))))"
    using request_sent [OF F ok] by blast
  obtain u where u: "json_dump (response_object ident method (call_error d) (call_result d)) = Inr u"
    "parses_to (re_json G) (bytes_of_string u) (Inr (canon (response_object ident method (call_error d) (call_result d))))"
    using response_sent [OF F ok(1,2) send] by blast
  show ?thesis
    by (rule json_exchange [OF c t(1) _ u(2)])
      (use json_call_answered [OF t(2) exec named u(1)] c in \<open>simp add: connected_call_def\<close>)
qed

lemma empty_method_call:
  assumes c: "connected_call c" and F: "strtod_rounds (re_json G)"
    and ok: "utf8_string ident" "json_ok (call_params c)"
  shows "wp False (stub_execute (rpc_client G H) ident [])
     (\<lambda>success e. success \<and> connected_call e \<and> rmh_handler (peer_of e) = rmh_handler (peer_of c)
        \<and> call_result e = call_result c \<and> call_error e = new_RPCError) (\<lambda>_ _. False) c"
proof -
  have nil: "utf8_string []" by (simp add: utf8_string_def)
  obtain t where t: "json_dump (request_object ident [] (call_params c)) = Inr t"
    "parses_to (re_json G) (bytes_of_string t) (Inr (request_object ident [] (canon (call_params c))))"
    using request_sent [OF F ok(1) nil ok(2)] by blast
  have "sendable new_RPCError JNull" by (simp add: sendable_def new_RPCError_def c_str_def nil)
  then obtain u where u: "json_dump (response_object ident kUnknownMethod new_RPCError JNull) = Inr u"
    "parses_to (re_json G) (bytes_of_string u) (Inr (canon (response_object ident kUnknownMethod new_RPCError JNull)))"
    using response_sent [OF F ok(1), of kUnknownMethod new_RPCError JNull] by auto
  have "wp False (stub_execute (rpc_client G H) ident [])
     (\<lambda>success e. success = (rpc_code new_RPCError = 0) \<and> connected_call e \<and> rmh_handler (peer_of e) = rmh_handler (peer_of c)
        \<and> call_result e = (if JNull = JNull then call_result c else canon JNull)
        \<and> call_error e = (if rpc_code new_RPCError = 0 then new_RPCError
             else \<lparr>rpc_code = rpc_code new_RPCError, rpc_message = error_message_of new_RPCError\<rparr>)) (\<lambda>_ _. False) c"
    by (rule json_exchange [OF c t(1) _ u(2)])
      (use c in \<open>simp add: connected_call_def empty_method_answered [OF t(2) u(1)]\<close>)
  then show ?thesis by (auto elim!: wp_mono)
qed

text \<open>A call with a binary result.\<close>

lemma binary_call:
  assumes c: "connected_call c" and F: "strtod_rounds (re_json G)"
    and ok: "utf8_string ident" "utf8_string method" "json_ok (call_params c)" and named: "method \<noteq> []"
    and exec: "execute_binary H ident method \<lparr>call_params = canon (call_params c), call_result = [],
      call_error = new_RPCError, call_world = rmh_handler (peer_of c)\<rparr> = Some (Inr (), d)"
  shows "wp False (execute_binary (rpc_client G H) ident method)
     (\<lambda>_ e. connected_call e \<and> rmh_handler (peer_of e) = call_world d \<and> call_error e = call_error c
        \<and> call_result e = (if rpc_code (call_error d) = 0 then call_result d else bytes_of_string ''null'')) (\<lambda>_ _. False) c"
proof -
  obtain t where t: "json_dump (request_object ident method (call_params c)) = Inr t"
    "parses_to (re_json G) (bytes_of_string t) (Inr (request_object ident method (canon (call_params c))))"
    using request_sent [OF F ok] by blast
  let ?c1 = "c\<lparr>call_world := (call_world c)\<lparr>rc_buffer := bytes_of_string t\<rparr>\<rparr>"
  let ?ty = "if rpc_code (call_error d) = 0 then kBinaryMessage else kTextMessage"
  let ?m = "if rpc_code (call_error d) = 0 then call_result d else bytes_of_string ''null''"
  let ?p = "(peer_of c)\<lparr>rmh_handler := call_world d, rmh_world := [(?ty, ?m)]\<rparr>"
  let ?c2 = "put_peer ?p ?c1"
  have con: "ml_websocket (rc_link (call_world c)) = Some ()" "rmh_world (peer_of c) = []"
    using c by (simp_all add: connected_call_def)
  have send: "wp False (rc_send_request (rpc_link G H) kBinaryMessage) Q E ?c1 = Q True ?c2" for Q E
    by (rule send_request_wp) (simp_all add: con binary_call_answered [OF t(2) exec named])
  have receive: "wp False (rc_receive_response (rpc_link G H) b) Q E ?c2
      = Q (True, ?m) (put_status (status_of ?ty) (put_peer (?p\<lparr>rmh_world := []\<rparr>) ?c2))" for b Q E
    by (subst receive_response_wp [of _ ?ty ?m]) (simp_all add: con del: bytes_of_string_simps)
  show ?thesis
    using con by (simp add: rpc_client_def RcomClient_def rc_execute_binary_def rc_try_execute_binary_def wp_catch wp_bind
        make_request_wp t(1) send wp_basic receive connected_call_def del: bytes_of_string_simps)
qed

end
