(* ===== verification/Rpc_Properties.thy ===== *)
theory Rpc_Properties
  imports Rpc_Service Json_Properties
begin

text \<open>
  What a remote procedure call comes to, for any handler at the other end, and how the server
  answers what is no call.
\<close>

section \<open>Every message has an answer\<close>

lemma utf8_nil [simp]: "utf8_string []"
  by (simp add: utf8_string_def)

lemma obj_find_Nil: "obj_find k [] = None"
  by (simp add: obj_find_def)

lemma string_field_ok: "json_ok j \<Longrightarrow> string_field k j = Inr s \<Longrightarrow> utf8_string s"
  using json_ok_find [of _ k "JString s"]
  by (auto simp: string_field_def obj_find_Nil json_get_def json_index_def and_then_def json_to_string_def Let_def
      split: json.splits sum.splits option.splits if_splits)

lemma json_get_ok: "json_ok j \<Longrightarrow> json_contains k j \<Longrightarrow> \<exists>v. json_get k j = Inr v \<and> json_ok v"
  using json_ok_find [of _ k] by (cases j) (auto simp: json_get_def json_index_def Let_def)

lemma get_params_ok: "json_ok j \<Longrightarrow> \<exists>v. rmh_get_params j = Inr v \<and> json_ok v"
  using json_get_ok [of j kParams] by (auto simp: rmh_get_params_def)

definition fair_error :: "RPCError \<Rightarrow> bool" where
  "fair_error e \<longleftrightarrow> utf8_string (c_str (rpc_message e))"

lemma fair_messages: "fair_error new_RPCError" "fair_error \<lparr>rpc_code = c, rpc_message = ''Missing method''\<rparr>"
  "fair_error \<lparr>rpc_code = c, rpc_message = ''Invalid ID''\<rparr>"
  "fair_error \<lparr>rpc_code = c, rpc_message = ''Failed to parse the request''\<rparr>"
  by (simp_all add: fair_error_def new_RPCError_def c_str_def utf8_string_def byte_of_char_def)

lemma get_id_ok: "json_ok j \<Longrightarrow> fair_error e \<Longrightarrow> rmh_get_id j e = (i, e') \<Longrightarrow> utf8_string i \<and> fair_error e'"
  using string_field_ok [of j kID] fair_messages
  by (auto simp: rmh_get_id_def split: if_splits sum.splits)

lemma get_method_ok: "json_ok j \<Longrightarrow> fair_error e \<Longrightarrow> rmh_get_method j e = (m, e') \<Longrightarrow> utf8_string m \<and> fair_error e'"
  using string_field_ok [of j kMethod] fair_messages
  by (auto simp: rmh_get_method_def split: sum.splits)

text \<open>A handler that always returns, and then leaves something that can be sent.\<close>

definition fair_handler :: "'h IRPCHandler \<Rightarrow> bool" where
  "fair_handler H \<longleftrightarrow>
     (\<forall>i m c. json_ok (call_params c) \<longrightarrow> fair_error (call_error c) \<longrightarrow> call_result c = JNull \<longrightarrow>
        (\<exists>d. execute_json H i m c = Some (Inr (), d) \<and> sendable (call_error d) (call_result d)))
     \<and> (\<forall>i m c. json_ok (call_params c) \<longrightarrow> (\<exists>d. execute_binary H i m c = Some (Inr (), d)))"

lemma fair_json:
  assumes "fair_handler H" and "json_ok v" and "fair_error e"
  shows "\<exists>d. execute_json H i m \<lparr>call_params = v, call_result = JNull, call_error = e, call_world = w\<rparr> = Some (Inr (), d)
     \<and> sendable (call_error d) (call_result d)"
proof -
  let ?c = "\<lparr>call_params = v, call_result = JNull, call_error = e, call_world = w\<rparr>"
  have "json_ok (call_params ?c) \<longrightarrow> fair_error (call_error ?c) \<longrightarrow> call_result ?c = JNull \<longrightarrow>
      (\<exists>d. execute_json H i m ?c = Some (Inr (), d) \<and> sendable (call_error d) (call_result d))"
    using assms(1) unfolding fair_handler_def by blast
  with assms(2,3) show ?thesis by simp
qed

lemma fair_binary:
  assumes "fair_handler H" and "json_ok v"
  shows "\<exists>d. execute_binary H i m \<lparr>call_params = v, call_result = r, call_error = e, call_world = w\<rparr> = Some (Inr (), d)"
proof -
  let ?c = "\<lparr>call_params = v, call_result = r, call_error = e, call_world = w\<rparr>"
  have "json_ok (call_params ?c) \<longrightarrow> (\<exists>d. execute_binary H i m ?c = Some (Inr (), d))"
    using assms(1) unfolding fair_handler_def by blast
  with assms(2) show ?thesis by simp
qed

lemma response_dump:
  assumes "utf8_string i" and "utf8_string m" and "sendable e r"
  shows "\<exists>t. json_dump (response_object i m e r) = Inr t"
  by (rule json_dump_ok [OF response_ok [OF assms]])

lemma every_message_answered:
  assumes H: "fair_handler H"
  shows "wp False (rcom_onmessage G H outbox_socket m ty)
     (\<lambda>_ t. \<exists>ty' answer. rmh_world t = rmh_world s @ [(ty', answer)]) (\<lambda>_ _. False) s" (is "wp _ _ ?Q ?E _")
proof -
  have reply: "wp False (bindM (throw_left (json_dump (response_object i mt e r)))
        (\<lambda>text. rmh_send outbox_socket ([] @ bytes_of_string text) kTextMessage)) ?Q ?E t"
    if "rmh_world t = rmh_world s" "utf8_string i" "utf8_string mt" "sendable e r" for i mt e r t
    using response_dump [OF that(2-4)] that(1)
    by (auto simp: wp_bind throw_left_def wp_basic rmh_send_wp)
  have null: "wp False (bindM (throw_left (json_dump JNull))
        (\<lambda>text. rmh_send outbox_socket ([] @ bytes_of_string text) kTextMessage)) ?Q ?E t"
    if "rmh_world t = rmh_world s" for t
    using that by (simp add: json_dump_def and_then_def throw_left_def wp_bind wp_basic rmh_send_wp)
  have bin: "wp False (rmh_send outbox_socket b kBinaryMessage) ?Q ?E t" if "rmh_world t = rmh_world s" for b t
    using that by (simp add: rmh_send_wp)
  show ?thesis
  proof (rule json_parse_total [of "re_json G" m "()"])
    fix e
    assume "json_parse (re_json G) m () = Some (Inl (JsonError e), ())"
    then have p: "parses_to (re_json G) m (Inl (JsonError e))" by (rule parses_toI)
    have "sendable parse_failure JNull" using fair_messages by (simp add: sendable_def parse_failure_def fair_error_def)
    then obtain t where "json_dump (response_object kNoID kUnknownMethod parse_failure JNull) = Inr t"
      using response_dump [of kNoID kUnknownMethod parse_failure JNull] by auto
    then show ?thesis by (simp add: bad_request_answered [OF p])
  next
    fix j
    assume "json_parse (re_json G) m () = Some (Inr j, ())" and j: "json_ok j"
    then have p: "parses_to (re_json G) m (Inr j)" by (intro parses_toI)
    obtain i e1 where i: "rmh_get_id j new_RPCError = (i, e1)" by fastforce
    obtain mt e2 where mt: "rmh_get_method j e1 = (mt, e2)" by fastforce
    obtain v where v: "rmh_get_params j = Inr v" "json_ok v" using get_params_ok [OF j] by blast
    have u: "utf8_string i" "utf8_string mt" "fair_error e2"
      using get_id_ok [OF j _ i] get_method_ok [OF j _ mt] fair_messages by auto
    have s2: "sendable e2 JNull" using u(3) by (simp add: sendable_def fair_error_def)
    obtain d where d: "execute_json H i mt \<lparr>call_params = v, call_result = JNull, call_error = e2, call_world = rmh_handler s\<rparr> = Some (Inr (), d)"
      "sendable (call_error d) (call_result d)"
      using fair_json [OF H v(2) u(3)] by blast
    obtain b where b: "execute_binary H i mt \<lparr>call_params = v, call_result = [], call_error = e2, call_world = rmh_handler s\<rparr> = Some (Inr (), b)"
      using fair_binary [OF H v(2)] by blast
    note exec = execute_wp [where m = "execute_json H i mt", OF d(1)] execute_wp [where m = "execute_binary H i mt", OF b]
    show ?thesis
    proof (cases ty)
      case kTextMessage
      have "wp False (handle_json_request G H outbox_socket m) ?Q ?E s"
        using reply [OF _ u(1,2) d(2)] reply [OF _ u(1) utf8_words(2) s2]
        by (simp add: handle_json_request_def wp_bind [of _ "rmh_parse_request G m new_RPCError"] parse_request_wp [OF p]
            i mt v wp_bind [of _ "throw_left (Inr v)"] wp_bind wp_basic throw_left_def exec construct_response_eq
            construct_status_eq Let_def)
      with kTextMessage show ?thesis by (simp add: rcom_onmessage_def)
    next
      case kBinaryMessage
      have "wp False (handle_binary_request G H outbox_socket m) ?Q ?E s"
        using null bin reply [OF _ u(1) utf8_words(2) s2]
        by (simp add: handle_binary_request_def parse_request_wp [OF p] i mt v wp_bind wp_basic throw_left_def exec
            construct_status_eq Let_def)
      with kBinaryMessage show ?thesis by (simp add: rcom_onmessage_def)
    qed
  qed
qed


section \<open>A concrete handler\<close>

definition demo_rpc :: rcom_env where
  "demo_rpc = \<lparr>re_net = \<lparr>inet_aton = (\<lambda>s. None), getifaddrs = None, getnameinfo = (\<lambda>_. None)\<rparr>,
     re_ip = [], re_json = demo_doubles\<rparr>"

text \<open>It counts its calls and gives the parameters back, or fails when asked to.\<close>

definition demo_handler :: "nat IRPCHandler" where
  "demo_handler =
     \<lparr>execute_json = (\<lambda>ident method c. let c = c\<lparr>call_world := call_world c + 1\<rparr> in Some (Inr (),
        if method = ''fail'' then c\<lparr>call_error := \<lparr>rpc_code = kMethodNotFound, rpc_message = ''No''\<rparr>\<rparr>
        else c\<lparr>call_result := call_params c\<rparr>)),
      execute_binary = (\<lambda>ident method c. let c = c\<lparr>call_world := call_world c + 1\<rparr> in Some (Inr (),
        if method = ''fail'' then c\<lparr>call_error := \<lparr>rpc_code = kMethodNotFound, rpc_message = ''No''\<rparr>\<rparr>
        else c\<lparr>call_result := [1, 2, 3]\<rparr>))\<rparr>"

definition demo_call :: "'r \<Rightarrow> ('r, nat) client_call" where
  "demo_call r = \<lparr>call_params = demo_value, call_result = r, call_error = new_RPCError,
     call_world = \<lparr>rc_link = \<lparr>ml_websocket = Some (), ml_topic = ''camera'', ml_recv_status = kRecvText,
       ml_world = \<lparr>rmh_handler = 0, rmh_world = []\<rparr>\<rparr>, rc_buffer = [], rc_timeout = 1\<rparr>\<rparr>"

lemma demo_facts:
  "connected_call (demo_call r)" "call_params (demo_call r) = demo_value" "rmh_handler (peer_of (demo_call r)) = 0"
  "call_result (demo_call r) = r" "call_error (demo_call r) = new_RPCError"
  "json_ok demo_value" "canon demo_value = demo_value" "demo_value \<noteq> JNull"
  "utf8_string ''eye''" "utf8_string ''look''" "utf8_string ''fail''" "strtod_rounds (re_json demo_rpc)"
  "utf8_string (c_str ''No'')"
  by (simp_all add: demo_call_def connected_call_def peer_of_def demo_value_def utf8_string_def byte_of_char_def
      demo_rpc_def demo_strtod_rounds c_str_def)

lemma stray_bracket: "\<exists>e. json_parse F [0x5D] () = Some (Inl e, ())"
proof -
  have "wp False (parser_parse F) (\<lambda>_ _. False) (\<lambda>_ _. True) (new_parser [0x5D])"
    unfolding parser_parse_def wp_bind
  proof (rule token_structural [where w = "[]" and bs = "[]" and t = end_array], goal_cases)
    case (4 l)
    show ?case
      unfolding sax_parse_internal_def wp_bind
      by (intro wp_loop_step) (simp add: sax_parse_round_def parse_value_def unexpected_def sax_error_def wp_rules)
  qed (simp_all add: structural_def parser_at_def new_parser_def new_lexer_def lex_ok_def pending_def)
  then show ?thesis
    by (auto simp: json_parse_def elim!: wp_totalE)
qed

lemma demo_fair: "fair_handler demo_handler"
  by (auto simp: fair_handler_def demo_handler_def sendable_def fair_error_def Let_def demo_facts)

section \<open>Properties\<close>

text \<open>C4: A remote call of a method whose name is not empty is a call: the handler at the other end of the link is executed once, with
  the id, the method and the parameters of the caller in canonical form, and the caller gets the
  result and the error that the handler left; it is true exactly when the error code is 0. The
  result is left alone when the handler leaves null, and an error without a message gets one. The
  id, the method and the values are such that they can be sent: UTF-8 strings and finite numbers.\<close>

theorem remote_call_is_a_call:
  assumes "connected_call c" and "strtod_rounds (re_json G)"
    and "utf8_string ident" and "utf8_string method" and "json_ok (call_params c)" and "method \<noteq> []"
    and "execute_json H ident method \<lparr>call_params = canon (call_params c), call_result = JNull,
      call_error = new_RPCError, call_world = rmh_handler (peer_of c)\<rparr> = Some (Inr (), d)"
    and "sendable (call_error d) (call_result d)"
  shows "\<exists>e. stub_execute (rpc_client G H) ident method c = Some (Inr (rpc_code (call_error d) = 0), e)
     \<and> connected_call e \<and> rmh_handler (peer_of e) = call_world d
     \<and> call_result e = (if call_result d = JNull then call_result c else canon (call_result d))
     \<and> call_error e = (if rpc_code (call_error d) = 0 then new_RPCError
          else \<lparr>rpc_code = rpc_code (call_error d), rpc_message = error_message_of (call_error d)\<rparr>)"
  using wp_returns [OF json_call [OF assms(1-8)]] by auto

lemma remote_call_is_a_call_witness:
  "\<exists>e. stub_execute (rpc_client demo_rpc demo_handler) ''eye'' ''look'' (demo_call JNull) = Some (Inr True, e)
     \<and> rmh_handler (peer_of e) = 1 \<and> call_result e = demo_value \<and> call_error e = new_RPCError"
proof -
  let ?d = "\<lparr>call_params = demo_value, call_result = demo_value, call_error = new_RPCError, call_world = 1 :: nat\<rparr>"
  have "execute_json demo_handler ''eye'' ''look'' \<lparr>call_params = canon (call_params (demo_call JNull)), call_result = JNull,
      call_error = new_RPCError, call_world = rmh_handler (peer_of (demo_call JNull))\<rparr> = Some (Inr (), ?d)"
    by (simp add: demo_facts) (simp add: demo_handler_def)
  moreover have "sendable (call_error ?d) (call_result ?d)"
    using fair_messages by (simp add: sendable_def demo_facts fair_error_def)
  ultimately show ?thesis
    using remote_call_is_a_call [of "demo_call JNull" demo_rpc "''eye''" "''look''" demo_handler ?d]
    by (auto simp: demo_facts)
qed

text \<open>C12: The server always answers: whatever bytes come in, text or binary, JSON or not, with or
  without the fields of a request, one message goes back, provided that the handler returns and
  leaves what can be sent.\<close>

theorem every_message_is_answered:
  assumes "fair_handler H"
  shows "\<exists>t ty' answer. rcom_onmessage G H outbox_socket m ty s = Some (Inr (), t)
     \<and> rmh_world t = rmh_world s @ [(ty', answer)]"
  using wp_returns [OF every_message_answered [OF assms]] by fastforce

lemma every_message_is_answered_witness:
  "\<exists>t ty' answer. rcom_onmessage demo_rpc demo_handler outbox_socket [0x7B, 0xFF] kBinaryMessage
     \<lparr>rmh_handler = 0, rmh_world = []\<rparr> = Some (Inr (), t) \<and> rmh_world t = [(ty', answer)]"
  using every_message_is_answered [OF demo_fair, of demo_rpc "[0x7B, 0xFF]" kBinaryMessage "\<lparr>rmh_handler = 0, rmh_world = []\<rparr>"]
  by simp

text \<open>C32: A message that is no JSON is answered with the error -32700 of JSON-RPC, and the handler
  is not called.\<close>

theorem bad_request_is_answered:
  assumes "json_parse (re_json G) m () = Some (Inl e, ())"
  shows "\<exists>t. json_dump (JObject [(''error'', JObject [(''code'', JInt (- 32700)),
        (''message'', JString ''Failed to parse the request'')]),
        (''id'', JString ''unknown''), (''method'', JString ''unknown'')]) = Inr t
     \<and> rcom_onmessage G H outbox_socket m ty s
         = Some (Inr (), s\<lparr>rmh_world := rmh_world s @ [(kTextMessage, bytes_of_string t)]\<rparr>)"
proof -
  have p: "parses_to (re_json G) m (Inl e)" using assms by (rule parses_toI)
  have code: "(scast kParseError :: u64) = - 32700" by (simp add: kParseError_def)
  have msg: "c_str ''Failed to parse the request'' = ''Failed to parse the request''"
    by (simp add: c_str_def byte_of_char_def)
  have r: "response_object kNoID kUnknownMethod parse_failure JNull = JObject [(''error'', JObject [(''code'', JInt (- 32700)),
        (''message'', JString ''Failed to parse the request'')]), (''id'', JString ''unknown''), (''method'', JString ''unknown'')]"
    by (simp add: response_object_def error_member_def parse_failure_def code msg int_to_json_def field_defs kNoID_def
        kUnknownMethod_def) (simp add: kParseError_def)
  have "sendable parse_failure JNull" using fair_messages by (simp add: sendable_def parse_failure_def fair_error_def)
  then obtain t where t: "json_dump (response_object kNoID kUnknownMethod parse_failure JNull) = Inr t"
    using response_dump [of kNoID kUnknownMethod parse_failure JNull] by auto
  then show ?thesis
    using bad_request_answered [OF p t, of False H ty "\<lambda>_ u. u = s\<lparr>rmh_world := rmh_world s @ [(kTextMessage, bytes_of_string t)]\<rparr>" "\<lambda>_ _. False" s]
    by (auto simp: r elim: wp_totalE)
qed

lemma bad_request_is_answered_witness:
  "\<exists>t u. rcom_onmessage demo_rpc demo_handler outbox_socket [0x5D] kBinaryMessage \<lparr>rmh_handler = 0, rmh_world = []\<rparr>
     = Some (Inr (), u) \<and> rmh_handler u = 0 \<and> rmh_world u = [(kTextMessage, bytes_of_string t)]"
proof -
  obtain e where "json_parse (re_json demo_rpc) [0x5D] () = Some (Inl e, ())" using stray_bracket by blast
  from bad_request_is_answered [OF this, of demo_handler kBinaryMessage "\<lparr>rmh_handler = 0, rmh_world = []\<rparr>"]
  show ?thesis by auto
qed

text \<open>C34: The error of a binary call does not reach the caller: when the handler sets one, the server
  sends the text \<open>null\<close>, which the client takes for the result, and its error stays as it was.\<close>

theorem binary_errors_are_lost:
  assumes "connected_call c" and "strtod_rounds (re_json G)"
    and "utf8_string ident" and "utf8_string method" and "json_ok (call_params c)" and "method \<noteq> []"
    and "execute_binary H ident method \<lparr>call_params = canon (call_params c), call_result = [],
      call_error = new_RPCError, call_world = rmh_handler (peer_of c)\<rparr> = Some (Inr (), d)"
    and "rpc_code (call_error d) \<noteq> 0"
  shows "\<exists>e. execute_binary (rpc_client G H) ident method c = Some (Inr (), e)
     \<and> call_result e = bytes_of_string ''null'' \<and> call_error e = call_error c"
  using wp_returns [OF binary_call [OF assms(1-7)]] assms(8) by (auto simp del: bytes_of_string_simps)

lemma binary_errors_are_lost_witness:
  "\<exists>e. execute_binary (rpc_client demo_rpc demo_handler) ''eye'' ''fail'' (demo_call []) = Some (Inr (), e)
     \<and> call_result e = bytes_of_string ''null'' \<and> call_error e = new_RPCError"
proof -
  let ?d = "\<lparr>call_params = demo_value, call_result = [], call_error = \<lparr>rpc_code = kMethodNotFound, rpc_message = ''No''\<rparr>,
    call_world = 1 :: nat\<rparr>"
  have "execute_binary demo_handler ''eye'' ''fail'' \<lparr>call_params = canon (call_params (demo_call ([] :: bytes))), call_result = [],
      call_error = new_RPCError, call_world = rmh_handler (peer_of (demo_call ([] :: bytes)))\<rparr> = Some (Inr (), ?d)"
    by (simp add: demo_facts) (simp add: demo_handler_def)
  then show ?thesis
    using binary_errors_are_lost [of "demo_call []" demo_rpc "''eye''" "''fail''" demo_handler ?d]
    by (auto simp: demo_facts kMethodNotFound_def)
qed

text \<open>C36: A call with an empty method is a success: the server executes nothing and answers without
  an error, and the caller gets true and keeps its result.\<close>

theorem empty_method_succeeds:
  assumes "connected_call c" and "strtod_rounds (re_json G)" and "utf8_string ident" and "json_ok (call_params c)"
  shows "\<exists>e. stub_execute (rpc_client G H) ident [] c = Some (Inr True, e)
     \<and> rmh_handler (peer_of e) = rmh_handler (peer_of c) \<and> call_result e = call_result c \<and> call_error e = new_RPCError"
  using wp_returns [OF empty_method_call [OF assms, of H]] by auto

lemma empty_method_succeeds_witness:
  "\<exists>e. stub_execute (rpc_client demo_rpc demo_handler) ''eye'' [] (demo_call JNull) = Some (Inr True, e)
     \<and> rmh_handler (peer_of e) = 0 \<and> call_result e = JNull \<and> call_error e = new_RPCError"
  using empty_method_succeeds [of "demo_call JNull" demo_rpc "''eye''" demo_handler] by (simp add: demo_facts)

end
