(* ===== verification/Link_Heap.thy ===== *)
theory Link_Heap
  imports Small_Kernel WebSocketServer
begin

text \<open>
  The objects behind the pointers of a websocket server: SocketFactory.cpp makes websockets on
  the sockets of one system, the server holds them as \<open>std::unique_ptr\<close>s. The heap has each
  object with its descriptor; the system is shared. A pointer without an object is dangling, and
  nothing returns from its use.
\<close>

section \<open>The heap\<close>

record 'k link_heap =
  lh_kernel :: 'k
  lh_objects :: "nat \<Rightarrow> (role \<times> int WebSocket) option"
  lh_next :: nat

text \<open>An object with its socket in place of the descriptor, and the other way round.\<close>

definition re_world :: "('v \<Rightarrow> 'w) \<Rightarrow> 'v WebSocket \<Rightarrow> 'w WebSocket" where
  "re_world f s =
     \<lparr>output_message_buffer = output_message_buffer s, input_payload_buffer = input_payload_buffer s,
      frame_header = frame_header s, is_text = is_text s, is_continuation = is_continuation s,
      remote_close_reason = remote_close_reason s, input_message_length = input_message_length s,
      input_mask = input_mask s, output_mask = output_mask s, message_arg = message_arg s,
      world = f (world s)\<rparr>"

definition on_socket_of :: "'k \<Rightarrow> int WebSocket \<Rightarrow> 'k BaseSocket WebSocket" where
  "on_socket_of k s = re_world (\<lambda>fd. \<lparr>sockfd = fd, kernel = k\<rparr>) s"

definition at_rest :: "'k BaseSocket WebSocket \<Rightarrow> int WebSocket" where
  "at_rest s = re_world sockfd s"

definition on_object ::
  "nat \<Rightarrow> (role \<Rightarrow> ('k BaseSocket WebSocket, 'a) prog) \<Rightarrow> ('k link_heap, 'a) prog" where
  "on_object h m = (\<lambda>s. case lh_objects s h of
       None \<Rightarrow> None
     | Some (role, obj) \<Rightarrow> (case m role (on_socket_of (lh_kernel s) obj) of
           None \<Rightarrow> None
         | Some (r, obj') \<Rightarrow> Some (r, s\<lparr>lh_kernel := kernel (world obj'),
             lh_objects := (lh_objects s)(h \<mapsto> (role, at_rest obj'))\<rparr>)))"

section \<open>SocketFactory\<close>

definition heap_new :: "role \<Rightarrow> ('k, 'k BaseSocket WebSocket) prog \<Rightarrow> ('k link_heap, nat) prog" where
  "heap_new role constructor = (\<lambda>s. case constructor (lh_kernel s) of
       None \<Rightarrow> None
     | Some (r, k) \<Rightarrow> (case r of
           Inl e \<Rightarrow> Some (Inl e, s\<lparr>lh_kernel := k\<rparr>)
         | Inr obj \<Rightarrow> Some (Inr (lh_next s), s\<lparr>lh_kernel := k, lh_next := lh_next s + 1,
             lh_objects := (lh_objects s)(lh_next s \<mapsto> (role, at_rest obj))\<rparr>)))"

definition heap_websocket :: "'k ILinux \<Rightarrow> (nat \<Rightarrow> bytes) \<Rightarrow> nat \<Rightarrow> 'k link_heap IWebSocket" where
  "heap_websocket L uninit h =
     (let W = (\<lambda>role. websocket_object (tcp_env role L uninit))
      in \<lparr>iws_recv = (\<lambda>message timeout. on_object h (\<lambda>role. iws_recv (W role) message timeout)),
          iws_send = (\<lambda>message type. on_object h (\<lambda>role. iws_send (W role) message type)),
          iws_close = (\<lambda>code. on_object h (\<lambda>role. iws_close (W role) code)),
          iws_is_connected = on_object h (\<lambda>role. iws_is_connected (W role))\<rparr>)"

definition heap_delete :: "'k ILinux \<Rightarrow> nat \<Rightarrow> ('k link_heap, unit) prog" where
  "heap_delete L h = bindM (on_object h (\<lambda>role. on_world (bs_destroy L))) (\<lambda>_.
     modifyM (\<lambda>s. s\<lparr>lh_objects := (lh_objects s)(h := None)\<rparr>))"

definition heap_factory :: "'k ILinux \<Rightarrow> (nat \<Rightarrow> bytes) \<Rightarrow> u8 \<Rightarrow> (nat, 'k link_heap) ISocketFactory" where
  "heap_factory L uninit c =
     \<lparr>sf_new_server_side = (\<lambda>fd. heap_new ServerSide (new_server_side_websocket L uninit c fd)),
      sf_new_client_side = (\<lambda>a. heap_new ClientSide (new_client_side_websocket L uninit c a)),
      sf_object = heap_websocket L uninit, sf_delete = heap_delete L\<rparr>"

section \<open>Links\<close>

text \<open>
  \<open>fds\<close> says which descriptor was given to the constructor of an object; the object holds it as
  long as the connection is up. \<open>inside\<close> are the objects that have got the first part of a
  fragmented message and not its end.
\<close>

definition link_conn :: "('k \<Rightarrow> int \<Rightarrow> connection) \<Rightarrow> (nat \<Rightarrow> int) \<Rightarrow> 'k link_heap \<Rightarrow> nat \<Rightarrow> connection" where
  "link_conn conns fds s h = conns (lh_kernel s) (fds h)"

definition link_ok ::
  "('k \<Rightarrow> int \<Rightarrow> connection) \<Rightarrow> (nat \<Rightarrow> int) \<Rightarrow> nat set \<Rightarrow> 'k link_heap \<Rightarrow> nat \<Rightarrow> bool" where
  "link_ok conns fds inside s h \<longleftrightarrow> fds h \<noteq> kInvalidSocket
     \<and> (\<exists>obj. lh_objects s h = Some (ServerSide, obj) \<and> length (input_mask obj) = 4 \<and> length (output_mask obj) = 4
          \<and> is_continuation obj = (h \<in> inside)
          \<and> owns conns (fds h) \<lparr>sockfd = world obj, kernel = lh_kernel s\<rparr>)"

lemma re_world_simps [simp]:
  "world (re_world f s) = f (world s)" "input_mask (re_world f s) = input_mask s"
  "output_mask (re_world f s) = output_mask s" "is_continuation (re_world f s) = is_continuation s"
  "re_world f (re_world g s) = re_world (f \<circ> g) s"
  by (simp_all add: re_world_def)

lemma on_socket_of_simps [simp]:
  "world (on_socket_of k s) = \<lparr>sockfd = world s, kernel = k\<rparr>"
  "input_mask (on_socket_of k s) = input_mask s" "output_mask (on_socket_of k s) = output_mask s"
  "is_continuation (on_socket_of k s) = is_continuation s"
  by (simp_all add: on_socket_of_def)

lemma at_rest_simps [simp]:
  "world (at_rest t) = sockfd (world t)" "input_mask (at_rest t) = input_mask t" "output_mask (at_rest t) = output_mask t"
  "is_continuation (at_rest t) = is_continuation t"
  by (simp_all add: at_rest_def)

lemma BaseSocket_eta [simp]: "\<lparr>sockfd = sockfd s, kernel = kernel s\<rparr> = (s :: 'k BaseSocket)"
  by (cases s) simp

lemma at_rest_on_socket [simp]: "at_rest (on_socket_of k s) = s"
  by (simp add: at_rest_def on_socket_of_def re_world_def)

lemma on_object_wp:
  assumes "lh_objects s h = Some (role, obj)"
  shows "wp T (on_object h m) Q E s = wp T (m role)
     (\<lambda>x t. Q x (s\<lparr>lh_kernel := kernel (world t), lh_objects := (lh_objects s)(h \<mapsto> (role, at_rest t))\<rparr>))
     (\<lambda>e t. E e (s\<lparr>lh_kernel := kernel (world t), lh_objects := (lh_objects s)(h \<mapsto> (role, at_rest t))\<rparr>))
     (on_socket_of (lh_kernel s) obj)"
  using assms by (simp add: on_object_def wp_def split: option.split prod.split sum.split)

end
