(* ===== verification/Link_Table.thy ===== *)
theory Link_Table
  imports Link_Heap
begin

text \<open>
  What the websocket server relies on of the objects it points to, and what its loops over the
  links come to: a broadcast, and the removal of closed links.
\<close>

section \<open>The interface\<close>

text \<open>
  \<open>table w H\<close>: in the world \<open>w\<close> the pointers \<open>H\<close> have objects, each with a connection of its
  own. \<open>lives w h\<close>: the object of \<open>h\<close> is there, and not destroyed. \<open>carries\<close> are the messages that a websocket sends, in the bytes that \<open>wire\<close> gives.
\<close>

locale link_table =
  fixes F :: "('h, 'w) ISocketFactory"
    and table :: "'w \<Rightarrow> 'h set \<Rightarrow> bool"
    and conn :: "'w \<Rightarrow> 'h \<Rightarrow> connection"
    and lives :: "'w \<Rightarrow> 'h \<Rightarrow> bool"
    and carries :: "bytes \<Rightarrow> bool"
    and wire :: "MessageType \<Rightarrow> bytes \<Rightarrow> bytes"
  assumes connected_law: "\<lbrakk>table w H; h \<in> H\<rbrakk> \<Longrightarrow>
      wp False (iws_is_connected (sf_object F h)) (\<lambda>b w'. b = up (conn w h) \<and> w' = w) (\<lambda>_ _. False) w"
    and send_law: "\<lbrakk>table w H; h \<in> H; up (conn w h); carries message\<rbrakk> \<Longrightarrow>
      wp False (iws_send (sf_object F h) message type)
        (\<lambda>b w'. b \<and> table w' H \<and> conn w' h = (conn w h)\<lparr>outbox := outbox (conn w h) @ wire type message\<rparr>
           \<and> (\<forall>h'\<in>H - {h}. conn w' h' = conn w h')) (\<lambda>_ _. False) w"
    and delete_law: "\<lbrakk>table w H; h \<in> H; \<not> up (conn w h)\<rbrakk> \<Longrightarrow>
      wp False (sf_delete F h)
        (\<lambda>_ w'. table w' (H - {h}) \<and> (\<forall>h'\<in>H - {h}. conn w' h' = conn w h')
           \<and> (\<forall>h'. lives w' h' \<longleftrightarrow> lives w h' \<and> h' \<noteq> h)) (\<lambda>_ _. False) w"

section \<open>Loops over the links\<close>

lemma wss_on_world_wp [wp_rules]:
  "wp T (wss_on_world m) Q E s
     = wp T m (\<lambda>x w. Q x (s\<lparr>wss_world := w\<rparr>)) (\<lambda>e w. E e (s\<lparr>wss_world := w\<rparr>)) (wss_world s)"
  by (simp add: wss_on_world_def wp_zoom)

text \<open>A loop whose body leaves the links alone passes every one of them once, in order.\<close>

lemma for_links_wp:
  assumes start: "P 0 s" and links: "wss_links s = hs"
    and step: "\<And>i t. \<lbrakk>i < length hs; wss_links t = hs; P i t\<rbrakk> \<Longrightarrow>
      wp False (body i) (\<lambda>_ t'. wss_links t' = hs \<and> P (Suc i) t') E t"
    and stop: "\<And>t. \<lbrakk>wss_links t = hs; P (length hs) t\<rbrakk> \<Longrightarrow> Q () t"
  shows "wp False (for_links body) Q E s"
  unfolding for_links_def
proof (rule wp_loop_total [where I = "\<lambda>i t. i \<le> length hs \<and> wss_links t = hs \<and> P i t" and \<mu> = "\<lambda>i t. length hs - i"])
  show "0 \<le> length hs \<and> wss_links s = hs \<and> P 0 s" using start links by simp
next
  fix i t
  assume i: "i \<le> length hs \<and> wss_links t = hs \<and> P i t"
  show "wp False (bindM (getsM wss_count_links) (\<lambda>n.
       if i < n then bindM (body i) (\<lambda>_. returnM (Inl (i + 1))) else returnM (Inr ())))
     (\<lambda>r t'. case r of Inl i' \<Rightarrow> (i' \<le> length hs \<and> wss_links t' = hs \<and> P i' t') \<and> length hs - i' < length hs - i
        | Inr x \<Rightarrow> Q x t') E t"
  proof (cases "i < length hs")
    case True
    with i show ?thesis
      by (simp add: wp_bind wp_basic wss_count_links_def) (rule wp_mono [OF step], auto simp: wp_basic)
  next
    case False
    with i have "i = length hs" by simp
    with i stop [of t] show ?thesis by (auto simp: wp_bind wp_basic wss_count_links_def)
  qed
qed

lemma wp_block_Cons: "wp T (blockM (m # ms)) Q E s = wp T m (\<lambda>_. wp T (blockM ms) Q E) E s"
proof (cases ms)
  case Nil
  have "(\<lambda>_. wp T (returnM ()) Q E) = Q" by (intro ext) (simp add: wp_basic)
  with Nil show ?thesis by simp
qed (simp add: wp_bind)

context link_table
begin

text \<open>What a broadcast makes of the connection of a link.\<close>

definition reached :: "'h option \<Rightarrow> MessageType \<Rightarrow> bytes \<Rightarrow> 'h \<Rightarrow> connection \<Rightarrow> connection" where
  "reached exclude type message h c =
     (if up c \<and> exclude \<noteq> Some h then c\<lparr>outbox := outbox c @ wire type message\<rparr> else c)"

lemma link_send_wp:
  assumes "table (wss_world s) H" and "wss_links s ! i \<in> H" and "carries message"
  shows "wp False (wss_send F i message type)
     (\<lambda>b s'. b \<and> wss_links s' = wss_links s \<and> wss_message s' = wss_message s \<and> table (wss_world s') H
        \<and> conn (wss_world s') (wss_links s ! i) = reached None type message (wss_links s ! i) (conn (wss_world s) (wss_links s ! i))
        \<and> (\<forall>h'\<in>H - {wss_links s ! i}. conn (wss_world s') h' = conn (wss_world s) h')) (\<lambda>_ _. False) s"
  unfolding wss_send_def wss_with_link_def wp_bind wp_basic wss_on_world_wp
proof (rule wp_mono [OF connected_law [OF assms(1,2)]])
  fix b w'
  assume b: "b = up (conn (wss_world s) (wss_links s ! i)) \<and> w' = wss_world s"
  show "wp False (if b then bindM (getsM (\<lambda>s. wss_links s ! i)) (\<lambda>h. wss_on_world (iws_send (sf_object F h) message type)) else returnM True)
     (\<lambda>b s'. b \<and> wss_links s' = wss_links s \<and> wss_message s' = wss_message s \<and> table (wss_world s') H
        \<and> conn (wss_world s') (wss_links s ! i) = reached None type message (wss_links s ! i) (conn (wss_world s) (wss_links s ! i))
        \<and> (\<forall>h'\<in>H - {wss_links s ! i}. conn (wss_world s') h' = conn (wss_world s) h')) (\<lambda>_ _. False) (s\<lparr>wss_world := w'\<rparr>)"
  proof (cases b)
    case True
    with b have u: "up (conn (wss_world s) (wss_links s ! i))" by simp
    show ?thesis
      using True b by (simp add: wp_bind wp_basic wss_on_world_wp)
        (rule wp_mono [OF send_law [OF assms(1,2) u assms(3)]], auto simp: reached_def u)
  next
    case False
    with b assms(1) show ?thesis by (simp add: wp_basic reached_def)
  qed
qed simp

lemma broadcast_wp:
  assumes t: "table (wss_world s) H" and hs: "wss_links s = hs" "distinct hs" "set hs \<subseteq> H" and m: "carries message"
    and post: "\<And>s'. \<lbrakk>wss_links s' = hs; wss_message s' = wss_message s; table (wss_world s') H;
      \<forall>h\<in>set hs. conn (wss_world s') h = reached exclude type message h (conn (wss_world s) h);
      \<forall>h\<in>H - set hs. conn (wss_world s') h = conn (wss_world s) h\<rbrakk> \<Longrightarrow> Q () s'"
  shows "wp False (wss_broadcast F message type exclude) Q E s"
proof -
  let ?P = "\<lambda>i (t :: ('h, 'w) WebSocketServer). wss_message t = wss_message s \<and> table (wss_world t) H
     \<and> (\<forall>h\<in>H. conn (wss_world t) h
          = (if h \<in> set (take i hs) then reached exclude type message h (conn (wss_world s) h) else conn (wss_world s) h))"
  show ?thesis
    unfolding wss_broadcast_def
  proof (rule for_links_wp [where P = ?P, OF _ hs(1)])
    show "?P 0 s" using t by simp
  next
    fix i and t :: "('h, 'w) WebSocketServer"
    assume i: "i < length hs" and links: "wss_links t = hs" and P: "?P i t"
    let ?h = "hs ! i"
    have h: "?h \<in> H" "?h \<notin> set (take i hs)" "set (take (Suc i) hs) = insert ?h (set (take i hs))"
      using subsetD [OF hs(3) nth_mem [OF i]] hs(2) i
      by (auto simp: take_Suc_conv_app_nth in_set_conv_nth nth_eq_iff_index_eq)
    have tab: "table (wss_world t) H" "wss_links t ! i \<in> H" using P h(1) links by simp_all
    show "wp False (bindM (getsM (wss_get_link i)) (\<lambda>h.
         whenM (exclude \<noteq> Some h) (bindM (wss_send F i message type) (\<lambda>success.
           whenM (\<not> success) (wss_close F i kCloseInternalError)))))
       (\<lambda>_ t'. wss_links t' = hs \<and> ?P (Suc i) t') E t"
    proof (cases "exclude = Some ?h")
      case True
      have "?P (Suc i) t" using P h True by (auto simp: reached_def)
      then show ?thesis using links True by (simp add: wp_bind wp_basic wss_get_link_def whenM_def)
    next
      case False
      have P': "?P (Suc i) t'"
        if "wss_message t' = wss_message t" "table (wss_world t') H"
          "conn (wss_world t') ?h = reached None type message ?h (conn (wss_world t) ?h)"
          "\<forall>h'\<in>H - {?h}. conn (wss_world t') h' = conn (wss_world t) h'" for t' :: "('h, 'w) WebSocketServer"
      proof (intro conjI ballI)
        fix h'
        assume h': "h' \<in> H"
        show "conn (wss_world t') h' = (if h' \<in> set (take (Suc i) hs)
            then reached exclude type message h' (conn (wss_world s) h') else conn (wss_world s) h')"
        proof (cases "h' = ?h")
          case True
          then show ?thesis using that(3) P h False by (simp add: reached_def)
        next
          case False
          then show ?thesis using that(4) P h' h(3) by simp
        qed
      qed (use that P in simp_all)
      have send: "wp False (bindM (wss_send F i message type) (\<lambda>success.
           whenM (\<not> success) (wss_close F i kCloseInternalError)))
         (\<lambda>_ t'. wss_links t' = hs \<and> ?P (Suc i) t') E t"
        unfolding wp_bind
      proof (rule wp_mono [OF link_send_wp [OF tab m]], elim conjE)
        fix b and t' :: "('h, 'w) WebSocketServer"
        assume b: "b" and l: "wss_links t' = wss_links t" and t': "wss_message t' = wss_message t" "table (wss_world t') H"
          "conn (wss_world t') (wss_links t ! i) = reached None type message (wss_links t ! i) (conn (wss_world t) (wss_links t ! i))"
          "\<forall>h'\<in>H - {wss_links t ! i}. conn (wss_world t') h' = conn (wss_world t) h'"
        from P' [OF t' [unfolded links]] b l links
        show "wp False (whenM (\<not> b) (wss_close F i kCloseInternalError)) (\<lambda>_ t'. wss_links t' = hs \<and> ?P (Suc i) t') E t'"
          by (simp only: whenM_def not_True_eq_False if_False wp_basic simp_thms) blast
      qed simp
      then show ?thesis
        using False links by (simp only: wp_bind wp_basic wss_get_link_def whenM_def if_True not_False_eq_True)
    qed
  next
    fix t :: "('h, 'w) WebSocketServer"
    assume "wss_links t = hs" "?P (length hs) t"
    then show "Q () t" using hs(3) by (intro post) auto
  qed
qed

section \<open>Closed links\<close>

lemma partition_links_wp:
  assumes "table w H" and "set hs \<subseteq> H"
  shows "wp False (partition_links F hs)
     (\<lambda>r w'. r = (filter (\<lambda>h. up (conn w h)) hs, filter (\<lambda>h. \<not> up (conn w h)) hs) \<and> w' = w) (\<lambda>_ _. False) w"
  using assms(2)
proof (induction hs)
  case (Cons h hs)
  then have h: "h \<in> H" and IH: "wp False (partition_links F hs)
     (\<lambda>r w'. r = (filter (\<lambda>h. up (conn w h)) hs, filter (\<lambda>h. \<not> up (conn w h)) hs) \<and> w' = w) (\<lambda>_ _. False) w"
    by simp_all
  show ?case
    unfolding partition_links.simps wp_bind
    by (rule wp_mono [OF connected_law [OF assms(1) h]], elim conjE, hypsubst, rule wp_mono [OF IH])
      (auto simp: wp_basic)
qed (simp add: wp_basic)

lemma delete_all_wp:
  assumes "table w H" and "set hs \<subseteq> H" and "distinct hs" and "\<forall>h\<in>set hs. \<not> up (conn w h)"
  shows "wp False (blockM (map (sf_delete F) hs))
     (\<lambda>_ w'. table w' (H - set hs) \<and> (\<forall>h\<in>H - set hs. conn w' h = conn w h)
        \<and> (\<forall>h. lives w' h \<longleftrightarrow> lives w h \<and> h \<notin> set hs)) (\<lambda>_ _. False) w"
  using assms
proof (induction hs arbitrary: w H)
  case (Cons h hs)
  then have del: "wp False (sf_delete F h)
      (\<lambda>_ w'. table w' (H - {h}) \<and> (\<forall>h'\<in>H - {h}. conn w' h' = conn w h')
         \<and> (\<forall>h'. lives w' h' \<longleftrightarrow> lives w h' \<and> h' \<noteq> h)) (\<lambda>_ _. False) w"
    by (intro delete_law) auto
  have eq: "H - {h} - set hs = H - set (h # hs)" by auto
  have rest: "wp False (blockM (map (sf_delete F) hs))
     (\<lambda>_ w''. table w'' (H - set (h # hs)) \<and> (\<forall>h'\<in>H - set (h # hs). conn w'' h' = conn w h')
        \<and> (\<forall>h'. lives w'' h' \<longleftrightarrow> lives w h' \<and> h' \<notin> set (h # hs))) (\<lambda>_ _. False) w'"
    if "table w' (H - {h})" "\<forall>h'\<in>H - {h}. conn w' h' = conn w h'" "\<forall>h'. lives w' h' \<longleftrightarrow> lives w h' \<and> h' \<noteq> h" for w'
  proof -
    have sub: "set hs \<subseteq> H - {h}" using Cons.prems by auto
    have "distinct hs" "\<forall>h'\<in>set hs. \<not> up (conn w' h')" using Cons.prems that(2) sub by (simp_all add: subset_iff)
    from Cons.IH [OF that(1) sub this] show ?thesis
      by (rule wp_mono) (use that in \<open>auto simp: eq\<close>)
  qed
  show ?case
    by (simp only: list.map wp_block_Cons, rule wp_mono [OF del]) (use rest in auto)
qed (simp add: wp_basic)

lemma remove_closed_links_wp:
  assumes t: "table (wss_world s) (set (wss_links s))" and d: "distinct (wss_links s)"
    and post: "\<And>w'. \<lbrakk>table w' {h \<in> set (wss_links s). up (conn (wss_world s) h)};
      \<forall>h\<in>set (wss_links s). up (conn (wss_world s) h) \<longrightarrow> conn w' h = conn (wss_world s) h;
      \<forall>h. lives w' h \<longleftrightarrow> lives (wss_world s) h \<and> \<not> (h \<in> set (wss_links s) \<and> \<not> up (conn (wss_world s) h))\<rbrakk> \<Longrightarrow>
      Q () (s\<lparr>wss_world := w', wss_links := filter (\<lambda>h. up (conn (wss_world s) h)) (wss_links s)\<rparr>)"
  shows "wp False (remove_closed_links F) Q E s"
proof -
  let ?hs = "wss_links s" and ?up = "\<lambda>h. up (conn (wss_world s) h)"
  let ?closed = "filter (\<lambda>h. \<not> ?up h) ?hs"
  have H: "set ?hs - set ?closed = {h \<in> set ?hs. ?up h}" by auto
  have "set ?closed \<subseteq> set ?hs" "distinct ?closed" "\<forall>h\<in>set ?closed. \<not> ?up h" using d by auto
  note del = delete_all_wp [OF t this, unfolded H]
  show ?thesis
    unfolding remove_closed_links_def wp_bind wp_basic wss_on_world_wp
    by (rule wp_mono [OF partition_links_wp [OF t subset_refl]], elim conjE, hypsubst)
      (simp add: wp_bind wp_basic wss_on_world_wp, rule wp_mono [OF del], use post in auto)
qed

end

end
