(* ===== verification/Chat.thy ===== *)
theory Chat
  imports Link_Table
begin

text \<open>
  The chat room of examples/messagebus/chat-server.cpp: a listener that sends what one client
  says to all the others. What a round of the server over its links comes to with it.
\<close>

text \<open>\<open>ChatBus::onmessage\<close>; the line that it prints is not modelled.\<close>

definition chat_onmessage :: "('h, 'w) ISocketFactory \<Rightarrow> ('h, 'w) listener" where
  "chat_onmessage F sender type =
     bindM (getsM wss_message) (\<lambda>message. wss_broadcast F message kTextMessage (Some sender))"

section \<open>Links that receive\<close>

text \<open>
  \<open>hears h inb type data\<close>: what waits on the connection of \<open>h\<close> is one message, and it is the
  next that a call of \<open>recv\<close> returns.
\<close>

locale message_table = link_table F table conn lives carries wire
  for F :: "('h, 'w) ISocketFactory" and table :: "'w \<Rightarrow> 'h set \<Rightarrow> bool" and conn :: "'w \<Rightarrow> 'h \<Rightarrow> connection"
    and lives :: "'w \<Rightarrow> 'h \<Rightarrow> bool" and carries :: "bytes \<Rightarrow> bool" and wire :: "MessageType \<Rightarrow> bytes \<Rightarrow> bytes" +
  fixes hears :: "'h \<Rightarrow> bytes \<Rightarrow> MessageType \<Rightarrow> bytes \<Rightarrow> bool"
  assumes idle_law: "\<lbrakk>table w H; h \<in> H; up (conn w h); inbox (conn w h) = []\<rbrakk> \<Longrightarrow>
      wp False (iws_recv (sf_object F h) buffer 0)
        (\<lambda>(status, _) w'. status = kRecvTimeOut \<and> table w' H \<and> (\<forall>h'\<in>H. conn w' h' = conn w h')) (\<lambda>_ _. False) w"
    and message_law: "\<lbrakk>table w H; h \<in> H; up (conn w h); hears h (inbox (conn w h)) type data\<rbrakk> \<Longrightarrow>
      wp False (iws_recv (sf_object F h) buffer 0)
        (\<lambda>(status, m) w'. status = (if type = kTextMessage then kRecvText else kRecvBinary) \<and> m = data \<and> table w' H
           \<and> conn w' h = (conn w h)\<lparr>inbox := []\<rparr> \<and> (\<forall>h'\<in>H - {h}. conn w' h' = conn w h')) (\<lambda>_ _. False) w"

section \<open>What everyone hears\<close>

text \<open>What a link says to the others in a round, and what a link has got of what \<open>said_by\<close> said.\<close>

definition uttered ::
  "(MessageType \<Rightarrow> bytes \<Rightarrow> bytes) \<Rightarrow> ('h \<Rightarrow> (MessageType \<times> bytes) option) \<Rightarrow> ('h \<Rightarrow> connection) \<Rightarrow> 'h \<Rightarrow> bytes" where
  "uttered enc said c g = (if up (c g) then case said g of Some (type, data) \<Rightarrow> enc kTextMessage data | None \<Rightarrow> [] else [])"

definition heard ::
  "(MessageType \<Rightarrow> bytes \<Rightarrow> bytes) \<Rightarrow> ('h \<Rightarrow> (MessageType \<times> bytes) option) \<Rightarrow> ('h \<Rightarrow> connection) \<Rightarrow> 'h list \<Rightarrow> 'h \<Rightarrow> connection" where
  "heard enc said c gs h = (if up (c h)
     then (c h)\<lparr>inbox := (if h \<in> set gs then [] else inbox (c h)),
                outbox := outbox (c h) @ concat (map (\<lambda>g. if g = h then [] else uttered enc said c g) gs)\<rparr>
     else c h)"

lemma heard_simps [simp]:
  "up (heard enc said c gs h) = up (c h)" "heard enc said c [] h = c h"
  "h \<notin> set gs \<Longrightarrow> inbox (heard enc said c gs h) = inbox (c h)"
  by (simp_all add: heard_def)

lemma inbox_empty: "inbox c = [] \<Longrightarrow> c\<lparr>inbox := []\<rparr> = c"
  by (cases c) simp

lemma heard_append:
  "heard enc said c (gs @ [g]) h = (let d = heard enc said c gs h in if up d
     then if h = g then d\<lparr>inbox := []\<rparr> else d\<lparr>outbox := outbox d @ uttered enc said c g\<rparr> else d)"
  by (simp add: heard_def Let_def)

context message_table
begin

text \<open>One link that says nothing, and one that says something.\<close>

lemma quiet_link_wp:
  assumes "table (wss_world s) H" and "wss_links s ! i \<in> H" and "up (conn (wss_world s) (wss_links s ! i))"
    and "inbox (conn (wss_world s) (wss_links s ! i)) = []"
    and post: "\<And>s'. \<lbrakk>wss_links s' = wss_links s; table (wss_world s') H;
      \<forall>h\<in>H. conn (wss_world s') h = conn (wss_world s) h\<rbrakk> \<Longrightarrow> Q () s'"
  shows "wp False (handle_new_messages_of F listener i) Q E s"
  unfolding handle_new_messages_of_def wss_with_link_def wp_bind wp_basic wss_on_world_wp
  by (rule wp_mono [OF idle_law [OF assms(1-4)]]) (use post in \<open>auto simp: wp_rules\<close>)

lemma chat_link_wp:
  assumes t: "table (wss_world s) H" and hs: "wss_links s = hs" "distinct hs" "set hs = H" and i: "i < length hs"
    and u: "up (conn (wss_world s) (hs ! i))"
    and said: "hears (hs ! i) (inbox (conn (wss_world s) (hs ! i))) type data" "carries data"
    and post: "\<And>s'. \<lbrakk>wss_links s' = hs; table (wss_world s') H;
      conn (wss_world s') (hs ! i) = (conn (wss_world s) (hs ! i))\<lparr>inbox := []\<rparr>;
      \<forall>h\<in>H - {hs ! i}. conn (wss_world s') h = reached None kTextMessage data h (conn (wss_world s) h)\<rbrakk> \<Longrightarrow> Q () s'"
  shows "wp False (handle_new_messages_of F (chat_onmessage F) i) Q E s"
proof -
  let ?h = "hs ! i"
  have h: "wss_links s ! i = ?h" "?h \<in> H" using i hs by auto
  have say: "wp False (chat_onmessage F ?h ty) Q E s1"
    if s1: "wss_links s1 = hs" "wss_message s1 = data" "table (wss_world s1) H"
      "conn (wss_world s1) ?h = (conn (wss_world s) ?h)\<lparr>inbox := []\<rparr>"
      "\<forall>h\<in>H - {?h}. conn (wss_world s1) h = conn (wss_world s) h" for s1 ty
    unfolding chat_onmessage_def wp_bind wp_basic s1(2)
  proof (rule broadcast_wp [OF s1(3,1) hs(2) _ said(2)])
    fix s' :: "('h, 'w) WebSocketServer"
    assume s': "wss_links s' = hs" "table (wss_world s') H"
      "\<forall>h\<in>set hs. conn (wss_world s') h = reached (Some ?h) kTextMessage data h (conn (wss_world s1) h)"
    have sender: "conn (wss_world s') ?h = (conn (wss_world s) ?h)\<lparr>inbox := []\<rparr>"
      using s'(3) h(2) s1(4) hs(3) by (simp add: reached_def)
    have "conn (wss_world s') h' = reached None kTextMessage data h' (conn (wss_world s) h')" if "h' \<in> H - {?h}" for h'
    proof -
      have "conn (wss_world s') h' = reached (Some ?h) kTextMessage data h' (conn (wss_world s1) h')"
        using s'(3) that hs(3) by blast
      moreover have "conn (wss_world s1) h' = conn (wss_world s) h'" using s1(5) that by blast
      ultimately show ?thesis using that by (auto simp: reached_def)
    qed
    then show "Q () s'" by (intro post [OF s'(1,2) sender] ballI)
  qed (use hs(3) in simp)
  show ?thesis
    unfolding handle_new_messages_of_def wss_with_link_def wp_bind wp_basic wss_on_world_wp h(1)
  proof (rule wp_mono [OF message_law [OF t h(2) u said(1)]], goal_cases)
    case (1 r w')
    obtain st m where r: "r = (st, m)" by (cases r)
    from 1 have "wp False (chat_onmessage F ?h ty) Q E (s\<lparr>wss_world := w', wss_message := m\<rparr>)" for ty
      by (intro say) (simp_all add: r hs(1))
    then show ?case
      using 1 by (cases type) (simp_all add: r wp_bind wp_basic wss_get_link_def hs(1))
  qed simp
qed

lemma chat_round_wp:
  assumes t: "table (wss_world s) H" and hs: "wss_links s = hs" "distinct hs" "set hs = H"
    and said: "\<And>h. h \<in> H \<Longrightarrow> up (conn (wss_world s) h) \<Longrightarrow> (case said h of
      None \<Rightarrow> inbox (conn (wss_world s) h) = []
    | Some (type, data) \<Rightarrow> hears h (inbox (conn (wss_world s) h)) type data \<and> carries data)"
    and post: "\<And>s'. \<lbrakk>wss_links s' = hs; table (wss_world s') H;
      \<forall>h\<in>H. conn (wss_world s') h = heard wire said (conn (wss_world s)) hs h\<rbrakk> \<Longrightarrow> Q () s'"
  shows "wp False (handle_new_messages F (chat_onmessage F)) Q E s"
proof -
  let ?c = "conn (wss_world s)"
  let ?P = "\<lambda>i (t :: ('h, 'w) WebSocketServer). table (wss_world t) H
     \<and> (\<forall>h\<in>H. conn (wss_world t) h = heard wire said ?c (take i hs) h)"
  show ?thesis
    unfolding handle_new_messages_def
  proof (rule for_links_wp [where P = ?P, OF _ hs(1)])
    show "?P 0 s" using t by simp
  next
    fix i and t :: "('h, 'w) WebSocketServer"
    assume i: "i < length hs" and links: "wss_links t = hs" and P: "?P i t"
    let ?h = "hs ! i"
    have h: "?h \<in> H" "?h \<notin> set (take i hs)" "take (Suc i) hs = take i hs @ [?h]"
      using hs i by (auto simp: take_Suc_conv_app_nth in_set_conv_nth nth_eq_iff_index_eq)
    have tab: "table (wss_world t) H" "wss_links t ! i \<in> H" using P h(1) links by simp_all
    have now: "conn (wss_world t) ?h = heard wire said ?c (take i hs) ?h" using P h(1) by simp
    have next_round: "wss_links t' = hs \<and> ?P (Suc i) t'"
      if "wss_links t' = hs" "table (wss_world t') H"
        "\<forall>h'\<in>H. conn (wss_world t') h' = (let d = conn (wss_world t) h' in if up d
           then if h' = ?h then d\<lparr>inbox := []\<rparr> else d\<lparr>outbox := outbox d @ uttered wire said ?c ?h\<rparr> else d)"
      for t' :: "('h, 'w) WebSocketServer"
      using that P by (simp add: h(3) heard_append)
    have body: "wp False (handle_new_messages_of F (chat_onmessage F) i) (\<lambda>_ t'. wss_links t' = hs \<and> ?P (Suc i) t') E t"
      if u: "up (?c ?h)"
    proof (cases "said ?h")
      case None
      then have "inbox (?c ?h) = []" using said [OF h(1) u] by simp
      then have e: "inbox (conn (wss_world t) ?h) = []" "up (conn (wss_world t) ?h)" using now u h(2) by simp_all
      show ?thesis
      proof (rule quiet_link_wp [OF tab], unfold links)
        fix t' :: "('h, 'w) WebSocketServer"
        assume t': "wss_links t' = hs" "table (wss_world t') H" "\<forall>h\<in>H. conn (wss_world t') h = conn (wss_world t) h"
        then show "wss_links t' = hs \<and> ?P (Suc i) t'"
          by (intro next_round) (auto simp: Let_def uttered_def u None e inbox_empty)
      qed (use e in simp_all)
    next
      case (Some x)
      obtain ty d where x: "x = (ty, d)" by (cases x)
      then have "hears ?h (inbox (?c ?h)) ty d" "carries d" using said [OF h(1) u] Some by simp_all
      then have e: "hears ?h (inbox (conn (wss_world t) ?h)) ty d" "carries d" "up (conn (wss_world t) ?h)"
        using now u h(2) by simp_all
      show ?thesis
      proof (rule chat_link_wp [OF tab(1) links hs(2,3) i e(3,1,2)])
        fix t' :: "('h, 'w) WebSocketServer"
        assume t': "wss_links t' = hs" "table (wss_world t') H"
          "conn (wss_world t') ?h = (conn (wss_world t) ?h)\<lparr>inbox := []\<rparr>"
          "\<forall>h\<in>H - {?h}. conn (wss_world t') h = reached None kTextMessage d h (conn (wss_world t) h)"
        have "uttered wire said ?c ?h = wire kTextMessage d" by (simp add: uttered_def u Some x)
        then have "conn (wss_world t') h' = (let d = conn (wss_world t) h' in if up d
           then if h' = ?h then d\<lparr>inbox := []\<rparr> else d\<lparr>outbox := outbox d @ uttered wire said ?c ?h\<rparr> else d)"
          if "h' \<in> H" for h'
          using t'(3,4) that e(3) by (cases "h' = ?h") (simp_all add: Let_def reached_def)
        with t'(1,2) show "wss_links t' = hs \<and> ?P (Suc i) t'" by (intro next_round) auto
      qed
    qed
    show "wp False (bindM (wss_with_link F i iws_is_connected) (\<lambda>connected.
        whenM connected (handle_new_messages_of F (chat_onmessage F) i)))
      (\<lambda>_ t'. wss_links t' = hs \<and> ?P (Suc i) t') E t"
      unfolding wss_with_link_def wp_bind wp_basic wss_on_world_wp
    proof (rule wp_mono [OF connected_law [OF tab]], goal_cases)
      case (1 b w')
      show ?case
      proof (cases b)
        case True
        then show ?thesis using 1 body now by (simp add: links)
      next
        case False
        then have "\<not> up (?c ?h)" using 1 now by (simp add: links)
        then have "wss_links t = hs \<and> ?P (Suc i) t"
          by (intro next_round) (use links tab now in \<open>auto simp: uttered_def Let_def\<close>)
        then show ?thesis using False 1 by simp
      qed
    qed simp
  next
    fix t :: "('h, 'w) WebSocketServer"
    assume "wss_links t = hs" "?P (length hs) t"
    then show "Q () t" by (intro post) simp_all
  qed
qed

end

end
