(* ===== verification/Link_Service.thy ===== *)
theory Link_Service
  imports Chat
begin

text \<open>
  The objects that SocketFactory.cpp makes are what the server expects of its links, on every
  system that keeps the contract \<open>tcp_kernel\<close>.
\<close>

definition carried :: "bytes \<Rightarrow> bool" where
  "carried message \<longleftrightarrow> length message < kMaximumMessageLength \<and> length message \<noteq> 65536"

text \<open>A server does not mask: the mask in \<open>rfc_frame\<close> does not matter.\<close>

definition server_frame :: "MessageType \<Rightarrow> bytes \<Rightarrow> bytes" where
  "server_frame type message = rfc_frame ServerSide True (opcode_of_type type) [] message"

lemma server_frame_any_mask: "rfc_frame ServerSide True (opcode_of_type type) msk message = server_frame type message"
  by (simp add: server_frame_def rfc_frame_def)

text \<open>One whole message of a client waits.\<close>

definition client_says :: "nat set \<Rightarrow> nat \<Rightarrow> bytes \<Rightarrow> MessageType \<Rightarrow> bytes \<Rightarrow> bool" where
  "client_says inside h inb type data \<longleftrightarrow> h \<notin> inside
     \<and> (\<exists>f. inb = wire_frame ClientSide f \<and> f_opc f = opcode_of_type type \<and> frame_ok f \<and> f_fin f \<and> f_data f = data)"

definition heap_table ::
  "('k \<Rightarrow> int \<Rightarrow> connection) \<Rightarrow> (nat \<Rightarrow> int) \<Rightarrow> nat set \<Rightarrow> 'k link_heap \<Rightarrow> nat set \<Rightarrow> bool" where
  "heap_table conns fds inside w H \<longleftrightarrow> inj_on fds H \<and> (\<forall>h\<in>H. link_ok conns fds inside w h)"

definition object_lives :: "'k link_heap \<Rightarrow> nat \<Rightarrow> bool" where
  "object_lives w h \<longleftrightarrow> lh_objects w h \<noteq> None"

lemma heap_tableD:
  assumes "heap_table conns fds inside w H" and "h \<in> H"
  obtains obj where "fds h \<noteq> kInvalidSocket" and "lh_objects w h = Some (ServerSide, obj)"
    and "length (input_mask obj) = 4" and "length (output_mask obj) = 4" and "is_continuation obj = (h \<in> inside)"
    and "owns conns (fds h) \<lparr>sockfd = world obj, kernel = lh_kernel w\<rparr>"
  using assms by (auto simp: heap_table_def link_ok_def)

text \<open>A step of one object that leaves the other descriptors alone.\<close>

lemma heap_table_step:
  assumes t: "heap_table conns fds inside w H" and h: "h \<in> H"
    and keeps: "keeps conns (fds h) (conns (lh_kernel w)) (world t)"
    and fields: "length (input_mask t) = 4" "length (output_mask t) = 4" "is_continuation t = (h \<in> inside)"
    and w': "w' = w\<lparr>lh_kernel := kernel (world t), lh_objects := (lh_objects w)(h \<mapsto> (ServerSide, at_rest t))\<rparr>"
  shows "heap_table conns fds inside w' H \<and> (\<forall>h'\<in>H - {h}. link_conn conns fds w' h' = link_conn conns fds w h')"
proof -
  have other: "conns (kernel (world t)) (fds h') = conns (lh_kernel w) (fds h')" if "h' \<in> H" "h' \<noteq> h" for h'
  proof -
    have "fds h' \<noteq> fds h" using t h that by (auto simp: heap_table_def inj_on_def)
    with keeps show ?thesis by (simp add: keeps_def)
  qed
  have "link_ok conns fds inside w' h'" if "h' \<in> H" for h'
  proof (cases "h' = h")
    case True
    from t h obtain obj where "fds h \<noteq> kInvalidSocket" by (rule heap_tableD)
    with keeps fields show ?thesis by (auto simp: link_ok_def w' True keeps_def)
  next
    case False
    from t that obtain obj where "fds h' \<noteq> kInvalidSocket" "lh_objects w h' = Some (ServerSide, obj)"
      "length (input_mask obj) = 4" "length (output_mask obj) = 4" "is_continuation obj = (h' \<in> inside)"
      "owns conns (fds h') \<lparr>sockfd = world obj, kernel = lh_kernel w\<rparr>" by (rule heap_tableD)
    with other [OF that False] False show ?thesis by (auto simp: link_ok_def w' owns_def)
  qed
  with t other show ?thesis by (auto simp: heap_table_def link_conn_def w')
qed

section \<open>The contract\<close>

locale link_heap = tcp_kernel +
  fixes uninit :: "nat \<Rightarrow> bytes" and c :: u8 and fds :: "nat \<Rightarrow> int" and inside :: "nat set"
  assumes length_uninit: "length (uninit n) = n"
begin

lemma framed_websocket:
  assumes "f \<noteq> kInvalidSocket"
  shows "websocket (Socket L) (linux_of_socket L) (\<lambda>s. conns (kernel s) f) (\<lambda>s. clock (kernel s))
     (keeps conns f others) (tcp_env role L uninit)"
proof -
  have "tcp_socket L conns clock f"
    using assms tcp_kernel_axioms by (simp add: tcp_socket_def tcp_socket_axioms_def)
  then have "stream_socket (Socket L) (linux_of_socket L) (\<lambda>s. conns (kernel s) f) (\<lambda>s. clock (kernel s)) (keeps conns f others)"
    by (rule tcp_socket.framed_socket)
  then show ?thesis by (simp add: websocket_def websocket_axioms_def length_uninit)
qed

lemma heap_connected:
  assumes "heap_table conns fds inside w H" and "h \<in> H"
  shows "wp False (iws_is_connected (heap_websocket L uninit h)) (\<lambda>b w'. b = up (link_conn conns fds w h) \<and> w' = w) (\<lambda>_ _. False) w"
proof -
  from assms obtain obj where o: "fds h \<noteq> kInvalidSocket" "lh_objects w h = Some (ServerSide, obj)"
    "owns conns (fds h) \<lparr>sockfd = world obj, kernel = lh_kernel w\<rparr>" by (rule heap_tableD)
  let ?s = "on_socket_of (lh_kernel w) obj"
  have v: "keeps conns (fds h) (conns (lh_kernel w)) (world ?s)"
    using keeps_self [OF o(3)] by simp
  have same: "w\<lparr>lh_kernel := kernel (world ?s), lh_objects := (lh_objects w)(h \<mapsto> (ServerSide, at_rest ?s))\<rparr> = w"
    using o(2) by (cases w) (simp add: fun_upd_idem)
  show ?thesis
    unfolding heap_websocket_def Let_def IWebSocket.simps on_object_wp [OF o(2)] websocket_object_def ws_is_connected_def
    by (rule websocket.is_connected_nolock_wp [OF framed_websocket [OF o(1)] v])
      (simp only: same, simp add: link_conn_def)
qed

lemma heap_send:
  assumes t: "heap_table conns fds inside w H" and h: "h \<in> H" and u: "up (link_conn conns fds w h)" and m: "carried message"
  shows "wp False (iws_send (heap_websocket L uninit h) message type)
     (\<lambda>b w'. b \<and> heap_table conns fds inside w' H
        \<and> link_conn conns fds w' h = (link_conn conns fds w h)\<lparr>outbox := outbox (link_conn conns fds w h) @ server_frame type message\<rparr>
        \<and> (\<forall>h'\<in>H - {h}. link_conn conns fds w' h' = link_conn conns fds w h')) (\<lambda>_ _. False) w"
proof -
  from t h obtain obj where o: "fds h \<noteq> kInvalidSocket" "lh_objects w h = Some (ServerSide, obj)"
    "length (input_mask obj) = 4" "length (output_mask obj) = 4" "is_continuation obj = (h \<in> inside)"
    "owns conns (fds h) \<lparr>sockfd = world obj, kernel = lh_kernel w\<rparr>" by (rule heap_tableD)
  let ?s = "on_socket_of (lh_kernel w) obj"
  have s: "world ?s = \<lparr>sockfd = world obj, kernel = lh_kernel w\<rparr>" "length (input_mask ?s) = 4" "length (output_mask ?s) = 4"
    "is_continuation ?s = (h \<in> inside)"
    using o(3-5) by simp_all
  have v: "keeps conns (fds h) (conns (lh_kernel w)) (world ?s)" using keeps_self [OF o(6)] by (simp add: s)
  show ?thesis
    unfolding heap_websocket_def Let_def IWebSocket.simps on_object_wp [OF o(2)] websocket_object_def
  proof (rule websocket.ws_send_wp [OF framed_websocket [OF o(1)] v], goal_cases)
    case (5 msk out w')
    let ?t = "sent_state ServerSide msk out w' ?s"
    have t': "keeps conns (fds h) (conns (lh_kernel w)) (world ?t)" "length (input_mask ?t) = 4" "length (output_mask ?t) = 4"
      "is_continuation ?t = (h \<in> inside)" "kernel (world ?t) = kernel w'"
      "conns (kernel w') (fds h) = (link_conn conns fds w h)\<lparr>outbox := outbox (link_conn conns fds w h) @ server_frame type message\<rparr>"
      using 5 s(2-4) by (simp_all add: sent_state_def produced_def step_to_def link_conn_def s(1) server_frame_any_mask)
    from heap_table_step [OF t h t'(1-4) refl] t'(5,6) show ?case
      by (simp add: link_conn_def)
  qed (use u m s in \<open>simp_all add: link_conn_def carried_def\<close>)
qed

lemma heap_idle:
  assumes t: "heap_table conns fds inside w H" and h: "h \<in> H" and u: "up (link_conn conns fds w h)"
    and inb: "inbox (link_conn conns fds w h) = []"
  shows "wp False (iws_recv (heap_websocket L uninit h) buffer 0)
     (\<lambda>(status, _) w'. status = kRecvTimeOut \<and> heap_table conns fds inside w' H
        \<and> (\<forall>h'\<in>H. link_conn conns fds w' h' = link_conn conns fds w h')) (\<lambda>_ _. False) w"
proof -
  from t h obtain obj where o: "fds h \<noteq> kInvalidSocket" "lh_objects w h = Some (ServerSide, obj)"
    "length (input_mask obj) = 4" "length (output_mask obj) = 4" "is_continuation obj = (h \<in> inside)"
    "owns conns (fds h) \<lparr>sockfd = world obj, kernel = lh_kernel w\<rparr>" by (rule heap_tableD)
  let ?s = "on_socket_of (lh_kernel w) obj"
  have v: "keeps conns (fds h) (conns (lh_kernel w)) (world ?s)" using keeps_self [OF o(6)] by simp
  have r: "ready (\<lambda>s. conns (kernel s) (fds h)) (keeps conns (fds h) (conns (lh_kernel w))) ?s"
    using v o u by (simp add: ready_def link_conn_def)
  show ?thesis
    unfolding heap_websocket_def Let_def IWebSocket.simps on_object_wp [OF o(2)] websocket_object_def
  proof (rule wp_mono [OF websocket.recv_idle_wp [OF framed_websocket [OF o(1)] r]], goal_cases)
    case (3 x t')
    then have t': "keeps conns (fds h) (conns (lh_kernel w)) (world t')" "length (input_mask t') = 4" "length (output_mask t') = 4"
      "is_continuation t' = (h \<in> inside)" "conns (kernel (world t')) (fds h) = link_conn conns fds w h"
      using o(5) by (simp_all add: ready_def link_conn_def)
    from heap_table_step [OF t h t'(1-4) refl] t'(5) 3 show ?case
      by (auto simp: link_conn_def)
  qed (use inb in \<open>simp_all add: link_conn_def kLongestWait_def\<close>)
qed

lemma heap_message:
  assumes t: "heap_table conns fds inside w H" and h: "h \<in> H" and u: "up (link_conn conns fds w h)"
    and says: "client_says inside h (inbox (link_conn conns fds w h)) type data"
  shows "wp False (iws_recv (heap_websocket L uninit h) buffer 0)
     (\<lambda>(status, m) w'. status = (if type = kTextMessage then kRecvText else kRecvBinary) \<and> m = data
        \<and> heap_table conns fds inside w' H
        \<and> link_conn conns fds w' h = (link_conn conns fds w h)\<lparr>inbox := []\<rparr>
        \<and> (\<forall>h'\<in>H - {h}. link_conn conns fds w' h' = link_conn conns fds w h')) (\<lambda>_ _. False) w"
proof -
  from t h obtain obj where o: "fds h \<noteq> kInvalidSocket" "lh_objects w h = Some (ServerSide, obj)"
    "length (input_mask obj) = 4" "length (output_mask obj) = 4" "is_continuation obj = (h \<in> inside)"
    "owns conns (fds h) \<lparr>sockfd = world obj, kernel = lh_kernel w\<rparr>" by (rule heap_tableD)
  from says obtain f where f: "h \<notin> inside" "inbox (link_conn conns fds w h) = wire_frame ClientSide f"
    "f_opc f = opcode_of_type type" "frame_ok f" "f_fin f" "f_data f = data" by (auto simp: client_says_def)
  let ?s = "on_socket_of (lh_kernel w) obj"
  have v: "keeps conns (fds h) (conns (lh_kernel w)) (world ?s)" using keeps_self [OF o(6)] by simp
  have r: "ready (\<lambda>s. conns (kernel s) (fds h)) (keeps conns (fds h) (conns (lh_kernel w))) ?s"
    using v o u by (simp add: ready_def link_conn_def)
  have opc: "f_opc f \<in> {kTextOpcode, kBinaryOpcode, kContinutationOpcode}"
    "(f_opc f = kContinutationOpcode) = is_continuation ?s"
    using f(1,3) o(5) by (auto simp: opcode_of_type_def opcode_defs)
  have "wp False (ws_recv (tcp_env ServerSide L uninit) buffer 0)
     (\<lambda>x t'. x = (if type = kTextMessage then kRecvText else kRecvBinary, data)
        \<and> ready (\<lambda>s. conns (kernel s) (fds h)) (keeps conns (fds h) (conns (lh_kernel w))) t' \<and> \<not> is_continuation t'
        \<and> inbox (conns (kernel (world t')) (fds h)) = [] \<and> outbox (conns (kernel (world t')) (fds h)) = outbox (link_conn conns fds w h))
     (\<lambda>_ _. False) ?s"
    by (rule wp_mono [OF websocket.recv_final_frame_wp [OF framed_websocket [OF o(1)] r _ opc f(4,5)]])
      (use f in \<open>cases type; auto simp: link_conn_def opcode_of_type_def opcode_defs\<close>)+
  then show ?thesis
    unfolding heap_websocket_def Let_def IWebSocket.simps on_object_wp [OF o(2)] websocket_object_def
  proof (rule wp_mono, goal_cases)
    case (1 x t')
    then have t': "keeps conns (fds h) (conns (lh_kernel w)) (world t')" "length (input_mask t') = 4" "length (output_mask t') = 4"
      "is_continuation t' = (h \<in> inside)" "conns (kernel (world t')) (fds h) = (link_conn conns fds w h)\<lparr>inbox := []\<rparr>"
      using f(1) u by (simp_all add: ready_def)
    from heap_table_step [OF t h t'(1-4) refl] t'(5) 1 show ?case
      by (auto simp: link_conn_def)
  qed simp
qed

lemma heap_delete:
  assumes t: "heap_table conns fds inside w H" and h: "h \<in> H" and u: "\<not> up (link_conn conns fds w h)"
  shows "wp False (heap_delete L h)
     (\<lambda>_ w'. heap_table conns fds inside w' (H - {h}) \<and> (\<forall>h'\<in>H - {h}. link_conn conns fds w' h' = link_conn conns fds w h')
        \<and> (\<forall>h'. object_lives w' h' \<longleftrightarrow> object_lives w h' \<and> h' \<noteq> h)) (\<lambda>_ _. False) w"
proof -
  from t h obtain obj where o: "lh_objects w h = Some (ServerSide, obj)"
    "owns conns (fds h) \<lparr>sockfd = world obj, kernel = lh_kernel w\<rparr>" by (rule heap_tableD)
  have "world obj = kInvalidSocket" using o(2) u by (simp add: owns_def link_conn_def)
  then have closed: "wp False (on_world (bs_destroy L)) Q E (on_socket_of (lh_kernel w) obj) = Q () (on_socket_of (lh_kernel w) obj)" for Q E
    by (simp add: bs_destroy_def bs_close_def wp_rules wp_on_world on_socket_of_def re_world_def cong: if_cong)
  show ?thesis
    using t by (auto simp: heap_delete_def wp_bind wp_basic on_object_wp [OF o(1)] closed heap_table_def link_ok_def link_conn_def
        inj_on_def object_lives_def)
qed

end

sublocale link_heap \<subseteq> links: link_table "heap_factory L uninit c" "heap_table conns fds inside" "link_conn conns fds"
  object_lives carried server_frame
  using heap_connected heap_send heap_delete
  by unfold_locales (simp_all add: heap_factory_def)

sublocale link_heap \<subseteq> talk: message_table "heap_factory L uninit c" "heap_table conns fds inside" "link_conn conns fds"
  object_lives carried server_frame "client_says inside"
  using heap_idle heap_message
  by unfold_locales (simp_all add: heap_factory_def)

context link_heap
begin

lemma is_link_table: "link_table (heap_factory L uninit c) (heap_table conns fds inside) (link_conn conns fds)
    object_lives carried server_frame"
  by unfold_locales

lemma is_message_table: "message_table (heap_factory L uninit c) (heap_table conns fds inside) (link_conn conns fds)
    object_lives carried server_frame (client_says inside)"
  by unfold_locales

end

interpretation small_links: link_heap small_linux m_conns m_clock zeroes 0 "\<lambda>h. int h + 3" "{}"
  by unfold_locales (simp add: zeroes_def)

end
