(* ===== verification/Server_Properties.thy ===== *)
theory Server_Properties
  imports Link_Service
begin

text \<open>
  What the websocket server does with its links, when they are websockets on sockets of a system
  that keeps the contract \<open>tcp_kernel\<close>.
\<close>

lemma link_heapI:
  "tcp_kernel L conns clock \<Longrightarrow> (\<And>n. length (uninit n) = n) \<Longrightarrow> link_heap L conns clock uninit"
  by (simp add: link_heap_def link_heap_axioms_def)

section \<open>A concrete server\<close>

text \<open>Four links on the descriptors 3 to 6; the third is closed, and the first has said something.\<close>

definition demo_hi :: frame where
  "demo_hi = \<lparr>f_fin = True, f_opc = kTextOpcode, f_mask = [1, 2, 3, 4], f_data = [104, 105]\<rparr>"

definition demo_fds :: "nat \<Rightarrow> int" where
  "demo_fds h = int h + 3"

definition demo_heap :: "machine link_heap" where
  "demo_heap =
     \<lparr>lh_kernel = \<lparr>m_conns = (\<lambda>fd. \<lparr>up = (fd \<noteq> 5), inbox = (if fd = 3 then wire_frame ClientSide demo_hi else []), outbox = []\<rparr>),
        m_clock = 0\<rparr>,
      lh_objects = (\<lambda>h. Some (ServerSide, re_world (\<lambda>_. if h = 2 then kInvalidSocket else demo_fds h)
        (new_WebSocket (tcp_env ServerSide small_linux zeroes) (Socket_fd 3 (demo_machine []))))),
      lh_next = 4\<rparr>"

definition demo_server :: "(nat, machine link_heap) WebSocketServer" where
  "demo_server = \<lparr>wss_links = [0, 1, 2, 3], wss_message = [], wss_world = demo_heap\<rparr>"

lemma demo_links:
  "wss_links demo_server = [0, 1, 2, 3]"
  "link_conn m_conns demo_fds (wss_world demo_server) h
     = \<lparr>up = (h \<noteq> 2), inbox = (if h = 0 then wire_frame ClientSide demo_hi else []), outbox = []\<rparr>"
  "heap_table m_conns demo_fds {} (wss_world demo_server) H"
  by (auto simp: demo_server_def link_conn_def demo_heap_def demo_fds_def heap_table_def link_ok_def inj_on_def
      kInvalidSocket_def owns_def new_WebSocket_def zeroes_def)

lemma demo_hi_says: "client_says {} 0 (wire_frame ClientSide demo_hi) kTextMessage [104, 105]"
  by (auto simp: client_says_def demo_hi_def frame_ok_def is_ping_def opcode_of_type_def opcode_defs)

lemma demo_hi_carried: "carried [104, 105]"
  by (simp add: carried_def kMaximumMessageLength_def)

section \<open>Properties\<close>

text \<open>C3: One round of the chat server: what a client has said in a whole message of its own goes to
  every other client that is connected, in one text frame each and in the order of the links,
  and not back to the client itself. Every message is taken once, and a closed link gets nothing.
  The messages have less than 128 MB and not exactly 65536 bytes (\<open>carried\<close>): a frame of that
  length announces none.\<close>

theorem chat_messages_reach_the_others:
  assumes "tcp_kernel L conns clock" and "\<And>n. length (uninit n) = n"
    and "heap_table conns fds inside (wss_world s) (set (wss_links s))" and "distinct (wss_links s)"
    and "\<And>h. h \<in> set (wss_links s) \<Longrightarrow> up (link_conn conns fds (wss_world s) h) \<Longrightarrow> (case said h of
        None \<Rightarrow> inbox (link_conn conns fds (wss_world s) h) = []
      | Some (type, data) \<Rightarrow> client_says inside h (inbox (link_conn conns fds (wss_world s) h)) type data \<and> carried data)"
  shows "\<exists>s'. handle_new_messages (heap_factory L uninit c) (chat_onmessage (heap_factory L uninit c)) s = Some (Inr (), s')
     \<and> wss_links s' = wss_links s
     \<and> (\<forall>h\<in>set (wss_links s). link_conn conns fds (wss_world s') h
          = heard server_frame said (link_conn conns fds (wss_world s)) (wss_links s) h)"
proof -
  note talk = link_heap.is_message_table [OF link_heapI [OF assms(1,2)]]
  have "wp False (handle_new_messages (heap_factory L uninit c) (chat_onmessage (heap_factory L uninit c)))
     (\<lambda>_ s'. wss_links s' = wss_links s \<and> (\<forall>h\<in>set (wss_links s). link_conn conns fds (wss_world s') h
          = heard server_frame said (link_conn conns fds (wss_world s)) (wss_links s) h)) (\<lambda>_ _. False) s"
    by (rule message_table.chat_round_wp [OF talk assms(3) refl assms(4) refl assms(5)]) auto
  from wp_returns [OF this] show ?thesis by auto
qed

lemma chat_messages_reach_the_others_witness:
  "\<exists>s'. handle_new_messages (heap_factory small_linux zeroes 0) (chat_onmessage (heap_factory small_linux zeroes 0)) demo_server
       = Some (Inr (), s')
     \<and> outbox (link_conn m_conns demo_fds (wss_world s') 0) = []
     \<and> outbox (link_conn m_conns demo_fds (wss_world s') 1) = server_frame kTextMessage [104, 105]
     \<and> outbox (link_conn m_conns demo_fds (wss_world s') 2) = []
     \<and> outbox (link_conn m_conns demo_fds (wss_world s') 3) = server_frame kTextMessage [104, 105]"
proof -
  let ?said = "\<lambda>h. if h = 0 then Some (kTextMessage, [104, 105]) else None"
  have "\<exists>s'. handle_new_messages (heap_factory small_linux zeroes 0) (chat_onmessage (heap_factory small_linux zeroes 0)) demo_server
       = Some (Inr (), s')
     \<and> wss_links s' = wss_links demo_server
     \<and> (\<forall>h\<in>set (wss_links demo_server). link_conn m_conns demo_fds (wss_world s') h
          = heard server_frame ?said (link_conn m_conns demo_fds (wss_world demo_server)) (wss_links demo_server) h)"
    by (rule chat_messages_reach_the_others [OF small.tcp_kernel_axioms length_zeroes demo_links(3)])
      (auto simp: demo_links demo_hi_says demo_hi_carried)
  then show ?thesis by (auto simp: demo_links heard_def uttered_def)
qed

text \<open>C13: A broadcast puts one frame with the message on the connection of every link that is
  connected, except the excluded one, and touches nothing else; no link is closed or lost. The
  message has less than 128 MB and not exactly 65536 bytes (\<open>carried\<close>).\<close>

theorem broadcast_reaches_every_link:
  assumes "tcp_kernel L conns clock" and "\<And>n. length (uninit n) = n"
    and "heap_table conns fds inside (wss_world s) (set (wss_links s))" and "distinct (wss_links s)"
    and "carried message"
  shows "\<exists>s'. wss_broadcast (heap_factory L uninit c) message type exclude s = Some (Inr (), s')
     \<and> wss_links s' = wss_links s \<and> heap_table conns fds inside (wss_world s') (set (wss_links s))
     \<and> (\<forall>h\<in>set (wss_links s). let d = link_conn conns fds (wss_world s) h in
          link_conn conns fds (wss_world s') h
            = (if up d \<and> exclude \<noteq> Some h then d\<lparr>outbox := outbox d @ server_frame type message\<rparr> else d))"
proof -
  note links = link_heap.is_link_table [OF link_heapI [OF assms(1,2)]]
  have "wp False (wss_broadcast (heap_factory L uninit c) message type exclude)
     (\<lambda>_ s'. wss_links s' = wss_links s \<and> heap_table conns fds inside (wss_world s') (set (wss_links s))
        \<and> (\<forall>h\<in>set (wss_links s). let d = link_conn conns fds (wss_world s) h in
          link_conn conns fds (wss_world s') h
            = (if up d \<and> exclude \<noteq> Some h then d\<lparr>outbox := outbox d @ server_frame type message\<rparr> else d))) (\<lambda>_ _. False) s"
    by (rule link_table.broadcast_wp [OF links assms(3) refl assms(4) subset_refl assms(5)])
      (simp add: link_table.reached_def [OF links] Let_def)
  from wp_returns [OF this] show ?thesis by auto
qed

lemma broadcast_reaches_every_link_witness:
  "\<exists>s'. wss_broadcast (heap_factory small_linux zeroes 0) [104, 105] kBinaryMessage (Some 1) demo_server = Some (Inr (), s')
     \<and> wss_links s' = [0, 1, 2, 3]
     \<and> outbox (link_conn m_conns demo_fds (wss_world s') 0) = server_frame kBinaryMessage [104, 105]
     \<and> outbox (link_conn m_conns demo_fds (wss_world s') 1) = []
     \<and> outbox (link_conn m_conns demo_fds (wss_world s') 2) = []
     \<and> outbox (link_conn m_conns demo_fds (wss_world s') 3) = server_frame kBinaryMessage [104, 105]"
proof -
  let ?conn = "\<lambda>w h. link_conn m_conns demo_fds w h"
  have "\<exists>s'. wss_broadcast (heap_factory small_linux zeroes 0) [104, 105] kBinaryMessage (Some 1) demo_server = Some (Inr (), s')
     \<and> wss_links s' = wss_links demo_server \<and> heap_table m_conns demo_fds {} (wss_world s') (set (wss_links demo_server))
     \<and> (\<forall>h\<in>set (wss_links demo_server). let d = ?conn (wss_world demo_server) h in ?conn (wss_world s') h
          = (if up d \<and> Some 1 \<noteq> Some h then d\<lparr>outbox := outbox d @ server_frame kBinaryMessage [104, 105]\<rparr> else d))"
    by (rule broadcast_reaches_every_link [OF small.tcp_kernel_axioms length_zeroes demo_links(3) _ demo_hi_carried])
      (simp add: demo_links)
  then show ?thesis by (auto simp: demo_links Let_def)
qed

text \<open>C27: \<open>remove_closed_links\<close> keeps exactly the links that are connected, in their order, and
  destroys the objects of the others: afterwards they are gone from the heap, and every other
  object is still there. The connections that stay are as they were.\<close>

theorem only_closed_links_are_removed:
  assumes "tcp_kernel L conns clock" and "\<And>n. length (uninit n) = n"
    and "heap_table conns fds inside (wss_world s) (set (wss_links s))" and "distinct (wss_links s)"
  shows "\<exists>s'. remove_closed_links (heap_factory L uninit c) s = Some (Inr (), s')
     \<and> wss_links s' = filter (\<lambda>h. up (link_conn conns fds (wss_world s) h)) (wss_links s)
     \<and> (\<forall>h. lh_objects (wss_world s') h = None \<longleftrightarrow> lh_objects (wss_world s) h = None
          \<or> h \<in> set (wss_links s) \<and> \<not> up (link_conn conns fds (wss_world s) h))
     \<and> heap_table conns fds inside (wss_world s') (set (wss_links s'))
     \<and> (\<forall>h\<in>set (wss_links s'). link_conn conns fds (wss_world s') h = link_conn conns fds (wss_world s) h)"
proof -
  note links = link_heap.is_link_table [OF link_heapI [OF assms(1,2)]]
  have "wp False (remove_closed_links (heap_factory L uninit c))
     (\<lambda>_ s'. wss_links s' = filter (\<lambda>h. up (link_conn conns fds (wss_world s) h)) (wss_links s)
        \<and> (\<forall>h. (\<not> object_lives (wss_world s') h) = (\<not> object_lives (wss_world s) h
             \<or> h \<in> set (wss_links s) \<and> \<not> up (link_conn conns fds (wss_world s) h)))
        \<and> heap_table conns fds inside (wss_world s') (set (wss_links s'))
        \<and> (\<forall>h\<in>set (wss_links s'). link_conn conns fds (wss_world s') h = link_conn conns fds (wss_world s) h)) (\<lambda>_ _. False) s"
    by (rule link_table.remove_closed_links_wp [OF links assms(3,4)]) auto
  from wp_returns [OF this] show ?thesis unfolding object_lives_def not_not by auto
qed

lemma only_closed_links_are_removed_witness:
  "\<exists>s'. remove_closed_links (heap_factory small_linux zeroes 0) demo_server = Some (Inr (), s') \<and> wss_links s' = [0, 1, 3]
     \<and> lh_objects (wss_world s') 2 = None \<and> lh_objects (wss_world s') 3 \<noteq> None"
proof -
  obtain s' where s': "remove_closed_links (heap_factory small_linux zeroes 0) demo_server = Some (Inr (), s')"
    "wss_links s' = filter (\<lambda>h. up (link_conn m_conns demo_fds (wss_world demo_server) h)) (wss_links demo_server)"
    "\<forall>h. lh_objects (wss_world s') h = None \<longleftrightarrow> lh_objects (wss_world demo_server) h = None
      \<or> h \<in> set (wss_links demo_server) \<and> \<not> up (link_conn m_conns demo_fds (wss_world demo_server) h)"
    using only_closed_links_are_removed [OF small.tcp_kernel_axioms length_zeroes demo_links(3), where c = 0]
    by (auto simp: demo_links)
  have "lh_objects (wss_world demo_server) h \<noteq> None" for h by (simp add: demo_server_def demo_heap_def)
  with s'(1,2) s'(3) [THEN spec, of 2] s'(3) [THEN spec, of 3] show ?thesis by (auto simp: demo_links)
qed

end
