(* ===== verification/Discovery.thy ===== *)
theory Discovery
  imports Registry_Properties
begin

text \<open>
  How a link finds its hub: the hub of MessageHub.cpp registers its address under its topic with
  the registry server, other hubs come and go, and then a MessageLink on that topic asks the
  registry and connects. The registry server is the one that both reach over a websocket.
\<close>

section \<open>The network\<close>

text \<open>
  A pointer to a websocket is the address that it was connected to. The websocket to the
  registry is the one of \<open>Registry_Service\<close>; what others do is left open.
\<close>

definition dial_factory ::
  "rcom_env \<Rightarrow> 'r IRegistry \<Rightarrow> Address \<Rightarrow> (Address \<Rightarrow> ('r, outbox) RegistryServer IWebSocket)
     \<Rightarrow> (Address, ('r, outbox) RegistryServer) ISocketFactory" where
  "dial_factory G R office others =
     \<lparr>sf_new_server_side = (\<lambda>fd. throwM (RuntimeError ''accept'')), sf_new_client_side = returnM,
      sf_object = others(office := service_socket G R), sf_delete = (\<lambda>h. returnM ())\<rparr>"

text \<open>The address of the registry has been set, and is one that is read back.\<close>

definition knows_registry :: "rcom_env \<Rightarrow> Address \<Rightarrow> ('k, 's) surroundings \<Rightarrow> bool" where
  "knows_registry G office X \<longleftrightarrow> su_env X = G \<and> good_address G office
     \<and> (\<forall>s. use_registry_address (su_statics X s) \<and> registry_address (su_statics X s) = office
          \<and> su_put_statics X (su_statics X s) s = s)"

lemma plain_topic: "is_valid_topic t \<Longrightarrow> plain_text t"
proof -
  assume "is_valid_topic t"
  then have t: "\<forall>c \<in> set t. is_lower c \<or> c = CHR ''-''"
    by (auto simp: is_valid_topic_def is_valid_name_def list_all_iff split: list.splits)
  have x: "plain_byte (byte_of_char c) \<and> byte_of_char c < 0x80" if "is_lower c \<or> c = CHR ''-''" for c
    using that by (auto simp: is_lower_def plain_byte_def byte_of_char_def)
  have "utf8_ok [] (bytes_of_string t)" using t x by (induction t) auto
  with t x show ?thesis by (auto simp: plain_text_def utf8_string_def bytes_of_string_def list_all_iff)
qed

section \<open>Talking to the registry\<close>

context registry_service
begin

lemma with_registry_wp:
  assumes X: "knows_registry G office X" "su_linux X = linux"
    and body: "wp False (body (service_proxy G R linux)) Q E s"
  shows "wp False (with_registry X (dial_factory G R office others) body) Q E s"
proof -
  obtain a where own: "wp T (local_address G (Address_default (re_net G))) Q E u = Q a u"
    for T Q E and u :: "('r, outbox) RegistryServer"
    using own_address by (auto simp: wp_def local_address_def)
  have office: "good_address G office" and statics: "use_registry_address (su_statics X u)"
    "registry_address (su_statics X u) = office" "su_put_statics X (su_statics X u) u = u" for u
    using X(1) by (simp_all add: knows_registry_def)
  have env: "su_env X = G" using X(1) by (simp add: knows_registry_def)
  have set: "set_local_address G (addr_tostring office) b st = Some (Inr office, st)" for b and st :: "'k registry_statics"
    by (simp add: set_local_address_def addr_set_string_def good_parse [OF office])
  have ask: "wp T (ask_registry_address X) Q E u = Q office u" for T Q E u
    by (simp add: ask_registry_address_def env wp_bind own wp_zoom)
      (simp add: registry_get_address_def wp_def run statics set)
  have destroy: "wp T (bindM (proxy_destroy (service_socket G R)) (\<lambda>_. sf_delete (dial_factory G R office others) office)) Q E u = Q () u"
    for T Q E u
    by (simp add: proxy_destroy_def service_socket_def loop_defs dial_factory_def wp_rules)
  have "wp False (scopeM (body (service_proxy G R linux))
       (bindM (proxy_destroy (service_socket G R)) (\<lambda>_. sf_delete (dial_factory G R office others) office))) Q E s"
    unfolding wp_scope destroy by (rule wp_mono [OF body])
  moreover have "RegistryProxy G (service_socket G R) linux = service_proxy G R linux"
    by (simp add: service_proxy_def)
  ultimately show ?thesis
    by (simp add: with_registry_def wp_bind ask env X(2)) (simp add: dial_factory_def wp_basic)
qed

lemma hub_create_wp:
  assumes X: "knows_registry G office X" "su_linux X = linux"
    and t: "is_valid_topic t" and a: "good_address G a" and S: "\<And>b. iwss_get_address S b = returnM a"
    and s: "online s"
  shows "wp False (hub_create X t S (dial_factory G R office others) False)
     (\<lambda>hub u. hub_topic hub = t \<and> hub_server hub = S \<and> online u
        \<and> contents (rsv_registry u) = (contents (rsv_registry s))(t \<mapsto> a)) (\<lambda>_ _. False) s"
proof -
  let ?F = "dial_factory G R office others"
  obtain b where own: "wp T (local_address G (Address_default (re_net G))) Q E u = Q b u"
    for T Q E and u :: "('r, outbox) RegistryServer"
    using own_address by (auto simp: wp_def local_address_def)
  have env: "su_env X = G" using X(1) by (simp add: knows_registry_def)
  have reg: "wp False (hub_register_topic X \<lparr>hub_server = S, hub_factory = ?F, hub_topic = t\<rparr>)
     (\<lambda>_ u. online u \<and> contents (rsv_registry u) = (contents (rsv_registry s))(t \<mapsto> a)) (\<lambda>_ _. False) s"
    unfolding hub_register_topic_def MessageHub.MessageHub.select_convs
    by (rule with_registry_wp [OF X])
      (simp add: env wp_bind own S wp_basic proxy_set_law [OF s plain_topic [OF t] a])
  show ?thesis
    by (simp add: hub_create_def new_MessageHub_def t throw_left_def wp_rules)
      (rule wp_mono [OF reg], auto simp: wp_basic)
qed

lemma ml_construct_wp:
  assumes X: "knows_registry G office X" "su_linux X = linux"
    and t: "is_valid_topic t" and a: "good_address G a" and s: "online s" "contents (rsv_registry s) t = Some a"
  shows "wp False (ml_construct X (dial_factory G R office others) timeout)
     (\<lambda>_ l. ml_websocket l = Some a \<and> ml_topic l = t \<and> online (ml_world l)) (\<lambda>_ _. False) (new_MessageLink t s)"
proof -
  obtain b where own: "wp T (local_address G (Address_default (re_net G))) Q E u = Q b u"
    for T Q E and u :: "(Address, ('r, outbox) RegistryServer) MessageLink"
    using own_address by (auto simp: wp_def local_address_def)
  have env: "su_env X = G" using X(1) by (simp add: knows_registry_def)
  have ask: "wp False (with_registry X (dial_factory G R office others) (\<lambda>R'. ireg_get R' t b timeout))
     (\<lambda>(found, c) u. online u \<and> contents (rsv_registry u) = contents (rsv_registry s) \<and> found \<and> c = a) (\<lambda>_ _. False) s"
    by (rule with_registry_wp [OF X]) (rule proxy_get_law [OF s(1) plain_topic [OF t] s(2) a])
  show ?thesis
    by (simp add: ml_construct_def new_MessageLink_def t wp_rules ml_connect_def env own ml_get_remote_address_def
        ml_on_world_def)
      (rule wp_mono [OF ask], auto simp: wp_rules dial_factory_def ml_on_world_def)
qed

text \<open>What others register and unregister under other topics does not matter.\<close>

lemma other_topics:
  "\<forall>x \<in> set xs. (case x of SetTopic u _ \<Rightarrow> u | RemoveTopic u \<Rightarrow> u) \<noteq> t \<Longrightarrow> foldl apply_op m xs t = m t"
proof (induction xs arbitrary: m)
  case (Cons x xs)
  then show ?case by (cases x) auto
qed simp

lemma discovery_wp:
  assumes X: "knows_registry G office X" "su_linux X = linux"
    and t: "is_valid_topic t" and a: "good_address G a" and S: "\<And>b. iwss_get_address S b = returnM a"
    and xs: "list_all (good_op plain_text (good_address G)) xs"
      "\<forall>x \<in> set xs. (case x of SetTopic u _ \<Rightarrow> u | RemoveTopic u \<Rightarrow> u) \<noteq> t"
    and s: "online s"
  shows "wp False (bindM (hub_create X t S (dial_factory G R office others) False) (\<lambda>hub.
       bindM (run_ops (service_proxy G R linux) xs) (\<lambda>_. returnM hub)))
     (\<lambda>hub u. wp False (ml_construct X (dial_factory G R office others) timeout)
        (\<lambda>_ l. ml_websocket l = Some a \<and> ml_topic l = t) (\<lambda>_ _. False) (new_MessageLink t u)) (\<lambda>_ _. False) s"
  unfolding wp_bind
proof (rule wp_mono [OF hub_create_wp [OF X t a S s]], goal_cases)
  case (1 hub u)
  then have u: "online u" "contents (rsv_registry u) t = Some a" by simp_all
  have link: "wp False (ml_construct X (dial_factory G R office others) timeout)
        (\<lambda>_ l. ml_websocket l = Some a \<and> ml_topic l = t) (\<lambda>_ _. False) (new_MessageLink t v)"
    if "online v" "contents (rsv_registry v) t = Some a" for v
    by (rule wp_mono [OF ml_construct_wp [OF X t a that]]) auto
  show ?case
    by (rule wp_mono [OF remote.run_ops_law [OF u(1) xs(1)]])
      (use link u(2) other_topics [OF xs(2)] in \<open>simp_all add: wp_basic\<close>)
qed simp

end

section \<open>Properties\<close>

text \<open>C8: Discovery works: when a hub has been made for a topic, then a link for that topic, made later,
  is connected to the address of the hub, whatever other hubs have registered and unregistered
  under other topics in between. Hub and link reach the registry server over a websocket each,
  at the address that was set for the registry.\<close>

theorem link_finds_the_hub:
  assumes "\<exists>a ip. Address_default (re_net G) (re_ip G) = Some (Inr a, ip)"
    and "\<forall>s. \<exists>now. rcom_time linux s = Some (Inr now, s)"
    and "knows_registry G office X" and "su_linux X = linux"
    and "is_valid_topic t" and "good_address G a" and "\<And>b. iwss_get_address S b = returnM a"
    and "list_all (good_op plain_text (good_address G)) xs"
    and "\<forall>x \<in> set xs. (case x of SetTopic u _ \<Rightarrow> u | RemoveTopic u \<Rightarrow> u) \<noteq> t"
  shows "\<exists>hub s l. bindM (hub_create X t S (dial_factory G Registry office others) False) (\<lambda>hub.
         bindM (run_ops (service_proxy G Registry linux) xs) (\<lambda>_. returnM hub)) fresh_service = Some (Inr hub, s)
     \<and> ml_construct X (dial_factory G Registry office others) timeout (new_MessageLink t s) = Some (Inr (), l)
     \<and> ml_websocket l = Some a"
proof -
  note srv = service_intro [OF assms(1,2)]
  from wp_returns [OF registry_service.discovery_wp [OF srv assms(3-9) fresh_online(1) [OF srv], of others timeout]]
  obtain hub s where s: "bindM (hub_create X t S (dial_factory G Registry office others) False) (\<lambda>hub.
         bindM (run_ops (service_proxy G Registry linux) xs) (\<lambda>_. returnM hub)) fresh_service = Some (Inr hub, s)"
    and l: "wp False (ml_construct X (dial_factory G Registry office others) timeout)
        (\<lambda>_ l. ml_websocket l = Some a \<and> ml_topic l = t) (\<lambda>_ _. False) (new_MessageLink t s)" by auto
  from wp_returns [OF l] obtain x l where "ml_construct X (dial_factory G Registry office others) timeout (new_MessageLink t s)
      = Some (Inr x, l)" "ml_websocket l = Some a" by blast
  with s show ?thesis by (cases x) blast
qed

definition demo_surroundings :: "(unit, (entries, outbox) RegistryServer) surroundings" where
  "demo_surroundings = \<lparr>su_env = demo_rcom,
     su_udp = \<lparr>udp_socket = returnM (-1), udp_set_broadcast = (\<lambda>_. returnM (-1)), udp_set_rcvtimeo = (\<lambda>_ _. returnM (-1)),
       udp_bind = (\<lambda>_ _. returnM (-1)), udp_sendto = (\<lambda>_ _ _. returnM (-1)), udp_recvfrom = (\<lambda>_ b. returnM (-1, b, addr zero_Address)),
       udp_close = (\<lambda>_. returnM (-1))\<rparr>,
     su_linux = idle_linux, su_uninit = replicate 1024 0,
     su_statics = (\<lambda>_. \<lparr>use_registry_address = True, registry_address = demo_hub, st_kernel = ()\<rparr>),
     su_put_statics = (\<lambda>_ s. s)\<rparr>"

definition demo_hub_server :: "(Address, (entries, outbox) RegistryServer) IWebSocketServer" where
  "demo_hub_server = \<lparr>iwss_handle_events = returnM (), iwss_broadcast = (\<lambda>_ _ _. returnM ()),
     iwss_get_address = (\<lambda>_. returnM demo_hub), iwss_count_links = returnM 0, iwss_get_link = (\<lambda>_. returnM demo_hub)\<rparr>"

lemma link_finds_the_hub_witness:
  "\<exists>hub s l. bindM (hub_create demo_surroundings ''camera'' demo_hub_server
         (dial_factory demo_rcom Registry demo_hub (\<lambda>_. service_socket demo_rcom Registry)) False) (\<lambda>hub.
         bindM (run_ops (service_proxy demo_rcom Registry idle_linux) [SetTopic ''weather'' demo_hub, RemoveTopic ''weather''])
           (\<lambda>_. returnM hub)) fresh_service = Some (Inr hub, s)
     \<and> ml_construct demo_surroundings (dial_factory demo_rcom Registry demo_hub (\<lambda>_. service_socket demo_rcom Registry)) 10
          (new_MessageLink ''camera'' s) = Some (Inr (), l)
     \<and> ml_websocket l = Some demo_hub"
  by (rule link_finds_the_hub [OF demo_own_address])
    (use demo_good in \<open>simp_all add: knows_registry_def demo_surroundings_def demo_hub_server_def is_valid_topic_def
       is_valid_name_def is_lower_def plain_text_def utf8_string_def byte_of_char_def plain_byte_def\<close>)

end
