(* ===== verification/Monster.thy ===== *)
theory Monster
  imports Rpc_Properties "HOL-Library.Log_Nat"
begin

text \<open>
  The tutorial of examples/tutorial: an object with three member functions, the adaptor that
  offers them as remote calls, and the remote object that makes these calls and is again such an
  object. A remote monster does what the monster does.
\<close>

section \<open>IMonster and HappyMonster\<close>

record 'm IMonster =
  jump_around :: "('m, unit) prog"
  gently_scare_someone :: "string \<Rightarrow> ('m, unit) prog"
  get_energy_level :: "('m, u64) prog"

text \<open>\<open>hm_cout\<close> is what the monster has printed.\<close>

record HappyMonster =
  hm_name :: string
  hm_energy :: u64
  hm_cout :: string

definition endl :: string where "endl = [CHR 0x0A]"

definition new_HappyMonster :: "string \<Rightarrow> HappyMonster" where
  "new_HappyMonster name = \<lparr>hm_name = name, hm_energy = 0x3FF0000000000000, hm_cout = []\<rparr>"

definition hm_print :: "string \<Rightarrow> (HappyMonster, unit) prog" where
  "hm_print line = modifyM (\<lambda>s. s\<lparr>hm_cout := hm_cout s @ line\<rparr>)"

definition hm_jump_around :: "(HappyMonster, unit) prog" where
  "hm_jump_around = hm_print (''Jump around!'' @ endl)"

definition hm_gently_scare_someone :: "string \<Rightarrow> (HappyMonster, unit) prog" where
  "hm_gently_scare_someone person_id = hm_print (''Hey '' @ person_id
     @ '', don'' @ [apos] @ ''t watch that. Watch this. '' @ ''This is the happy happy monster show.'' @ endl)"

definition hm_get_energy_level :: "(HappyMonster, u64) prog" where
  "hm_get_energy_level = getsM hm_energy"

definition HappyMonster :: "HappyMonster IMonster" where
  "HappyMonster = \<lparr>jump_around = hm_jump_around, gently_scare_someone = hm_gently_scare_someone,
     get_energy_level = hm_get_energy_level\<rparr>"

section \<open>Numbers of JSON as doubles\<close>

text \<open>
  The cast of an unsigned number to a double: the 53 bits from the highest on, rounded to
  nearest, ties to even, as the machine does it by default. A carry goes into the exponent.
\<close>

definition unsigned_to_double :: "u64 \<Rightarrow> u64" where
  "unsigned_to_double w =
     (let n = unat w
      in if n = 0 then 0
         else let e = floorlog 2 n - 1
              in if e \<le> 52 then of_nat ((e + 1023) * 2 ^ 52 + (n * 2 ^ (52 - e) - 2 ^ 52))
                 else let q = n div 2 ^ (e - 52); r = 2 * (n mod 2 ^ (e - 52))
                      in of_nat ((e + 1023) * 2 ^ 52 + (q - 2 ^ 52)
                           + (if r > 2 ^ (e - 52) \<or> r = 2 ^ (e - 52) \<and> odd q then 1 else 0)))"

definition signed_to_double :: "u64 \<Rightarrow> u64" where
  "signed_to_double w = (if sint w < 0 then 2 ^ 63 OR unsigned_to_double (- w) else unsigned_to_double w)"

text \<open>\<open>get_arithmetic_value\<close> for a double.\<close>

definition json_to_double :: "json \<Rightarrow> exn + u64" where
  "json_to_double j = (case j of
       JUInt n \<Rightarrow> Inr (unsigned_to_double n)
     | JInt n \<Rightarrow> Inr (signed_to_double n)
     | JFloat x \<Rightarrow> Inr x
     | _ \<Rightarrow> Inl (json_type_error 302 (''type must be number, but is '' @ type_name j)))"

section \<open>MonsterAdaptor\<close>

definition on_monster :: "('m, 'a) prog \<Rightarrow> (('r, 'm) rpc_call, 'a) prog" where
  "on_monster m = zoomM call_world (\<lambda>w c. c\<lparr>call_world := w\<rparr>) m"

definition execute_jump_around :: "'m IMonster \<Rightarrow> ((json, 'm) rpc_call, unit) prog" where
  "execute_jump_around M = on_monster (jump_around M)"

text \<open>\<open>operator[]\<close> adds a null to the parameters when there is no person.\<close>

definition execute_gently_scare_someone :: "'m IMonster \<Rightarrow> ((json, 'm) rpc_call, unit) prog" where
  "execute_gently_scare_someone M =
     bindM (getsM call_params) (\<lambda>params.
     bindM (throw_left (json_index ''person-id'' params)) (\<lambda>(v, params).
     bindM (modifyM (\<lambda>c. c\<lparr>call_params := params\<rparr>)) (\<lambda>_.
     bindM (throw_left (json_to_string v)) (\<lambda>ident.
     on_monster (gently_scare_someone M ident)))))"

definition execute_get_energy_level :: "'m IMonster \<Rightarrow> ((json, 'm) rpc_call, unit) prog" where
  "execute_get_energy_level M =
     bindM (on_monster (get_energy_level M)) (\<lambda>energy.
     bindM (getsM call_result) (\<lambda>result.
     bindM (throw_left (json_set ''energy-level'' (JFloat energy) result)) (\<lambda>result.
     modifyM (\<lambda>c. c\<lparr>call_result := result\<rparr>))))"

definition monster_execute_json :: "'m IMonster \<Rightarrow> string \<Rightarrow> string \<Rightarrow> ((json, 'm) rpc_call, unit) prog" where
  "monster_execute_json M ident method =
     bindM (modifyM (\<lambda>c. c\<lparr>call_error := (call_error c)\<lparr>rpc_code := 0\<rparr>\<rparr>)) (\<lambda>_.
     if method = ''jump-around'' then execute_jump_around M
     else if method = ''gently-scare-someone'' then execute_gently_scare_someone M
     else if method = ''get-energy-level'' then execute_get_energy_level M
     else set_call_error kMethodNotFound ''Unknown method'')"

definition monster_execute_binary :: "string \<Rightarrow> string \<Rightarrow> ((bytes, 'm) rpc_call, unit) prog" where
  "monster_execute_binary ident method =
     set_call_error 1 (''Monsters don'' @ [apos] @ ''t take binary messages.'')"

definition MonsterAdaptor :: "'m IMonster \<Rightarrow> 'm IRPCHandler" where
  "MonsterAdaptor M = \<lparr>execute_json = monster_execute_json M, execute_binary = monster_execute_binary\<rparr>"

section \<open>RemoteMonster\<close>

text \<open>The client that the stub owns, and what the remote monster has printed.\<close>

record 'c RemoteMonster =
  rm_client :: 'c
  rm_cout :: string

text \<open>A call of the stub with local variables for the parameters and the result.\<close>

definition rm_call :: "((json, 'c) rpc_call, bool) prog \<Rightarrow> json \<Rightarrow> json \<Rightarrow> ('c RemoteMonster, bool \<times> json) prog" where
  "rm_call m params result = (\<lambda>s.
     case m \<lparr>call_params = params, call_result = result, call_error = new_RPCError, call_world = rm_client s\<rparr> of
       None \<Rightarrow> None
     | Some (r, c) \<Rightarrow> (case r of
           Inl e \<Rightarrow> Some (Inl e, s\<lparr>rm_client := call_world c\<rparr>)
         | Inr success \<Rightarrow> Some (Inr (success, call_result c), s\<lparr>rm_client := call_world c\<rparr>)))"

definition rm_print :: "string \<Rightarrow> ('c RemoteMonster, unit) prog" where
  "rm_print line = modifyM (\<lambda>s. s\<lparr>rm_cout := rm_cout s @ line\<rparr>)"

definition rm_jump_around :: "'c IRPCHandler \<Rightarrow> ('c RemoteMonster, unit) prog" where
  "rm_jump_around client =
     bindM (rm_call (stub_execute_simple_request_no_id client ''jump-around'') JNull JNull) (\<lambda>(success, _).
     whenM (\<not> success) (rm_print (''jump_around failed'' @ endl)))"

definition rm_gently_scare_someone :: "'c IRPCHandler \<Rightarrow> string \<Rightarrow> ('c RemoteMonster, unit) prog" where
  "rm_gently_scare_someone client person_id =
     bindM (throw_left (json_set ''person-id'' (JString person_id) JNull)) (\<lambda>params.
     bindM (rm_call (stub_execute_with_params_no_id client ''gently-scare-someone'') params JNull) (\<lambda>(success, _).
     whenM (\<not> success) (rm_print (''gently_scare_someone failed'' @ endl))))"

text \<open>-1 when the call fails.\<close>

definition rm_get_energy_level :: "'c IRPCHandler \<Rightarrow> ('c RemoteMonster, u64) prog" where
  "rm_get_energy_level client =
     bindM (rm_call (stub_execute_with_result_no_id client ''get-energy-level'') JNull JNull) (\<lambda>(success, result).
     if success then throw_left (and_then (json_get ''energy-level'' result) json_to_double)
     else bindM (rm_print (''get_energy_level failed'' @ endl)) (\<lambda>_. returnM 0xBFF0000000000000))"

definition RemoteMonster :: "'c IRPCHandler \<Rightarrow> 'c RemoteMonster IMonster" where
  "RemoteMonster client = \<lparr>jump_around = rm_jump_around client,
     gently_scare_someone = rm_gently_scare_someone client, get_energy_level = rm_get_energy_level client\<rparr>"


section \<open>The casts\<close>

lemma log_bounds: "0 < n \<Longrightarrow> 2 ^ (floorlog 2 n - 1) \<le> n \<and> n < 2 * 2 ^ (floorlog 2 n - 1)"
  using floorlog_bounds [of n 2] floorlog_eq_zero_iff [of 2 n]
  by (cases "floorlog 2 n") auto

text \<open>A double with the exponent \<open>e\<close> and the 53 bits \<open>q\<close>.\<close>

lemma magnitude_bits:
  assumes "2 ^ 52 \<le> q" and "q < 2 ^ 53"
  shows "magnitude ((e + 1023) * 2 ^ 52 + (q - 2 ^ 52)) = of_nat q * 2 powi (int e - 52)"
    and "magnitude ((e + 1023) * 2 ^ 52 + (q - 2 ^ 52) + 1) = of_nat (q + 1) * 2 powi (int e - 52)"
proof -
  let ?n = "(e + 1023) * 2 ^ 52 + (q - 2 ^ 52)"
  have parts: "(c * b + a) div b = c" "(c * b + a) mod b = a" if "a < b" for a b c :: nat using that by auto
  have "q - 2 ^ 52 < 2 ^ 52" using assms by simp
  note d = parts [OF this, of "e + 1023"]
  then have s: "significand ?n = q" "exponent ?n = int e - 52"
    using assms(1) by (simp_all add: significand_def exponent_def)
  show "magnitude ?n = of_nat q * 2 powi (int e - 52)" by (simp only: magnitude_eq s)
  show "magnitude (?n + 1) = of_nat (q + 1) * 2 powi (int e - 52)" by (simp only: magnitude_Suc s)
qed

text \<open>A number of up to 53 bits is cast to its double.\<close>

lemma unsigned_to_double_exact:
  assumes "unat w < 2 ^ 53"
  shows "magnitude (unat (unsigned_to_double w)) = of_nat (unat w)"
proof (cases "unat w = 0")
  case True
  then show ?thesis by (simp add: unsigned_to_double_def magnitude_def)
next
  case False
  define n e where ne: "n = unat w" "e = floorlog 2 n - 1"
  have n: "2 ^ e \<le> n" "n < 2 * 2 ^ e" using log_bounds [of n] False by (simp_all add: ne)
  have e: "e \<le> 52"
  proof (rule ccontr)
    assume "\<not> e \<le> 52"
    then have "2 ^ 53 \<le> (2 :: nat) ^ e" by (intro power_increasing) auto
    with n(1) assms show False unfolding ne by simp
  qed
  let ?q = "n * 2 ^ (52 - e)"
  have p: "2 ^ e * 2 ^ (52 - e) = (2 ^ 52 :: nat)" using e by (simp flip: power_add)
  have q: "2 ^ 52 \<le> ?q" "?q < 2 ^ 53"
    using mult_le_mono1 [OF n(1), of "2 ^ (52 - e)"] mult_less_mono1 [OF n(2), of "2 ^ (52 - e)"] p
    by (simp_all only: mult.assoc) simp_all
  have "(e + 1023) * 2 ^ 52 + (?q - 2 ^ 52) < 2 ^ 64" using e q by simp
  moreover have "unsigned_to_double w = of_nat ((e + 1023) * 2 ^ 52 + (?q - 2 ^ 52))"
  proof -
    have b: "(n = 0) = False" "(e \<le> 52) = True" using False e by (simp_all add: ne)
    show ?thesis
      unfolding unsigned_to_double_def Let_def ne(1) [symmetric] ne(2) [symmetric] b if_True if_False by (rule refl)
  qed
  moreover have "unat (of_nat k :: u64) = k" if "k < 2 ^ 64" for k using that by (simp add: unat_of_nat)
  ultimately have u: "unat (unsigned_to_double w) = (e + 1023) * 2 ^ 52 + (?q - 2 ^ 52)" by metis
  have "(2 :: rat) ^ (52 - e) * 2 powi (int e - 52) = 1"
    using e by (simp add: power_int_def nat_diff_distrib power_one_over)
  then show ?thesis
    unfolding u magnitude_bits(1) [OF q] by (simp add: ne(1) mult.assoc)
qed

section \<open>Calls of the adaptor\<close>

lemma monster_words [simp]:
  "utf8_string ''jump-around''" "utf8_string ''gently-scare-someone''" "utf8_string ''get-energy-level''"
  "utf8_string ''person-id''" "utf8_string ''energy-level''" "utf8_string stub_kNoID" "utf8_string ''Unknown method''"
  by (simp_all add: utf8_string_def byte_of_char_def stub_kNoID_def)

lemmas adaptor_defs = MonsterAdaptor_def monster_execute_json_def on_monster_def zoomM_def

abbreviation served :: "json \<Rightarrow> json \<Rightarrow> 'm \<Rightarrow> (json, 'm) rpc_call" where
  "served params result m \<equiv> \<lparr>call_params = params, call_result = result, call_error = new_RPCError, call_world = m\<rparr>"

lemma adaptor_jumps:
  "jump_around M m = Some (Inr (), m') \<Longrightarrow>
     execute_json (MonsterAdaptor M) ident ''jump-around'' (served p JNull m) = Some (Inr (), served p JNull m')"
  by (simp add: adaptor_defs execute_jump_around_def run new_RPCError_def)

lemma adaptor_scares:
  "gently_scare_someone M person m = Some (Inr (), m') \<Longrightarrow>
     execute_json (MonsterAdaptor M) ident ''gently-scare-someone'' (served (JObject [(''person-id'', JString person)]) JNull m)
       = Some (Inr (), served (JObject [(''person-id'', JString person)]) JNull m')"
  by (simp add: adaptor_defs execute_gently_scare_someone_def run new_RPCError_def json_index_def obj_find_def
      throw_left_def json_to_string_def)

lemma adaptor_tells_energy:
  "get_energy_level M m = Some (Inr x, m') \<Longrightarrow>
     execute_json (MonsterAdaptor M) ident ''get-energy-level'' (served p JNull m)
       = Some (Inr (), served p (JObject [(''energy-level'', JFloat x)]) m')"
  by (simp add: adaptor_defs execute_get_energy_level_def run new_RPCError_def json_index_def json_set_def obj_find_def
      throw_left_def)

text \<open>Without the name of a person the adaptor throws.\<close>

lemma adaptor_throws:
  assumes "string_field ''person-id'' params = Inl e"
  shows "\<exists>d. execute_json (MonsterAdaptor M) ident ''gently-scare-someone'' (served params JNull m) = Some (Inl e, d)
     \<and> call_world d = m"
  using assms
  by (auto simp: adaptor_defs execute_gently_scare_someone_def run new_RPCError_def string_field_def json_get_def
      and_then_def throw_left_def split: sum.splits prod.splits)

section \<open>Calls of the stub\<close>

lemma rm_call_wp:
  "wp T (rm_call m p r) Q E s = wp T m (\<lambda>x c. Q (x, call_result c) (s\<lparr>rm_client := call_world c\<rparr>))
     (\<lambda>e c. E e (s\<lparr>rm_client := call_world c\<rparr>)) (served p r (rm_client s))"
  by (simp add: rm_call_def wp_def split: option.split prod.split sum.split)

text \<open>A remote monster that is connected, and the monster at the other end.\<close>

type_synonym 'm remote = "(unit, 'm peer) MessageLink RcomClient RemoteMonster"

definition remote_ready :: "'m remote \<Rightarrow> bool" where
  "remote_ready s \<longleftrightarrow> ml_websocket (rc_link (rm_client s)) = Some () \<and> rmh_world (ml_world (rc_link (rm_client s))) = []"

definition monster_of :: "'m remote \<Rightarrow> 'm" where
  "monster_of s = rmh_handler (ml_world (rc_link (rm_client s)))"

definition remote_monster :: "rcom_env \<Rightarrow> 'm IMonster \<Rightarrow> 'm remote IMonster" where
  "remote_monster G M = RemoteMonster (rpc_client G (MonsterAdaptor M))"

lemma stub_call_wp:
  fixes s :: "'m remote"
  assumes "remote_ready s" and "strtod_rounds (re_json G)" and "utf8_string method" and "method \<noteq> []" and "json_ok p"
    and exec: "execute_json H stub_kNoID method (served (canon p) JNull (monster_of s)) = Some (Inr (), served q r m')"
    and "json_ok r"
  shows "wp False (rm_call (stub_execute (rpc_client G H) stub_kNoID method) p JNull)
     (\<lambda>(success, result) s'. success \<and> result = canon r \<and> remote_ready s' \<and> monster_of s' = m' \<and> rm_cout s' = rm_cout s)
     (\<lambda>_ _. False) s"
proof -
  let ?c = "served p JNull (rm_client s)"
  have c: "connected_call ?c" "rmh_handler (peer_of ?c) = monster_of s"
    using assms(1) by (simp_all add: connected_call_def peer_of_def remote_ready_def monster_of_def)
  have "sendable new_RPCError r" using assms(7) by (simp add: sendable_def new_RPCError_def c_str_def)
  then have "wp False (stub_execute (rpc_client G H) stub_kNoID method)
     (\<lambda>success d. success \<and> connected_call d \<and> rmh_handler (peer_of d) = m' \<and> call_result d = canon r) (\<lambda>_ _. False) ?c"
    using json_call [OF c(1) assms(2) _ assms(3) _ assms(4), where H = H and d = "served q r m'" and ident = stub_kNoID] assms(5) exec c(2)
    by (auto elim!: wp_mono split: if_splits)
  then show ?thesis
    by (auto simp: rm_call_wp elim!: wp_mono simp: connected_call_def peer_of_def remote_ready_def monster_of_def)
qed

section \<open>What the remote monster does\<close>

lemmas remote_defs = remote_monster_def RemoteMonster_def wp_bind rm_print_def throw_left_def wp_basic

lemma remote_jump:
  assumes "remote_ready s" and "strtod_rounds (re_json G)" and "jump_around M (monster_of s) = Some (Inr (), m')"
  shows "wp False (jump_around (remote_monster G M))
     (\<lambda>_ s'. remote_ready s' \<and> monster_of s' = m' \<and> rm_cout s' = rm_cout s) (\<lambda>_ _. False) s"
proof -
  have "wp False (rm_call (stub_execute_simple_request_no_id (rpc_client G (MonsterAdaptor M)) ''jump-around'') JNull JNull)
     (\<lambda>(success, result) s'. success \<and> remote_ready s' \<and> monster_of s' = m' \<and> rm_cout s' = rm_cout s) (\<lambda>_ _. False) s"
    using stub_call_wp [OF assms(1,2), of "''jump-around''" JNull "MonsterAdaptor M" JNull JNull m']
      adaptor_jumps [OF assms(3)]
    by (auto simp: rm_call_wp stub_execute_simple_request_no_id_def stub_execute_simple_request_def wp_bind wp_basic elim!: wp_mono)
  then show ?thesis by (auto simp: remote_defs rm_jump_around_def elim!: wp_mono)
qed

lemma remote_scare:
  assumes "remote_ready s" and "strtod_rounds (re_json G)" and "utf8_string person"
    and "gently_scare_someone M person (monster_of s) = Some (Inr (), m')"
  shows "wp False (gently_scare_someone (remote_monster G M) person)
     (\<lambda>_ s'. remote_ready s' \<and> monster_of s' = m' \<and> rm_cout s' = rm_cout s) (\<lambda>_ _. False) s"
proof -
  let ?p = "JObject [(''person-id'', JString person)]"
  have "wp False (rm_call (stub_execute_with_params_no_id (rpc_client G (MonsterAdaptor M)) ''gently-scare-someone'') ?p JNull)
     (\<lambda>(success, result) s'. success \<and> remote_ready s' \<and> monster_of s' = m' \<and> rm_cout s' = rm_cout s) (\<lambda>_ _. False) s"
    using stub_call_wp [OF assms(1,2), of "''gently-scare-someone''" ?p "MonsterAdaptor M" ?p JNull m']
      adaptor_scares [OF assms(4)] assms(3)
    by (auto simp: rm_call_wp stub_execute_with_params_no_id_def stub_execute_with_params_def wp_bind wp_basic elim!: wp_mono)
  moreover have "json_set ''person-id'' (JString person) JNull = Inr ?p"
    by (simp add: json_set_def json_index_def obj_find_def)
  ultimately show ?thesis by (auto simp: remote_defs rm_gently_scare_someone_def elim!: wp_mono)
qed

lemma remote_energy:
  assumes "remote_ready s" and "strtod_rounds (re_json G)" and "double_is_finite x"
    and "get_energy_level M (monster_of s) = Some (Inr x, m')"
  shows "wp False (get_energy_level (remote_monster G M))
     (\<lambda>y s'. y = x \<and> remote_ready s' \<and> monster_of s' = m' \<and> rm_cout s' = rm_cout s) (\<lambda>_ _. False) s"
proof -
  let ?r = "JObject [(''energy-level'', JFloat x)]"
  have "wp False (rm_call (stub_execute_with_result_no_id (rpc_client G (MonsterAdaptor M)) ''get-energy-level'') JNull JNull)
     (\<lambda>(success, result) s'. success \<and> result = ?r \<and> remote_ready s' \<and> monster_of s' = m' \<and> rm_cout s' = rm_cout s)
     (\<lambda>_ _. False) s"
    using stub_call_wp [OF assms(1,2), of "''get-energy-level''" JNull "MonsterAdaptor M" JNull ?r m']
      adaptor_tells_energy [OF assms(4)] assms(3)
    by (auto simp: rm_call_wp stub_execute_with_result_no_id_def stub_execute_with_result_def wp_bind wp_basic elim!: wp_mono)
  moreover have "and_then (json_get ''energy-level'' ?r) json_to_double = Inr x"
    by (simp add: json_get_def json_index_def obj_find_def and_then_def json_to_double_def)
  ultimately show ?thesis by (auto simp: remote_defs rm_get_energy_level_def elim!: wp_mono)
qed

section \<open>A remote monster is a monster\<close>

text \<open>
  What a caller of the interface relies on: the operations return, the energy is a finite number,
  and it can be asked for without changing it.
\<close>

locale monster =
  fixes M :: "'m IMonster" and happy :: "'m \<Rightarrow> bool" and energy :: "'m \<Rightarrow> u64"
  assumes jump_law: "happy m \<Longrightarrow> \<exists>m'. jump_around M m = Some (Inr (), m') \<and> happy m' \<and> energy m' = energy m"
    and scare_law: "\<lbrakk>happy m; utf8_string p\<rbrakk> \<Longrightarrow>
      \<exists>m'. gently_scare_someone M p m = Some (Inr (), m') \<and> happy m' \<and> energy m' = energy m"
    and energy_law: "happy m \<Longrightarrow> \<exists>m'. get_energy_level M m = Some (Inr (energy m), m') \<and> happy m' \<and> energy m' = energy m"
    and finite_law: "happy m \<Longrightarrow> double_is_finite (energy m)"
begin

lemma remote_is_a_monster:
  assumes "strtod_rounds (re_json G)"
  shows "monster (remote_monster G M) (\<lambda>s. remote_ready s \<and> happy (monster_of s)) (\<lambda>s. energy (monster_of s))"
proof (unfold_locales, goal_cases)
  case (1 s)
  then obtain m' where "jump_around M (monster_of s) = Some (Inr (), m')" "happy m' \<and> energy m' = energy (monster_of s)"
    using jump_law by blast
  with 1 wp_returns [OF remote_jump [OF _ assms]] show ?case by fastforce
next
  case (2 s p)
  then obtain m' where "gently_scare_someone M p (monster_of s) = Some (Inr (), m')" "happy m' \<and> energy m' = energy (monster_of s)"
    using scare_law by blast
  with 2 wp_returns [OF remote_scare [OF _ assms]] show ?case by fastforce
next
  case (3 s)
  then obtain m' where "get_energy_level M (monster_of s) = Some (Inr (energy (monster_of s)), m')"
    "happy m' \<and> energy m' = energy (monster_of s)" using energy_law by blast
  with 3 wp_returns [OF remote_energy [OF _ assms]] finite_law show ?case by fastforce
next
  case (4 s)
  then show ?case using finite_law by blast
qed

end

lemmas happy_defs = HappyMonster_def hm_jump_around_def hm_gently_scare_someone_def hm_get_energy_level_def hm_print_def run

interpretation elmo: monster HappyMonster "\<lambda>m. double_is_finite (hm_energy m)" hm_energy
  by unfold_locales (simp_all add: happy_defs)

interpretation remote_elmo: monster "remote_monster demo_rpc HappyMonster"
    "\<lambda>s. remote_ready s \<and> double_is_finite (hm_energy (monster_of s))" "\<lambda>s. hm_energy (monster_of s)"
  by (rule elmo.remote_is_a_monster) (simp add: demo_facts)

section \<open>Properties\<close>

lemma canon_find: "map_of (map (\<lambda>p. (fst p, canon (snd p))) ps) k = map_option canon (map_of ps k)"
  by (induction ps) auto

lemma type_name_canon: "type_name (canon j) = type_name j"
  by (cases j) auto

lemma string_field_canon: "string_field k (canon j) = string_field k j"
proof -
  have "json_to_string (canon v) = json_to_string v" for v
    by (cases v) (auto simp: json_to_string_def)
  then show ?thesis
    by (cases j) (auto simp: string_field_def json_get_def json_index_def obj_find_def and_then_def canon_find
        split: option.split)
qed

lemma execute_throws_wp:
  assumes "m (served params result (rmh_handler s)) = Some (Inl e, c)"
  shows "wp T (rmh_execute m params result new_RPCError) Q E s = E e (s\<lparr>rmh_handler := call_world c\<rparr>)"
  using assms by (simp add: rmh_execute_def wp_def)

definition stays_with :: "'m remote \<Rightarrow> 'm remote \<Rightarrow> 'm \<Rightarrow> bool" where
  "stays_with s s' m' \<longleftrightarrow> remote_ready s' \<and> monster_of s' = m' \<and> rm_cout s' = rm_cout s"

text \<open>C9: A remote monster does what the monster does: when an operation of the monster at the other
  end returns, the operation of the connected remote monster returns, with the same number when it
  asks for the energy (any finite double); the monster has then done that one operation, and the
  remote monster has printed nothing and is ready for the next.\<close>

theorem remote_monster_is_a_monster:
  assumes "remote_ready s" and "strtod_rounds (re_json G)"
  shows "(\<forall>m'. jump_around M (monster_of s) = Some (Inr (), m') \<longrightarrow>
       (\<exists>s'. jump_around (remote_monster G M) s = Some (Inr (), s') \<and> stays_with s s' m'))
     \<and> (\<forall>person m'. utf8_string person \<and> gently_scare_someone M person (monster_of s) = Some (Inr (), m') \<longrightarrow>
       (\<exists>s'. gently_scare_someone (remote_monster G M) person s = Some (Inr (), s') \<and> stays_with s s' m'))
     \<and> (\<forall>x m'. double_is_finite x \<and> get_energy_level M (monster_of s) = Some (Inr x, m') \<longrightarrow>
       (\<exists>s'. get_energy_level (remote_monster G M) s = Some (Inr x, s') \<and> stays_with s s' m'))"
  using wp_returns [OF remote_jump [OF assms]] wp_returns [OF remote_scare [OF assms]]
    wp_returns [OF remote_energy [OF assms]]
  by (fastforce simp: stays_with_def)

definition demo_remote :: "HappyMonster remote" where
  "demo_remote = \<lparr>rm_client = \<lparr>rc_link = \<lparr>ml_websocket = Some (), ml_topic = ''elmo'', ml_recv_status = kRecvText,
     ml_world = \<lparr>rmh_handler = new_HappyMonster ''elmo'', rmh_world = []\<rparr>\<rparr>, rc_buffer = [], rc_timeout = 1\<rparr>, rm_cout = []\<rparr>"

lemma remote_monster_is_a_monster_witness:
  "(\<exists>s'. gently_scare_someone (remote_monster demo_rpc HappyMonster) ''you'' demo_remote = Some (Inr (), s')
      \<and> hm_cout (monster_of s') = ''Hey you, don'' @ [apos] @ ''t watch that. Watch this. This is the happy happy monster show.'' @ endl)
   \<and> (\<exists>s'. get_energy_level (remote_monster demo_rpc HappyMonster) demo_remote = Some (Inr 0x3FF0000000000000, s'))"
proof -
  have r: "remote_ready demo_remote" "monster_of demo_remote = new_HappyMonster ''elmo''"
    by (simp_all add: remote_ready_def monster_of_def demo_remote_def)
  have u: "utf8_string ''you''" by (simp add: utf8_string_def byte_of_char_def)
  note C = remote_monster_is_a_monster [OF r(1) demo_facts(12), of HappyMonster]
  have "gently_scare_someone HappyMonster ''you'' (monster_of demo_remote) = Some (Inr (), new_HappyMonster ''elmo''
      \<lparr>hm_cout := ''Hey you, don'' @ [apos] @ ''t watch that. Watch this. This is the happy happy monster show.'' @ endl\<rparr>)"
    "get_energy_level HappyMonster (monster_of demo_remote) = Some (Inr 0x3FF0000000000000, new_HappyMonster ''elmo'')"
    "double_is_finite 0x3FF0000000000000"
    by (simp_all add: r happy_defs new_HappyMonster_def double_is_finite_def)
  with C u show ?thesis by (fastforce simp: stays_with_def)
qed

text \<open>C35: A request to scare someone without the name of a person, or with one that is no string,
  makes the adaptor throw the error of the JSON library, and the message handler does
  not catch it: it leaves \<open>onmessage\<close>, no answer is sent, and the monster is as it was.\<close>

theorem nameless_scare_escapes:
  assumes "strtod_rounds (re_json G)" and "utf8_string ident" and "json_ok params"
    and "string_field ''person-id'' params = Inl e"
  shows "\<exists>t. json_dump (request_object ident ''gently-scare-someone'' params) = Inr t
     \<and> rcom_onmessage G (MonsterAdaptor M) outbox_socket (bytes_of_string t) kTextMessage s = Some (Inl e, s)"
proof -
  obtain t where t: "json_dump (request_object ident ''gently-scare-someone'' params) = Inr t"
    "parses_to (re_json G) (bytes_of_string t) (Inr (request_object ident ''gently-scare-someone'' (canon params)))"
    using request_sent [OF assms(1,2) _ assms(3), of "''gently-scare-someone''"] by auto
  obtain d where d: "execute_json (MonsterAdaptor M) ident ''gently-scare-someone'' (served (canon params) JNull (rmh_handler s)) = Some (Inl e, d)"
    "call_world d = rmh_handler s"
    using adaptor_throws [of "canon params" e, where M = M and ident = ident and m = "rmh_handler s"] assms(4) by (auto simp: string_field_canon)
  have "wp False (rcom_onmessage G (MonsterAdaptor M) outbox_socket (bytes_of_string t) kTextMessage)
     (\<lambda>_ _. False) (\<lambda>e' s'. e' = e \<and> s' = s) s"
    by (simp add: rcom_onmessage_def handle_json_request_def wp_bind parse_request_wp [OF t(2)] request_fields
        throw_left_def wp_basic execute_throws_wp [where m = "execute_json (MonsterAdaptor M) ident ''gently-scare-someone''", OF d(1)] d(2))
  with t(1) show ?thesis by (auto elim: wp_totalE)
qed

lemma nameless_scare_escapes_witness:
  "\<exists>t e. rcom_onmessage demo_rpc (MonsterAdaptor HappyMonster) outbox_socket (bytes_of_string t) kTextMessage
     \<lparr>rmh_handler = new_HappyMonster ''elmo'', rmh_world = []\<rparr>
       = Some (Inl (JsonError e), \<lparr>rmh_handler = new_HappyMonster ''elmo'', rmh_world = []\<rparr>)"
proof -
  have "string_field ''person-id'' (JObject []) = Inl (json_type_error 302 ''type must be string, but is null'')"
    by (simp add: string_field_def json_get_def json_index_def obj_find_def and_then_def json_to_string_def)
  from nameless_scare_escapes [OF demo_facts(12) demo_facts(9) _ this] show ?thesis
    by (fastforce simp: json_type_error_def)
qed

end
