(* ===== verification/Spec2Isabelle.thy ===== *)
theory Spec2Isabelle
  imports WebSocket_Properties Handshake_Properties Json_Properties Registry_Properties Rpc_Properties
    Server_Properties Discovery Monster
begin

text \<open>
  librcom: remote procedure calls and messages over websockets.

  \<^bold>\<open>The program.\<close> A hub (MessageHub) is a websocket server that registers its address under a
  topic; a link (MessageLink) asks the registry for the topic and connects to the hub. The two
  exchange text and binary messages over RFC 6455 websockets, which are built on an own HTTP
  parser, an own SHA-1 and base64, and TCP sockets over the system calls of \<open>ILinux\<close>. Remote
  procedure calls (RcomClient, RcomMessageHandler, RemoteStub) are JSON messages over a link.
  The registry (Registry, RegistryServer, RegistryProxy) is reached over a websocket as well, and
  is found with a UDP broadcast (RegistryLookup). JSON is read and written by the header json.hpp.
  All the files are in src/librcom/src and src/librcom/include/rcom.

  \<^bold>\<open>How the model reads.\<close> A class is a record of its members, an enumeration a datatype, an
  abstract class a record of its virtual functions. A member function is a program
  \<open>('s, 'a) prog\<close> over its object (theory Prelude): it returns, throws an exception of the type
  \<open>exn\<close>, or never comes back, which is the value \<open>None\<close>. A \<open>while\<close> loop is \<open>loopM\<close>, a
  \<open>partial_function (option)\<close>: there is no fuel anywhere, and that a loop ends is proved where it is
  claimed, with a measure (\<open>wp_loop_total\<close>). \<open>wp T m Q E s\<close> is the weakest precondition; with
  \<open>T = False\<close> it says that \<open>m\<close> comes back, so a property about it is total correctness, and the
  properties below say \<open>\<exists>s'. m s = Some (Inr x, s')\<close>. Fixed width integers are words; a length
  that the code keeps in a \<open>size_t\<close> is a \<open>nat\<close> where it is the length of a list that exists, and
  times are exact numbers where the code has \<open>double\<close>.

  \<^bold>\<open>The theories, from the bottom.\<close>
  \<^item> Prelude, Endian, Interfaces, Libc: programs and their rules, byte order, the constants and
    the abstract classes, what is used of the C and C++ libraries.
  \<^item> Sha1, Util, Sha1_Spec, Base64_Spec: sha1.cpp and util.cpp; SHA-1 is the one of FIPS 180, base64
    is read back by the decoder of RFC 4648.
  \<^item> Address, MemBuffer: Address.cpp, ip.cpp, MemBuffer.cpp.
  \<^item> BaseSocket, Stream_Contract, Small_Kernel: BaseSocket.cpp, Socket.cpp, ServerSocket.cpp; the
    contract \<open>tcp_kernel\<close> of the system calls on connected descriptors, the contract \<open>stream_socket\<close>
    of a socket, that \<open>Socket\<close> turns the one into the other and leaves the other descriptors alone
    (\<open>framed_socket\<close>), and a system that keeps the contract.
  \<^item> WebSocket, Frame_Spec, Frame_Recv, Frame_Send, Message_Recv, Reassembly, Recv_Outcomes, Closing,
    WebSocket_Properties: WebSocket.cpp, ServerSideWebSocket.cpp, ClientSideWebSocket.cpp. The frames
    of RFC 6455 as byte strings, one frame read and one frame written, \<open>recv\<close> as the function
    \<open>assemble\<close> of the frames that have come, the other outcomes of \<open>recv\<close>, and the closing handshake. Closing says
    what a rejected frame leads to whatever bytes are behind it, and for which of them
    (\<open>settled\<close>) the wait for the peer's close frame comes to an end.
  \<^item> Http_Parser, Http_Messages, Handshake, Http_Spec, Handshake_Spec, Handshake_Properties:
    HttpParser.cpp, Request.cpp, Response.cpp with their parsers, the opening handshake, and
    SocketFactory.cpp. The parser as a function of the bytes, an invariant of its state, and what the
    handshakes accept and answer.
  \<^item> Json_Value, Json_Lexer, Json_Parser, Json_Serializer: the classes \<open>basic_json\<close>, \<open>lexer\<close>, \<open>parser\<close>,
    \<open>json_sax_dom_parser\<close> and \<open>serializer\<close> of json.hpp, as librcom uses them. Utf8_Spec, Json_Strings,
    Json_Numbers, Json_Lexer_Spec, Json_Lexer_Total, Json_Parser_Total: UTF-8, printed strings and
    integers, and that parsing ends on every input. Json_Dtoa: the namespace \<open>dtoa_impl\<close> and \<open>to_chars\<close>,
    the printing of doubles with Grisu2, assertions included. Dtoa_Arith, Double_Spec, Dtoa_Table,
    Dtoa_Powers, Dtoa_Digits, Dtoa_Grisu, Decimal_Text, Nearest_Double: its arithmetic on natural
    numbers, the rational number of a double and what rounds to it, the table of the powers of ten
    checked entry by entry, the digits between the boundaries, and that every finite double is printed
    as a text that rounds to it. Json_Grammar, Json_Scan, Json_Complete,
    Json_Rejects, Json_Roundtrip, Json_Properties: the grammar of RFC 8259 without numbers beyond the
    doubles and without escapes of half a surrogate pair, that its texts are parsed to their values,
    that the parser throws on the two kinds left out, and that what is printed is a text of the grammar.
  \<^item> Messaging, WebSocketServer, MessageHub: IWebSocket.h, WebSocketServer.cpp, MessageHub.cpp and
    MessageLink.cpp. Link_Heap, Link_Table, Link_Service, Chat, Server_Properties: the objects behind
    the pointers of a server, the contract \<open>link_table\<close> that the loops of the server rely on, that
    websockets on sockets keep it, and the listener of the chat room of the examples.
  \<^item> Registry, RegistryServer, RegistryProxy, RegistryLookup: the files of these names. The locale
    \<open>registry_store\<close> is the contract of a registry, a map from topics to addresses; Loopback,
    Message_Texts, Registry_Service and Registry_Properties show that the vector keeps it, and that a
    proxy and a server put together keep it again. Discovery: a link finds its hub through the registry.
  \<^item> RPC_Interfaces, RcomMessageHandler, RcomClient: RPCError.h, MessageFields.h,
    RemoteObjectsAdaptor.cpp, RcomMessageHandler.cpp, RcomClient.cpp, RcomServer.cpp, RemoteStub.cpp.
    Rpc_Service and Rpc_Properties: a client and a message handler put together. Monster: the tutorial
    of the examples, an object, its adaptor and its remote object, which is again such an object.

  \<^bold>\<open>Interfaces.\<close> \<open>tcp_kernel\<close>, \<open>stream_socket\<close>, \<open>websocket\<close>, \<open>link_table\<close>, \<open>message_table\<close>, \<open>registry_store\<close>,
  \<open>registry_service\<close> and \<open>monster\<close> are locales. What a layer does is proved once from the contract of the layer
  below; the classes of the program are then shown to keep these contracts (\<open>sublocale\<close>), down to
  \<open>tcp_kernel\<close>, which the documentation of the system calls promises and \<open>small_linux\<close> keeps. It is the contract
  of a connection that does not break and of calls that no signal interrupts; a read when nothing has
  come is in it only as what holds if it comes back.

  \<^bold>\<open>Bounds.\<close> A message has less than 128 MB and a frame at most 128 MB, as in WebSocket.h; a message of
  exactly 65536 bytes is excluded, because its header is wrong (\<open>header_announces_length\<close>). Buffers
  given to the system are shorter than \<open>2 ^ 63\<close>. The time that a call of \<open>recv\<close> may wait for nothing is at most
  \<open>kLongestWait\<close>, 1,900,000 seconds, and \<open>CLOCK_REALTIME\<close>, which may be set, is within \<open>kDrift\<close>, 27 hours,
  of the time that passes: then the milliseconds that BaseSocket.cpp casts to an \<open>int\<close> are in its range,
  where \<open>double_to_int\<close> is the cast. The indices of \<open>SHA1Update\<close> are natural numbers, where sha1.cpp
  has 32 bits: its property is stated below \<open>2 ^ 32\<close> bytes. Integers of JSON have 64 bits;
  a printed double has at most 17 digits and 24 characters, in a buffer of 64.

  \<^bold>\<open>Not modelled.\<close> The mutexes (a call is one step), the log, the signal handlers and main functions,
  and the classes Linux (each function only calls the system function of its name) and ConsoleLog.
  Of json.hpp, \<open>strtod\<close> of the C library and the cast of a double are parameters (\<open>json_env\<close>), with the
  hypothesis \<open>strtod_rounds\<close>, rounding to the nearest double, where a double is read back, which
  \<open>nearest_strtod\<close> keeps; the binary formats, JSON pointers and
  patches, iterators, comments, pretty printing and the rest of the interface of \<open>basic_json\<close>, which
  librcom does not use, are left out. The functions \<open>create\<close> that put objects together are
  modelled where they do more than that. That two processes deliver each other's messages at once
  is the assumption of Loopback; for a real connection it is the subject of WebSocket_Properties.
\<close>

end
